(* ===== verification/Prelude.thy ===== *)
theory Prelude
  imports Main "HOL-Library.Word"
begin

text \<open>
  Shared vocabulary of the development: the machine integer types, big-endian byte
  encodings (Rust's to_be_bytes and from_be_bytes), the checked arithmetic of Rust, and
  the computations \<open>('e, 's, 'a) fallible\<close> that model a Rust function taking \<open>&mut S\<close> and
  returning a Result: the state survives an error, exactly as the mutations made before an
  early return survive in the code.
\<close>

unbundle bit_operations_syntax

section \<open>Machine integers\<close>

type_synonym u8 = "8 word"
type_synonym u32 = "32 word"
type_synonym u64 = "64 word"
type_synonym u128 = "128 word"
type_synonym u256 = "256 word"
type_synonym address = "160 word"
type_synonym bytes = "8 word list"

named_theorems bytes_simps "evaluation and slicing of big-endian byte strings"
named_theorems comp_simps "unfolding of computations"

definition checked_add :: "'a::len word \<Rightarrow> 'a word \<Rightarrow> 'a word option" where
  "checked_add a b = (if unat a + unat b < 2 ^ LENGTH('a) then Some (a + b) else None)"

definition checked_sub :: "'a::len word \<Rightarrow> 'a word \<Rightarrow> 'a word option" where
  "checked_sub a b = (if b \<le> a then Some (a - b) else None)"

definition checked_mul :: "'a::len word \<Rightarrow> 'a word \<Rightarrow> 'a word option" where
  "checked_mul a b = (if unat a * unat b < 2 ^ LENGTH('a) then Some (a * b) else None)"

definition saturating_add :: "'a::len word \<Rightarrow> 'a word \<Rightarrow> 'a word" where
  "saturating_add a b = (if unat a + unat b < 2 ^ LENGTH('a) then a + b else - 1)"

definition saturating_sub :: "'a::len word \<Rightarrow> 'a word \<Rightarrow> 'a word" where
  "saturating_sub a b = (if b \<le> a then a - b else 0)"

lemma unat_plus_lt: "unat a + unat b < 2 ^ LENGTH('a) \<Longrightarrow> unat (a + b :: 'a::len word) = unat a + unat b"
  by (simp add: unat_add_lem [THEN iffD1])

lemma unat_times_lt: "unat a * unat b < 2 ^ LENGTH('a) \<Longrightarrow> unat (a * b :: 'a::len word) = unat a * unat b"
  by (simp add: unat_mult_lem [THEN iffD1])

lemma unat_minus_le: "b \<le> a \<Longrightarrow> unat (a - b :: 'a::len word) = unat a - unat b"
  by (simp add: unat_sub)

lemma unat_lt2p: "unat (w :: 'a::len word) < 2 ^ LENGTH('a)"
  by (simp add: unsigned_less)

lemma checked_add_Some:
  "checked_add a b = Some (c :: 'a::len word) \<longleftrightarrow> unat a + unat b < 2 ^ LENGTH('a) \<and> c = a + b"
  by (auto simp: checked_add_def)

lemma checked_sub_Some:
  "checked_sub a b = Some (c :: 'a::len word) \<longleftrightarrow> b \<le> a \<and> c = a - b"
  by (auto simp: checked_sub_def)

lemma checked_mul_Some:
  "checked_mul a b = Some (c :: 'a::len word) \<longleftrightarrow> unat a * unat b < 2 ^ LENGTH('a) \<and> c = a * b"
  by (auto simp: checked_mul_def)

lemma unat_saturating_add:
  "unat (saturating_add a b :: 'a::len word) = min (unat a + unat b) (2 ^ LENGTH('a) - 1)"
  by (auto simp: saturating_add_def unat_plus_lt unsigned_minus_1_eq_mask mask_eq_exp_minus_1)

section \<open>Big-endian bytes\<close>

text \<open>\<open>nat_bytes n x\<close> are the \<open>n\<close> low bytes of \<open>x\<close>, most significant first; \<open>be_nat\<close>
  reads a byte string back.\<close>

fun nat_bytes :: "nat \<Rightarrow> nat \<Rightarrow> bytes" where
  "nat_bytes 0 x = []"
| "nat_bytes (Suc n) x = nat_bytes n (x div 256) @ [of_nat (x mod 256)]"

definition be_nat :: "bytes \<Rightarrow> nat" where
  "be_nat bs = foldl (\<lambda>acc b. acc * 256 + unat b) 0 bs"

definition to_be_bytes :: "nat \<Rightarrow> 'a::len word \<Rightarrow> bytes" where
  "to_be_bytes n w = nat_bytes n (unat w)"

definition from_be_bytes :: "bytes \<Rightarrow> 'a::len word" where
  "from_be_bytes bs = of_nat (be_nat bs)"

lemma be_nat_Nil [simp]: "be_nat [] = 0"
  by (simp add: be_nat_def)

lemma be_nat_snoc [simp]: "be_nat (bs @ [b]) = be_nat bs * 256 + unat b"
  by (simp add: be_nat_def)

lemma length_nat_bytes [simp, bytes_simps]: "length (nat_bytes n x) = n"
  by (induction n x rule: nat_bytes.induct) auto

lemma length_to_be_bytes [simp, bytes_simps]: "length (to_be_bytes n w) = n"
  by (simp add: to_be_bytes_def)

lemma be_nat_append: "be_nat (xs @ ys) = be_nat xs * 256 ^ length ys + be_nat ys"
proof (induction ys rule: rev_induct)
  case Nil
  then show ?case by simp
next
  case (snoc y ys)
  have "be_nat (xs @ ys @ [y]) = be_nat ((xs @ ys) @ [y])" by simp
  also have "\<dots> = be_nat (xs @ ys) * 256 + unat y" by (rule be_nat_snoc)
  finally show ?case using snoc by (simp add: algebra_simps)
qed

lemma unat_of_nat_byte [simp]: "unat (of_nat (x mod 256) :: u8) = x mod 256"
  by (simp add: unat_of_nat)

lemma be_nat_nat_bytes: "be_nat (nat_bytes n x) = x mod 256 ^ n"
proof (induction n arbitrary: x)
  case 0
  then show ?case by simp
next
  case (Suc n)
  have "x mod (256 * 256 ^ n) = 256 * (x div 256 mod 256 ^ n) + x mod 256"
    by (rule mod_mult2_eq)
  with Suc show ?case by simp
qed

lemma be_nat_less: "be_nat bs < 256 ^ length bs"
proof (induction bs rule: rev_induct)
  case Nil
  then show ?case by simp
next
  case (snoc b bs)
  have "unat b < 256" using unat_lt2p [of b] by simp
  with snoc show ?case by simp
qed

lemma nat_bytes_mod: "m \<le> n \<Longrightarrow> nat_bytes m (x mod 256 ^ n) = nat_bytes m x"
proof (induction m arbitrary: n x)
  case 0
  then show ?case by simp
next
  case (Suc m)
  then obtain k where n: "n = Suc k" and k: "m \<le> k" by (cases n) auto
  have "x mod 256 ^ n div 256 = x div 256 mod 256 ^ k"
    by (simp add: n mod_mult2_eq)
  moreover have "x mod 256 ^ n mod 256 = x mod 256"
    by (simp add: n mod_mult2_eq)
  ultimately show ?case using Suc.IH [OF k] by simp
qed

lemma take_nat_bytes: "k \<le> n \<Longrightarrow> take k (nat_bytes n x) = nat_bytes k (x div 256 ^ (n - k))"
proof (induction n arbitrary: x)
  case 0
  then show ?case by simp
next
  case (Suc n)
  show ?case
  proof (cases "k = Suc n")
    case True
    then show ?thesis by simp
  next
    case False
    with Suc.prems have "k \<le> n" by simp
    with Suc.IH [of "x div 256"] show ?thesis
      by (simp add: Suc_diff_le div_mult2_eq)
  qed
qed

lemma drop_nat_bytes: "k \<le> n \<Longrightarrow> drop k (nat_bytes n x) = nat_bytes (n - k) x"
proof (induction n arbitrary: x)
  case 0
  then show ?case by simp
next
  case (Suc n)
  show ?case
  proof (cases "k = Suc n")
    case True
    then show ?thesis by simp
  next
    case False
    with Suc.prems have "k \<le> n" by simp
    with Suc.IH [of "x div 256"] show ?thesis by (simp add: Suc_diff_le)
  qed
qed

lemma nat_bytes_be_nat: "nat_bytes (length bs) (be_nat bs) = bs"
proof (induction bs rule: rev_induct)
  case Nil
  then show ?case by simp
next
  case (snoc b bs)
  have b: "unat b < 256" using unat_lt2p [of b] by simp
  then have "(be_nat bs * 256 + unat b) div 256 = be_nat bs"
    and "(be_nat bs * 256 + unat b) mod 256 = unat b" by simp_all
  with snoc show ?case by simp
qed

text \<open>Round trips for a word of exactly \<open>8 * n\<close> bits.\<close>

lemma be_nat_to_be_bytes: "be_nat (to_be_bytes n w) = unat w mod 256 ^ n"
  by (simp add: to_be_bytes_def be_nat_nat_bytes)

lemma pow_256: "(256 :: nat) ^ n = 2 ^ (8 * n)"
  by (simp add: power_mult)

lemma from_to_be_bytes:
  "LENGTH('a) \<le> 8 * n \<Longrightarrow> from_be_bytes (to_be_bytes n w) = (w :: 'a::len word)"
proof -
  assume l: "LENGTH('a) \<le> 8 * n"
  have "unat w < 2 ^ LENGTH('a)" by (rule unat_lt2p)
  also have "\<dots> \<le> (256 :: nat) ^ n" using l by (simp add: pow_256)
  finally show ?thesis by (simp add: from_be_bytes_def be_nat_to_be_bytes)
qed

lemma unat_from_be_bytes:
  "8 * length bs \<le> LENGTH('a) \<Longrightarrow> unat (from_be_bytes bs :: 'a::len word) = be_nat bs"
proof -
  assume l: "8 * length bs \<le> LENGTH('a)"
  have "be_nat bs < 256 ^ length bs" by (rule be_nat_less)
  also have "\<dots> \<le> 2 ^ LENGTH('a)" using l by (simp add: pow_256)
  finally show ?thesis by (simp add: from_be_bytes_def unat_of_nat)
qed

lemma to_from_be_bytes:
  "8 * length bs = LENGTH('a) \<Longrightarrow> n = length bs \<Longrightarrow> to_be_bytes n (from_be_bytes bs :: 'a::len word) = bs"
  by (simp add: to_be_bytes_def unat_from_be_bytes nat_bytes_be_nat)

lemma inj_to_be_bytes:
  "LENGTH('a) \<le> 8 * n \<Longrightarrow> to_be_bytes n v = to_be_bytes n w \<longleftrightarrow> v = (w :: 'a::len word)"
  by (metis from_to_be_bytes)


lemma be_nat_replicate_0 [simp]: "be_nat (replicate n 0) = 0"
proof (induction n)
  case 0
  then show ?case by simp
next
  case (Suc n)
  have "replicate (Suc n) (0 :: u8) = replicate n 0 @ [0]" by (simp add: replicate_append_same)
  with Suc show ?case by (simp del: replicate_Suc)
qed

lemma be_nat_single [simp]: "be_nat [b] = unat b"
  using be_nat_snoc [of "[]" b] by simp

text \<open>Two numbers written in the same mixed radix are equal only digit by digit.\<close>

lemma radix_inj:
  fixes x y i j c :: nat
  assumes "x * c + i = y * c + j" and "i < c" and "j < c"
  shows "x = y \<and> i = j"
proof -
  from assms have "(x * c + i) div c = (y * c + j) div c" by simp
  with assms(2,3) have "x = y" by (simp add: div_mult_self3)
  with assms(1) show ?thesis by simp
qed

section \<open>Computations that can fail\<close>

text \<open>The errors of revm's PrecompileError that the code of this repository raises.\<close>

datatype precompile_error =
    OutOfGas
  | Other string
  | Blake2WrongLength
  | Blake2WrongFinalIndicatorFlag
  | BlobInvalidInputLength
  | BlobMismatchedVersion
  | BlobVerifyKzgProofFailed

text \<open>PrecompileError::is_oog.\<close>

fun is_oog :: "precompile_error \<Rightarrow> bool" where
  "is_oog OutOfGas = True"
| "is_oog _ = False"

type_synonym ('e, 's, 'a) fallible = "'s \<Rightarrow> ('e + 'a) \<times> 's"
type_synonym ('s, 'a) comp = "(precompile_error, 's, 'a) fallible"

definition ret :: "'a \<Rightarrow> ('e, 's, 'a) fallible" where
  "ret x = (\<lambda>s. (Inr x, s))"

definition throw :: "'e \<Rightarrow> ('e, 's, 'a) fallible" where
  "throw e = (\<lambda>s. (Inl e, s))"

text \<open>\<open>bindc m f\<close> is the \<open>?\<close> operator followed by the rest of the body: an error returns
  early with the state reached so far.\<close>

definition bindc :: "('e, 's, 'a) fallible \<Rightarrow> ('a \<Rightarrow> ('e, 's, 'b) fallible) \<Rightarrow> ('e, 's, 'b) fallible" where
  "bindc m f = (\<lambda>s. case m s of (Inl e, s') \<Rightarrow> (Inl e, s') | (Inr x, s') \<Rightarrow> f x s')"

abbreviation seqc :: "('e, 's, unit) fallible \<Rightarrow> ('e, 's, 'b) fallible \<Rightarrow> ('e, 's, 'b) fallible" where
  "seqc m m' \<equiv> bindc m (\<lambda>_. m')"

text \<open>Option::ok_or_else.\<close>

definition ok_or :: "'e \<Rightarrow> 'a option \<Rightarrow> ('e, 's, 'a) fallible" where
  "ok_or e x = (case x of None \<Rightarrow> throw e | Some y \<Rightarrow> ret y)"

text \<open>A \<open>for\<close> loop whose body may return early with an error.\<close>

fun for_each :: "'a list \<Rightarrow> ('a \<Rightarrow> ('e, 's, unit) fallible) \<Rightarrow> ('e, 's, unit) fallible" where
  "for_each [] f = ret ()"
| "for_each (x # xs) f = seqc (f x) (for_each xs f)"

text \<open>A \<open>for\<close> loop that pushes at most one element per iteration onto a vector.\<close>

fun collect_each :: "'a list \<Rightarrow> ('a \<Rightarrow> ('e, 's, 'b option) fallible) \<Rightarrow> ('e, 's, 'b list) fallible" where
  "collect_each [] f = ret []"
| "collect_each (x # xs) f =
     bindc (f x) (\<lambda>y. bindc (collect_each xs f) (\<lambda>ys.
       ret (case y of None \<Rightarrow> ys | Some z \<Rightarrow> z # ys)))"

lemma ret_apply [simp, comp_simps]: "ret x s = (Inr x, s)"
  by (simp add: ret_def)

lemma throw_apply [simp, comp_simps]: "throw e s = (Inl e, s)"
  by (simp add: throw_def)

lemma ok_or_apply [simp, comp_simps]:
  "ok_or e x s = (case x of None \<Rightarrow> (Inl e, s) | Some y \<Rightarrow> (Inr y, s))"
  by (simp add: ok_or_def split: option.splits)

lemma bindc_ret [simp]: "bindc (ret x) f = f x"
  by (simp add: bindc_def ret_def)

lemma bindc_throw [simp]: "bindc (throw e) f = throw e"
  by (simp add: bindc_def throw_def)

lemma bindc_Inr [comp_simps]:
  "bindc m f s = (Inr y, t) \<longleftrightarrow> (\<exists>x u. m s = (Inr x, u) \<and> f x u = (Inr y, t))"
  by (simp add: bindc_def split: prod.splits sum.splits)

lemma bindc_Inl [comp_simps]:
  "bindc m f s = (Inl e, t) \<longleftrightarrow>
     m s = (Inl e, t) \<or> (\<exists>x u. m s = (Inr x, u) \<and> f x u = (Inl e, t))"
  by (simp add: bindc_def split: prod.splits sum.splits)

lemma bindc_InrE:
  assumes "bindc m f s = (Inr y, t)"
  obtains x u where "m s = (Inr x, u)" and "f x u = (Inr y, t)"
  using assms by (auto simp: bindc_Inr)

lemma bindc_ok: "m s = (Inr x, u) \<Longrightarrow> bindc m f s = f x u"
  by (simp add: bindc_def)

lemma bindc_err: "m s = (Inl e, u) \<Longrightarrow> bindc m f s = (Inl e, u)"
  by (simp add: bindc_def)

lemma bindc_assoc: "bindc (bindc m f) g = bindc m (\<lambda>x. bindc (f x) g)"
  by (rule ext) (simp add: bindc_def split: prod.splits sum.splits)

lemma bindcE:
  assumes "bindc m f s = (r, t)"
  obtains (err) e where "m s = (Inl e, t)" and "r = Inl e"
    | (ok) x u where "m s = (Inr x, u)" and "f x u = (r, t)"
  using assms by (auto simp: bindc_def split: prod.splits sum.splits)

text \<open>A relation between the states before and after that every step of a computation
  respects is respected by the computation. \<open>preserves R m\<close> says so whatever the outcome.\<close>

definition preserves :: "('s \<Rightarrow> 's \<Rightarrow> bool) \<Rightarrow> ('e, 's, 'a) fallible \<Rightarrow> bool" where
  "preserves R m \<longleftrightarrow> (\<forall>s r t. m s = (r, t) \<longrightarrow> R s t)"

lemma preservesI: "(\<And>s r t. m s = (r, t) \<Longrightarrow> R s t) \<Longrightarrow> preserves R m"
  by (simp add: preserves_def)

lemma preservesD: "preserves R m \<Longrightarrow> m s = (r, t) \<Longrightarrow> R s t"
  by (simp add: preserves_def)

text \<open>The relations used are reflexive and transitive; the locale carries the congruence of
  \<open>preserves\<close> over the constructs computations are built from.\<close>

locale step_relation =
  fixes R :: "'s \<Rightarrow> 's \<Rightarrow> bool"
  assumes step_refl: "R s s"
    and step_trans: "R s t \<Longrightarrow> R t u \<Longrightarrow> R s u"
begin

lemma pres_bindc:
  assumes "preserves R m" and "\<And>x. preserves R (f x)"
  shows "preserves R (bindc m f)"
proof (rule preservesI)
  fix s r t
  assume "bindc m f s = (r, t)"
  then show "R s t"
  proof (cases rule: bindcE)
    case (err e)
    then show ?thesis using assms(1) by (blast dest: preservesD)
  next
    case (ok x u)
    then have "R s u" and "R u t" using assms by (blast dest: preservesD)+
    then show ?thesis by (rule step_trans)
  qed
qed

lemma pres_ret: "preserves R (ret x)"
  by (auto intro!: preservesI simp: step_refl)

lemma pres_throw: "preserves R (throw e)"
  by (auto intro!: preservesI simp: step_refl)

lemma pres_ok_or: "preserves R (ok_or e x)"
  by (cases x) (auto simp: ok_or_def pres_ret pres_throw)

lemma pres_if: "(b \<Longrightarrow> preserves R m) \<Longrightarrow> (\<not> b \<Longrightarrow> preserves R m') \<Longrightarrow> preserves R (if b then m else m')"
  by simp

lemma pres_for_each:
  assumes "\<And>x. x \<in> set xs \<Longrightarrow> preserves R (f x)"
  shows "preserves R (for_each xs f)"
  using assms by (induction xs) (auto intro!: pres_bindc pres_ret)

lemma pres_collect_each:
  assumes "\<And>x. x \<in> set xs \<Longrightarrow> preserves R (f x)"
  shows "preserves R (collect_each xs f)"
  using assms by (induction xs) (auto intro!: pres_bindc pres_ret)

lemmas pres_intros = pres_bindc pres_ret pres_throw pres_ok_or pres_if pres_for_each pres_collect_each

end

end
