(* ===== verification/StakingTypes.thy ===== *)
theory StakingTypes
  imports Prelude
begin

text \<open>
  Constants and data of the staking precompile: \<open>staking/constants.rs\<close>, the gas table of
  \<open>staking/abi.rs\<close> and the structs of \<open>staking/types.rs\<close>, with the two-slot encoding of the
  linked list nodes. Field names carry a prefix per struct because Isabelle's record fields
  are global constants.
\<close>

section \<open>Constants (constants.rs)\<close>

text \<open>U256::from_limbs: four little-endian 64-bit limbs.\<close>

definition from_limbs :: "nat \<Rightarrow> nat \<Rightarrow> nat \<Rightarrow> nat \<Rightarrow> u256" where
  "from_limbs a b c d = of_nat (a + b * 2 ^ 64 + c * 2 ^ 128 + d * 2 ^ 192)"

definition MON :: u256 where
  "MON = from_limbs 1000000000000000000 0 0 0"

definition UNIT_BIAS :: u256 where
  "UNIT_BIAS = from_limbs 12919594847110692864 54210108624275221 0 0"

definition DUST_THRESHOLD :: u256 where
  "DUST_THRESHOLD = from_limbs 1000000000 0 0 0"

definition MAX_COMMISSION :: u256 where
  "MAX_COMMISSION = MON"

definition MIN_AUTH_ADDRESS_STAKE :: u256 where
  "MIN_AUTH_ADDRESS_STAKE = from_limbs 200376420520689664 5421 0 0"

definition ACTIVE_VALIDATOR_STAKE :: u256 where
  "ACTIVE_VALIDATOR_STAKE = from_limbs 1590897978359414784 542101 0 0"

definition MIN_EXTERNAL_REWARD :: u256 where
  "MIN_EXTERNAL_REWARD = DUST_THRESHOLD"

definition MAX_EXTERNAL_REWARD :: u256 where
  "MAX_EXTERNAL_REWARD = from_limbs 1590897978359414784 542101 0 0"

definition WITHDRAWAL_DELAY :: u64 where
  "WITHDRAWAL_DELAY = 1"

definition ACTIVE_VALSET_SIZE :: nat where
  "ACTIVE_VALSET_SIZE = 200"

definition SYSTEM_ADDRESS :: address where
  "SYSTEM_ADDRESS = from_be_bytes
     [0x6f, 0x49, 0xa8, 0xF6, 0x21, 0x35, 0x3f, 0x12, 0x37, 0x8d, 0x00, 0x46, 0xE7, 0xd7, 0xe4,
      0xb9, 0xB2, 0x49, 0xDC, 0x9e]"

text \<open>The limb constants are the powers of ten their comments claim.\<close>

lemma constant_values:
  "MON = 10 ^ 18" "UNIT_BIAS = 10 ^ 36" "DUST_THRESHOLD = 10 ^ 9" "MAX_COMMISSION = 10 ^ 18"
  "MIN_AUTH_ADDRESS_STAKE = 10 ^ 23" "ACTIVE_VALIDATOR_STAKE = 10 ^ 25"
  "MIN_EXTERNAL_REWARD = 10 ^ 9" "MAX_EXTERNAL_REWARD = 10 ^ 25"
  by (simp_all add: MON_def UNIT_BIAS_def DUST_THRESHOLD_def MAX_COMMISSION_def
      MIN_AUTH_ADDRESS_STAKE_def ACTIVE_VALIDATOR_STAKE_def MIN_EXTERNAL_REWARD_def
      MAX_EXTERNAL_REWARD_def from_limbs_def)

lemma unat_constants:
  "unat MON = 10 ^ 18" "unat UNIT_BIAS = 10 ^ 36" "unat DUST_THRESHOLD = 10 ^ 9"
  "unat MIN_AUTH_ADDRESS_STAKE = 10 ^ 23" "unat ACTIVE_VALIDATOR_STAKE = 10 ^ 25"
  by (simp_all add: constant_values)

lemma UNIT_BIAS_nonzero [simp]: "UNIT_BIAS \<noteq> 0" and MON_nonzero [simp]: "MON \<noteq> 0"
  by (simp_all add: constant_values)

section \<open>Gas costs (abi.rs)\<close>

definition GAS_GET_EPOCH :: u64 where "GAS_GET_EPOCH = 200"
definition GAS_GET_PROPOSER_VAL_ID :: u64 where "GAS_GET_PROPOSER_VAL_ID = 100"
definition GAS_GET_VALIDATOR :: u64 where "GAS_GET_VALIDATOR = 97200"
definition GAS_GET_DELEGATOR :: u64 where "GAS_GET_DELEGATOR = 184900"
definition GAS_GET_WITHDRAWAL_REQUEST :: u64 where "GAS_GET_WITHDRAWAL_REQUEST = 24300"
definition GAS_GET_CONSENSUS_VALIDATOR_SET :: u64 where "GAS_GET_CONSENSUS_VALIDATOR_SET = 814000"
definition GAS_GET_DELEGATIONS :: u64 where "GAS_GET_DELEGATIONS = 814000"
definition GAS_GET_DELEGATORS :: u64 where "GAS_GET_DELEGATORS = 814000"
definition GAS_FALLBACK :: u64 where "GAS_FALLBACK = 40000"
definition GAS_DELEGATE :: u64 where "GAS_DELEGATE = 260850"
definition GAS_UNDELEGATE :: u64 where "GAS_UNDELEGATE = 147750"
definition GAS_WITHDRAW :: u64 where "GAS_WITHDRAW = 68675"
definition GAS_COMPOUND :: u64 where "GAS_COMPOUND = 289325"
definition GAS_CLAIM_REWARDS :: u64 where "GAS_CLAIM_REWARDS = 155375"
definition GAS_ADD_VALIDATOR :: u64 where "GAS_ADD_VALIDATOR = 505125"
definition GAS_CHANGE_COMMISSION :: u64 where "GAS_CHANGE_COMMISSION = 39475"
definition GAS_EXTERNAL_REWARD :: u64 where "GAS_EXTERNAL_REWARD = 66575"
definition GAS_SYSCALL_REWARD :: u64 where "GAS_SYSCALL_REWARD = 100000"
definition GAS_SYSCALL_SNAPSHOT :: u64 where "GAS_SYSCALL_SNAPSHOT = 500000"
definition GAS_SYSCALL_ON_EPOCH_CHANGE :: u64 where "GAS_SYSCALL_ON_EPOCH_CHANGE = 50000"

lemmas gas_defs = GAS_GET_EPOCH_def GAS_GET_PROPOSER_VAL_ID_def GAS_GET_VALIDATOR_def
  GAS_GET_DELEGATOR_def GAS_GET_WITHDRAWAL_REQUEST_def GAS_GET_CONSENSUS_VALIDATOR_SET_def
  GAS_GET_DELEGATIONS_def GAS_GET_DELEGATORS_def GAS_FALLBACK_def GAS_DELEGATE_def
  GAS_UNDELEGATE_def GAS_WITHDRAW_def GAS_COMPOUND_def GAS_CLAIM_REWARDS_def
  GAS_ADD_VALIDATOR_def GAS_CHANGE_COMMISSION_def GAS_EXTERNAL_REWARD_def
  GAS_SYSCALL_REWARD_def GAS_SYSCALL_SNAPSHOT_def GAS_SYSCALL_ON_EPOCH_CHANGE_def

section \<open>Data (types.rs)\<close>

record Validator =
  v_stake :: u256
  v_acc :: u256
  v_commission :: u256
  v_secp_pubkey :: bytes
  v_bls_pubkey :: bytes
  v_auth_address :: address
  v_flags :: u64
  v_unclaimed_rewards :: u256

definition Validator_default :: Validator where
  "Validator_default = \<lparr>v_stake = 0, v_acc = 0, v_commission = 0,
     v_secp_pubkey = replicate 33 0, v_bls_pubkey = replicate 48 0,
     v_auth_address = 0, v_flags = 0, v_unclaimed_rewards = 0\<rparr>"

text \<open>Module validator_flags.\<close>

definition FLAG_OK :: u64 where "FLAG_OK = 0"
definition FLAG_STAKE_TOO_LOW :: u64 where "FLAG_STAKE_TOO_LOW = push_bit 0 1"
definition FLAG_WITHDRAWN :: u64 where "FLAG_WITHDRAWN = push_bit 1 1"
definition FLAG_DOUBLE_SIGN :: u64 where "FLAG_DOUBLE_SIGN = push_bit 2 1"

record Delegator =
  d_stake :: u256
  d_acc :: u256
  d_rewards :: u256
  d_delta_stake :: u256
  d_next_delta_stake :: u256
  d_delta_epoch :: u64
  d_next_delta_epoch :: u64

definition Delegator_default :: Delegator where
  "Delegator_default = \<lparr>d_stake = 0, d_acc = 0, d_rewards = 0, d_delta_stake = 0,
     d_next_delta_stake = 0, d_delta_epoch = 0, d_next_delta_epoch = 0\<rparr>"

record ListNode =
  n_inext :: u64
  n_iprev :: u64
  n_anext :: address
  n_aprev :: address

definition SENTINEL_VAL_ID :: u64 where
  "SENTINEL_VAL_ID = - 1"

definition SENTINEL_ADDRESS :: address where
  "SENTINEL_ADDRESS = from_be_bytes (replicate 20 0xFF)"

text \<open>ListNode::from_slots and ListNode::to_slots on the big-endian bytes of the two slots.\<close>

definition from_slots :: "bytes \<Rightarrow> bytes \<Rightarrow> ListNode" where
  "from_slots slot6 slot7 =
     \<lparr>n_inext = from_be_bytes (take 8 slot6),
      n_iprev = from_be_bytes (take 8 (drop 8 slot6)),
      n_anext = from_be_bytes (take 16 (drop 16 slot6) @ take 4 slot7),
      n_aprev = from_be_bytes (take 20 (drop 4 slot7))\<rparr>"

definition to_slots :: "ListNode \<Rightarrow> bytes \<times> bytes" where
  "to_slots n =
     (to_be_bytes 8 (n_inext n) @ to_be_bytes 8 (n_iprev n) @ take 16 (to_be_bytes 20 (n_anext n)),
      take 4 (drop 16 (to_be_bytes 20 (n_anext n))) @ to_be_bytes 20 (n_aprev n) @ replicate 8 0)"

record RefCountedAccumulator =
  acc_value :: u256
  acc_refcount :: u64

record WithdrawalRequest =
  wr_amount :: u256
  wr_accumulator :: u256
  wr_epoch :: u64

record EpochInfo =
  ei_epoch :: u64
  ei_in_delay_period :: bool

text \<open>The methods of the structs.\<close>

definition validator_exists :: "Validator \<Rightarrow> bool" where
  "validator_exists v \<longleftrightarrow> v_auth_address v \<noteq> 0"

definition has_flag :: "Validator \<Rightarrow> u64 \<Rightarrow> bool" where
  "has_flag v flag \<longleftrightarrow> v_flags v AND flag \<noteq> 0"

definition delegator_exists :: "Delegator \<Rightarrow> bool" where
  "delegator_exists d \<longleftrightarrow> d_stake d \<noteq> 0 \<or> d_delta_stake d \<noteq> 0 \<or> d_next_delta_stake d \<noteq> 0"

definition total_stake :: "Delegator \<Rightarrow> u256" where
  "total_stake d = saturating_add (saturating_add (d_stake d) (d_delta_stake d)) (d_next_delta_stake d)"

definition withdrawal_exists :: "WithdrawalRequest \<Rightarrow> bool" where
  "withdrawal_exists w \<longleftrightarrow> wr_amount w \<noteq> 0"

section \<open>Lemmas\<close>

lemma be_nat_replicate_max: "Suc (be_nat (replicate n 0xFF)) = 256 ^ n"
proof (induction n)
  case 0
  then show ?case by simp
next
  case (Suc n)
  have "replicate (Suc n) (0xFF :: u8) = replicate n 0xFF @ [0xFF]" by (simp add: replicate_append_same)
  with Suc show ?case by (simp del: replicate_Suc)
qed

lemma unat_SENTINEL_ADDRESS: "unat SENTINEL_ADDRESS = 2 ^ 160 - 1"
proof -
  have "unat SENTINEL_ADDRESS = be_nat (replicate 20 0xFF)"
    unfolding SENTINEL_ADDRESS_def by (rule unat_from_be_bytes) simp
  with be_nat_replicate_max [of 20] show ?thesis by simp
qed

lemma SENTINEL_ADDRESS_max: "SENTINEL_ADDRESS = - 1"
proof -
  have "unat (- 1 :: address) = 2 ^ 160 - 1"
    by (simp add: unsigned_minus_1_eq_mask mask_eq_exp_minus_1)
  with unat_SENTINEL_ADDRESS show ?thesis by (simp only: word_unat_eq_iff)
qed

lemma sentinel_nonzero [simp]: "SENTINEL_ADDRESS \<noteq> 0" "SENTINEL_VAL_ID \<noteq> 0"
  by (simp_all add: SENTINEL_ADDRESS_max SENTINEL_VAL_ID_def)

lemma length_to_slots:
  "length (fst (to_slots n)) = 32" "length (snd (to_slots n)) = 32"
  by (simp_all add: to_slots_def)

text \<open>\<open>from_slots\<close> is a left inverse of to_slots, whatever the pointers.\<close>

lemma from_slots_to_slots: "from_slots (fst (to_slots n)) (snd (to_slots n)) = n"
proof -
  have "take 16 (to_be_bytes 20 a) @ take 4 (drop 16 (to_be_bytes 20 a)) = to_be_bytes 20 a"
    for a :: address
  proof -
    have "take 4 (drop 16 (to_be_bytes 20 a)) = drop 16 (to_be_bytes 20 a)" by simp
    then show ?thesis by (simp only: append_take_drop_id)
  qed
  then show ?thesis
    by (simp add: from_slots_def to_slots_def from_to_be_bytes)
qed

lemma unat_total_stake:
  "unat (total_stake d) = min (unat (d_stake d) + unat (d_delta_stake d) + unat (d_next_delta_stake d)) (2 ^ 256 - 1)"
  by (simp add: total_stake_def unat_saturating_add min_def)

end
