(* ===== verification/StorageKeys.thy ===== *)
theory StorageKeys
  imports StakingTypes
begin

text \<open>
  \<open>staking/storage.rs\<close>: the derivation of the 256-bit storage keys, and the proof that the
  layout is free of collisions. \<open>cell_id\<close> names the storage cells symbolically and \<open>key_of\<close>
  is its injective map to keys; every key function of the code is \<open>key_of\<close> of one cell, so
  that after this theory no proof looks inside a key.
\<close>

section \<open>The code's key functions\<close>

definition STAKING_ADDRESS :: address where
  "STAKING_ADDRESS = from_be_bytes
     [0, 0, 0, 0, 0, 0, 0, 0, 0, 0, 0, 0, 0, 0, 0, 0, 0, 0, 0x10, 0x00]"

text \<open>Module namespace.\<close>

definition NS_CONSENSUS_STAKE :: u8 where "NS_CONSENSUS_STAKE = 0x04"
definition NS_SNAPSHOT_STAKE :: u8 where "NS_SNAPSHOT_STAKE = 0x05"
definition NS_VAL_ID_SECP :: u8 where "NS_VAL_ID_SECP = 0x06"
definition NS_VAL_ID_BLS :: u8 where "NS_VAL_ID_BLS = 0x07"
definition NS_VAL_BITSET :: u8 where "NS_VAL_BITSET = 0x08"
definition NS_VAL_EXECUTION :: u8 where "NS_VAL_EXECUTION = 0x09"
definition NS_ACCUMULATOR :: u8 where "NS_ACCUMULATOR = 0x0A"
definition NS_DELEGATOR :: u8 where "NS_DELEGATOR = 0x0B"
definition NS_WITHDRAWAL_REQUEST :: u8 where "NS_WITHDRAWAL_REQUEST = 0x0C"

lemmas namespace_defs = NS_CONSENSUS_STAKE_def NS_SNAPSHOT_STAKE_def NS_VAL_ID_SECP_def
  NS_VAL_ID_BLS_def NS_VAL_BITSET_def NS_VAL_EXECUTION_def NS_ACCUMULATOR_def
  NS_DELEGATOR_def NS_WITHDRAWAL_REQUEST_def

text \<open>Module global_slots.\<close>

definition SLOT_EPOCH :: u256 where "SLOT_EPOCH = from_limbs 1 0 0 0"
definition SLOT_IN_BOUNDARY :: u256 where "SLOT_IN_BOUNDARY = from_limbs 2 0 0 0"
definition SLOT_LAST_VAL_ID :: u256 where "SLOT_LAST_VAL_ID = from_limbs 3 0 0 0"
definition SLOT_PROPOSER_VAL_ID :: u256 where "SLOT_PROPOSER_VAL_ID = from_limbs 4 0 0 0"

text \<open>Module valset_slots.\<close>

definition VALSET_EXECUTION :: u256 where
  "VALSET_EXECUTION = from_be_bytes (0x01 # replicate 31 0)"
definition VALSET_CONSENSUS :: u256 where
  "VALSET_CONSENSUS = from_be_bytes (0x02 # replicate 31 0)"
definition VALSET_SNAPSHOT :: u256 where
  "VALSET_SNAPSHOT = from_be_bytes (0x03 # replicate 31 0)"

text \<open>Modules validator_offsets, delegator_offsets and withdrawal_offsets.\<close>

definition VAL_OFF_STAKE :: u8 where "VAL_OFF_STAKE = 0"
definition VAL_OFF_ACC :: u8 where "VAL_OFF_ACC = 1"
definition VAL_OFF_COMMISSION :: u8 where "VAL_OFF_COMMISSION = 2"
definition VAL_OFF_KEYS :: u8 where "VAL_OFF_KEYS = 3"
definition VAL_OFF_ADDRESS_FLAGS :: u8 where "VAL_OFF_ADDRESS_FLAGS = 6"
definition VAL_OFF_UNCLAIMED_REWARDS :: u8 where "VAL_OFF_UNCLAIMED_REWARDS = 7"
definition DEL_OFF_STAKE :: u8 where "DEL_OFF_STAKE = 0"
definition DEL_OFF_ACC :: u8 where "DEL_OFF_ACC = 1"
definition DEL_OFF_REWARDS :: u8 where "DEL_OFF_REWARDS = 2"
definition DEL_OFF_DELTA_STAKE :: u8 where "DEL_OFF_DELTA_STAKE = 3"
definition DEL_OFF_NEXT_DELTA_STAKE :: u8 where "DEL_OFF_NEXT_DELTA_STAKE = 4"
definition DEL_OFF_EPOCHS :: u8 where "DEL_OFF_EPOCHS = 5"
definition DEL_OFF_LIST_NODE :: u8 where "DEL_OFF_LIST_NODE = 6"
definition WR_OFF_AMOUNT :: u8 where "WR_OFF_AMOUNT = 0"
definition WR_OFF_ACCUMULATOR :: u8 where "WR_OFF_ACCUMULATOR = 1"
definition WR_OFF_EPOCH :: u8 where "WR_OFF_EPOCH = 2"

lemmas offset_defs = VAL_OFF_STAKE_def VAL_OFF_ACC_def VAL_OFF_COMMISSION_def VAL_OFF_KEYS_def
  VAL_OFF_ADDRESS_FLAGS_def VAL_OFF_UNCLAIMED_REWARDS_def DEL_OFF_STAKE_def DEL_OFF_ACC_def
  DEL_OFF_REWARDS_def DEL_OFF_DELTA_STAKE_def DEL_OFF_NEXT_DELTA_STAKE_def DEL_OFF_EPOCHS_def
  DEL_OFF_LIST_NODE_def WR_OFF_AMOUNT_def WR_OFF_ACCUMULATOR_def WR_OFF_EPOCH_def

definition validator_key :: "u64 \<Rightarrow> u8 \<Rightarrow> u256" where
  "validator_key val_id slot =
     from_be_bytes (NS_VAL_EXECUTION # to_be_bytes 8 val_id @ replicate 23 0) + ucast slot"

definition delegator_key :: "u64 \<Rightarrow> address \<Rightarrow> u8 \<Rightarrow> u256" where
  "delegator_key val_id delegator slot =
     from_be_bytes (NS_DELEGATOR # to_be_bytes 8 val_id @ to_be_bytes 20 delegator @ replicate 3 0)
       + ucast slot"

definition withdrawal_key :: "u64 \<Rightarrow> address \<Rightarrow> u8 \<Rightarrow> u8 \<Rightarrow> u256" where
  "withdrawal_key val_id delegator withdrawal_id slot =
     from_be_bytes (NS_WITHDRAWAL_REQUEST # to_be_bytes 8 val_id @ to_be_bytes 20 delegator
       @ [withdrawal_id] @ replicate 2 0) + ucast slot"

definition consensus_view_key :: "u64 \<Rightarrow> u8 \<Rightarrow> u256" where
  "consensus_view_key val_id slot =
     from_be_bytes (NS_CONSENSUS_STAKE # to_be_bytes 8 val_id @ replicate 23 0) + ucast slot"

definition snapshot_view_key :: "u64 \<Rightarrow> u8 \<Rightarrow> u256" where
  "snapshot_view_key val_id slot =
     from_be_bytes (NS_SNAPSHOT_STAKE # to_be_bytes 8 val_id @ replicate 23 0) + ucast slot"

definition accumulator_key :: "u64 \<Rightarrow> u64 \<Rightarrow> u8 \<Rightarrow> u256" where
  "accumulator_key epoch val_id slot =
     from_be_bytes (NS_ACCUMULATOR # to_be_bytes 8 epoch @ to_be_bytes 8 val_id @ replicate 15 0)
       + ucast slot"

definition val_id_secp_key :: "address \<Rightarrow> u256" where
  "val_id_secp_key a = from_be_bytes (NS_VAL_ID_SECP # to_be_bytes 20 a @ replicate 11 0)"

definition val_id_bls_key :: "address \<Rightarrow> u256" where
  "val_id_bls_key a = from_be_bytes (NS_VAL_ID_BLS # to_be_bytes 20 a @ replicate 11 0)"

definition bitset_bucket_key :: "u64 \<Rightarrow> u256" where
  "bitset_bucket_key val_id =
     (let bucket = drop_bit 8 val_id
      in from_be_bytes (NS_VAL_BITSET # to_be_bytes 8 bucket @ replicate 23 0))"

section \<open>Cells\<close>

text \<open>The arrays' index is the 64-bit offset from the base: 0 holds the length, \<open>1 + i\<close>
  element \<open>i\<close>.\<close>

datatype cell_id =
    CEpoch | CInBoundary | CLastValId | CProposer
  | CExecution u64 | CConsensus u64 | CSnapshot u64
  | CConsensusView u64 u8 | CSnapshotView u64 u8
  | CValIdSecp address | CValIdBls address
  | CBitset u64
  | CValidator u64 u8
  | CAccumulator u64 u64 u8
  | CDelegator u64 address u8
  | CWithdrawal u64 address u8 u8

text \<open>\<open>glue n x i\<close> appends the \<open>n\<close> bytes of \<open>i\<close> to the bytes of \<open>x\<close>.\<close>

definition glue :: "nat \<Rightarrow> nat \<Rightarrow> nat \<Rightarrow> nat" where
  "glue n x i = x * 256 ^ n + i"

lemma glue_less: "x < 256 ^ m \<Longrightarrow> i < 256 ^ n \<Longrightarrow> k = m + n \<Longrightarrow> glue n x i < 256 ^ k"
proof -
  assume "x < 256 ^ m" and "i < 256 ^ n" and "k = m + n"
  then have "x * 256 ^ n + i < Suc x * 256 ^ n" by simp
  also have "\<dots> \<le> 256 ^ m * 256 ^ n" using \<open>x < 256 ^ m\<close> by (intro mult_le_mono1) simp
  finally show ?thesis using \<open>k = m + n\<close> by (simp add: glue_def power_add)
qed

lemma glue_eq_iff: "i < 256 ^ n \<Longrightarrow> j < 256 ^ n \<Longrightarrow> glue n x i = glue n y j \<longleftrightarrow> x = y \<and> i = j"
  unfolding glue_def using radix_inj [of x "256 ^ n" i y j] by auto

fun cell_ns :: "cell_id \<Rightarrow> nat" where
  "cell_ns CEpoch = 0" | "cell_ns CInBoundary = 0" | "cell_ns CLastValId = 0"
| "cell_ns CProposer = 0"
| "cell_ns (CExecution i) = 1" | "cell_ns (CConsensus i) = 2" | "cell_ns (CSnapshot i) = 3"
| "cell_ns (CConsensusView v j) = 4" | "cell_ns (CSnapshotView v j) = 5"
| "cell_ns (CValIdSecp a) = 6" | "cell_ns (CValIdBls a) = 7" | "cell_ns (CBitset b) = 8"
| "cell_ns (CValidator v j) = 9" | "cell_ns (CAccumulator e v j) = 10"
| "cell_ns (CDelegator v a j) = 11" | "cell_ns (CWithdrawal v a w j) = 12"

fun cell_off :: "cell_id \<Rightarrow> nat" where
  "cell_off CEpoch = 1" | "cell_off CInBoundary = 2" | "cell_off CLastValId = 3"
| "cell_off CProposer = 4"
| "cell_off (CExecution i) = unat i" | "cell_off (CConsensus i) = unat i"
| "cell_off (CSnapshot i) = unat i"
| "cell_off (CConsensusView v j) = glue 23 (unat v) (unat j)"
| "cell_off (CSnapshotView v j) = glue 23 (unat v) (unat j)"
| "cell_off (CValIdSecp a) = glue 11 (unat a) 0"
| "cell_off (CValIdBls a) = glue 11 (unat a) 0"
| "cell_off (CBitset b) = glue 23 (unat b) 0"
| "cell_off (CValidator v j) = glue 23 (unat v) (unat j)"
| "cell_off (CAccumulator e v j) = glue 15 (glue 8 (unat e) (unat v)) (unat j)"
| "cell_off (CDelegator v a j) = glue 3 (glue 20 (unat v) (unat a)) (unat j)"
| "cell_off (CWithdrawal v a w j) =
     glue 2 (glue 1 (glue 20 (unat v) (unat a)) (unat w)) (unat j)"

definition key_of :: "cell_id \<Rightarrow> u256" where
  "key_of c = of_nat (glue 31 (cell_ns c) (cell_off c))"

lemma byte_bounds:
  "unat (v :: u64) < 256 ^ 8" "unat (a :: address) < 256 ^ 20" "unat (j :: u8) < 256 ^ 1"
  using unat_lt2p [of j] unat_lt2p [of v] unat_lt2p [of a] by simp_all

lemma byte_bound1: "unat (j :: u8) < 256"
  using unat_lt2p [of j] by simp

lemma slot_bound: "0 < n \<Longrightarrow> unat (j :: u8) < 256 ^ n"
proof -
  assume "0 < n"
  then have "(256 :: nat) ^ 1 \<le> 256 ^ n" by (intro power_increasing) simp_all
  with byte_bounds(3) [of j] show ?thesis by (rule less_le_trans)
qed

lemma cell_ns_less: "cell_ns c < 256 ^ 1"
  by (cases c) simp_all

lemma cell_off_less: "cell_off c < 256 ^ 31"
proof -
  note bounds = byte_bounds slot_bound glue_less [where m = 8 and n = 23]
    glue_less [where m = 20 and n = 11] glue_less [where m = 16 and n = 15]
    glue_less [where m = 8 and n = 8] glue_less [where m = 28 and n = 3]
    glue_less [where m = 8 and n = 20] glue_less [where m = 29 and n = 2]
    glue_less [where m = 28 and n = 1] byte_bound1
  have idx: "unat (i :: u64) < 256 ^ 31" for i
    by (rule less_trans [OF byte_bounds(1)]) (simp add: power_strict_increasing)
  have small: "1 < (256 :: nat) ^ 31" "2 < (256 :: nat) ^ 31" "3 < (256 :: nat) ^ 31" "4 < (256 :: nat) ^ 31"
    by simp_all
  show ?thesis
    by (cases c) (simp_all add: bounds idx small del: power_numeral One_nat_def)
qed

lemma unat_key_of: "unat (key_of c) = glue 31 (cell_ns c) (cell_off c)"
proof -
  have "glue 31 (cell_ns c) (cell_off c) < 256 ^ 32"
    using cell_ns_less cell_off_less by (rule glue_less) simp
  then show ?thesis by (simp add: key_of_def unat_of_nat)
qed

text \<open>Two cells with the same namespace and offset are the same cell.\<close>

lemma cell_inj:
  assumes "cell_ns c = cell_ns d" and "cell_off c = cell_off d"
  shows "c = d"
  using assms
  by (cases c; cases d)
    (simp_all add: glue_eq_iff byte_bounds byte_bound1 slot_bound word_unat_eq_iff [symmetric]
      del: power_numeral One_nat_def)

lemma inj_key_of: "inj key_of"
proof (rule injI)
  fix c d
  assume "key_of c = key_of d"
  then have "glue 31 (cell_ns c) (cell_off c) = glue 31 (cell_ns d) (cell_off d)"
    by (metis unat_key_of)
  then show "c = d"
    using glue_eq_iff [OF cell_off_less cell_off_less] by (blast intro: cell_inj)
qed

lemma key_of_eq_iff [simp]: "key_of c = key_of d \<longleftrightarrow> c = d"
  using inj_key_of by (auto dest: injD)


section \<open>Every key of the code is the key of a cell\<close>

named_theorems key_folds "key functions of the code as key_of of a cell"

lemma be_nat_Cons: "be_nat (b # bs) = unat b * 256 ^ length bs + be_nat bs"
  using be_nat_append [of "[b]" bs] by simp

lemma ns_values:
  "unat NS_CONSENSUS_STAKE = 4" "unat NS_SNAPSHOT_STAKE = 5" "unat NS_VAL_ID_SECP = 6"
  "unat NS_VAL_ID_BLS = 7" "unat NS_VAL_BITSET = 8" "unat NS_VAL_EXECUTION = 9"
  "unat NS_ACCUMULATOR = 10" "unat NS_DELEGATOR = 11" "unat NS_WITHDRAWAL_REQUEST = 12"
  by (simp_all add: namespace_defs)

lemma unat_mods:
  "unat (v :: u64) mod 18446744073709551616 = unat v"
  "unat (a :: address) mod 1461501637330902918203684832716283019655932542976 = unat a"
  using unat_lt2p [of v] unat_lt2p [of a] by simp_all

lemma key_eqI: "be_nat bs + unat (j :: 'a::len word) = glue 31 (cell_ns c) (cell_off c) \<Longrightarrow>
    from_be_bytes bs + ucast j = key_of c"
proof -
  assume "be_nat bs + unat j = glue 31 (cell_ns c) (cell_off c)"
  then have "(of_nat (be_nat bs) + of_nat (unat j) :: u256) = of_nat (glue 31 (cell_ns c) (cell_off c))"
    by (metis of_nat_add)
  then show ?thesis by (simp add: key_of_def from_be_bytes_def)
qed

lemmas key_eval = be_nat_Cons be_nat_append be_nat_to_be_bytes glue_def ns_values
  unat_mods power_add [symmetric] algebra_simps

lemma validator_key_cell [key_folds]: "validator_key v j = key_of (CValidator v j)"
  unfolding validator_key_def by (rule key_eqI) (simp add: key_eval)

lemma delegator_key_cell [key_folds]: "delegator_key v a j = key_of (CDelegator v a j)"
  unfolding delegator_key_def by (rule key_eqI) (simp add: key_eval)

lemma withdrawal_key_cell [key_folds]: "withdrawal_key v a w j = key_of (CWithdrawal v a w j)"
  unfolding withdrawal_key_def by (rule key_eqI) (simp add: key_eval)

lemma consensus_view_key_cell [key_folds]: "consensus_view_key v j = key_of (CConsensusView v j)"
  unfolding consensus_view_key_def by (rule key_eqI) (simp add: key_eval)

lemma snapshot_view_key_cell [key_folds]: "snapshot_view_key v j = key_of (CSnapshotView v j)"
  unfolding snapshot_view_key_def by (rule key_eqI) (simp add: key_eval)

lemma accumulator_key_cell [key_folds]: "accumulator_key e v j = key_of (CAccumulator e v j)"
  unfolding accumulator_key_def by (rule key_eqI) (simp add: key_eval)

lemma val_id_secp_key_cell [key_folds]: "val_id_secp_key a = key_of (CValIdSecp a)"
  using key_eqI [of "NS_VAL_ID_SECP # to_be_bytes 20 a @ replicate 11 0" 0 "CValIdSecp a"]
  by (simp add: val_id_secp_key_def key_eval)

lemma val_id_bls_key_cell [key_folds]: "val_id_bls_key a = key_of (CValIdBls a)"
  using key_eqI [of "NS_VAL_ID_BLS # to_be_bytes 20 a @ replicate 11 0" 0 "CValIdBls a"]
  by (simp add: val_id_bls_key_def key_eval)

lemma bitset_bucket_key_cell [key_folds]: "bitset_bucket_key v = key_of (CBitset (drop_bit 8 v))"
  using key_eqI [of "NS_VAL_BITSET # to_be_bytes 8 (drop_bit 8 v) @ replicate 23 0" 0
      "CBitset (drop_bit 8 v)"]
  by (simp add: bitset_bucket_key_def key_eval Let_def)

lemma global_slot_cells [key_folds]:
  "SLOT_EPOCH = key_of CEpoch" "SLOT_IN_BOUNDARY = key_of CInBoundary"
  "SLOT_LAST_VAL_ID = key_of CLastValId" "SLOT_PROPOSER_VAL_ID = key_of CProposer"
  by (simp_all add: SLOT_EPOCH_def SLOT_IN_BOUNDARY_def SLOT_LAST_VAL_ID_def
      SLOT_PROPOSER_VAL_ID_def from_limbs_def key_of_def glue_def)

lemma valset_index_cells:
  "VALSET_EXECUTION + ucast (i :: u64) = key_of (CExecution i)"
  "VALSET_CONSENSUS + ucast (i :: u64) = key_of (CConsensus i)"
  "VALSET_SNAPSHOT + ucast (i :: u64) = key_of (CSnapshot i)"
  unfolding VALSET_EXECUTION_def VALSET_CONSENSUS_def VALSET_SNAPSHOT_def
  by (rule key_eqI, simp add: be_nat_Cons glue_def)+

lemma valset_base_cells [key_folds]:
  "VALSET_EXECUTION = key_of (CExecution 0)" "VALSET_CONSENSUS = key_of (CConsensus 0)"
  "VALSET_SNAPSHOT = key_of (CSnapshot 0)"
  using valset_index_cells [of 0] by (simp_all only: unsigned_0 add_0_right)

text \<open>Rewriting goes inside out, so the base is folded first and the index added to it.\<close>

lemma valset_element_cells [key_folds]:
  "key_of (CExecution 0) + ucast (i :: u64) = key_of (CExecution i)"
  "key_of (CConsensus 0) + ucast (i :: u64) = key_of (CConsensus i)"
  "key_of (CSnapshot 0) + ucast (i :: u64) = key_of (CSnapshot i)"
  using valset_index_cells [of i] by (simp_all only: valset_base_cells)

lemma unat_ucast_u64: "unat (ucast (i :: u64) :: u256) = unat i"
proof -
  have "unat i < 2 ^ 256"
    by (rule less_trans [OF unat_lt2p]) simp
  then show ?thesis by (simp add: unsigned_ucast_eq take_bit_nat_eq_self)
qed

lemma valset_saturating_cell [key_folds]:
  "saturating_add (key_of (CSnapshot 0)) (ucast (i :: u64)) = key_of (CSnapshot i)"
proof -
  have "unat (key_of (CSnapshot 0)) + unat (ucast i :: u256) < 2 ^ 256"
    using byte_bounds(1) [of i] by (simp add: unat_key_of glue_def unat_ucast_u64)
  then show ?thesis by (simp add: saturating_add_def valset_element_cells)
qed

end
