(* ===== verification/Host.thy ===== *)
theory Host
  imports StorageKeys
begin

text \<open>
  The storage backend the staking code runs on: the traits StorageReader and StakingStorage
  and their implementation ContextTrStorage over the journal (\<open>staking/mod.rs\<close>), the checked
  arithmetic, and the raw read and write helpers of \<open>staking/write.rs\<close>.

  The journal itself is revm's. It appears as data of the state: which loads and stores its
  database refuses, and what a balance transfer does (\<open>xfer\<close>). \<open>backend_ok\<close> is the named
  hypothesis that the database answers; nothing is assumed about \<open>xfer\<close> except in the
  theorems that say so.
\<close>

section \<open>The backend\<close>

record log_entry =
  log_address :: address
  log_topics :: "u256 list"
  log_data :: bytes

text \<open>JournalTr::transfer returns Ok(None), Ok(Some(TransferError)) or a database error.\<close>

datatype journal_transfer =
    TransferOk "address \<Rightarrow> u256"
  | TransferRefused string
  | TransferDbError string

record host =
  store :: "u256 \<Rightarrow> u256"
  balances :: "address \<Rightarrow> u256"
  logs :: "log_entry list"
  load_fault :: "u256 \<Rightarrow> string option"
  store_fault :: "u256 \<Rightarrow> string option"
  xfer :: "address \<Rightarrow> address \<Rightarrow> u256 \<Rightarrow> (address \<Rightarrow> u256) \<Rightarrow> journal_transfer"

type_synonym 'a action = "(host, 'a) comp"

definition sload :: "u256 \<Rightarrow> u256 action" where
  "sload key = (\<lambda>s. case load_fault s key of
       Some e \<Rightarrow> (Inl (Other (''Storage read failed: '' @ e)), s)
     | None \<Rightarrow> (Inr (store s key), s))"

definition sstore :: "u256 \<Rightarrow> u256 \<Rightarrow> unit action" where
  "sstore key value = (\<lambda>s. case store_fault s key of
       Some e \<Rightarrow> (Inl (Other (''Storage write failed: '' @ e)), s)
     | None \<Rightarrow> (Inr (), s\<lparr>store := (store s)(key := value)\<rparr>))"

definition transfer :: "address \<Rightarrow> address \<Rightarrow> u256 \<Rightarrow> unit action" where
  "transfer frm recipient amount = (\<lambda>s.
     if amount = 0 then (Inr (), s)
     else (case xfer s frm recipient amount (balances s) of
         TransferOk b \<Rightarrow> (Inr (), s\<lparr>balances := b\<rparr>)
       | TransferRefused e \<Rightarrow> (Inl (Other (''Transfer failed: '' @ e)), s)
       | TransferDbError e \<Rightarrow> (Inl (Other (''Transfer error: '' @ e)), s)))"

definition emit_log :: "log_entry \<Rightarrow> unit action" where
  "emit_log l = (\<lambda>s. (Inr (), s\<lparr>logs := logs s @ [l]\<rparr>))"

text \<open>The documented behaviour relied on: the database behind the journal answers.\<close>

definition backend_ok :: "host \<Rightarrow> bool" where
  "backend_ok s \<longleftrightarrow> (\<forall>k. load_fault s k = None) \<and> (\<forall>k. store_fault s k = None)"

section \<open>Checked arithmetic\<close>

definition internal_error :: precompile_error where
  "internal_error = Other ''internal error''"

definition checked_add_u256 :: "u256 \<Rightarrow> u256 \<Rightarrow> (precompile_error + u256)" where
  "checked_add_u256 a b = (case checked_add a b of None \<Rightarrow> Inl internal_error | Some c \<Rightarrow> Inr c)"

definition checked_sub_u256 :: "u256 \<Rightarrow> u256 \<Rightarrow> (precompile_error + u256)" where
  "checked_sub_u256 a b = (case checked_sub a b of None \<Rightarrow> Inl internal_error | Some c \<Rightarrow> Inr c)"

definition checked_mul_div_u256 :: "u256 \<Rightarrow> u256 \<Rightarrow> u256 \<Rightarrow> (precompile_error + u256)" where
  "checked_mul_div_u256 a b d =
     (if d = 0 then Inl internal_error
      else case checked_mul a b of None \<Rightarrow> Inl internal_error | Some p \<Rightarrow> Inr (p div d))"

text \<open>The \<open>?\<close> operator on a pure Result.\<close>

definition lift_res :: "(precompile_error + 'a) \<Rightarrow> 'a action" where
  "lift_res r = (\<lambda>s. (r, s))"

lemma checked_add_u256_Inr:
  "checked_add_u256 a b = Inr c \<longleftrightarrow> unat a + unat b < 2 ^ 256 \<and> c = a + b"
  by (auto simp: checked_add_u256_def checked_add_def)

lemma checked_sub_u256_Inr: "checked_sub_u256 a b = Inr c \<longleftrightarrow> b \<le> a \<and> c = a - b"
  by (auto simp: checked_sub_u256_def checked_sub_def)

lemma checked_mul_div_u256_Inr:
  "checked_mul_div_u256 a b d = Inr c \<longleftrightarrow> d \<noteq> 0 \<and> unat a * unat b < 2 ^ 256 \<and> c = a * b div d"
  by (auto simp: checked_mul_div_u256_def checked_mul_def)

lemma checked_u256_Inl:
  "checked_add_u256 a b = Inl e \<longleftrightarrow> 2 ^ 256 \<le> unat a + unat b \<and> e = internal_error"
  "checked_sub_u256 a b = Inl e \<longleftrightarrow> a < b \<and> e = internal_error"
  "checked_mul_div_u256 a b d = Inl e \<longleftrightarrow> (d = 0 \<or> 2 ^ 256 \<le> unat a * unat b) \<and> e = internal_error"
  by (auto simp: checked_add_u256_def checked_add_def checked_sub_u256_def checked_sub_def
      checked_mul_div_u256_def checked_mul_def)

lemma unat_mul_div:
  "unat a * unat b < 2 ^ 256 \<Longrightarrow> unat (a * b div d :: u256) = unat a * unat b div unat d"
  by (simp add: unat_div unat_times_lt)

lemma lift_res_apply [simp, comp_simps]: "lift_res r s = (r, s)"
  by (simp add: lift_res_def)

section \<open>Raw reads and writes (write.rs)\<close>

definition write_storage_u256 :: "u256 \<Rightarrow> u256 \<Rightarrow> unit action" where
  "write_storage_u256 key value = sstore key value"

definition write_storage_u64 :: "u256 \<Rightarrow> u64 \<Rightarrow> unit action" where
  "write_storage_u64 key value =
     sstore key (from_be_bytes (to_be_bytes 8 value @ replicate 24 0))"

definition read_u256 :: "u256 \<Rightarrow> u256 action" where
  "read_u256 key = sload key"

definition read_u64 :: "u256 \<Rightarrow> u64 action" where
  "read_u64 key = bindc (sload key) (\<lambda>value.
     ret (from_be_bytes (take 8 (to_be_bytes 32 value))))"

definition read_epoch :: "u64 action" where
  "read_epoch = read_u64 SLOT_EPOCH"

definition read_in_boundary :: "bool action" where
  "read_in_boundary = bindc (read_u256 SLOT_IN_BOUNDARY) (\<lambda>raw. ret (raw \<noteq> 0))"

definition read_validator :: "u64 \<Rightarrow> Validator action" where
  "read_validator val_id =
     bindc (read_u256 (validator_key val_id VAL_OFF_STAKE)) (\<lambda>stake.
     bindc (read_u256 (validator_key val_id VAL_OFF_ACC)) (\<lambda>acc.
     bindc (read_u256 (validator_key val_id VAL_OFF_COMMISSION)) (\<lambda>commission.
     bindc (read_u256 (validator_key val_id VAL_OFF_KEYS)) (\<lambda>k0.
     bindc (read_u256 (validator_key val_id (VAL_OFF_KEYS + 1))) (\<lambda>k1.
     bindc (read_u256 (validator_key val_id (VAL_OFF_KEYS + 2))) (\<lambda>k2.
     let keys_concat = to_be_bytes 32 k0 @ to_be_bytes 32 k1 @ to_be_bytes 32 k2 in
     bindc (read_u256 (validator_key val_id VAL_OFF_ADDRESS_FLAGS)) (\<lambda>af.
     let address_flags_raw = to_be_bytes 32 af in
     bindc (read_u256 (validator_key val_id VAL_OFF_UNCLAIMED_REWARDS)) (\<lambda>unclaimed.
     ret \<lparr>v_stake = stake, v_acc = acc, v_commission = commission,
          v_secp_pubkey = take 33 keys_concat,
          v_bls_pubkey = take 48 (drop 33 keys_concat),
          v_auth_address = from_be_bytes (take 20 address_flags_raw),
          v_flags = from_be_bytes (take 8 (drop 20 address_flags_raw)),
          v_unclaimed_rewards = unclaimed\<rparr>))))))))"

definition read_delegator :: "u64 \<Rightarrow> address \<Rightarrow> Delegator action" where
  "read_delegator val_id addr =
     bindc (read_u256 (delegator_key val_id addr DEL_OFF_STAKE)) (\<lambda>stake.
     bindc (read_u256 (delegator_key val_id addr DEL_OFF_ACC)) (\<lambda>acc.
     bindc (read_u256 (delegator_key val_id addr DEL_OFF_REWARDS)) (\<lambda>rewards.
     bindc (read_u256 (delegator_key val_id addr DEL_OFF_DELTA_STAKE)) (\<lambda>delta_stake.
     bindc (read_u256 (delegator_key val_id addr DEL_OFF_NEXT_DELTA_STAKE)) (\<lambda>next_delta_stake.
     bindc (read_u256 (delegator_key val_id addr DEL_OFF_EPOCHS)) (\<lambda>ep.
     let epochs_raw = to_be_bytes 32 ep in
     ret \<lparr>d_stake = stake, d_acc = acc, d_rewards = rewards, d_delta_stake = delta_stake,
          d_next_delta_stake = next_delta_stake,
          d_delta_epoch = from_be_bytes (take 8 epochs_raw),
          d_next_delta_epoch = from_be_bytes (take 8 (drop 8 epochs_raw))\<rparr>))))))"

definition read_list_node :: "u64 \<Rightarrow> address \<Rightarrow> ListNode action" where
  "read_list_node val_id addr =
     bindc (read_u256 (delegator_key val_id addr DEL_OFF_LIST_NODE)) (\<lambda>slot6.
     bindc (read_u256 (delegator_key val_id addr (DEL_OFF_LIST_NODE + 1))) (\<lambda>slot7.
     ret (from_slots (to_be_bytes 32 slot6) (to_be_bytes 32 slot7))))"

text \<open>\<open>as_limbs()[0]\<close> is the low 64 bits.\<close>

definition read_accumulator :: "u64 \<Rightarrow> u64 \<Rightarrow> RefCountedAccumulator action" where
  "read_accumulator epoch val_id =
     bindc (read_u256 (accumulator_key epoch val_id 0)) (\<lambda>value.
     bindc (read_u256 (accumulator_key epoch val_id 1)) (\<lambda>refcount_u256.
     ret \<lparr>acc_value = value, acc_refcount = ucast refcount_u256\<rparr>))"

definition write_validator_stake :: "u64 \<Rightarrow> u256 \<Rightarrow> unit action" where
  "write_validator_stake val_id stake =
     write_storage_u256 (validator_key val_id VAL_OFF_STAKE) stake"

definition write_validator_acc :: "u64 \<Rightarrow> u256 \<Rightarrow> unit action" where
  "write_validator_acc val_id acc =
     write_storage_u256 (validator_key val_id VAL_OFF_ACC) acc"

definition write_validator_commission :: "u64 \<Rightarrow> u256 \<Rightarrow> unit action" where
  "write_validator_commission val_id commission =
     write_storage_u256 (validator_key val_id VAL_OFF_COMMISSION) commission"

definition write_validator_unclaimed_rewards :: "u64 \<Rightarrow> u256 \<Rightarrow> unit action" where
  "write_validator_unclaimed_rewards val_id rewards =
     write_storage_u256 (validator_key val_id VAL_OFF_UNCLAIMED_REWARDS) rewards"

definition write_validator_flags :: "u64 \<Rightarrow> Validator \<Rightarrow> u64 \<Rightarrow> unit action" where
  "write_validator_flags val_id val new_flags =
     (let slot6 = to_be_bytes 20 (v_auth_address val) @ to_be_bytes 8 new_flags @ replicate 4 0
      in write_storage_u256 (validator_key val_id VAL_OFF_ADDRESS_FLAGS) (from_be_bytes slot6))"

definition write_validator_full :: "u64 \<Rightarrow> Validator \<Rightarrow> unit action" where
  "write_validator_full val_id val =
     seqc (write_validator_stake val_id (v_stake val))
     (seqc (write_validator_acc val_id (v_acc val))
     (seqc (write_validator_commission val_id (v_commission val))
     (let keys_concat = v_secp_pubkey val @ v_bls_pubkey val @ replicate 15 0;
          slot0 = take 32 keys_concat;
          slot1 = take 32 (drop 32 keys_concat);
          slot2 = take 32 (drop 64 keys_concat) in
      seqc (write_storage_u256 (validator_key val_id VAL_OFF_KEYS) (from_be_bytes slot0))
      (seqc (write_storage_u256 (validator_key val_id (VAL_OFF_KEYS + 1)) (from_be_bytes slot1))
      (seqc (write_storage_u256 (validator_key val_id (VAL_OFF_KEYS + 2)) (from_be_bytes slot2))
      (seqc (write_validator_flags val_id val (v_flags val))
      (seqc (write_validator_unclaimed_rewards val_id (v_unclaimed_rewards val))
      (ret ()))))))))"

definition write_delegator :: "u64 \<Rightarrow> address \<Rightarrow> Delegator \<Rightarrow> unit action" where
  "write_delegator val_id addr del =
     seqc (write_storage_u256 (delegator_key val_id addr DEL_OFF_STAKE) (d_stake del))
     (seqc (write_storage_u256 (delegator_key val_id addr DEL_OFF_ACC) (d_acc del))
     (seqc (write_storage_u256 (delegator_key val_id addr DEL_OFF_REWARDS) (d_rewards del))
     (seqc (write_storage_u256 (delegator_key val_id addr DEL_OFF_DELTA_STAKE) (d_delta_stake del))
     (seqc (write_storage_u256 (delegator_key val_id addr DEL_OFF_NEXT_DELTA_STAKE)
              (d_next_delta_stake del))
     (let epochs = to_be_bytes 8 (d_delta_epoch del) @ to_be_bytes 8 (d_next_delta_epoch del)
                     @ replicate 16 0 in
      seqc (write_storage_u256 (delegator_key val_id addr DEL_OFF_EPOCHS) (from_be_bytes epochs))
      (ret ()))))))"

definition write_list_node :: "u64 \<Rightarrow> address \<Rightarrow> ListNode \<Rightarrow> unit action" where
  "write_list_node val_id addr node =
     (case to_slots node of (slot6, slot7) \<Rightarrow>
        seqc (write_storage_u256 (delegator_key val_id addr DEL_OFF_LIST_NODE) (from_be_bytes slot6))
        (seqc (write_storage_u256 (delegator_key val_id addr (DEL_OFF_LIST_NODE + 1))
                 (from_be_bytes slot7))
        (ret ())))"

definition write_withdrawal_request ::
    "u64 \<Rightarrow> address \<Rightarrow> u8 \<Rightarrow> u256 \<Rightarrow> u256 \<Rightarrow> u64 \<Rightarrow> unit action" where
  "write_withdrawal_request val_id addr wid amount acc epoch =
     seqc (write_storage_u256 (withdrawal_key val_id addr wid WR_OFF_AMOUNT) amount)
     (seqc (write_storage_u256 (withdrawal_key val_id addr wid WR_OFF_ACCUMULATOR) acc)
     (seqc (write_storage_u64 (withdrawal_key val_id addr wid WR_OFF_EPOCH) epoch)
     (ret ())))"

definition clear_withdrawal_request :: "u64 \<Rightarrow> address \<Rightarrow> u8 \<Rightarrow> unit action" where
  "clear_withdrawal_request val_id addr wid =
     seqc (write_storage_u256 (withdrawal_key val_id addr wid WR_OFF_AMOUNT) 0)
     (seqc (write_storage_u256 (withdrawal_key val_id addr wid WR_OFF_ACCUMULATOR) 0)
     (seqc (write_storage_u256 (withdrawal_key val_id addr wid WR_OFF_EPOCH) 0)
     (ret ())))"

definition write_accumulator :: "u64 \<Rightarrow> u64 \<Rightarrow> RefCountedAccumulator \<Rightarrow> unit action" where
  "write_accumulator epoch val_id acc =
     seqc (write_storage_u256 (accumulator_key epoch val_id 0) (acc_value acc))
     (seqc (write_storage_u256 (accumulator_key epoch val_id 1) (ucast (acc_refcount acc)))
     (ret ()))"

definition emit_event :: "u256 list \<Rightarrow> bytes \<Rightarrow> unit action" where
  "emit_event topics dat =
     emit_log \<lparr>log_address = STAKING_ADDRESS, log_topics = topics, log_data = dat\<rparr>"

end
