(* ===== verification/Cells.thy ===== *)
theory Cells
  imports Host
begin

text \<open>
  Typed views of the raw storage. Every struct the code keeps in storage occupies a region of
  cells; \<open>*_at\<close> decodes it and \<open>put_*\<close> encodes it. On a backend that answers, the read and
  write helpers of the code are exactly these views, so the theorems about the handlers talk
  about structs, not about slots and bytes. The locale \<open>region\<close> is the contract of such a
  view; it is interpreted for every struct.
\<close>

named_theorems cell_simps "views after updates of cells and regions"

section \<open>A backend that answers\<close>

lemma backend_ok_update [simp]:
  "backend_ok (s\<lparr>store := f\<rparr>) = backend_ok s"
  "backend_ok (s\<lparr>balances := b\<rparr>) = backend_ok s"
  "backend_ok (s\<lparr>logs := l\<rparr>) = backend_ok s"
  by (simp_all add: backend_ok_def)

lemma sload_ok [simp]: "backend_ok s \<Longrightarrow> sload k s = (Inr (store s k), s)"
  by (simp add: sload_def backend_ok_def)

lemma sstore_ok [simp]: "backend_ok s \<Longrightarrow> sstore k v s = (Inr (), s\<lparr>store := (store s)(k := v)\<rparr>)"
  by (simp add: sstore_def backend_ok_def)

lemma emit_log_apply [simp]: "emit_log l s = (Inr (), s\<lparr>logs := logs s @ [l]\<rparr>)"
  by (simp add: emit_log_def)

lemma bindc_apply:
  "bindc m f s = (case m s of (Inl e, s') \<Rightarrow> (Inl e, s') | (Inr x, s') \<Rightarrow> f x s')"
  by (simp add: bindc_def)

section \<open>Slot codecs\<close>

definition u64_of_slot :: "u256 \<Rightarrow> u64" where
  "u64_of_slot w = from_be_bytes (take 8 (to_be_bytes 32 w))"

definition slot_of_u64 :: "u64 \<Rightarrow> u256" where
  "slot_of_u64 v = from_be_bytes (to_be_bytes 8 v @ replicate 24 0)"

definition second_u64_of_slot :: "u256 \<Rightarrow> u64" where
  "second_u64_of_slot w = from_be_bytes (take 8 (drop 8 (to_be_bytes 32 w)))"

definition slot_of_epochs :: "u64 \<Rightarrow> u64 \<Rightarrow> u256" where
  "slot_of_epochs a b = from_be_bytes (to_be_bytes 8 a @ to_be_bytes 8 b @ replicate 16 0)"

definition address_of_slot :: "u256 \<Rightarrow> address" where
  "address_of_slot w = from_be_bytes (take 20 (to_be_bytes 32 w))"

definition flags_of_slot :: "u256 \<Rightarrow> u64" where
  "flags_of_slot w = from_be_bytes (take 8 (drop 20 (to_be_bytes 32 w)))"

definition slot_of_address_flags :: "address \<Rightarrow> u64 \<Rightarrow> u256" where
  "slot_of_address_flags a f = from_be_bytes (to_be_bytes 20 a @ to_be_bytes 8 f @ replicate 4 0)"

lemma slot_bytes: "length bs = 32 \<Longrightarrow> to_be_bytes 32 (from_be_bytes bs :: u256) = bs"
  by (rule to_from_be_bytes) simp_all

lemma slot_u64_roundtrip [simp]: "u64_of_slot (slot_of_u64 v) = v"
  by (simp add: u64_of_slot_def slot_of_u64_def slot_bytes from_to_be_bytes)

lemma slot_epochs_roundtrip [simp]:
  "u64_of_slot (slot_of_epochs a b) = a" "second_u64_of_slot (slot_of_epochs a b) = b"
  by (simp_all add: u64_of_slot_def second_u64_of_slot_def slot_of_epochs_def slot_bytes
      from_to_be_bytes)

lemma slot_address_flags_roundtrip [simp]:
  "address_of_slot (slot_of_address_flags a f) = a" "flags_of_slot (slot_of_address_flags a f) = f"
  by (simp_all add: address_of_slot_def flags_of_slot_def slot_of_address_flags_def slot_bytes
      from_to_be_bytes)

lemma to_be_bytes_zero: "to_be_bytes n 0 = replicate n 0"
proof (induction n)
  case 0
  then show ?case by (simp add: to_be_bytes_def)
next
  case (Suc n)
  then show ?case by (simp add: to_be_bytes_def replicate_append_same)
qed

lemma from_be_bytes_zeros [simp]: "from_be_bytes (replicate n 0) = 0"
  by (simp add: from_be_bytes_def)

lemma slot_zero [simp]:
  "u64_of_slot 0 = 0" "second_u64_of_slot 0 = 0" "address_of_slot 0 = 0" "flags_of_slot 0 = 0"
  by (simp_all add: u64_of_slot_def second_u64_of_slot_def address_of_slot_def flags_of_slot_def
      to_be_bytes_zero)

lemma slot_of_u64_zero [simp]: "slot_of_u64 0 = 0"
proof -
  have "replicate 8 (0 :: u8) @ replicate 24 0 = replicate 32 0"
    by (simp flip: replicate_add)
  then show ?thesis by (simp add: slot_of_u64_def to_be_bytes_zero)
qed

section \<open>Views\<close>

type_synonym storage = "u256 \<Rightarrow> u256"

definition u64_at :: "storage \<Rightarrow> cell_id \<Rightarrow> u64" where
  "u64_at st c = u64_of_slot (st (key_of c))"

definition put_u64 :: "cell_id \<Rightarrow> u64 \<Rightarrow> storage \<Rightarrow> storage" where
  "put_u64 c v st = st(key_of c := slot_of_u64 v)"

definition in_boundary_at :: "storage \<Rightarrow> bool" where
  "in_boundary_at st \<longleftrightarrow> st (key_of CInBoundary) \<noteq> 0"

definition keys_at :: "storage \<Rightarrow> u64 \<Rightarrow> bytes" where
  "keys_at st v = to_be_bytes 32 (st (key_of (CValidator v 3)))
     @ to_be_bytes 32 (st (key_of (CValidator v 4))) @ to_be_bytes 32 (st (key_of (CValidator v 5)))"

definition validator_at :: "storage \<Rightarrow> u64 \<Rightarrow> Validator" where
  "validator_at st v =
     \<lparr>v_stake = st (key_of (CValidator v 0)), v_acc = st (key_of (CValidator v 1)),
      v_commission = st (key_of (CValidator v 2)),
      v_secp_pubkey = take 33 (keys_at st v), v_bls_pubkey = take 48 (drop 33 (keys_at st v)),
      v_auth_address = address_of_slot (st (key_of (CValidator v 6))),
      v_flags = flags_of_slot (st (key_of (CValidator v 6))),
      v_unclaimed_rewards = st (key_of (CValidator v 7))\<rparr>"

definition put_flags :: "u64 \<Rightarrow> address \<Rightarrow> u64 \<Rightarrow> storage \<Rightarrow> storage" where
  "put_flags v a f st = st(key_of (CValidator v 6) := slot_of_address_flags a f)"

definition put_validator :: "u64 \<Rightarrow> Validator \<Rightarrow> storage \<Rightarrow> storage" where
  "put_validator v val st =
     (let ks = v_secp_pubkey val @ v_bls_pubkey val @ replicate 15 0 in
      st(key_of (CValidator v 0) := v_stake val,
         key_of (CValidator v 1) := v_acc val,
         key_of (CValidator v 2) := v_commission val,
         key_of (CValidator v 3) := from_be_bytes (take 32 ks),
         key_of (CValidator v 4) := from_be_bytes (take 32 (drop 32 ks)),
         key_of (CValidator v 5) := from_be_bytes (take 32 (drop 64 ks)),
         key_of (CValidator v 6) := slot_of_address_flags (v_auth_address val) (v_flags val),
         key_of (CValidator v 7) := v_unclaimed_rewards val))"

definition delegator_at :: "storage \<Rightarrow> u64 \<times> address \<Rightarrow> Delegator" where
  "delegator_at st k = (case k of (v, a) \<Rightarrow>
     \<lparr>d_stake = st (key_of (CDelegator v a 0)), d_acc = st (key_of (CDelegator v a 1)),
      d_rewards = st (key_of (CDelegator v a 2)),
      d_delta_stake = st (key_of (CDelegator v a 3)),
      d_next_delta_stake = st (key_of (CDelegator v a 4)),
      d_delta_epoch = u64_of_slot (st (key_of (CDelegator v a 5))),
      d_next_delta_epoch = second_u64_of_slot (st (key_of (CDelegator v a 5)))\<rparr>)"

definition put_delegator :: "u64 \<times> address \<Rightarrow> Delegator \<Rightarrow> storage \<Rightarrow> storage" where
  "put_delegator k d st = (case k of (v, a) \<Rightarrow>
     st(key_of (CDelegator v a 0) := d_stake d,
        key_of (CDelegator v a 1) := d_acc d,
        key_of (CDelegator v a 2) := d_rewards d,
        key_of (CDelegator v a 3) := d_delta_stake d,
        key_of (CDelegator v a 4) := d_next_delta_stake d,
        key_of (CDelegator v a 5) := slot_of_epochs (d_delta_epoch d) (d_next_delta_epoch d)))"

definition node_at :: "storage \<Rightarrow> u64 \<times> address \<Rightarrow> ListNode" where
  "node_at st k = (case k of (v, a) \<Rightarrow>
     from_slots (to_be_bytes 32 (st (key_of (CDelegator v a 6))))
                (to_be_bytes 32 (st (key_of (CDelegator v a 7)))))"

definition put_node :: "u64 \<times> address \<Rightarrow> ListNode \<Rightarrow> storage \<Rightarrow> storage" where
  "put_node k n st = (case k of (v, a) \<Rightarrow>
     st(key_of (CDelegator v a 6) := from_be_bytes (fst (to_slots n)),
        key_of (CDelegator v a 7) := from_be_bytes (snd (to_slots n))))"

definition accumulator_at :: "storage \<Rightarrow> u64 \<times> u64 \<Rightarrow> RefCountedAccumulator" where
  "accumulator_at st k = (case k of (e, v) \<Rightarrow>
     \<lparr>acc_value = st (key_of (CAccumulator e v 0)),
      acc_refcount = ucast (st (key_of (CAccumulator e v 1)))\<rparr>)"

definition put_accumulator :: "u64 \<times> u64 \<Rightarrow> RefCountedAccumulator \<Rightarrow> storage \<Rightarrow> storage" where
  "put_accumulator k r st = (case k of (e, v) \<Rightarrow>
     st(key_of (CAccumulator e v 0) := acc_value r,
        key_of (CAccumulator e v 1) := ucast (acc_refcount r)))"

definition withdrawal_at :: "storage \<Rightarrow> u64 \<times> address \<times> u8 \<Rightarrow> WithdrawalRequest" where
  "withdrawal_at st k = (case k of (v, a, w) \<Rightarrow>
     \<lparr>wr_amount = st (key_of (CWithdrawal v a w 0)),
      wr_accumulator = st (key_of (CWithdrawal v a w 1)),
      wr_epoch = u64_of_slot (st (key_of (CWithdrawal v a w 2)))\<rparr>)"

definition put_withdrawal :: "u64 \<times> address \<times> u8 \<Rightarrow> WithdrawalRequest \<Rightarrow> storage \<Rightarrow> storage" where
  "put_withdrawal k r st = (case k of (v, a, w) \<Rightarrow>
     st(key_of (CWithdrawal v a w 0) := wr_amount r,
        key_of (CWithdrawal v a w 1) := wr_accumulator r,
        key_of (CWithdrawal v a w 2) := slot_of_u64 (wr_epoch r)))"

text \<open>The cells each region occupies.\<close>

definition validator_cells :: "u64 \<Rightarrow> cell_id set" where
  "validator_cells v = CValidator v ` {0, 1, 2, 3, 4, 5, 6, 7}"

definition delegator_cells :: "u64 \<times> address \<Rightarrow> cell_id set" where
  "delegator_cells k = CDelegator (fst k) (snd k) ` {0, 1, 2, 3, 4, 5}"

definition node_cells :: "u64 \<times> address \<Rightarrow> cell_id set" where
  "node_cells k = CDelegator (fst k) (snd k) ` {6, 7}"

definition accumulator_cells :: "u64 \<times> u64 \<Rightarrow> cell_id set" where
  "accumulator_cells k = CAccumulator (fst k) (snd k) ` {0, 1}"

definition withdrawal_cells :: "u64 \<times> address \<times> u8 \<Rightarrow> cell_id set" where
  "withdrawal_cells k = CWithdrawal (fst k) (fst (snd k)) (snd (snd k)) ` {0, 1, 2}"

lemmas region_cells = validator_cells_def delegator_cells_def node_cells_def
  accumulator_cells_def withdrawal_cells_def

section \<open>The region contract\<close>

locale region =
  fixes get :: "storage \<Rightarrow> 'k \<Rightarrow> 'v"
    and put :: "'k \<Rightarrow> 'v \<Rightarrow> storage \<Rightarrow> storage"
    and cells :: "'k \<Rightarrow> cell_id set"
    and wf :: "'v \<Rightarrow> bool"
  assumes get_put: "wf v \<Longrightarrow> get (put k v st) k = v"
    and put_frame: "x \<notin> key_of ` cells k \<Longrightarrow> put k v st x = st x"
    and get_local: "(\<And>c. c \<in> cells k \<Longrightarrow> st (key_of c) = st' (key_of c)) \<Longrightarrow> get st k = get st' k"
    and cells_disjoint: "k \<noteq> k' \<Longrightarrow> cells k \<inter> cells k' = {}"
begin

lemma put_other_cell: "c \<notin> cells k \<Longrightarrow> put k v st (key_of c) = st (key_of c)"
  by (rule put_frame) auto

lemma get_put_other: "k \<noteq> k' \<Longrightarrow> get (put k v st) k' = get st k'"
  using cells_disjoint by (blast intro: get_local put_other_cell)

lemma get_other_cell: "c \<notin> cells k \<Longrightarrow> get (st(key_of c := x)) k = get st k"
  by (rule get_local) auto

lemma get_put_if: "wf v \<Longrightarrow> get (put k v st) k' = (if k' = k then v else get st k')"
  by (auto simp: get_put get_put_other)

text \<open>Whatever leaves the region's cells alone leaves the view alone.\<close>

lemma get_frame:
  assumes "\<And>c. c \<notin> F \<Longrightarrow> st' (key_of c) = st (key_of c)" and "cells k \<inter> F = {}"
  shows "get st' k = get st k"
  using assms by (blast intro: get_local)

end

lemma bl_take_drop_96:
  "length a = 32 \<Longrightarrow> length b = 32 \<Longrightarrow> length c = 32 \<Longrightarrow> length ks = 96 \<Longrightarrow>
   a = take 32 ks \<Longrightarrow> b = take 32 (drop 32 ks) \<Longrightarrow> c = take 32 (drop 64 ks) \<Longrightarrow> a @ b @ c = ks"
proof -
  assume *: "length ks = 96" "a = take 32 ks" "b = take 32 (drop 32 ks)" "c = take 32 (drop 64 ks)"
  then have "c = drop 64 ks" by simp
  moreover have "take 32 (drop 32 ks) @ drop 64 ks = drop 32 ks"
    using append_take_drop_id [of 32 "drop 32 ks"] by simp
  ultimately show ?thesis using * by simp
qed

lemma keys_at_put_validator:
  assumes "length (v_secp_pubkey val) = 33" and "length (v_bls_pubkey val) = 48"
  shows "keys_at (put_validator v val st) v = v_secp_pubkey val @ v_bls_pubkey val @ replicate 15 0"
  unfolding keys_at_def put_validator_def Let_def
  by (rule bl_take_drop_96) (simp_all add: assms slot_bytes)

definition validator_wf :: "Validator \<Rightarrow> bool" where
  "validator_wf val \<longleftrightarrow> length (v_secp_pubkey val) = 33 \<and> length (v_bls_pubkey val) = 48"

interpretation validator: region validator_at put_validator validator_cells validator_wf
proof (unfold_locales, goal_cases)
  case (1 v k st)
  then show ?case
    by (simp add: validator_at_def validator_wf_def keys_at_put_validator)
      (simp add: put_validator_def Let_def)
next
  case (2 x k v st)
  then show ?case by (auto simp: put_validator_def Let_def validator_cells_def)
next
  case (3 k st st')
  then show ?case by (simp add: validator_at_def keys_at_def validator_cells_def)
next
  case (4 k k')
  then show ?case by (auto simp: validator_cells_def)
qed

interpretation delegator: region delegator_at put_delegator delegator_cells "\<lambda>_. True"
  by unfold_locales
    (auto simp: delegator_at_def put_delegator_def delegator_cells_def split: prod.splits)

interpretation node: region node_at put_node node_cells "\<lambda>_. True"
  by unfold_locales
    (auto simp: node_at_def put_node_def node_cells_def slot_bytes length_to_slots
      from_slots_to_slots split: prod.splits)

lemma ucast_u64_u256 [simp]: "ucast (ucast (x :: u64) :: u256) = x"
  by (rule bit_word_eqI) (auto simp: bit_ucast_iff dest: bit_imp_le_length)

interpretation accumulator: region accumulator_at put_accumulator accumulator_cells "\<lambda>_. True"
  by unfold_locales
    (auto simp: accumulator_at_def put_accumulator_def accumulator_cells_def split: prod.splits)

interpretation withdrawal: region withdrawal_at put_withdrawal withdrawal_cells "\<lambda>_. True"
  by unfold_locales
    (auto simp: withdrawal_at_def put_withdrawal_def withdrawal_cells_def split: prod.splits)

interpretation u64cell: region u64_at put_u64 "\<lambda>c. {c}" "\<lambda>_. True"
  by unfold_locales (auto simp: u64_at_def put_u64_def)


section \<open>Views after updates\<close>

lemmas region_get_put [cell_simps] =
  delegator.get_put_if [OF TrueI] node.get_put_if [OF TrueI] accumulator.get_put_if [OF TrueI]
  withdrawal.get_put_if [OF TrueI] u64cell.get_put_if [OF TrueI] validator.get_put_if

lemmas region_get_other_cell [cell_simps] =
  delegator.get_other_cell node.get_other_cell accumulator.get_other_cell
  withdrawal.get_other_cell u64cell.get_other_cell validator.get_other_cell

lemmas region_put_other_cell [cell_simps] =
  delegator.put_other_cell node.put_other_cell accumulator.put_other_cell
  withdrawal.put_other_cell u64cell.put_other_cell validator.put_other_cell

declare region_cells [cell_simps]

lemma put_views [cell_simps]:
  "validator_at (put_delegator k d st) v = validator_at st v"
  "node_at (put_delegator k d st) k1 = node_at st k1"
  "accumulator_at (put_delegator k d st) k2 = accumulator_at st k2"
  "withdrawal_at (put_delegator k d st) k3 = withdrawal_at st k3"
  "validator_at (put_node k n st) v = validator_at st v"
  "delegator_at (put_node k n st) k1 = delegator_at st k1"
  "accumulator_at (put_node k n st) k2 = accumulator_at st k2"
  "withdrawal_at (put_node k n st) k3 = withdrawal_at st k3"
  "validator_at (put_accumulator k2 r st) v = validator_at st v"
  "delegator_at (put_accumulator k2 r st) k1 = delegator_at st k1"
  "node_at (put_accumulator k2 r st) k1 = node_at st k1"
  "withdrawal_at (put_accumulator k2 r st) k3 = withdrawal_at st k3"
  "validator_at (put_withdrawal k3 q st) v = validator_at st v"
  "delegator_at (put_withdrawal k3 q st) k1 = delegator_at st k1"
  "node_at (put_withdrawal k3 q st) k1 = node_at st k1"
  "accumulator_at (put_withdrawal k3 q st) k2 = accumulator_at st k2"
  "delegator_at (put_validator v val st) k1 = delegator_at st k1"
  "node_at (put_validator v val st) k1 = node_at st k1"
  "accumulator_at (put_validator v val st) k2 = accumulator_at st k2"
  "withdrawal_at (put_validator v val st) k3 = withdrawal_at st k3"
  by (rule validator.get_local delegator.get_local node.get_local accumulator.get_local
      withdrawal.get_local; auto simp: region_cells put_delegator_def put_node_def
      put_accumulator_def put_withdrawal_def put_validator_def Let_def split: prod.splits)+

lemma put_views_flat [cell_simps]:
  "in_boundary_at (put_delegator k d st) = in_boundary_at st"
  "in_boundary_at (put_node k n st) = in_boundary_at st"
  "in_boundary_at (put_accumulator k2 r st) = in_boundary_at st"
  "in_boundary_at (put_withdrawal k3 q st) = in_boundary_at st"
  "in_boundary_at (put_validator v val st) = in_boundary_at st"
  "in_boundary_at (st(key_of c := x)) = (if c = CInBoundary then x \<noteq> 0 else in_boundary_at st)"
  "c \<noteq> CInBoundary \<Longrightarrow> in_boundary_at (put_u64 c y st) = in_boundary_at st"
  by (auto simp: in_boundary_at_def put_u64_def put_delegator_def put_node_def
      put_accumulator_def put_withdrawal_def put_validator_def Let_def split: prod.splits)

lemma u64_at_put [cell_simps]:
  "c \<notin> delegator_cells k \<Longrightarrow> u64_at (put_delegator k d st) c = u64_at st c"
  "c \<notin> node_cells k \<Longrightarrow> u64_at (put_node k n st) c = u64_at st c"
  "c \<notin> accumulator_cells k2 \<Longrightarrow> u64_at (put_accumulator k2 r st) c = u64_at st c"
  "c \<notin> withdrawal_cells k3 \<Longrightarrow> u64_at (put_withdrawal k3 q st) c = u64_at st c"
  "c \<notin> validator_cells v \<Longrightarrow> u64_at (put_validator v val st) c = u64_at st c"
  by (simp_all add: u64_at_def region_put_other_cell)

lemma views_put_u64 [cell_simps]:
  "c \<notin> delegator_cells k \<Longrightarrow> delegator_at (put_u64 c y st) k = delegator_at st k"
  "c \<notin> node_cells k \<Longrightarrow> node_at (put_u64 c y st) k = node_at st k"
  "c \<notin> accumulator_cells k2 \<Longrightarrow> accumulator_at (put_u64 c y st) k2 = accumulator_at st k2"
  "c \<notin> withdrawal_cells k3 \<Longrightarrow> withdrawal_at (put_u64 c y st) k3 = withdrawal_at st k3"
  "c \<notin> validator_cells v \<Longrightarrow> validator_at (put_u64 c y st) v = validator_at st v"
  by (simp_all add: put_u64_def region_get_other_cell)

lemma validator_at_upd [cell_simps]:
  "validator_at (st(key_of (CValidator v 0) := x)) w
     = (if w = v then (validator_at st v)\<lparr>v_stake := x\<rparr> else validator_at st w)"
  "validator_at (st(key_of (CValidator v 1) := x)) w
     = (if w = v then (validator_at st v)\<lparr>v_acc := x\<rparr> else validator_at st w)"
  "validator_at (st(key_of (CValidator v 2) := x)) w
     = (if w = v then (validator_at st v)\<lparr>v_commission := x\<rparr> else validator_at st w)"
  "validator_at (st(key_of (CValidator v 7) := x)) w
     = (if w = v then (validator_at st v)\<lparr>v_unclaimed_rewards := x\<rparr> else validator_at st w)"
  "validator_at (put_flags v a f st) w
     = (if w = v then (validator_at st v)\<lparr>v_auth_address := a, v_flags := f\<rparr> else validator_at st w)"
  by (auto simp: validator_at_def keys_at_def put_flags_def)

lemma put_flags_views [cell_simps]:
  "delegator_at (put_flags v a f st) k = delegator_at st k"
  "node_at (put_flags v a f st) k = node_at st k"
  "accumulator_at (put_flags v a f st) k2 = accumulator_at st k2"
  "withdrawal_at (put_flags v a f st) k3 = withdrawal_at st k3"
  "in_boundary_at (put_flags v a f st) = in_boundary_at st"
  "c \<noteq> CValidator v 6 \<Longrightarrow> u64_at (put_flags v a f st) c = u64_at st c"
  "c \<noteq> CValidator v 6 \<Longrightarrow> put_flags v a f st (key_of c) = st (key_of c)"
  by (simp_all add: put_flags_def in_boundary_at_def cell_simps split: prod.splits)

section \<open>The code's helpers are the views\<close>

lemma read_u256_ok [simp]: "backend_ok s \<Longrightarrow> read_u256 k s = (Inr (store s k), s)"
  by (simp add: read_u256_def)

lemma read_u64_ok [simp]: "backend_ok s \<Longrightarrow> read_u64 k s = (Inr (u64_of_slot (store s k)), s)"
  by (simp add: read_u64_def bindc_apply u64_of_slot_def)

lemma read_u64_cell_ok:
  "backend_ok s \<Longrightarrow> read_u64 (key_of c) s = (Inr (u64_at (store s) c), s)"
  by (simp add: u64_at_def)

lemma read_epoch_ok [simp]: "backend_ok s \<Longrightarrow> read_epoch s = (Inr (u64_at (store s) CEpoch), s)"
  by (simp add: read_epoch_def u64_at_def key_folds)

lemma read_in_boundary_ok [simp]:
  "backend_ok s \<Longrightarrow> read_in_boundary s = (Inr (in_boundary_at (store s)), s)"
  by (simp add: read_in_boundary_def in_boundary_at_def key_folds bindc_apply)

lemma read_validator_ok [simp]:
  "backend_ok s \<Longrightarrow> read_validator v s = (Inr (validator_at (store s) v), s)"
  by (simp add: read_validator_def validator_at_def keys_at_def key_folds bindc_apply Let_def
      offset_defs address_of_slot_def flags_of_slot_def)

lemma read_delegator_ok [simp]:
  "backend_ok s \<Longrightarrow> read_delegator v a s = (Inr (delegator_at (store s) (v, a)), s)"
  by (simp add: read_delegator_def delegator_at_def key_folds bindc_apply Let_def offset_defs
      u64_of_slot_def second_u64_of_slot_def)

lemma read_list_node_ok [simp]:
  "backend_ok s \<Longrightarrow> read_list_node v a s = (Inr (node_at (store s) (v, a)), s)"
  by (simp add: read_list_node_def node_at_def key_folds bindc_apply offset_defs)

lemma read_accumulator_ok [simp]:
  "backend_ok s \<Longrightarrow> read_accumulator e v s = (Inr (accumulator_at (store s) (e, v)), s)"
  by (simp add: read_accumulator_def accumulator_at_def key_folds bindc_apply)

lemma write_u256_ok [simp]:
  "backend_ok s \<Longrightarrow> write_storage_u256 k x s = (Inr (), s\<lparr>store := (store s)(k := x)\<rparr>)"
  by (simp add: write_storage_u256_def)

lemma write_u64_ok [simp]:
  "backend_ok s \<Longrightarrow> write_storage_u64 k x s = (Inr (), s\<lparr>store := (store s)(k := slot_of_u64 x)\<rparr>)"
  by (simp add: write_storage_u64_def slot_of_u64_def)

lemma write_u64_cell_ok:
  "backend_ok s \<Longrightarrow> write_storage_u64 (key_of c) x s = (Inr (), s\<lparr>store := put_u64 c x (store s)\<rparr>)"
  by (simp add: put_u64_def)

lemma write_validator_fields_ok [simp]:
  "backend_ok s \<Longrightarrow> write_validator_stake v x s
     = (Inr (), s\<lparr>store := (store s)(key_of (CValidator v 0) := x)\<rparr>)"
  "backend_ok s \<Longrightarrow> write_validator_acc v x s
     = (Inr (), s\<lparr>store := (store s)(key_of (CValidator v 1) := x)\<rparr>)"
  "backend_ok s \<Longrightarrow> write_validator_commission v x s
     = (Inr (), s\<lparr>store := (store s)(key_of (CValidator v 2) := x)\<rparr>)"
  "backend_ok s \<Longrightarrow> write_validator_unclaimed_rewards v x s
     = (Inr (), s\<lparr>store := (store s)(key_of (CValidator v 7) := x)\<rparr>)"
  "backend_ok s \<Longrightarrow> write_validator_flags v val f s
     = (Inr (), s\<lparr>store := put_flags v (v_auth_address val) f (store s)\<rparr>)"
  by (simp_all add: write_validator_stake_def write_validator_acc_def write_validator_commission_def
      write_validator_unclaimed_rewards_def write_validator_flags_def put_flags_def
      slot_of_address_flags_def key_folds offset_defs)

lemma write_validator_full_ok [simp]:
  "backend_ok s \<Longrightarrow> write_validator_full v val s
     = (Inr (), s\<lparr>store := put_validator v val (store s)\<rparr>)"
  by (simp add: write_validator_full_def put_validator_def put_flags_def key_folds offset_defs
      Let_def bindc_apply)

lemma write_delegator_ok [simp]:
  "backend_ok s \<Longrightarrow> write_delegator v a d s
     = (Inr (), s\<lparr>store := put_delegator (v, a) d (store s)\<rparr>)"
  by (simp add: write_delegator_def put_delegator_def key_folds offset_defs Let_def bindc_apply
      slot_of_epochs_def)

lemma write_list_node_ok [simp]:
  "backend_ok s \<Longrightarrow> write_list_node v a n s = (Inr (), s\<lparr>store := put_node (v, a) n (store s)\<rparr>)"
  by (simp add: write_list_node_def put_node_def key_folds offset_defs bindc_apply
      split: prod.splits)

lemma write_accumulator_ok [simp]:
  "backend_ok s \<Longrightarrow> write_accumulator e v r s
     = (Inr (), s\<lparr>store := put_accumulator (e, v) r (store s)\<rparr>)"
  by (simp add: write_accumulator_def put_accumulator_def key_folds bindc_apply)

lemma write_withdrawal_request_ok [simp]:
  "backend_ok s \<Longrightarrow> write_withdrawal_request v a w amt acc e s
     = (Inr (), s\<lparr>store := put_withdrawal (v, a, w)
          \<lparr>wr_amount = amt, wr_accumulator = acc, wr_epoch = e\<rparr> (store s)\<rparr>)"
  by (simp add: write_withdrawal_request_def put_withdrawal_def key_folds offset_defs bindc_apply)

lemma clear_withdrawal_request_ok [simp]:
  "backend_ok s \<Longrightarrow> clear_withdrawal_request v a w s
     = (Inr (), s\<lparr>store := put_withdrawal (v, a, w)
          \<lparr>wr_amount = 0, wr_accumulator = 0, wr_epoch = 0\<rparr> (store s)\<rparr>)"
  by (simp add: clear_withdrawal_request_def put_withdrawal_def key_folds offset_defs bindc_apply)

section \<open>Concrete states\<close>

text \<open>A host given by the values of finitely many cells, over a database that answers and a
  ledger that moves what the sender has. The witnesses of the properties evaluate on it.\<close>

fun store_of :: "(cell_id \<times> u256) list \<Rightarrow> storage" where
  "store_of [] = (\<lambda>_. 0)"
| "store_of ((c, x) # cs) = (store_of cs)(key_of c := x)"

definition ledger :: "address \<Rightarrow> address \<Rightarrow> u256 \<Rightarrow> (address \<Rightarrow> u256) \<Rightarrow> journal_transfer" where
  "ledger frm recipient amount b =
     (if b frm < amount then TransferRefused ''OutOfFunds''
      else let b' = b(frm := b frm - amount) in
           TransferOk (b'(recipient := b' recipient + amount)))"

definition host_of :: "(cell_id \<times> u256) list \<Rightarrow> host" where
  "host_of cs = \<lparr>store = store_of cs, balances = (\<lambda>_. 10 ^ 30), logs = [],
     load_fault = (\<lambda>_. None), store_fault = (\<lambda>_. None), xfer = ledger\<rparr>"

lemma backend_ok_host_of [simp]: "backend_ok (host_of cs)"
  by (simp add: backend_ok_def host_of_def)

lemma store_host_of [simp]: "store (host_of cs) = store_of cs"
  by (simp add: host_of_def)

lemma store_of_cell [simp]:
  "store_of cs (key_of c) = (case map_of cs c of None \<Rightarrow> 0 | Some x \<Rightarrow> x)"
  by (induction cs) auto

end
