(* ===== verification/Frames.thy ===== *)
theory Frames
  imports Cells
begin

text \<open>
  What a computation may change. \<open>same_env\<close> says that the configuration of the backend stays,
  \<open>touches F\<close> that storage changes in the cells \<open>F\<close> only, \<open>same_balances\<close> that no money
  moves, \<open>logs_grow\<close> that the log is only appended to, \<open>host_steps\<close> that the backend is changed
  by its own four operations only. All are interpretations of the locale \<open>step_relation\<close>, whose
  congruence rules prove them of every operation, successful or not.
\<close>

named_theorems frame_intros "frame facts of the operations"

lemma key_of_image [simp]: "key_of c \<in> key_of ` F \<longleftrightarrow> c \<in> F"
  by (simp add: image_iff)

definition same_env :: "host \<Rightarrow> host \<Rightarrow> bool" where
  "same_env s t \<longleftrightarrow> load_fault t = load_fault s \<and> store_fault t = store_fault s \<and> xfer t = xfer s"

definition touches :: "cell_id set \<Rightarrow> host \<Rightarrow> host \<Rightarrow> bool" where
  "touches F s t \<longleftrightarrow> (\<forall>k. k \<notin> key_of ` F \<longrightarrow> store t k = store s k)"

definition same_balances :: "host \<Rightarrow> host \<Rightarrow> bool" where
  "same_balances s t \<longleftrightarrow> balances t = balances s"

definition logs_grow :: "host \<Rightarrow> host \<Rightarrow> bool" where
  "logs_grow s t \<longleftrightarrow> take (length (logs s)) (logs t) = logs s"

text \<open>The calls a computation makes to the backend, one after the other.\<close>

inductive host_step :: "host \<Rightarrow> host \<Rightarrow> bool" for s where
  Sload: "host_step s (snd (sload k s))"
| Sstore: "host_step s (snd (sstore k v s))"
| Transfer: "host_step s (snd (transfer frm recipient x s))"
| Emit_log: "host_step s (snd (emit_log l s))"

abbreviation host_steps :: "host \<Rightarrow> host \<Rightarrow> bool" where
  "host_steps \<equiv> host_step\<^sup>*\<^sup>*"

lemma snd_eqI: "m s = (r, t) \<Longrightarrow> t = snd (m s)"
  by simp

text \<open>A relation that the four operations of the backend respect is respected by everything that
  is built from them; the locale \<open>host_relation\<close> collects this, operation by operation, here and in
  the theories that define them.\<close>

locale host_relation = step_relation R for R :: "host \<Rightarrow> host \<Rightarrow> bool" +
  assumes on_sload [frame_intros]: "preserves R (sload k)"
    and on_sstore [frame_intros]: "preserves R (sstore k v)"
    and on_transfer [frame_intros]: "preserves R (transfer a b x)"
    and on_emit_log [frame_intros]: "preserves R (emit_log l)"

interpretation steps: host_relation host_steps
  by unfold_locales (auto intro!: preservesI intro: host_step.intros dest: snd_eqI)

interpretation env: host_relation same_env
  by unfold_locales
    (auto intro!: preservesI simp: same_env_def sload_def sstore_def transfer_def emit_log_def
      split: option.splits if_splits journal_transfer.splits)

interpretation frame: step_relation "touches F" for F
  by unfold_locales (auto simp: touches_def)

interpretation money: step_relation same_balances
  by unfold_locales (auto simp: same_balances_def)

interpretation logging: host_relation logs_grow
proof (unfold_locales, goal_cases)
  case (1 s)
  then show ?case by (simp add: logs_grow_def)
next
  case (2 s t u)
  have "length (logs s) \<le> length (logs t)"
    using arg_cong [OF 2(1) [unfolded logs_grow_def], of length] by simp
  then have "take (length (logs s)) (logs u) = take (length (logs s)) (take (length (logs t)) (logs u))"
    by (simp add: min_def)
  with 2 show ?case by (simp add: logs_grow_def)
qed (auto intro!: preservesI simp: logs_grow_def sload_def sstore_def transfer_def emit_log_def
    split: option.splits if_splits journal_transfer.splits)

lemma preserves_mono: "preserves R m \<Longrightarrow> (\<And>s t. R s t \<Longrightarrow> R' s t) \<Longrightarrow> preserves R' m"
  by (auto simp: preserves_def)

lemma touches_mono: "touches F s t \<Longrightarrow> F \<subseteq> G \<Longrightarrow> touches G s t"
  by (auto simp: touches_def)

lemma preserves_touches_mono: "preserves (touches F) m \<Longrightarrow> F \<subseteq> G \<Longrightarrow> preserves (touches G) m"
  by (erule preserves_mono) (erule touches_mono)

lemma touches_cell: "touches F s t \<Longrightarrow> c \<notin> F \<Longrightarrow> store t (key_of c) = store s (key_of c)"
  unfolding touches_def by (metis imageE key_of_eq_iff)

text \<open>A view whose region is untouched is unchanged.\<close>

lemma touches_views:
  assumes "touches F s t"
  shows "validator_cells v \<inter> F = {} \<Longrightarrow> validator_at (store t) v = validator_at (store s) v"
    and "delegator_cells k \<inter> F = {} \<Longrightarrow> delegator_at (store t) k = delegator_at (store s) k"
    and "node_cells k \<inter> F = {} \<Longrightarrow> node_at (store t) k = node_at (store s) k"
    and "accumulator_cells k2 \<inter> F = {} \<Longrightarrow> accumulator_at (store t) k2 = accumulator_at (store s) k2"
    and "withdrawal_cells k3 \<inter> F = {} \<Longrightarrow> withdrawal_at (store t) k3 = withdrawal_at (store s) k3"
    and "c \<notin> F \<Longrightarrow> u64_at (store t) c = u64_at (store s) c"
    and "CInBoundary \<notin> F \<Longrightarrow> in_boundary_at (store t) = in_boundary_at (store s)"
proof -
  note cell = touches_cell [OF assms]
  show "validator_cells v \<inter> F = {} \<Longrightarrow> validator_at (store t) v = validator_at (store s) v"
    by (rule validator.get_frame [where F = F]) (simp_all add: cell)
  show "delegator_cells k \<inter> F = {} \<Longrightarrow> delegator_at (store t) k = delegator_at (store s) k"
    by (rule delegator.get_frame [where F = F]) (simp_all add: cell)
  show "node_cells k \<inter> F = {} \<Longrightarrow> node_at (store t) k = node_at (store s) k"
    by (rule node.get_frame [where F = F]) (simp_all add: cell)
  show "accumulator_cells k2 \<inter> F = {} \<Longrightarrow> accumulator_at (store t) k2 = accumulator_at (store s) k2"
    by (rule accumulator.get_frame [where F = F]) (simp_all add: cell)
  show "withdrawal_cells k3 \<inter> F = {} \<Longrightarrow> withdrawal_at (store t) k3 = withdrawal_at (store s) k3"
    by (rule withdrawal.get_frame [where F = F]) (simp_all add: cell)
  show "c \<notin> F \<Longrightarrow> u64_at (store t) c = u64_at (store s) c"
    by (simp add: u64_at_def cell)
  show "CInBoundary \<notin> F \<Longrightarrow> in_boundary_at (store t) = in_boundary_at (store s)"
    by (simp add: in_boundary_at_def cell)
qed

lemma same_env_backend: "same_env s t \<Longrightarrow> backend_ok t = backend_ok s"
  by (simp add: same_env_def backend_ok_def)

lemma preserves_backend: "preserves same_env m \<Longrightarrow> m s = (r, t) \<Longrightarrow> backend_ok s \<Longrightarrow> backend_ok t"
  by (auto dest: preservesD same_env_backend)

section \<open>The primitive operations\<close>

lemma sload_frames [frame_intros]:
  "preserves (touches F) (sload k)" "preserves same_balances (sload k)"
  by (auto intro!: preservesI simp: sload_def frame.step_refl money.step_refl split: option.splits)

lemma sstore_frames [frame_intros]:
  "preserves same_balances (sstore k v)"
  "k \<in> key_of ` F \<Longrightarrow> preserves (touches F) (sstore k v)"
  by (auto intro!: preservesI simp: sstore_def touches_def same_balances_def split: option.splits)

lemma emit_log_frames [frame_intros]:
  "preserves (touches F) (emit_log l)" "preserves same_balances (emit_log l)"
  by (auto intro!: preservesI simp: emit_log_def touches_def same_balances_def)

lemma transfer_frames [frame_intros]: "preserves (touches F) (transfer a b x)"
  by (auto intro!: preservesI simp: transfer_def touches_def split: if_splits journal_transfer.splits)

context host_relation
begin

lemma host_lift_res [frame_intros]:
  "preserves R (lift_res r)"
  by (auto intro!: preservesI simp: step_refl)

end

lemma lift_res_frames [frame_intros]:
  "preserves (touches F) (lift_res r)"
  "preserves same_balances (lift_res r)"
  by (auto intro!: preservesI simp: frame.step_refl money.step_refl)

lemma pres_case_prod:
  "(\<And>a b. p = (a, b) \<Longrightarrow> preserves R (f a b)) \<Longrightarrow> preserves R (case p of (a, b) \<Rightarrow> f a b)"
  by (cases p) simp

lemma pres_case_sum:
  "(\<And>a. p = Inl a \<Longrightarrow> preserves R (f a)) \<Longrightarrow> (\<And>b. p = Inr b \<Longrightarrow> preserves R (g b)) \<Longrightarrow>
   preserves R (case p of Inl a \<Rightarrow> f a | Inr b \<Rightarrow> g b)"
  by (cases p) simp_all

lemmas pres_all = env.pres_intros frame.pres_intros money.pres_intros logging.pres_intros
  pres_case_prod pres_case_sum

section \<open>The helpers of write.rs\<close>

context host_relation
begin

lemma host_reads [frame_intros]:
  "preserves R (read_u256 k)"
  "preserves R (read_u64 k)"
  by (auto simp: read_u256_def read_u64_def intro!: pres_intros pres_case_prod pres_case_sum frame_intros)

end

lemma read_frames [frame_intros]:
  "preserves (touches F) (read_u256 k)"
  "preserves same_balances (read_u256 k)"
  "preserves (touches F) (read_u64 k)"
  "preserves same_balances (read_u64 k)"
  by (auto simp: read_u256_def read_u64_def intro!: pres_all frame_intros)

context host_relation
begin

lemma host_reads_flat [frame_intros]:
  "preserves R read_epoch"
  "preserves R read_in_boundary"
  by (auto simp: read_epoch_def read_in_boundary_def intro!: pres_intros pres_case_prod pres_case_sum frame_intros)

end

lemma read_frames_flat [frame_intros]:
  "preserves (touches F) read_epoch"
  "preserves same_balances read_epoch"
  "preserves (touches F) read_in_boundary"
  "preserves same_balances read_in_boundary"
  by (auto simp: read_epoch_def read_in_boundary_def intro!: pres_all frame_intros)

context host_relation
begin

lemma host_reads_struct [frame_intros]:
  "preserves R (read_validator v)"
  "preserves R (read_delegator v a)"
  "preserves R (read_list_node v a)"
  "preserves R (read_accumulator e v)"
  unfolding read_validator_def read_delegator_def read_list_node_def read_accumulator_def Let_def
  by (intro pres_intros pres_case_prod pres_case_sum frame_intros)+

end

lemma read_frames_struct [frame_intros]:
  "preserves (touches F) (read_validator v)"
  "preserves same_balances (read_validator v)"
  "preserves (touches F) (read_delegator v a)"
  "preserves same_balances (read_delegator v a)"
  "preserves (touches F) (read_list_node v a)"
  "preserves same_balances (read_list_node v a)"
  "preserves (touches F) (read_accumulator e v)"
  "preserves same_balances (read_accumulator e v)"
  unfolding read_validator_def read_delegator_def read_list_node_def read_accumulator_def Let_def
  by (intro pres_all frame_intros)+

context host_relation
begin

lemma host_writes [frame_intros]:
  "preserves R (write_storage_u256 k x)"
  "preserves R (write_storage_u64 k y)"
  by (auto simp: write_storage_u256_def write_storage_u64_def intro!: pres_intros pres_case_prod pres_case_sum frame_intros)

end

lemma write_frames [frame_intros]:
  "preserves same_balances (write_storage_u256 k x)"
  "k \<in> key_of ` F \<Longrightarrow> preserves (touches F) (write_storage_u256 k x)"
  "preserves same_balances (write_storage_u64 k y)"
  "k \<in> key_of ` F \<Longrightarrow> preserves (touches F) (write_storage_u64 k y)"
  by (auto simp: write_storage_u256_def write_storage_u64_def intro!: pres_all frame_intros)

lemmas write_helper_defs = write_validator_stake_def write_validator_acc_def
  write_validator_commission_def write_validator_unclaimed_rewards_def write_validator_flags_def
  write_validator_full_def write_delegator_def write_list_node_def write_withdrawal_request_def
  clear_withdrawal_request_def write_accumulator_def emit_event_def

context host_relation
begin

lemma host_write_helpers [frame_intros]:
  "preserves R (write_validator_stake v x)"
  "preserves R (write_validator_acc v x)"
  "preserves R (write_validator_commission v x)"
  "preserves R (write_validator_unclaimed_rewards v x)"
  "preserves R (write_validator_flags v val f)"
  "preserves R (write_validator_full v val)"
  "preserves R (write_delegator v a d)"
  "preserves R (write_list_node v a n)"
  "preserves R (write_withdrawal_request v a w x y e)"
  "preserves R (clear_withdrawal_request v a w)"
  "preserves R (write_accumulator e v acc)"
  "preserves R (emit_event ts bs)"
  unfolding write_helper_defs Let_def by (intro pres_intros pres_case_prod pres_case_sum frame_intros)+

end

lemma write_helper_balances [frame_intros]:
  "preserves same_balances (write_validator_stake v x)"
  "preserves same_balances (write_validator_acc v x)"
  "preserves same_balances (write_validator_commission v x)"
  "preserves same_balances (write_validator_unclaimed_rewards v x)"
  "preserves same_balances (write_validator_flags v val f)"
  "preserves same_balances (write_validator_full v val)"
  "preserves same_balances (write_delegator v a d)" "preserves same_balances (write_list_node v a n)"
  "preserves same_balances (write_withdrawal_request v a w x y e)"
  "preserves same_balances (clear_withdrawal_request v a w)"
  "preserves same_balances (write_accumulator e v acc)" "preserves same_balances (emit_event ts bs)"
  unfolding write_helper_defs Let_def by (intro pres_all frame_intros)+

lemma write_helper_touches [frame_intros]:
  "CValidator v 0 \<in> F \<Longrightarrow> preserves (touches F) (write_validator_stake v x)"
  "CValidator v 1 \<in> F \<Longrightarrow> preserves (touches F) (write_validator_acc v x)"
  "CValidator v 2 \<in> F \<Longrightarrow> preserves (touches F) (write_validator_commission v x)"
  "CValidator v 7 \<in> F \<Longrightarrow> preserves (touches F) (write_validator_unclaimed_rewards v x)"
  "CValidator v 6 \<in> F \<Longrightarrow> preserves (touches F) (write_validator_flags v val f)"
  "validator_cells v \<subseteq> F \<Longrightarrow> preserves (touches F) (write_validator_full v val)"
  "delegator_cells (v, a) \<subseteq> F \<Longrightarrow> preserves (touches F) (write_delegator v a d)"
  "node_cells (v, a) \<subseteq> F \<Longrightarrow> preserves (touches F) (write_list_node v a n)"
  "withdrawal_cells (v, a, w) \<subseteq> F \<Longrightarrow> preserves (touches F) (write_withdrawal_request v a w x y e)"
  "withdrawal_cells (v, a, w) \<subseteq> F \<Longrightarrow> preserves (touches F) (clear_withdrawal_request v a w)"
  "accumulator_cells (e, v) \<subseteq> F \<Longrightarrow> preserves (touches F) (write_accumulator e v acc)"
  "preserves (touches F) (emit_event ts bs)"
  unfolding write_helper_defs Let_def
  by (intro pres_all frame_intros; auto simp: key_folds offset_defs region_cells)+

end
