(* ===== verification/Delegation.thy ===== *)
theory Delegation
  imports Frames
begin

text \<open>
  The core of \<open>staking/write.rs\<close>: activation epochs, the reward formula, the reference-counted
  accumulators and the settlement of a delegator (\<open>pull_delegator_up_to_date\<close>). The second half
  states what a settlement does: nothing is created, stake is conserved, a second settlement is
  a no-op.
\<close>

section \<open>Model\<close>

definition get_activation_epoch :: "u64 action" where
  "get_activation_epoch =
     bindc read_epoch (\<lambda>epoch.
     bindc read_in_boundary (\<lambda>in_boundary.
     ret (if in_boundary then epoch + 2 else epoch + 1)))"

definition is_epoch_active :: "u64 \<Rightarrow> u64 \<Rightarrow> bool" where
  "is_epoch_active current_epoch active_epoch \<longleftrightarrow> active_epoch \<noteq> 0 \<and> active_epoch \<le> current_epoch"

definition calculate_rewards :: "u256 \<Rightarrow> u256 \<Rightarrow> u256 \<Rightarrow> (precompile_error + u256)" where
  "calculate_rewards stake epoch_acc last_acc =
     (case checked_sub_u256 epoch_acc last_acc of
        Inl e \<Rightarrow> Inl e
      | Inr diff \<Rightarrow> checked_mul_div_u256 diff stake UNIT_BIAS)"

definition increment_accumulator_refcount :: "u64 \<Rightarrow> unit action" where
  "increment_accumulator_refcount val_id =
     bindc get_activation_epoch (\<lambda>epoch.
     bindc (read_accumulator epoch val_id) (\<lambda>acc.
     let acc = acc\<lparr>acc_refcount := acc_refcount acc + 1\<rparr> in
     bindc (read_u256 (validator_key val_id VAL_OFF_ACC)) (\<lambda>value.
     let acc = acc\<lparr>acc_value := value\<rparr> in
     write_accumulator epoch val_id acc)))"

definition decrement_accumulator_refcount :: "u64 \<Rightarrow> u64 \<Rightarrow> u256 action" where
  "decrement_accumulator_refcount epoch val_id =
     bindc (read_accumulator epoch val_id) (\<lambda>acc.
     let value = acc_value acc in
     if acc_refcount acc = 0 then ret 0
     else
       let acc = acc\<lparr>acc_refcount := acc_refcount acc - 1\<rparr> in
       seqc (if acc_refcount acc = 0
             then seqc (write_storage_u256 (accumulator_key epoch val_id 0) 0)
                    (write_storage_u256 (accumulator_key epoch val_id 1) 0)
             else write_accumulator epoch val_id acc)
       (ret value))"

text \<open>\<open>del\<close> is a \<open>&mut\<close> argument: the model returns its final value beside the rewards. The
  callers drop it on an error.\<close>

definition apply_compound :: "u64 \<Rightarrow> Delegator \<Rightarrow> (u256 \<times> Delegator) action" where
  "apply_compound val_id del =
     bindc (decrement_accumulator_refcount (d_delta_epoch del) val_id) (\<lambda>epoch_acc.
     bindc (lift_res (calculate_rewards (d_stake del) epoch_acc (d_acc del))) (\<lambda>rewards.
     let del = del\<lparr>d_acc := epoch_acc\<rparr> in
     bindc (lift_res (checked_add_u256 (d_stake del) (d_delta_stake del))) (\<lambda>stake.
     let del = del\<lparr>d_stake := stake\<rparr>;
         del = del\<lparr>d_delta_stake := d_next_delta_stake del, d_next_delta_stake := 0\<rparr>;
         del = del\<lparr>d_delta_epoch := d_next_delta_epoch del, d_next_delta_epoch := 0\<rparr> in
     ret (rewards, del))))"

text \<open>The promotion of the next_delta track at the head of pull_delegator_up_to_date.\<close>

definition promote_delta :: "u64 \<Rightarrow> Delegator \<Rightarrow> Delegator" where
  "promote_delta current_epoch del =
     (let can_promote = d_delta_epoch del = 0 \<and> d_next_delta_epoch del \<le> current_epoch + 1 in
      if can_promote \<and> d_next_delta_epoch del \<noteq> 0
      then del\<lparr>d_delta_stake := d_next_delta_stake del, d_next_delta_stake := 0,
               d_delta_epoch := d_next_delta_epoch del, d_next_delta_epoch := 0\<rparr>
      else del)"

text \<open>The reward_invariant block: the same three statements in each of the three places.\<close>

definition reward_invariant :: "u256 \<Rightarrow> u256 \<Rightarrow> Delegator \<Rightarrow> (u256 \<times> Delegator) action" where
  "reward_invariant unclaimed_rewards rewards del =
     (if unclaimed_rewards < rewards then throw (Other ''solvency error'')
      else bindc (lift_res (checked_sub_u256 unclaimed_rewards rewards)) (\<lambda>unclaimed_rewards.
           bindc (lift_res (checked_add_u256 (d_rewards del) rewards)) (\<lambda>total.
           ret (unclaimed_rewards, del\<lparr>d_rewards := total\<rparr>))))"

definition compound_track ::
    "u64 \<Rightarrow> bool \<Rightarrow> u256 \<Rightarrow> Delegator \<Rightarrow> (u256 \<times> Delegator) action" where
  "compound_track val_id can_compound unclaimed_rewards del =
     (if can_compound
      then bindc (apply_compound val_id del) (\<lambda>(rewards, del).
             reward_invariant unclaimed_rewards rewards del)
      else ret (unclaimed_rewards, del))"

definition accrue_active_stake ::
    "u64 \<Rightarrow> u256 \<Rightarrow> Delegator \<Rightarrow> (u256 \<times> Delegator) action" where
  "accrue_active_stake val_id unclaimed_rewards del =
     (if d_stake del \<noteq> 0
      then bindc (read_u256 (validator_key val_id VAL_OFF_ACC)) (\<lambda>val_acc.
           bindc (lift_res (calculate_rewards (d_stake del) val_acc (d_acc del))) (\<lambda>rewards.
             reward_invariant unclaimed_rewards rewards (del\<lparr>d_acc := val_acc\<rparr>)))
      else ret (unclaimed_rewards, del))"

definition pull_delegator_up_to_date :: "u64 \<Rightarrow> address \<Rightarrow> Delegator action" where
  "pull_delegator_up_to_date val_id addr =
     bindc (read_delegator val_id addr) (\<lambda>del.
     bindc read_epoch (\<lambda>current_epoch.
     let del = promote_delta current_epoch del in
     bindc (read_u256 (validator_key val_id VAL_OFF_UNCLAIMED_REWARDS)) (\<lambda>unclaimed_rewards.
     let can_compound = is_epoch_active current_epoch (d_delta_epoch del) \<and> d_delta_epoch del \<noteq> 0;
         can_compound_boundary =
           is_epoch_active current_epoch (d_next_delta_epoch del) \<and> d_next_delta_epoch del \<noteq> 0 in
     bindc (compound_track val_id can_compound_boundary unclaimed_rewards del)
       (\<lambda>(unclaimed_rewards, del).
     bindc (compound_track val_id can_compound unclaimed_rewards del)
       (\<lambda>(unclaimed_rewards, del).
     bindc (accrue_active_stake val_id unclaimed_rewards del)
       (\<lambda>(unclaimed_rewards, del).
     seqc (write_validator_unclaimed_rewards val_id unclaimed_rewards)
     (seqc (write_delegator val_id addr del)
     (ret del))))))))"

section \<open>Frames\<close>

lemmas delegation_defs = get_activation_epoch_def increment_accumulator_refcount_def
  decrement_accumulator_refcount_def apply_compound_def reward_invariant_def compound_track_def
  accrue_active_stake_def

context host_relation
begin

lemma host_delegation [frame_intros]:
  "preserves R get_activation_epoch"
  "preserves R (increment_accumulator_refcount v)"
  "preserves R (decrement_accumulator_refcount e v)"
  "preserves R (apply_compound v del)"
  "preserves R (compound_track v b u del)"
  "preserves R (accrue_active_stake v u del)"
  unfolding delegation_defs Let_def by (intro pres_intros pres_case_prod pres_case_sum frame_intros)+

end

lemma delegation_balances [frame_intros]:
  "preserves same_balances get_activation_epoch"
  "preserves same_balances (increment_accumulator_refcount v)"
  "preserves same_balances (decrement_accumulator_refcount e v)"
  "preserves same_balances (apply_compound v del)"
  "preserves same_balances (compound_track v b u del)"
  "preserves same_balances (accrue_active_stake v u del)"
  unfolding delegation_defs Let_def by (intro pres_all frame_intros)+

context host_relation
begin

lemma host_pull [frame_intros]:
  "preserves R (pull_delegator_up_to_date v a)"
  unfolding pull_delegator_up_to_date_def Let_def by (intro pres_intros pres_case_prod pres_case_sum frame_intros)+

end

lemma pull_frames [frame_intros]:
  "preserves same_balances (pull_delegator_up_to_date v a)"
  unfolding pull_delegator_up_to_date_def Let_def by (intro pres_all frame_intros)+

text \<open>The cells a settlement of \<open>(v, a)\<close> may write, whatever its epochs.\<close>

definition acc_cells :: "u64 \<Rightarrow> cell_id set" where
  "acc_cells v = {CAccumulator e v j | e j. True}"

definition pull_cells :: "u64 \<Rightarrow> address \<Rightarrow> cell_id set" where
  "pull_cells v a = insert (CValidator v 7) (delegator_cells (v, a) \<union> acc_cells v)"

lemma accumulator_cells_acc_cells: "acc_cells v \<subseteq> F \<Longrightarrow> accumulator_cells (e, v) \<subseteq> F"
  by (auto simp: accumulator_cells_def acc_cells_def)

lemma in_acc_cells: "CAccumulator e v j \<in> acc_cells v"
  by (auto simp: acc_cells_def)

lemma accumulator_key_cells: "acc_cells v \<subseteq> F \<Longrightarrow> accumulator_key e v j \<in> key_of ` F"
  using in_acc_cells by (simp add: key_folds subset_iff)

lemma delegation_touches [frame_intros]:
  "preserves (touches F) get_activation_epoch"
  "acc_cells v \<subseteq> F \<Longrightarrow> preserves (touches F) (increment_accumulator_refcount v)"
  "acc_cells v \<subseteq> F \<Longrightarrow> preserves (touches F) (decrement_accumulator_refcount e v)"
  "acc_cells v \<subseteq> F \<Longrightarrow> preserves (touches F) (apply_compound v del)"
  "acc_cells v \<subseteq> F \<Longrightarrow> preserves (touches F) (compound_track v b u del)"
  "preserves (touches F) (accrue_active_stake v u del)"
  unfolding delegation_defs Let_def
  by (intro pres_all frame_intros accumulator_cells_acc_cells accumulator_key_cells; assumption)+

lemma pull_touches [frame_intros]:
  "pull_cells v a \<subseteq> F \<Longrightarrow> preserves (touches F) (pull_delegator_up_to_date v a)"
  unfolding pull_delegator_up_to_date_def Let_def
  by (intro pres_all frame_intros; auto simp: pull_cells_def)

section \<open>Effects of the primitives\<close>

lemma calculate_rewards_Inr:
  "calculate_rewards stake acc prev = Inr r \<longleftrightarrow>
     prev \<le> acc \<and> unat (acc - prev) * unat stake < 2 ^ 256 \<and> r = (acc - prev) * stake div UNIT_BIAS"
  by (cases "prev \<le> acc")
    (auto simp: calculate_rewards_def checked_mul_div_u256_Inr checked_sub_u256_Inr checked_u256_Inl
      split: sum.splits)

text \<open>The rewards of \<open>stake\<close> while the accumulator went from \<open>prev\<close> to \<open>acc\<close>, in plain numbers.\<close>

definition reward_of :: "nat \<Rightarrow> nat \<Rightarrow> nat \<Rightarrow> nat" where
  "reward_of stake acc prev = (acc - prev) * stake div 10 ^ 36"

lemma unat_calculate_rewards:
  assumes "calculate_rewards stake acc prev = Inr r"
  shows "unat r = reward_of (unat stake) (unat acc) (unat prev)"
proof -
  have "prev \<le> acc" and b: "unat (acc - prev) * unat stake < 2 ^ 256"
    and r: "r = (acc - prev) * stake div UNIT_BIAS"
    using assms by (simp_all add: calculate_rewards_Inr)
  have "unat r = unat (acc - prev) * unat stake div unat UNIT_BIAS"
    unfolding r by (rule unat_mul_div [OF b])
  with \<open>prev \<le> acc\<close> show ?thesis
    by (simp add: reward_of_def unat_minus_le unat_constants)
qed

definition activation_epoch_at :: "storage \<Rightarrow> u64" where
  "activation_epoch_at st =
     (if in_boundary_at st then u64_at st CEpoch + 2 else u64_at st CEpoch + 1)"

lemma get_activation_epoch_ok [simp]:
  "backend_ok s \<Longrightarrow> get_activation_epoch s = (Inr (activation_epoch_at (store s)), s)"
  by (simp add: get_activation_epoch_def activation_epoch_at_def bindc_apply)

lemma accumulator_update [simp]:
  "(r :: RefCountedAccumulator)\<lparr>acc_refcount := n, acc_value := x\<rparr> = \<lparr>acc_value = x, acc_refcount = n\<rparr>"
  by (cases r) simp

lemma increment_accumulator_refcount_ok [simp]:
  "backend_ok s \<Longrightarrow> increment_accumulator_refcount v s = (Inr (),
     s\<lparr>store := (let e = activation_epoch_at (store s) in
        put_accumulator (e, v)
          \<lparr>acc_value = v_acc (validator_at (store s) v),
           acc_refcount = acc_refcount (accumulator_at (store s) (e, v)) + 1\<rparr> (store s))\<rparr>)"
  by (simp add: increment_accumulator_refcount_def bindc_apply Let_def key_folds offset_defs
      validator_at_def)

definition release :: "RefCountedAccumulator \<Rightarrow> RefCountedAccumulator" where
  "release r =
     (if acc_refcount r = 0 then r
      else if acc_refcount r = 1 then \<lparr>acc_value = 0, acc_refcount = 0\<rparr>
      else r\<lparr>acc_refcount := acc_refcount r - 1\<rparr>)"

definition snapshot_value :: "RefCountedAccumulator \<Rightarrow> u256" where
  "snapshot_value r = (if acc_refcount r = 0 then 0 else acc_value r)"

lemma decrement_accumulator_refcount_ok [simp]:
  "backend_ok s \<Longrightarrow> decrement_accumulator_refcount e v s =
     (Inr (snapshot_value (accumulator_at (store s) (e, v))),
      s\<lparr>store := (if acc_refcount (accumulator_at (store s) (e, v)) = 0 then store s
        else put_accumulator (e, v) (release (accumulator_at (store s) (e, v))) (store s))\<rparr>)"
  by (simp add: decrement_accumulator_refcount_def bindc_apply Let_def key_folds release_def
      snapshot_value_def put_accumulator_def)

text \<open>The state after a decrement and the delegator after a compound.\<close>

definition after_decrement :: "u64 \<Rightarrow> u64 \<Rightarrow> host \<Rightarrow> host" where
  "after_decrement e v s =
     s\<lparr>store := (if acc_refcount (accumulator_at (store s) (e, v)) = 0 then store s
        else put_accumulator (e, v) (release (accumulator_at (store s) (e, v))) (store s))\<rparr>"

lemma after_decrement_views [simp]:
  "backend_ok (after_decrement e v s) = backend_ok s"
  "validator_at (store (after_decrement e v s)) w = validator_at (store s) w"
  "delegator_at (store (after_decrement e v s)) k = delegator_at (store s) k"
  "in_boundary_at (store (after_decrement e v s)) = in_boundary_at (store s)"
  "u64_at (store (after_decrement e v s)) CEpoch = u64_at (store s) CEpoch"
  "(e', v') \<noteq> (e, v) \<Longrightarrow>
     accumulator_at (store (after_decrement e v s)) (e', v') = accumulator_at (store s) (e', v')"
  by (auto simp: after_decrement_def cell_simps)

lemma after_decrement_fields [simp]:
  "balances (after_decrement e v s) = balances s" "logs (after_decrement e v s) = logs s"
  "xfer (after_decrement e v s) = xfer s"
  "withdrawal_at (store (after_decrement e v s)) k3 = withdrawal_at (store s) k3"
  "node_at (store (after_decrement e v s)) k = node_at (store s) k"
  by (auto simp: after_decrement_def cell_simps)

lemma decrement_after:
  "backend_ok s \<Longrightarrow> decrement_accumulator_refcount e v s =
     (Inr (snapshot_value (accumulator_at (store s) (e, v))), after_decrement e v s)"
  by (simp add: after_decrement_def)

lemma apply_compound_Inr:
  assumes "backend_ok s"
  shows "apply_compound v d s = (Inr (r, d'), t) \<longleftrightarrow>
     (let x = snapshot_value (accumulator_at (store s) (d_delta_epoch d, v)) in
      t = after_decrement (d_delta_epoch d) v s \<and> calculate_rewards (d_stake d) x (d_acc d) = Inr r \<and>
      unat (d_stake d) + unat (d_delta_stake d) < 2 ^ 256 \<and>
      d' = d\<lparr>d_acc := x, d_stake := d_stake d + d_delta_stake d,
             d_delta_stake := d_next_delta_stake d, d_next_delta_stake := 0,
             d_delta_epoch := d_next_delta_epoch d, d_next_delta_epoch := 0\<rparr>)"
  using assms
  by (auto simp: apply_compound_def bindc_Inr Let_def checked_add_u256_Inr after_decrement_def)

lemma reward_invariant_Inr:
  "reward_invariant u r d s = (Inr (u', d'), t) \<longleftrightarrow>
     t = s \<and> r \<le> u \<and> u' = u - r \<and> unat (d_rewards d) + unat r < 2 ^ 256 \<and>
     d' = d\<lparr>d_rewards := d_rewards d + r\<rparr>"
  by (auto simp: reward_invariant_def bindc_Inr checked_add_u256_Inr checked_sub_u256_Inr not_less)

text \<open>Settling moves rewards from the validator's pot to the delegator, unit by unit.\<close>

lemma reward_moved:
  "r \<le> u \<Longrightarrow> unat (x :: u256) + unat r < 2 ^ 256 \<Longrightarrow>
   unat (u - r) + unat (x + r) = unat u + unat x"
  by (simp add: unat_plus_lt unat_minus_le word_le_nat_alt)

lemma unat_reward_sum:
  "unat (x :: u256) + unat r < 2 ^ 256 \<Longrightarrow> unat (x + r) = unat x + unat r"
  by (simp add: unat_plus_lt)

lemma compound_track_step:
  assumes "backend_ok s" and "compound_track v True u d s = (Inr (u', d'), t)"
  defines "x \<equiv> snapshot_value (accumulator_at (store s) (d_delta_epoch d, v))"
  shows "t = after_decrement (d_delta_epoch d) v s"
    and "unat u' + unat (d_rewards d') = unat u + unat (d_rewards d)"
    and "unat (d_stake d') = unat (d_stake d) + unat (d_delta_stake d)"
    and "d_acc d' = x"
    and "unat (d_rewards d') =
           unat (d_rewards d) + reward_of (unat (d_stake d)) (unat x) (unat (d_acc d))"
    and "d_delta_stake d' = d_next_delta_stake d" "d_next_delta_stake d' = 0"
    and "d_delta_epoch d' = d_next_delta_epoch d" "d_next_delta_epoch d' = 0"
proof -
  obtain r d1 where *: "apply_compound v d s = (Inr (r, d1), t)"
    and **: "reward_invariant u r d1 t = (Inr (u', d'), t)"
    using assms(2) by (auto simp: compound_track_def bindc_Inr reward_invariant_Inr)
  note c = * [unfolded apply_compound_Inr [OF assms(1)] Let_def, folded x_def]
  note i = ** [unfolded reward_invariant_Inr]
  have rw: "unat r = reward_of (unat (d_stake d)) (unat x) (unat (d_acc d))"
    using c unat_calculate_rewards by blast
  have d': "d' = d1\<lparr>d_rewards := d_rewards d + r\<rparr>" and r_le: "r \<le> u" and u': "u' = u - r"
    and bound: "unat (d_rewards d) + unat r < 2 ^ 256"
    using i c by auto
  show "t = after_decrement (d_delta_epoch d) v s" using c by simp
  show "unat u' + unat (d_rewards d') = unat u + unat (d_rewards d)"
    using reward_moved [OF r_le bound] by (simp add: d' u')
  show "unat (d_stake d') = unat (d_stake d) + unat (d_delta_stake d)"
    using c by (simp add: d' unat_reward_sum)
  show "unat (d_rewards d') =
     unat (d_rewards d) + reward_of (unat (d_stake d)) (unat x) (unat (d_acc d))"
    using rw unat_reward_sum [OF bound] by (simp add: d')
  show "d_acc d' = x" "d_delta_stake d' = d_next_delta_stake d" "d_next_delta_stake d' = 0"
    "d_delta_epoch d' = d_next_delta_epoch d" "d_next_delta_epoch d' = 0"
    using c by (simp_all add: d')
qed

lemma compound_track_skip:
  "compound_track v False u d s = (Inr (u', d'), t) \<longleftrightarrow> u' = u \<and> d' = d \<and> t = s"
  by (auto simp: compound_track_def)

lemma accrue_step:
  assumes "backend_ok s" and "accrue_active_stake v u d s = (Inr (u', d'), t)"
  defines "x \<equiv> v_acc (validator_at (store s) v)"
  shows "t = s" and "unat u' + unat (d_rewards d') = unat u + unat (d_rewards d)"
    and "d' = d\<lparr>d_acc := (if d_stake d = 0 then d_acc d else x), d_rewards := d_rewards d'\<rparr>"
    and "unat (d_rewards d') = unat (d_rewards d) +
           (if d_stake d = 0 then 0 else reward_of (unat (d_stake d)) (unat x) (unat (d_acc d)))"
proof -
  have "t = s \<and> unat u' + unat (d_rewards d') = unat u + unat (d_rewards d) \<and>
    d' = d\<lparr>d_acc := (if d_stake d = 0 then d_acc d else x), d_rewards := d_rewards d'\<rparr> \<and>
    unat (d_rewards d') = unat (d_rewards d) +
      (if d_stake d = 0 then 0 else reward_of (unat (d_stake d)) (unat x) (unat (d_acc d)))"
  proof (cases "d_stake d = 0")
    case True
    then show ?thesis using assms(2) by (simp add: accrue_active_stake_def)
  next
    case False
    then obtain r where r: "calculate_rewards (d_stake d) x (d_acc d) = Inr r"
      and i: "reward_invariant u r (d\<lparr>d_acc := x\<rparr>) s = (Inr (u', d'), t)"
      using assms by (auto simp: accrue_active_stake_def bindc_Inr key_folds offset_defs
          validator_at_def x_def)
    note rw = unat_calculate_rewards [OF r]
    from i have le: "r \<le> u" and bound: "unat (d_rewards d) + unat r < 2 ^ 256"
      and res: "t = s" "u' = u - r" "d' = d\<lparr>d_acc := x, d_rewards := d_rewards d + r\<rparr>"
      by (simp_all add: reward_invariant_Inr)
    from reward_moved [OF le bound] unat_reward_sum [OF bound] show ?thesis
      using False rw by (simp add: res)
  qed
  then show "t = s" and "unat u' + unat (d_rewards d') = unat u + unat (d_rewards d)"
    and "d' = d\<lparr>d_acc := (if d_stake d = 0 then d_acc d else x), d_rewards := d_rewards d'\<rparr>"
    and "unat (d_rewards d') = unat (d_rewards d) +
           (if d_stake d = 0 then 0 else reward_of (unat (d_stake d)) (unat x) (unat (d_acc d)))"
    by blast+
qed

section \<open>The abstract settlement\<close>

text \<open>A delegator as its owner sees it: the active stake, the accumulator value it was last paid
  at, the rewards owed, and the pending stakes in the order they activate.\<close>

record position =
  p_active :: nat
  p_mark :: nat
  p_rewards :: nat
  p_pending :: "(nat \<times> nat) list"

definition accrue_at :: "nat \<Rightarrow> position \<Rightarrow> position" where
  "accrue_at x p = p\<lparr>p_rewards := p_rewards p + reward_of (p_active p) x (p_mark p), p_mark := x\<rparr>"

fun settle_pending :: "nat \<Rightarrow> (nat \<Rightarrow> nat) \<Rightarrow> position \<Rightarrow> (nat \<times> nat) list \<Rightarrow> position" where
  "settle_pending now val p [] = p\<lparr>p_pending := []\<rparr>"
| "settle_pending now val p ((e, x) # ps) =
     (if e \<le> now
      then settle_pending now val ((accrue_at (val e) p)\<lparr>p_active := p_active p + x\<rparr>) ps
      else p\<lparr>p_pending := (e, x) # ps\<rparr>)"

definition settle :: "nat \<Rightarrow> (nat \<Rightarrow> nat) \<Rightarrow> nat \<Rightarrow> position \<Rightarrow> position" where
  "settle now val vacc p =
     (let q = settle_pending now val p (p_pending p)
      in if p_active q = 0 then q else accrue_at vacc q)"

definition pending_of :: "Delegator \<Rightarrow> (nat \<times> nat) list" where
  "pending_of d =
     (if d_delta_epoch d = 0 then [] else [(unat (d_delta_epoch d), unat (d_delta_stake d))]) @
     (if d_next_delta_epoch d = 0 then []
      else [(unat (d_next_delta_epoch d), unat (d_next_delta_stake d))])"

definition position_of :: "Delegator \<Rightarrow> position" where
  "position_of d = \<lparr>p_active = unat (d_stake d), p_mark = unat (d_acc d),
     p_rewards = unat (d_rewards d), p_pending = pending_of d\<rparr>"

text \<open>The representation invariant: an empty track holds no stake and the tracks are ordered.\<close>

definition delegator_wf :: "Delegator \<Rightarrow> bool" where
  "delegator_wf d \<longleftrightarrow> (d_delta_epoch d = 0 \<longrightarrow> d_delta_stake d = 0) \<and>
     (d_next_delta_epoch d = 0 \<longrightarrow> d_next_delta_stake d = 0) \<and>
     (d_delta_epoch d \<noteq> 0 \<and> d_next_delta_epoch d \<noteq> 0 \<longrightarrow> d_delta_epoch d < d_next_delta_epoch d)"

definition stake_sum :: "Delegator \<Rightarrow> nat" where
  "stake_sum d = unat (d_stake d) + unat (d_delta_stake d) + unat (d_next_delta_stake d)"

text \<open>What a settlement reads: the epoch and, by epoch, the snapshotted accumulator values.\<close>

definition epoch_at :: "storage \<Rightarrow> nat" where
  "epoch_at st = unat (u64_at st CEpoch)"

definition snapshots_at :: "storage \<Rightarrow> u64 \<Rightarrow> nat \<Rightarrow> nat" where
  "snapshots_at st v e = unat (snapshot_value (accumulator_at st (of_nat e, v)))"

lemma promote_delta_position:
  "delegator_wf d \<Longrightarrow> position_of (promote_delta e d) = position_of d \<and>
     delegator_wf (promote_delta e d) \<and> stake_sum (promote_delta e d) = stake_sum d \<and>
     d_rewards (promote_delta e d) = d_rewards d"
  by (auto simp: promote_delta_def Let_def position_of_def pending_of_def delegator_wf_def
      stake_sum_def)

lemma delegation_backend:
  "compound_track v b u d s = (r, t) \<Longrightarrow> backend_ok t = backend_ok s"
  "pull_delegator_up_to_date v a s = (r', t) \<Longrightarrow> backend_ok t = backend_ok s"
  by (rule same_env_backend, erule preservesD [rotated], intro frame_intros)+

text \<open>Inversion of a successful settlement.\<close>

lemma pull_Inr:
  assumes "backend_ok s" and "pull_delegator_up_to_date v a s = (Inr d', t)"
  obtains d0 u1 d1 s1 u2 d2 s2 u3 where
    "d0 = promote_delta (u64_at (store s) CEpoch) (delegator_at (store s) (v, a))"
    "compound_track v (is_epoch_active (u64_at (store s) CEpoch) (d_next_delta_epoch d0))
       (v_unclaimed_rewards (validator_at (store s) v)) d0 s = (Inr (u1, d1), s1)"
    "compound_track v (is_epoch_active (u64_at (store s) CEpoch) (d_delta_epoch d0))
       u1 d1 s1 = (Inr (u2, d2), s2)"
    "accrue_active_stake v u2 d2 s2 = (Inr (u3, d'), s2)" and "backend_ok s2"
    "t = s2\<lparr>store := put_delegator (v, a) d' ((store s2)(key_of (CValidator v 7) := u3))\<rparr>"
proof -
  have active: "(is_epoch_active e x \<and> x \<noteq> 0) = is_epoch_active e x" for e x
    by (auto simp: is_epoch_active_def)
  have un: "store s (key_of (CValidator v 7)) = v_unclaimed_rewards (validator_at (store s) v)"
    by (simp add: validator_at_def)
  have ok: "compound_track v b u d s = (r, t) \<Longrightarrow> backend_ok s \<Longrightarrow> backend_ok t" for b u d s r t
    using delegation_backend(1) by simp
  show ?thesis
    using assms(2) unfolding pull_delegator_up_to_date_def Let_def
    apply (elim bindc_InrE)
    apply (clarsimp simp: assms(1) active key_folds offset_defs un)
    apply (elim bindc_InrE, clarsimp)
    apply (elim bindc_InrE, clarsimp)
    apply (frule ok, rule assms(1))
    apply (frule ok, assumption)
    apply (frule accrue_step(1) [rotated], assumption)
    apply (clarsimp simp: bindc_apply)
    apply (rule that [OF refl], assumption+)
    done
qed

lemma of_nat_unat_u64 [simp]: "(of_nat (unat (e :: u64)) :: u64) = e"
  by simp

lemma snapshots_at_unat:
  "snapshots_at st v (unat e) = unat (snapshot_value (accumulator_at st (e, v)))"
  by (simp add: snapshots_at_def)

lemma active_le: "is_epoch_active now e \<longleftrightarrow> e \<noteq> 0 \<and> unat e \<le> unat now"
  by (simp add: is_epoch_active_def word_le_nat_alt)

text \<open>One track, in the abstract: the compounded delegator's position.\<close>

lemma compound_track_position:
  assumes "backend_ok s" and "compound_track v True u d s = (Inr (u', d'), t)"
    and "d_delta_epoch d \<noteq> 0"
  shows "position_of d' =
    (accrue_at (snapshots_at (store s) v (unat (d_delta_epoch d))) (position_of d))
      \<lparr>p_active := unat (d_stake d) + unat (d_delta_stake d), p_pending := tl (pending_of d)\<rparr>"
  using compound_track_step [OF assms(1,2)] assms(3)
  by (auto simp: position_of_def accrue_at_def snapshots_at_unat pending_of_def)

lemma accrue_position:
  assumes "backend_ok s" and "accrue_active_stake v u d s = (Inr (u', d'), t)"
  shows "position_of d' = (if p_active (position_of d) = 0 then position_of d
    else accrue_at (unat (v_acc (validator_at (store s) v))) (position_of d))"
proof -
  let ?x = "v_acc (validator_at (store s) v)"
  note a = accrue_step [OF assms]
  have f: "d_stake d' = d_stake d" "d_acc d' = (if d_stake d = 0 then d_acc d else ?x)"
    "pending_of d' = pending_of d"
    by (subst a(3), simp add: pending_of_def)+
  show ?thesis
    using a(4) by (simp add: position_of_def accrue_at_def f unat_eq_zero)
qed


text \<open>What the two tracks leave, apart from the position: the books of the delegator and of the
  validator agree as before, and no track is due.\<close>

definition tracks_done ::
    "u64 \<Rightarrow> Delegator \<Rightarrow> u256 \<Rightarrow> storage \<Rightarrow> Delegator \<Rightarrow> u256 \<Rightarrow> storage \<Rightarrow> bool" where
  "tracks_done now d u st d2 u2 st2 \<longleftrightarrow>
     stake_sum d2 = stake_sum d \<and> delegator_wf d2 \<and>
     unat u2 + unat (d_rewards d2) = unat u + unat (d_rewards d) \<and>
     validator_at st2 = validator_at st \<and>
     \<not> is_epoch_active now (d_delta_epoch d2) \<and> \<not> is_epoch_active now (d_next_delta_epoch d2) \<and>
     (d_delta_epoch d2 = 0 \<longrightarrow> d_next_delta_epoch d2 \<noteq> 0 \<longrightarrow> d2 = d)"

lemma one_track:
  assumes ok: "backend_ok s" and wf: "delegator_wf d" and due: "is_epoch_active now (d_delta_epoch d)"
    and later: "\<not> is_epoch_active now (d_next_delta_epoch d)"
    and run: "compound_track v True u d s = (Inr (u2, d2), s2)"
  shows "position_of d2
      = settle_pending (unat now) (snapshots_at (store s) v) (position_of d) (pending_of d)"
    and "tracks_done now d u (store s) d2 u2 (store s2)"
proof -
  have nz: "d_delta_epoch d \<noteq> 0" using due by (auto simp: is_epoch_active_def)
  note c = compound_track_step [OF ok run]
  show "position_of d2
      = settle_pending (unat now) (snapshots_at (store s) v) (position_of d) (pending_of d)"
    using compound_track_position [OF ok run nz] nz c due later
    by (auto simp: position_of_def pending_of_def accrue_at_def active_le)
  show "tracks_done now d u (store s) d2 u2 (store s2)"
    using c wf later
    by (simp add: tracks_done_def stake_sum_def delegator_wf_def is_epoch_active_def fun_eq_iff)
qed

lemma both_tracks:
  assumes ok: "backend_ok s" and wf: "delegator_wf d"
    and due: "is_epoch_active now (d_delta_epoch d)" "is_epoch_active now (d_next_delta_epoch d)"
    and 1: "compound_track v True u d s = (Inr (u1, d1), s1)"
    and 2: "compound_track v True u1 d1 s1 = (Inr (u2, d2), s2)"
  shows "position_of d2
      = settle_pending (unat now) (snapshots_at (store s) v) (position_of d) (pending_of d)"
    and "tracks_done now d u (store s) d2 u2 (store s2)"
proof -
  have nz: "d_delta_epoch d \<noteq> 0" "d_next_delta_epoch d \<noteq> 0"
    and lt: "d_delta_epoch d < d_next_delta_epoch d"
    using wf due by (auto simp: delegator_wf_def is_epoch_active_def)
  note c1 = compound_track_step [OF ok 1]
  have b1: "backend_ok s1" using c1(1) ok by simp
  have d1: "d_delta_epoch d1 = d_next_delta_epoch d" using c1 by simp
  note c2 = compound_track_step [OF b1 2]
  have sn: "snapshots_at (store s1) v (unat (d_delta_epoch d1))
      = snapshots_at (store s) v (unat (d_next_delta_epoch d))"
    using lt by (simp add: snapshots_at_unat c1(1) d1)
  have nz1: "d_delta_epoch d1 \<noteq> 0" using d1 nz by simp
  show "position_of d2
      = settle_pending (unat now) (snapshots_at (store s) v) (position_of d) (pending_of d)"
    using compound_track_position [OF ok 1 nz(1)] compound_track_position [OF b1 2 nz1] nz c1 c2 due sn
    by (simp add: position_of_def pending_of_def accrue_at_def active_le)
  show "tracks_done now d u (store s) d2 u2 (store s2)"
    using c1 c2 wf
    by (simp add: tracks_done_def stake_sum_def delegator_wf_def is_epoch_active_def fun_eq_iff)
qed

lemma tracks_effect:
  assumes ok: "backend_ok s" and wf: "delegator_wf d"
    and ordered: "is_epoch_active now (d_next_delta_epoch d) \<Longrightarrow> d_delta_epoch d \<noteq> 0"
    and 1: "compound_track v (is_epoch_active now (d_next_delta_epoch d)) u d s = (Inr (u1, d1), s1)"
    and 2: "compound_track v (is_epoch_active now (d_delta_epoch d)) u1 d1 s1 = (Inr (u2, d2), s2)"
  shows "position_of d2
      = settle_pending (unat now) (snapshots_at (store s) v) (position_of d) (pending_of d) \<and>
    tracks_done now d u (store s) d2 u2 (store s2)"
proof -
  consider (both) "is_epoch_active now (d_next_delta_epoch d)" "is_epoch_active now (d_delta_epoch d)"
    | (one) "\<not> is_epoch_active now (d_next_delta_epoch d)" "is_epoch_active now (d_delta_epoch d)"
    | (none) "\<not> is_epoch_active now (d_next_delta_epoch d)" "\<not> is_epoch_active now (d_delta_epoch d)"
    using wf ordered by (fastforce simp: delegator_wf_def is_epoch_active_def)
  then show ?thesis
  proof cases
    case both
    then show ?thesis using both_tracks [OF ok wf both(2,1)] 1 2 by simp
  next
    case one
    then have "u1 = u" "d1 = d" "s1 = s" using 1 by (simp_all add: compound_track_skip)
    with one show ?thesis using one_track [OF ok wf one(2,1)] 2 by simp
  next
    case none
    then have "u2 = u" "d2 = d" "s2 = s" using 1 2 by (simp_all add: compound_track_skip)
    with none wf show ?thesis
      by (auto simp: tracks_done_def position_of_def pending_of_def active_le)
  qed
qed


lemma tracks_epochs:
  assumes ok: "backend_ok s"
    and 1: "compound_track v (is_epoch_active now (d_next_delta_epoch d)) u d s = (Inr (u1, d1), s1)"
    and 2: "compound_track v (is_epoch_active now (d_delta_epoch d)) u1 d1 s1 = (Inr (u2, d2), s2)"
    and ordered: "is_epoch_active now (d_next_delta_epoch d) \<Longrightarrow> is_epoch_active now (d_delta_epoch d)"
  shows "d_delta_epoch d2 = (if is_epoch_active now (d_next_delta_epoch d) then 0
           else if is_epoch_active now (d_delta_epoch d) then d_next_delta_epoch d
           else d_delta_epoch d)"
    and "d_next_delta_epoch d2 =
           (if is_epoch_active now (d_delta_epoch d) then 0 else d_next_delta_epoch d)"
proof -
  have b1: "backend_ok s1" using delegation_backend(1) [OF 1] ok by simp
  note t1 = compound_track_step [OF ok, of v u d u1 d1 s1]
  note t2 = compound_track_step [OF b1, of v u1 d1 u2 d2 s2]
  have "d_delta_epoch d2 = (if is_epoch_active now (d_next_delta_epoch d) then 0
           else if is_epoch_active now (d_delta_epoch d) then d_next_delta_epoch d
           else d_delta_epoch d) \<and>
        d_next_delta_epoch d2 =
           (if is_epoch_active now (d_delta_epoch d) then 0 else d_next_delta_epoch d)"
    using 1 2 ordered t1(8,9) t2(8,9)
    by (cases "is_epoch_active now (d_next_delta_epoch d)";
        cases "is_epoch_active now (d_delta_epoch d)"; simp add: compound_track_skip)
  then show "d_delta_epoch d2 = (if is_epoch_active now (d_next_delta_epoch d) then 0
           else if is_epoch_active now (d_delta_epoch d) then d_next_delta_epoch d
           else d_delta_epoch d)"
    and "d_next_delta_epoch d2 =
           (if is_epoch_active now (d_delta_epoch d) then 0 else d_next_delta_epoch d)"
    by blast+
qed

lemma promote_delta_active:
  assumes "delegator_wf d" and "now + 1 \<noteq> 0"
    and "is_epoch_active now (d_next_delta_epoch (promote_delta now d))"
  shows "d_delta_epoch (promote_delta now d) \<noteq> 0"
proof (rule ccontr)
  assume "\<not> d_delta_epoch (promote_delta now d) \<noteq> 0"
  moreover have "now \<le> now + 1"
    using unatSuc [of now] assms(2) by (simp add: word_le_nat_alt add.commute)
  ultimately show False
    using assms(3) by (auto simp: promote_delta_def Let_def is_epoch_active_def split: if_splits)
qed

lemma promote_delta_next:
  "d_delta_epoch (promote_delta now d) = 0 \<Longrightarrow>
   d_next_delta_epoch (promote_delta now d) = 0 \<or> now + 1 < d_next_delta_epoch (promote_delta now d)"
  by (auto simp: promote_delta_def Let_def not_le split: if_splits)

lemma pull_effect:
  assumes ok: "backend_ok s" and pull: "pull_delegator_up_to_date v a s = (Inr d', t)"
    and wf: "delegator_wf (delegator_at (store s) (v, a))" and now: "u64_at (store s) CEpoch + 1 \<noteq> 0"
  defines "d \<equiv> delegator_at (store s) (v, a)" and "e \<equiv> u64_at (store s) CEpoch"
    and "val \<equiv> validator_at (store s) v"
  shows "position_of d' =
           settle (unat e) (snapshots_at (store s) v) (unat (v_acc val)) (position_of d)"
    and "stake_sum d' = stake_sum d" and "delegator_wf d'"
    and "unat (v_unclaimed_rewards (validator_at (store t) v)) + unat (d_rewards d') =
           unat (v_unclaimed_rewards val) + unat (d_rewards d)"
    and "\<not> is_epoch_active e (d_delta_epoch d')" "\<not> is_epoch_active e (d_next_delta_epoch d')"
    and "delegator_at (store t) (v, a) = d'"
    and "d_stake d' \<noteq> 0 \<Longrightarrow> d_acc d' = v_acc val"
    and "d_delta_epoch d' = 0 \<Longrightarrow> d_next_delta_epoch d' = 0 \<or> e + 1 < d_next_delta_epoch d'"
proof -
  define d0 where "d0 = promote_delta e d"
  obtain u1 d1 s1 u2 d2 s2 u3 where
    1: "compound_track v (is_epoch_active e (d_next_delta_epoch d0)) (v_unclaimed_rewards val)
          d0 s = (Inr (u1, d1), s1)" and
    2: "compound_track v (is_epoch_active e (d_delta_epoch d0)) u1 d1 s1 = (Inr (u2, d2), s2)" and
    3: "accrue_active_stake v u2 d2 s2 = (Inr (u3, d'), s2)" and
    t: "t = s2\<lparr>store := put_delegator (v, a) d' ((store s2)(key_of (CValidator v 7) := u3))\<rparr>" and
    b2: "backend_ok s2"
    using pull_Inr [OF ok pull] unfolding d_def e_def val_def d0_def by metis
  note p0 = promote_delta_position [OF wf, folded d_def, of e, folded d0_def]
  note te = tracks_effect [OF ok _ _ 1 2]
  have te1: "position_of d2 = settle_pending (unat e) (snapshots_at (store s) v) (position_of d)
      (p_pending (position_of d))"
    using te p0 promote_delta_active [OF wf now] d0_def d_def e_def
    by (simp add: position_of_def)
  have te2: "stake_sum d2 = stake_sum d" "delegator_wf d2"
    "unat u2 + unat (d_rewards d2) = unat (v_unclaimed_rewards val) + unat (d_rewards d)"
    "validator_at (store s2) v = val" "\<not> is_epoch_active e (d_delta_epoch d2)"
    "\<not> is_epoch_active e (d_next_delta_epoch d2)"
    "d_delta_epoch d2 = 0 \<Longrightarrow> d_next_delta_epoch d2 \<noteq> 0 \<Longrightarrow> d2 = d0"
    using te p0 promote_delta_active [OF wf now] d0_def d_def e_def val_def
    by (auto simp: tracks_done_def)
  note a = accrue_step [OF b2 3]
  have f: "d_stake d' = d_stake d2" "d_delta_stake d' = d_delta_stake d2"
    "d_next_delta_stake d' = d_next_delta_stake d2" "d_delta_epoch d' = d_delta_epoch d2"
    "d_next_delta_epoch d' = d_next_delta_epoch d2"
    by (subst a(3), simp)+
  show "position_of d' =
      settle (unat e) (snapshots_at (store s) v) (unat (v_acc val)) (position_of d)"
    using accrue_position [OF b2 3] te1 te2(4) by (simp add: settle_def Let_def)
  show "stake_sum d' = stake_sum d" "delegator_wf d'" "\<not> is_epoch_active e (d_delta_epoch d')"
    "\<not> is_epoch_active e (d_next_delta_epoch d')"
    using te2 by (simp_all add: stake_sum_def delegator_wf_def f)
  show "unat (v_unclaimed_rewards (validator_at (store t) v)) + unat (d_rewards d') =
      unat (v_unclaimed_rewards val) + unat (d_rewards d)"
    using a(2) te2(3) by (simp add: t cell_simps)
  show "delegator_at (store t) (v, a) = d'" by (simp add: t cell_simps)
  show "d_stake d' \<noteq> 0 \<Longrightarrow> d_acc d' = v_acc val"
    by (subst (asm) f, subst a(3)) (simp add: te2(4))
  show "d_delta_epoch d' = 0 \<Longrightarrow> d_next_delta_epoch d' = 0 \<or> e + 1 < d_next_delta_epoch d'"
    using te2(7) promote_delta_next [of e d] by (fastforce simp: f d0_def)
qed


text \<open>The invariant of the tracks in time: nothing is scheduled later than the code schedules it.
  Outside the boundary that is the next epoch; inside it the epoch after next, on the second
  track and only once the first holds nothing that is already active.\<close>

definition timed :: "nat \<Rightarrow> bool \<Rightarrow> Delegator \<Rightarrow> bool" where
  "timed e b d \<longleftrightarrow> delegator_wf d \<and> unat (d_delta_epoch d) \<le> e + 1 \<and>
     unat (d_next_delta_epoch d) \<le> (if b then e + 2 else e + 1) \<and>
     (unat (d_next_delta_epoch d) = e + 2 \<longrightarrow> d_delta_epoch d = 0 \<or> e < unat (d_delta_epoch d))"

lemma timed_later: "timed e b d \<Longrightarrow> e < e' \<Longrightarrow> timed e' b' d"
  by (auto simp: timed_def split: if_splits)

text \<open>After a settlement each track is empty or scheduled for its own epoch.\<close>

lemma settled_epochs:
  assumes wf: "delegator_wf d'" and inactive: "\<not> is_epoch_active e (d_delta_epoch d')"
    "\<not> is_epoch_active e (d_next_delta_epoch d')"
    and late: "d_delta_epoch d' = 0 \<Longrightarrow> d_next_delta_epoch d' = 0 \<or> e + 1 < d_next_delta_epoch d'"
    and bounds: "unat (d_delta_epoch d') \<le> unat e + 1"
      "unat (d_next_delta_epoch d') \<le> (if b then unat e + 2 else unat e + 1)"
    and small: "unat e + 2 < 2 ^ 64"
  shows "d_delta_epoch d' = 0 \<or> d_delta_epoch d' = e + 1"
    and "d_next_delta_epoch d' = 0 \<or> b \<and> d_next_delta_epoch d' = e + 2"
proof -
  have e1: "unat (e + 1) = unat e + 1" and e2: "unat (e + 2) = unat e + 2"
    using small by (simp_all add: unat_plus_lt)
  show one: "d_delta_epoch d' = 0 \<or> d_delta_epoch d' = e + 1"
    using inactive(1) bounds(1) by (auto simp: active_le word_unat_eq_iff e1)
  show "d_next_delta_epoch d' = 0 \<or> b \<and> d_next_delta_epoch d' = e + 2"
  proof (cases "d_next_delta_epoch d' = 0")
    case False
    then have "unat e + 1 < unat (d_next_delta_epoch d')"
      using one late wf by (auto simp: delegator_wf_def word_less_nat_alt e1)
    with bounds(2) have "b \<and> unat (d_next_delta_epoch d') = unat e + 2"
      by (auto split: if_splits)
    then show ?thesis by (simp add: word_unat_eq_iff e2)
  qed simp
qed

lemma epoch_step: "epoch_at st + 2 < 2 ^ 64 \<Longrightarrow> u64_at st CEpoch + 1 \<noteq> 0"
  using unat_plus_lt [of "u64_at st CEpoch" 1] by (auto simp: epoch_at_def)

lemma pull_tracks:
  assumes ok: "backend_ok s" and pull: "pull_delegator_up_to_date v a s = (Inr d', t)"
    and wf: "delegator_wf (delegator_at (store s) (v, a))" and now: "u64_at (store s) CEpoch + 1 \<noteq> 0"
  defines "e \<equiv> u64_at (store s) CEpoch"
  defines "d0 \<equiv> promote_delta e (delegator_at (store s) (v, a))"
  shows "d_delta_epoch d' = (if is_epoch_active e (d_next_delta_epoch d0) then 0
       else if is_epoch_active e (d_delta_epoch d0) then d_next_delta_epoch d0 else d_delta_epoch d0)"
    and "d_next_delta_epoch d' = (if is_epoch_active e (d_delta_epoch d0) then 0 else d_next_delta_epoch d0)"
proof -
  obtain u1 d1 s1 u2 d2 s2 u3 where
    1: "compound_track v (is_epoch_active e (d_next_delta_epoch d0))
          (v_unclaimed_rewards (validator_at (store s) v)) d0 s = (Inr (u1, d1), s1)" and
    2: "compound_track v (is_epoch_active e (d_delta_epoch d0)) u1 d1 s1 = (Inr (u2, d2), s2)" and
    3: "accrue_active_stake v u2 d2 s2 = (Inr (u3, d'), s2)" and b2: "backend_ok s2"
    using pull_Inr [OF ok pull] unfolding e_def d0_def by metis
  have "delegator_wf d0" using promote_delta_position [OF wf] by (simp add: d0_def)
  then have "is_epoch_active e (d_next_delta_epoch d0) \<Longrightarrow> is_epoch_active e (d_delta_epoch d0)"
    using promote_delta_active [OF wf now] unfolding d0_def e_def
    by (fastforce simp: delegator_wf_def is_epoch_active_def)
  note te = tracks_epochs [OF ok 1 2 this]
  note a = accrue_step(3) [OF b2 3]
  show "d_delta_epoch d' = (if is_epoch_active e (d_next_delta_epoch d0) then 0
       else if is_epoch_active e (d_delta_epoch d0) then d_next_delta_epoch d0 else d_delta_epoch d0)"
    by (subst a) (simp add: te)
  show "d_next_delta_epoch d' = (if is_epoch_active e (d_delta_epoch d0) then 0 else d_next_delta_epoch d0)"
    by (subst a) (simp add: te)
qed

lemma pull_epochs:
  assumes ok: "backend_ok s" and pull: "pull_delegator_up_to_date v a s = (Inr d', t)"
    and timed: "timed (epoch_at (store s)) b (delegator_at (store s) (v, a))"
    and small: "epoch_at (store s) + 2 < 2 ^ 64"
  shows "d_delta_epoch d' = 0 \<or> d_delta_epoch d' = u64_at (store s) CEpoch + 1"
    and "d_next_delta_epoch d' = 0 \<or> b \<and> d_next_delta_epoch d' = u64_at (store s) CEpoch + 2"
    and "timed (epoch_at (store s)) b d'"
proof -
  let ?e = "u64_at (store s) CEpoch"
  define d0 where "d0 = promote_delta ?e (delegator_at (store s) (v, a))"
  note small' = small [unfolded epoch_at_def]
  have wf: "delegator_wf (delegator_at (store s) (v, a))" using timed by (simp add: timed_def)
  have e1: "unat (?e + 1) = unat ?e + 1" and e2: "unat (?e + 2) = unat ?e + 2"
    using small' by (simp_all add: unat_plus_lt)
  note now = epoch_step [OF small]
  note eff = pull_effect [OF ok pull wf now] and tracks = pull_tracks [OF ok pull wf now, folded d0_def]
  have "unat (d_delta_epoch d0) \<le> unat ?e + 1"
    "unat (d_next_delta_epoch d0) \<le> (if b then unat ?e + 2 else unat ?e + 1)"
    "unat (d_next_delta_epoch d0) \<noteq> unat ?e + 2 \<or>
       d_delta_epoch d0 = 0 \<or> unat ?e < unat (d_delta_epoch d0)"
    using timed
    by (auto simp: timed_def epoch_at_def d0_def promote_delta_def Let_def word_le_nat_alt e1)
  then have b1: "unat (d_delta_epoch d') \<le> unat ?e + 1"
    and bn: "unat (d_next_delta_epoch d') \<le> (if b then unat ?e + 2 else unat ?e + 1)"
    by (auto simp: tracks active_le split: if_splits)
  show one: "d_delta_epoch d' = 0 \<or> d_delta_epoch d' = ?e + 1"
    and two: "d_next_delta_epoch d' = 0 \<or> b \<and> d_next_delta_epoch d' = ?e + 2"
    using settled_epochs [OF eff(3,5,6,9) b1 bn small'] by blast+
  show "timed (epoch_at (store s)) b d'"
    using one two eff(3) by (auto simp: timed_def epoch_at_def e1 e2)
qed

text \<open>A settlement that has nothing to do.\<close>

lemma calculate_rewards_same: "calculate_rewards stake acc acc = Inr 0"
  by (simp add: calculate_rewards_Inr)

lemma pull_noop:
  fixes v :: u64 and a :: address
  assumes ok: "backend_ok s"
  defines "d \<equiv> delegator_at (store s) (v, a)" and "e \<equiv> u64_at (store s) CEpoch"
  assumes promote: "promote_delta e d = d"
    and inactive: "\<not> is_epoch_active e (d_delta_epoch d)" "\<not> is_epoch_active e (d_next_delta_epoch d)"
    and mark: "d_stake d \<noteq> 0 \<Longrightarrow> d_acc d = v_acc (validator_at (store s) v)"
  shows "pull_delegator_up_to_date v a s = (Inr d, s\<lparr>store := put_delegator (v, a) d (store s)\<rparr>)"
proof -
  have sa: "store s (key_of (CValidator v 1)) = v_acc (validator_at (store s) v)"
    by (simp add: validator_at_def)
  have acc: "accrue_active_stake v u d s = (Inr (u, d), s)" for u
  proof (cases "d_stake d = 0")
    case True
    then show ?thesis by (simp add: accrue_active_stake_def)
  next
    case False
    note m = mark [OF False]
    have "reward_invariant u 0 (d\<lparr>d_acc := d_acc d\<rparr>) s = (Inr (u, d), s)"
      using unat_lt2p [of "d_rewards d"] by (simp add: reward_invariant_Inr)
    with False ok show ?thesis
      by (simp add: accrue_active_stake_def bindc_apply key_folds offset_defs sa m [symmetric]
          calculate_rewards_same)
  qed
  show ?thesis
    using ok inactive
    by (simp add: pull_delegator_up_to_date_def bindc_apply Let_def key_folds offset_defs
        d_def [symmetric] e_def [symmetric] promote compound_track_def acc)
qed

lemma put_delegator_again: "put_delegator k d (put_delegator k d st) = put_delegator k d st"
  by (auto simp: put_delegator_def fun_eq_iff split: prod.splits)

lemma pull_writes_back:
  assumes "backend_ok s" and "pull_delegator_up_to_date v a s = (Inr d', t)"
  shows "put_delegator (v, a) d' (store t) = store t"
proof -
  obtain st where "store t = put_delegator (v, a) d' st"
    by (rule pull_Inr [OF assms]) simp
  then show ?thesis by (simp add: put_delegator_again)
qed

lemma pull_twice:
  assumes ok: "backend_ok s" and pull: "pull_delegator_up_to_date v a s = (Inr d', t)"
    and wf: "delegator_wf (delegator_at (store s) (v, a))" and now: "u64_at (store s) CEpoch + 1 \<noteq> 0"
  shows "pull_delegator_up_to_date v a t = (Inr d', t)"
proof -
  note eff = pull_effect [OF ok pull wf now]
  have ok': "backend_ok t" using delegation_backend(2) [OF pull] ok by simp
  have "touches (pull_cells v a) s t" by (rule preservesD [OF pull_touches pull]) simp
  note cell = touches_cell [OF this]
  have e: "u64_at (store t) CEpoch = u64_at (store s) CEpoch"
    unfolding u64_at_def by (subst cell) (auto simp: pull_cells_def region_cells acc_cells_def)
  have vacc: "v_acc (validator_at (store t) v) = v_acc (validator_at (store s) v)"
    unfolding validator_at_def
    by simp (subst cell, auto simp: pull_cells_def region_cells acc_cells_def)
  have "promote_delta (u64_at (store s) CEpoch) d' = d'"
    using eff(9) by (auto simp: promote_delta_def Let_def)
  then have "pull_delegator_up_to_date v a t = (Inr d', t\<lparr>store := put_delegator (v, a) d' (store t)\<rparr>)"
    using pull_noop [OF ok', of v a] eff by (simp add: e vacc)
  then show ?thesis by (simp add: pull_writes_back [OF ok pull])
qed


section \<open>Properties\<close>

text \<open>The function \<open>calculate_rewards\<close> computes floor(stake * (epoch_acc - last_acc) / 10^36) exactly, and
  fails with the internal error precisely when the accumulator went backwards or the product
  does not fit 256 bits.\<close>

theorem calculate_rewards_spec:
  "calculate_rewards stake acc prev =
     (if prev \<le> acc \<and> (unat acc - unat prev) * unat stake < 2 ^ 256
      then Inr (of_nat (reward_of (unat stake) (unat acc) (unat prev)))
      else Inl internal_error)"
proof (cases "prev \<le> acc \<and> (unat acc - unat prev) * unat stake < 2 ^ 256")
  case True
  then have r: "calculate_rewards stake acc prev = Inr ((acc - prev) * stake div UNIT_BIAS)"
    by (simp add: calculate_rewards_Inr unat_minus_le)
  have "of_nat (reward_of (unat stake) (unat acc) (unat prev)) = (acc - prev) * stake div UNIT_BIAS"
    using unat_calculate_rewards [OF r, symmetric] by simp
  with r True show ?thesis by simp
next
  case False
  then show ?thesis
    by (auto simp: calculate_rewards_def checked_u256_Inl checked_sub_u256_Inr unat_minus_le not_le
        split: sum.splits)
qed

text \<open>taking a reference on the accumulator of the activation epoch and releasing it again
  returns the validator's current accumulator value and leaves the reference count as it was; an
  accumulator nobody else refers to is cleared.\<close>

theorem accumulator_reference_roundtrip:
  assumes "backend_ok s"
    and "acc_refcount (accumulator_at (store s) (activation_epoch_at (store s), v)) + 1 \<noteq> 0"
  shows "\<exists>t. seqc (increment_accumulator_refcount v)
             (decrement_accumulator_refcount (activation_epoch_at (store s)) v) s =
           (Inr (v_acc (validator_at (store s) v)), t) \<and>
         accumulator_at (store t) (activation_epoch_at (store s), v) =
           (let n = acc_refcount (accumulator_at (store s) (activation_epoch_at (store s), v))
            in \<lparr>acc_value = (if n = 0 then 0 else v_acc (validator_at (store s) v)),
                acc_refcount = n\<rparr>)"
  using assms
  by (auto simp: bindc_apply Let_def cell_simps snapshot_value_def release_def)

theorem accumulator_reference_roundtrip_witness:
  "\<exists>t. seqc (increment_accumulator_refcount 7) (decrement_accumulator_refcount 6 7)
      (host_of [(CEpoch, slot_of_u64 5), (CValidator 7 1, 42)]) = (Inr 42, t) \<and>
    accumulator_at (store t) (6, 7) = \<lparr>acc_value = 0, acc_refcount = 0\<rparr>"
  using accumulator_reference_roundtrip [of "host_of [(CEpoch, slot_of_u64 5), (CValidator 7 1, 42)]" 7]
  by (simp add: activation_epoch_at_def in_boundary_at_def u64_at_def accumulator_at_def
      validator_at_def)

text \<open>C4: pull_delegator_up_to_date implements the abstract settlement: it activates exactly the
  pending stakes whose epoch has come, in order, pays for each stretch at the snapshotted
  accumulator values, and finally pays the active stake up to the validator's accumulator.\<close>

theorem pull_settles:
  assumes "backend_ok s" and "delegator_wf (delegator_at (store s) (v, a))"
    and "u64_at (store s) CEpoch + 1 \<noteq> 0"
    and "pull_delegator_up_to_date v a s = (Inr d', t)"
  shows "delegator_at (store t) (v, a) = d' \<and>
    position_of d' = settle (epoch_at (store s)) (snapshots_at (store s) v)
      (unat (v_acc (validator_at (store s) v))) (position_of (delegator_at (store s) (v, a)))"
  using pull_effect(1,7) [OF assms(1,4,2,3)] by (simp add: epoch_at_def)

text \<open>A delegator with 5 active units, 3 units that become active at epoch 4 and 2 at epoch 7; the
  epoch is 6, the accumulator was 2, 4 and 7 (scaled) at the last payment, at epoch 4 and now.\<close>

definition settle_example :: host where
  "settle_example = host_of [(CEpoch, slot_of_u64 6), (CValidator 1 1, 7 * 10 ^ 36),
     (CValidator 1 7, 100), (CAccumulator 4 1 0, 4 * 10 ^ 36), (CAccumulator 4 1 1, 1),
     (CDelegator 1 8 0, 5), (CDelegator 1 8 1, 2 * 10 ^ 36), (CDelegator 1 8 3, 3),
     (CDelegator 1 8 4, 2), (CDelegator 1 8 5, slot_of_epochs 4 7)]"


definition settle_result :: Delegator where
  "settle_result = \<lparr>d_stake = 8, d_acc = 7 * 10 ^ 36, d_rewards = 34, d_delta_stake = 2,
     d_next_delta_stake = 0, d_delta_epoch = 7, d_next_delta_epoch = 0\<rparr>"

lemma settle_example_views [simp]:
  "backend_ok settle_example"
  "delegator_at (store settle_example) (1, 8) =
     \<lparr>d_stake = 5, d_acc = 2 * 10 ^ 36, d_rewards = 0, d_delta_stake = 3,
      d_next_delta_stake = 2, d_delta_epoch = 4, d_next_delta_epoch = 7\<rparr>"
  "u64_at (store settle_example) CEpoch = 6"
  "v_acc (validator_at (store settle_example) 1) = 7 * 10 ^ 36"
  "v_unclaimed_rewards (validator_at (store settle_example) 1) = 100"
  "accumulator_at (store settle_example) (4, 1) = \<lparr>acc_value = 4 * 10 ^ 36, acc_refcount = 1\<rparr>"
  by (simp_all add: settle_example_def delegator_at_def u64_at_def validator_at_def
      accumulator_at_def)

lemmas checked_eval = checked_add_u256_def checked_sub_u256_def checked_mul_div_u256_def
  checked_add_def checked_sub_def checked_mul_def

lemmas pull_eval = pull_delegator_up_to_date_def promote_delta_def compound_track_def
  apply_compound_def accrue_active_stake_def reward_invariant_def is_epoch_active_def
  calculate_rewards_def checked_eval snapshot_value_def bindc_apply key_folds offset_defs
  constant_values

lemma settle_example_cells [simp]:
  "store settle_example (key_of (CValidator 1 7)) = 100"
  "store settle_example (key_of (CValidator 1 1)) = 7 * 10 ^ 36"
  by (simp_all add: settle_example_def)

lemma settle_example_pull:
  "\<exists>t. pull_delegator_up_to_date 1 8 settle_example = (Inr settle_result, t)"
  by (simp add: pull_eval settle_result_def cell_simps Let_def)

theorem pull_settles_witness:
  "\<exists>t. pull_delegator_up_to_date 1 8 settle_example = (Inr settle_result, t) \<and>
     delegator_at (store t) (1, 8) = settle_result \<and>
     settle 6 (snapshots_at (store settle_example) 1) (7 * 10 ^ 36)
       (position_of (delegator_at (store settle_example) (1, 8))) =
     \<lparr>p_active = 8, p_mark = 7 * 10 ^ 36, p_rewards = 34, p_pending = [(7, 2)]\<rparr>"
proof -
  obtain t where t: "pull_delegator_up_to_date 1 8 settle_example = (Inr settle_result, t)"
    using settle_example_pull by blast
  with pull_settles [of settle_example 1 8 settle_result t] show ?thesis
    by (intro exI [of _ t]) (simp add: delegator_wf_def epoch_at_def settle_result_def
        position_of_def pending_of_def)
qed


text \<open>C25: a settlement creates and destroys nothing: the delegator's active and pending stakes
  add up to the same total, every unit of reward credited to the delegator is debited from the
  validator's unclaimed rewards, and the representation invariant of the two tracks survives.\<close>

theorem pull_conserves:
  assumes "backend_ok s" and "delegator_wf (delegator_at (store s) (v, a))"
    and "u64_at (store s) CEpoch + 1 \<noteq> 0"
    and "pull_delegator_up_to_date v a s = (Inr d', t)"
  shows "stake_sum d' = stake_sum (delegator_at (store s) (v, a)) \<and> delegator_wf d' \<and>
    unat (v_unclaimed_rewards (validator_at (store t) v)) + unat (d_rewards d') =
    unat (v_unclaimed_rewards (validator_at (store s) v))
      + unat (d_rewards (delegator_at (store s) (v, a)))"
  using pull_effect(2,3,4) [OF assms(1,4,2,3)] by blast

theorem pull_conserves_witness:
  "\<exists>t. pull_delegator_up_to_date 1 8 settle_example = (Inr settle_result, t) \<and>
     stake_sum settle_result = 10 \<and>
     unat (v_unclaimed_rewards (validator_at (store t) 1)) = 66"
proof -
  obtain t where t: "pull_delegator_up_to_date 1 8 settle_example = (Inr settle_result, t)"
    using settle_example_pull by blast
  with pull_conserves [of settle_example 1 8 settle_result t] show ?thesis
    by (intro exI [of _ t]) (simp add: delegator_wf_def settle_result_def stake_sum_def)
qed

text \<open>Settling is idempotent: a second pull_delegator_up_to_date in the same epoch returns
  the same delegator and changes nothing at all, neither the storage nor the log.\<close>

theorem pull_idempotent:
  assumes "backend_ok s" and "delegator_wf (delegator_at (store s) (v, a))"
    and "u64_at (store s) CEpoch + 1 \<noteq> 0"
    and "pull_delegator_up_to_date v a s = (Inr d', t)"
  shows "pull_delegator_up_to_date v a t = (Inr d', t)"
  using assms by (intro pull_twice)

theorem pull_idempotent_witness:
  "\<exists>t. pull_delegator_up_to_date 1 8 settle_example = (Inr settle_result, t) \<and>
     pull_delegator_up_to_date 1 8 t = (Inr settle_result, t)"
proof -
  obtain t where t: "pull_delegator_up_to_date 1 8 settle_example = (Inr settle_result, t)"
    using settle_example_pull by blast
  with pull_idempotent [of settle_example 1 8 settle_result t] show ?thesis
    by (intro exI [of _ t]) (simp add: delegator_wf_def)
qed

text \<open>Whatever its outcome, a settlement of \<open>(v, a)\<close> writes nothing but that delegator's
  record, the unclaimed rewards of validator \<open>v\<close> and the accumulators of \<open>v\<close>; it moves no
  money and removes no log.\<close>

theorem pull_frame:
  "preserves (touches (pull_cells v a)) (pull_delegator_up_to_date v a) \<and>
   preserves same_balances (pull_delegator_up_to_date v a) \<and>
   preserves logs_grow (pull_delegator_up_to_date v a)"
  by (intro conjI frame_intros) simp

end
