(* ===== verification/LinkedLists.thy ===== *)
theory LinkedLists
  imports Frames
begin

text \<open>
  The two families of doubly linked lists of \<open>staking/write.rs\<close>: the delegators of a validator
  (pointers anext and aprev of the nodes \<open>(v, _)\<close>, anchored at the node of the sentinel address)
  and the validators of a delegator (inext and iprev of the nodes \<open>(_, a)\<close>, anchored at the
  sentinel id). The locale \<open>linked_list\<close> states what one insertion and one removal do to the
  pointers; inside it the lists are proved to be lists. Both families are interpretations.
\<close>

section \<open>Model\<close>

definition linked_list_insert_address :: "u64 \<Rightarrow> address \<Rightarrow> unit action" where
  "linked_list_insert_address val_id ptr =
     (if ptr = 0 \<or> ptr = SENTINEL_ADDRESS then throw (Other ''invalid input'')
      else
        bindc (read_list_node val_id ptr) (\<lambda>this_node.
        if n_aprev this_node \<noteq> 0 then ret ()
        else
          bindc (read_list_node val_id SENTINEL_ADDRESS) (\<lambda>sentinel.
          let next_ptr = n_anext sentinel in
          seqc (if next_ptr \<noteq> 0
                then bindc (read_list_node val_id next_ptr) (\<lambda>next_node.
                       write_list_node val_id next_ptr (next_node\<lparr>n_aprev := ptr\<rparr>))
                else ret ())
          (let this_node = this_node\<lparr>n_aprev := SENTINEL_ADDRESS, n_anext := next_ptr\<rparr>;
               sentinel = sentinel\<lparr>n_anext := ptr\<rparr> in
           seqc (write_list_node val_id ptr this_node)
           (seqc (write_list_node val_id SENTINEL_ADDRESS sentinel)
           (ret ()))))))"

definition linked_list_insert_val_id :: "u64 \<Rightarrow> address \<Rightarrow> unit action" where
  "linked_list_insert_val_id val_id delegator =
     (if val_id = 0 \<or> val_id = SENTINEL_VAL_ID then throw (Other ''invalid input'')
      else
        bindc (read_list_node val_id delegator) (\<lambda>this_node.
        if n_iprev this_node \<noteq> 0 then ret ()
        else
          bindc (read_list_node SENTINEL_VAL_ID delegator) (\<lambda>sentinel.
          let next_ptr = n_inext sentinel in
          seqc (if next_ptr \<noteq> 0
                then bindc (read_list_node next_ptr delegator) (\<lambda>next_node.
                       write_list_node next_ptr delegator (next_node\<lparr>n_iprev := val_id\<rparr>))
                else ret ())
          (let this_node = this_node\<lparr>n_iprev := SENTINEL_VAL_ID, n_inext := next_ptr\<rparr>;
               sentinel = sentinel\<lparr>n_inext := val_id\<rparr> in
           seqc (write_list_node val_id delegator this_node)
           (seqc (write_list_node SENTINEL_VAL_ID delegator sentinel)
           (ret ()))))))"

definition linked_list_insert :: "u64 \<Rightarrow> address \<Rightarrow> unit action" where
  "linked_list_insert val_id delegator =
     seqc (linked_list_insert_address val_id delegator)
     (seqc (linked_list_insert_val_id val_id delegator)
     (ret ()))"

definition linked_list_remove_address :: "u64 \<Rightarrow> address \<Rightarrow> unit action" where
  "linked_list_remove_address val_id ptr =
     bindc (read_list_node val_id ptr) (\<lambda>this_node.
     if n_aprev this_node = 0 then ret ()
     else
       let prev_ptr = n_aprev this_node; next_ptr = n_anext this_node in
       bindc (read_list_node val_id prev_ptr) (\<lambda>prev_node.
       seqc (write_list_node val_id prev_ptr (prev_node\<lparr>n_anext := next_ptr\<rparr>))
       (seqc (if next_ptr \<noteq> 0
              then bindc (read_list_node val_id next_ptr) (\<lambda>next_node.
                     write_list_node val_id next_ptr (next_node\<lparr>n_aprev := prev_ptr\<rparr>))
              else ret ())
       (let this_node = this_node\<lparr>n_aprev := 0, n_anext := 0\<rparr> in
        seqc (write_list_node val_id ptr this_node)
        (ret ())))))"

definition linked_list_remove_val_id :: "u64 \<Rightarrow> address \<Rightarrow> unit action" where
  "linked_list_remove_val_id val_id delegator =
     bindc (read_list_node val_id delegator) (\<lambda>this_node.
     if n_iprev this_node = 0 then ret ()
     else
       let prev_ptr = n_iprev this_node; next_ptr = n_inext this_node in
       bindc (read_list_node prev_ptr delegator) (\<lambda>prev_node.
       seqc (write_list_node prev_ptr delegator (prev_node\<lparr>n_inext := next_ptr\<rparr>))
       (seqc (if next_ptr \<noteq> 0
              then bindc (read_list_node next_ptr delegator) (\<lambda>next_node.
                     write_list_node next_ptr delegator (next_node\<lparr>n_iprev := prev_ptr\<rparr>))
              else ret ())
       (let this_node = this_node\<lparr>n_iprev := 0, n_inext := 0\<rparr> in
        seqc (write_list_node val_id delegator this_node)
        (ret ())))))"

definition linked_list_remove :: "u64 \<Rightarrow> address \<Rightarrow> unit action" where
  "linked_list_remove val_id delegator =
     seqc (linked_list_remove_address val_id delegator)
     (seqc (linked_list_remove_val_id val_id delegator)
     (ret ()))"

lemmas linked_list_defs = linked_list_insert_address_def linked_list_insert_val_id_def
  linked_list_insert_def linked_list_remove_address_def linked_list_remove_val_id_def
  linked_list_remove_def

section \<open>Lists from pointers\<close>

locale linked_list =
  fixes ok :: "'st \<Rightarrow> bool"
    and nxt prv :: "'st \<Rightarrow> 'p \<Rightarrow> 'p"
    and null anchor :: 'p
    and ins rem :: "'p \<Rightarrow> 'st \<Rightarrow> 'st"
  assumes null_anchor: "null \<noteq> anchor"
    and ins_present: "ok s \<Longrightarrow> prv s p \<noteq> null \<Longrightarrow> ins p s = s"
    and ins_nxt: "ok s \<Longrightarrow> p \<noteq> null \<Longrightarrow> p \<noteq> anchor \<Longrightarrow> prv s p = null \<Longrightarrow> nxt s anchor \<noteq> p \<Longrightarrow>
      nxt s anchor \<noteq> anchor \<Longrightarrow> nxt (ins p s) = (nxt s)(p := nxt s anchor, anchor := p)"
    and ins_prv: "ok s \<Longrightarrow> p \<noteq> null \<Longrightarrow> p \<noteq> anchor \<Longrightarrow> prv s p = null \<Longrightarrow> nxt s anchor \<noteq> p \<Longrightarrow>
      nxt s anchor \<noteq> anchor \<Longrightarrow>
      prv (ins p s) = (if nxt s anchor = null then (prv s)(p := anchor)
                       else (prv s)(nxt s anchor := p, p := anchor))"
    and rem_absent: "ok s \<Longrightarrow> prv s p = null \<Longrightarrow> rem p s = s"
    and rem_nxt: "ok s \<Longrightarrow> prv s p \<noteq> null \<Longrightarrow> prv s p \<noteq> p \<Longrightarrow> nxt s p \<noteq> p \<Longrightarrow> nxt s p \<noteq> prv s p \<Longrightarrow>
      nxt (rem p s) = (nxt s)(prv s p := nxt s p, p := null)"
    and rem_prv: "ok s \<Longrightarrow> prv s p \<noteq> null \<Longrightarrow> prv s p \<noteq> p \<Longrightarrow> nxt s p \<noteq> p \<Longrightarrow> nxt s p \<noteq> prv s p \<Longrightarrow>
      prv (rem p s) = (if nxt s p = null then (prv s)(p := null)
                       else (prv s)(nxt s p := prv s p, p := null))"
begin

text \<open>\<open>path s p xs\<close>: following the pointers from \<open>p\<close> visits \<open>xs\<close>, with matching back pointers.\<close>

fun path :: "'st \<Rightarrow> 'p \<Rightarrow> 'p list \<Rightarrow> bool" where
  "path s p [] = True"
| "path s p (x # xs) = (nxt s p = x \<and> prv s x = p \<and> path s x xs)"

definition holds :: "'st \<Rightarrow> 'p list \<Rightarrow> bool" where
  "holds s xs \<longleftrightarrow> distinct (null # anchor # xs) \<and> path s anchor xs \<and>
     nxt s (last (anchor # xs)) = null \<and> (\<forall>x. x \<notin> set xs \<longrightarrow> prv s x = null)"

lemma path_same:
  assumes "nxt s' = nxt s" and "prv s' = prv s"
  shows "path s' p xs = path s p xs"
  by (induction xs arbitrary: p) (simp_all add: assms)

lemma holds_same:
  assumes "nxt s' = nxt s" and "prv s' = prv s"
  shows "holds s' xs = holds s xs"
  by (simp add: holds_def path_same [OF assms] assms)

lemma holds_distinct: "holds s xs \<Longrightarrow> distinct xs"
  by (simp add: holds_def)

lemma path_append: "path s p (xs @ ys) \<longleftrightarrow> path s p xs \<and> path s (last (p # xs)) ys"
  by (induction xs arbitrary: p) auto

lemma path_cong:
  assumes "path s p xs" and "\<And>q. q \<in> set (butlast (p # xs)) \<Longrightarrow> nxt s' q = nxt s q"
    and "\<And>q. q \<in> set xs \<Longrightarrow> prv s' q = prv s q"
  shows "path s' p xs"
  using assms
proof (induction xs arbitrary: p)
  case Nil
  then show ?case by simp
next
  case (Cons x xs)
  have "path s' x xs" by (rule Cons.IH) (use Cons.prems in \<open>auto split: if_splits\<close>)
  then show ?case using Cons.prems by (auto split: if_splits)
qed

lemma holds_member: "holds s xs \<Longrightarrow> p \<in> set xs \<longleftrightarrow> prv s p \<noteq> null"
proof -
  assume h: "holds s xs"
  have "prv s p \<in> set (q # ys)" if "path s q ys" and "p \<in> set ys" for q ys
    using that by (induction ys arbitrary: q) auto
  with h show ?thesis unfolding holds_def by (metis distinct.simps(2))
qed

lemma holds_ins:
  assumes ok: "ok s" and h: "holds s xs" and p: "p \<noteq> null" "p \<noteq> anchor"
  shows "holds (ins p s) (if p \<in> set xs then xs else p # xs)"
proof (cases "p \<in> set xs")
  case True
  then show ?thesis using holds_member [OF h] ins_present [OF ok] h by simp
next
  case False
  then have absent: "prv s p = null" using holds_member [OF h] by simp
  have fresh: "nxt s anchor \<noteq> p" "nxt s anchor \<noteq> anchor"
    using h False p null_anchor by (cases xs; auto simp: holds_def)+
  note n = ins_nxt [OF ok p absent fresh] and q = ins_prv [OF ok p absent fresh]
  show ?thesis
  proof (cases xs)
    case Nil
    then show ?thesis using h p False null_anchor by (auto simp: holds_def n q)
  next
    case (Cons x ys)
    then have x: "nxt s anchor = x" "x \<noteq> null" "x \<noteq> anchor" "path s x ys" and d: "distinct xs"
      and dis: "null \<notin> set xs" "anchor \<notin> set xs" using h by (auto simp: holds_def)
    have "path (ins p s) x ys"
    proof (rule path_cong [OF x(4)])
      fix r assume "r \<in> set (butlast (x # ys))"
      then have "r \<in> set xs" using Cons by (metis in_set_butlastD)
      then show "nxt (ins p s) r = nxt s r" using False dis by (auto simp: n)
    next
      fix r assume "r \<in> set ys"
      then show "prv (ins p s) r = prv s r" using d Cons False x by (auto simp: q)
    qed
    moreover have "nxt (ins p s) (last (anchor # p # xs)) = null"
      using h Cons False dis by (auto simp: n holds_def)
    ultimately show ?thesis
      using h Cons False p x by (auto simp: holds_def n q)
  qed
qed

text \<open>Taking \<open>p\<close> out: the paths before and after it join at \<open>l\<close>, its predecessor.\<close>

lemma path_bridge:
  assumes pre: "path s anchor ys" and post: "path s p zs"
    and dist: "distinct (null # anchor # ys @ p # zs)" and np: "nxt s p = (if zs = [] then null else hd zs)"
  defines "l \<equiv> last (anchor # ys)"
  assumes n: "nxt s' = (nxt s)(l := nxt s p, p := null)"
    and q: "prv s' = (if nxt s p = null then (prv s)(p := null) else (prv s)(nxt s p := l, p := null))"
  shows "path s' anchor (ys @ zs)"
proof -
  have l: "l \<in> set (anchor # ys)" unfolding l_def by (rule last_in_set) simp
  have hd_zs: "zs \<noteq> [] \<Longrightarrow> hd zs \<in> set zs" by simp
  have bl: "r \<noteq> l \<and> r \<in> set (anchor # ys)" if "r \<in> set (butlast (anchor # ys))" for r
  proof -
    have "butlast (anchor # ys) @ [l] = anchor # ys" unfolding l_def by (rule append_butlast_last_id) simp
    with dist have "distinct (butlast (anchor # ys) @ [l])" by simp
    with that show ?thesis using in_set_butlastD [OF that] by auto
  qed
  have "path s' anchor ys"
    by (rule path_cong [OF pre]) (use dist bl hd_zs in \<open>auto simp: n q np\<close>)
  moreover have "path s' l zs"
  proof (cases zs)
    case (Cons z ws)
    have "path s' z ws"
    proof (rule path_cong)
      show "path s z ws" using post Cons by simp
      fix r assume "r \<in> set (butlast (z # ws))"
      then have "r \<in> set zs" using Cons by (metis in_set_butlastD)
      with dist l show "nxt s' r = nxt s r" by (auto simp: n)
    next
      fix r assume "r \<in> set ws"
      with dist Cons show "prv s' r = prv s r" by (auto simp: q np)
    qed
    with Cons dist l show ?thesis by (auto simp: n q np)
  qed simp
  ultimately show ?thesis by (simp add: path_append l_def)
qed

lemma holds_rem:
  assumes ok: "ok s" and h: "holds s xs"
  shows "holds (rem p s) (remove1 p xs)"
proof (cases "p \<in> set xs")
  case False
  then show ?thesis using holds_member [OF h] rem_absent [OF ok] h by (simp add: remove1_idem)
next
  case True
  then obtain ys zs where xs: "xs = ys @ p # zs" and "p \<notin> set ys" by (meson split_list_first)
  define l where "l = last (anchor # ys)"
  have dist: "distinct (null # anchor # ys @ p # zs)" using h xs by (simp add: holds_def)
  have pre: "path s anchor ys" and pl: "prv s p = l" and post: "path s p zs"
    and fin: "nxt s (last (p # zs)) = null" and out: "\<And>x. x \<notin> set xs \<Longrightarrow> prv s x = null"
    using h by (auto simp: holds_def xs path_append l_def)
  have l: "l \<in> set (anchor # ys)" unfolding l_def by (rule last_in_set) simp
  have np: "nxt s p = (if zs = [] then null else hd zs)" using post fin by (cases zs) auto
  have hd_zs: "zs \<noteq> [] \<Longrightarrow> hd zs \<in> set zs" by simp
  have side: "prv s p \<noteq> null" "prv s p \<noteq> p" "nxt s p \<noteq> p" "nxt s p \<noteq> prv s p"
    using dist l hd_zs by (auto simp: pl np split: if_splits)
  note n = rem_nxt [OF ok side, unfolded pl] and q = rem_prv [OF ok side, unfolded pl]
  have "path (rem p s) anchor (ys @ zs)"
    by (rule path_bridge [OF pre post dist np n [unfolded l_def] q [unfolded l_def]])
  moreover have "nxt (rem p s) (last (anchor # ys @ zs)) = null"
  proof (cases "zs = []")
    case True
    then show ?thesis using np dist l by (auto simp: n l_def)
  next
    case False
    then have "last zs \<in> set zs" and "nxt s (last zs) = null" using fin by auto
    with False dist l show ?thesis by (auto simp: n)
  qed
  moreover have "prv (rem p s) x = null" if "x \<notin> set (ys @ zs)" for x
    using that out [of x] hd_zs by (auto simp: q np xs)
  moreover have "remove1 p xs = ys @ zs" using xs \<open>p \<notin> set ys\<close> by (simp add: remove1_append)
  ultimately show ?thesis using dist by (simp add: holds_def)
qed

end

section \<open>The two families are such lists\<close>

lemma node_at_put [simp]:
  "node_at (put_node k n st) k' = (if k' = k then n else node_at st k')"
  by (rule node.get_put_if) simp

lemma insert_address_ok:
  assumes "backend_ok s" and "p \<noteq> 0" and "p \<noteq> SENTINEL_ADDRESS"
  shows "linked_list_insert_address v p s = (Inr (),
    if n_aprev (node_at (store s) (v, p)) \<noteq> 0 then s
    else s\<lparr>store :=
      (let this = node_at (store s) (v, p); sen = node_at (store s) (v, SENTINEL_ADDRESS);
           x = n_anext sen;
           st = (if x = 0 then store s
                 else put_node (v, x) ((node_at (store s) (v, x))\<lparr>n_aprev := p\<rparr>) (store s))
       in put_node (v, SENTINEL_ADDRESS) (sen\<lparr>n_anext := p\<rparr>)
           (put_node (v, p) (this\<lparr>n_aprev := SENTINEL_ADDRESS, n_anext := x\<rparr>) st))\<rparr>)"
  using assms by (simp add: linked_list_insert_address_def bindc_apply Let_def)

lemma insert_val_id_ok:
  assumes "backend_ok s" and "v \<noteq> 0" and "v \<noteq> SENTINEL_VAL_ID"
  shows "linked_list_insert_val_id v a s = (Inr (),
    if n_iprev (node_at (store s) (v, a)) \<noteq> 0 then s
    else s\<lparr>store :=
      (let this = node_at (store s) (v, a); sen = node_at (store s) (SENTINEL_VAL_ID, a);
           x = n_inext sen;
           st = (if x = 0 then store s
                 else put_node (x, a) ((node_at (store s) (x, a))\<lparr>n_iprev := v\<rparr>) (store s))
       in put_node (SENTINEL_VAL_ID, a) (sen\<lparr>n_inext := v\<rparr>)
           (put_node (v, a) (this\<lparr>n_iprev := SENTINEL_VAL_ID, n_inext := x\<rparr>) st))\<rparr>)"
  using assms by (simp add: linked_list_insert_val_id_def bindc_apply Let_def)

lemma remove_address_ok:
  assumes "backend_ok s"
  shows "linked_list_remove_address v p s = (Inr (),
    if n_aprev (node_at (store s) (v, p)) = 0 then s
    else s\<lparr>store :=
      (let this = node_at (store s) (v, p); l = n_aprev this; x = n_anext this;
           st1 = put_node (v, l) ((node_at (store s) (v, l))\<lparr>n_anext := x\<rparr>) (store s);
           st2 = (if x = 0 then st1
                  else put_node (v, x) ((node_at st1 (v, x))\<lparr>n_aprev := l\<rparr>) st1)
       in put_node (v, p) (this\<lparr>n_aprev := 0, n_anext := 0\<rparr>) st2)\<rparr>)"
  using assms by (simp add: linked_list_remove_address_def bindc_apply Let_def)

lemma remove_val_id_ok:
  assumes "backend_ok s"
  shows "linked_list_remove_val_id v a s = (Inr (),
    if n_iprev (node_at (store s) (v, a)) = 0 then s
    else s\<lparr>store :=
      (let this = node_at (store s) (v, a); l = n_iprev this; x = n_inext this;
           st1 = put_node (l, a) ((node_at (store s) (l, a))\<lparr>n_inext := x\<rparr>) (store s);
           st2 = (if x = 0 then st1
                  else put_node (x, a) ((node_at st1 (x, a))\<lparr>n_iprev := l\<rparr>) st1)
       in put_node (v, a) (this\<lparr>n_iprev := 0, n_inext := 0\<rparr>) st2)\<rparr>)"
  using assms by (simp add: linked_list_remove_val_id_def bindc_apply Let_def)

lemma insert_present:
  "backend_ok s \<Longrightarrow> n_aprev (node_at (store s) (v, p)) \<noteq> 0 \<Longrightarrow>
     snd (linked_list_insert_address v p s) = s"
  "backend_ok s \<Longrightarrow> n_iprev (node_at (store s) (v, a)) \<noteq> 0 \<Longrightarrow>
     snd (linked_list_insert_val_id v a s) = s"
  by (simp_all add: linked_list_insert_address_def linked_list_insert_val_id_def bindc_apply)

text \<open>The delegators of validator \<open>v\<close>.\<close>

interpretation delegators: linked_list backend_ok
  "\<lambda>s a. n_anext (node_at (store s) (v, a))" "\<lambda>s a. n_aprev (node_at (store s) (v, a))"
  0 SENTINEL_ADDRESS
  "\<lambda>p s. snd (linked_list_insert_address v p s)" "\<lambda>p s. snd (linked_list_remove_address v p s)"
  for v
  by unfold_locales
    (auto simp: insert_address_ok remove_address_ok insert_present Let_def fun_eq_iff)

text \<open>The validators of delegator \<open>a\<close>.\<close>

interpretation delegations: linked_list backend_ok
  "\<lambda>s v. n_inext (node_at (store s) (v, a))" "\<lambda>s v. n_iprev (node_at (store s) (v, a))"
  0 SENTINEL_VAL_ID
  "\<lambda>v s. snd (linked_list_insert_val_id v a s)" "\<lambda>v s. snd (linked_list_remove_val_id v a s)"
  for a
  by unfold_locales
    (auto simp: insert_val_id_ok remove_val_id_ok insert_present Let_def fun_eq_iff)

section \<open>Both families at once\<close>

definition delegator_list :: "host \<Rightarrow> u64 \<Rightarrow> address list \<Rightarrow> bool" where
  "delegator_list s v xs = delegators.holds v s xs"

definition delegation_list :: "host \<Rightarrow> address \<Rightarrow> u64 list \<Rightarrow> bool" where
  "delegation_list s a vs = delegations.holds a s vs"

text \<open>The pointers represent the lists \<open>D v\<close> of delegators and \<open>V a\<close> of validators, and the two
  families agree on who delegates to whom.\<close>

definition links :: "host \<Rightarrow> (u64 \<Rightarrow> address list) \<Rightarrow> (address \<Rightarrow> u64 list) \<Rightarrow> bool" where
  "links s D V \<longleftrightarrow> (\<forall>v. delegator_list s v (D v)) \<and> (\<forall>a. delegation_list s a (V a)) \<and>
     (\<forall>v a. a \<in> set (D v) \<longleftrightarrow> v \<in> set (V a))"

definition insert_once :: "'a \<Rightarrow> 'a list \<Rightarrow> 'a list" where
  "insert_once x xs = (if x \<in> set xs then xs else x # xs)"

lemma set_insert_once [simp]: "set (insert_once x xs) = insert x (set xs)"
  by (auto simp: insert_once_def)

text \<open>The lists depend on their own pointers only.\<close>

definition same_a :: "u64 set \<Rightarrow> host \<Rightarrow> host \<Rightarrow> bool" where
  "same_a W s t \<longleftrightarrow> (\<forall>v a. v \<in> W \<longrightarrow>
     n_anext (node_at (store t) (v, a)) = n_anext (node_at (store s) (v, a)) \<and>
     n_aprev (node_at (store t) (v, a)) = n_aprev (node_at (store s) (v, a)))"

definition same_i :: "address set \<Rightarrow> host \<Rightarrow> host \<Rightarrow> bool" where
  "same_i A s t \<longleftrightarrow> (\<forall>v a. a \<in> A \<longrightarrow>
     n_inext (node_at (store t) (v, a)) = n_inext (node_at (store s) (v, a)) \<and>
     n_iprev (node_at (store t) (v, a)) = n_iprev (node_at (store s) (v, a)))"

lemma delegator_list_same: "same_a W s t \<Longrightarrow> v \<in> W \<Longrightarrow> delegator_list t v xs = delegator_list s v xs"
  unfolding delegator_list_def by (rule delegators.holds_same) (auto simp: same_a_def fun_eq_iff)

lemma delegation_list_same: "same_i A s t \<Longrightarrow> a \<in> A \<Longrightarrow> delegation_list t a xs = delegation_list s a xs"
  unfolding delegation_list_def by (rule delegations.holds_same) (auto simp: same_i_def fun_eq_iff)

lemma address_ops_frame:
  assumes "backend_ok s"
  shows "same_i UNIV s (snd (linked_list_insert_address v p s))"
    and "same_a (- {v}) s (snd (linked_list_insert_address v p s))"
    and "same_i UNIV s (snd (linked_list_remove_address v p s))"
    and "same_a (- {v}) s (snd (linked_list_remove_address v p s))"
  using assms
  by (auto simp: linked_list_insert_address_def linked_list_remove_address_def bindc_apply Let_def
      same_i_def same_a_def)

lemma val_id_ops_frame:
  assumes "backend_ok s"
  shows "same_a UNIV s (snd (linked_list_insert_val_id v a s))"
    and "same_i (- {a}) s (snd (linked_list_insert_val_id v a s))"
    and "same_a UNIV s (snd (linked_list_remove_val_id v a s))"
    and "same_i (- {a}) s (snd (linked_list_remove_val_id v a s))"
  using assms
  by (auto simp: linked_list_insert_val_id_def linked_list_remove_val_id_def bindc_apply Let_def
      same_i_def same_a_def)

lemma insert_links:
  assumes ok: "backend_ok s" and links: "links s D V"
    and v: "v \<noteq> 0" "v \<noteq> SENTINEL_VAL_ID" and a: "a \<noteq> 0" "a \<noteq> SENTINEL_ADDRESS"
  shows "\<exists>t. linked_list_insert v a s = (Inr (), t) \<and>
    links t (D(v := insert_once a (D v))) (V(a := insert_once v (V a)))"
proof -
  define s1 where "s1 = snd (linked_list_insert_address v a s)"
  define s2 where "s2 = snd (linked_list_insert_val_id v a s1)"
  have 1: "linked_list_insert_address v a s = (Inr (), s1)"
    using insert_address_ok [OF ok a] by (simp add: s1_def)
  have ok1: "backend_ok s1" using ok insert_address_ok [OF ok a] by (simp add: s1_def)
  have 2: "linked_list_insert_val_id v a s1 = (Inr (), s2)"
    using insert_val_id_ok [OF ok1 v] by (simp add: s2_def)
  have D: "delegator_list s w (D w)" and V: "delegation_list s b (V b)" for w b
    using links by (auto simp: links_def)
  note f1 = address_ops_frame(1,2) [OF ok, where v = v and p = a, folded s1_def]
  note f2 = val_id_ops_frame(1,2) [OF ok1, where v = v and a = a, folded s2_def]
  have "delegator_list s1 v (insert_once a (D v))"
    using delegators.holds_ins [OF ok D [unfolded delegator_list_def] a, of v]
    by (simp add: insert_once_def delegator_list_def s1_def)
  then have "delegator_list s2 v (insert_once a (D v))"
    by (simp add: delegator_list_same [OF f2(1)])
  moreover have "delegator_list s2 w (D w)" if "w \<noteq> v" for w
    using that D [of w] by (simp add: delegator_list_same [OF f2(1)] delegator_list_same [OF f1(2)])
  moreover have "delegation_list s1 b (V b)" for b
    using V [of b] by (simp add: delegation_list_same [OF f1(1)])
  then have "delegation_list s2 a (insert_once v (V a))"
    and "\<And>b. b \<noteq> a \<Longrightarrow> delegation_list s2 b (V b)"
    using delegations.holds_ins [OF ok1 _ v, of a "V a"]
    by (simp_all add: delegation_list_same [OF f2(2)])
      (simp_all add: insert_once_def delegation_list_def s2_def)
  ultimately have "links s2 (D(v := insert_once a (D v))) (V(a := insert_once v (V a)))"
    using links by (auto simp: links_def)
  moreover have "linked_list_insert v a s = (Inr (), s2)"
    by (simp add: linked_list_insert_def bindc_apply 1 2)
  ultimately show ?thesis by blast
qed

lemma remove_links:
  assumes ok: "backend_ok s" and links: "links s D V"
  shows "\<exists>t. linked_list_remove v a s = (Inr (), t) \<and>
    links t (D(v := remove1 a (D v))) (V(a := remove1 v (V a)))"
proof -
  define s1 where "s1 = snd (linked_list_remove_address v a s)"
  define s2 where "s2 = snd (linked_list_remove_val_id v a s1)"
  have 1: "linked_list_remove_address v a s = (Inr (), s1)"
    using remove_address_ok [OF ok] by (simp add: s1_def)
  have ok1: "backend_ok s1" using ok remove_address_ok [OF ok] by (simp add: s1_def)
  have 2: "linked_list_remove_val_id v a s1 = (Inr (), s2)"
    using remove_val_id_ok [OF ok1] by (simp add: s2_def)
  have D: "delegator_list s w (D w)" and V: "delegation_list s b (V b)" for w b
    using links by (auto simp: links_def)
  have dist: "distinct (D w)" "distinct (V b)" for w b
    using delegators.holds_distinct [OF D [unfolded delegator_list_def]]
      delegations.holds_distinct [OF V [unfolded delegation_list_def]] by blast+
  note f1 = address_ops_frame(3,4) [OF ok, where v = v and p = a, folded s1_def]
  note f2 = val_id_ops_frame(3,4) [OF ok1, where v = v and a = a, folded s2_def]
  have "delegator_list s1 v (remove1 a (D v))"
    using delegators.holds_rem [OF ok D [unfolded delegator_list_def], of v a]
    by (simp add: delegator_list_def s1_def)
  then have "delegator_list s2 v (remove1 a (D v))"
    by (simp add: delegator_list_same [OF f2(1)])
  moreover have "delegator_list s2 w (D w)" if "w \<noteq> v" for w
    using that D [of w] by (simp add: delegator_list_same [OF f2(1)] delegator_list_same [OF f1(2)])
  moreover have "delegation_list s1 b (V b)" for b
    using V [of b] by (simp add: delegation_list_same [OF f1(1)])
  then have "delegation_list s2 a (remove1 v (V a))"
    and "\<And>b. b \<noteq> a \<Longrightarrow> delegation_list s2 b (V b)"
    using delegations.holds_rem [OF ok1, of a "V a" v]
    by (simp_all add: delegation_list_same [OF f2(2)])
      (simp_all add: delegation_list_def s2_def)
  ultimately have "links s2 (D(v := remove1 a (D v))) (V(a := remove1 v (V a)))"
    using links dist by (auto simp: links_def)
  moreover have "linked_list_remove v a s = (Inr (), s2)"
    by (simp add: linked_list_remove_def bindc_apply 1 2)
  ultimately show ?thesis by blast
qed

section \<open>Frames\<close>

context host_relation
begin

lemma host_linked_list [frame_intros]:
  "preserves R (linked_list_insert v a)"
  "preserves R (linked_list_remove v a)"
  unfolding linked_list_defs Let_def by (intro pres_intros pres_case_prod pres_case_sum frame_intros)+

end

lemma linked_list_frames [frame_intros]:
  "preserves same_balances (linked_list_insert v a)"
  "preserves same_balances (linked_list_remove v a)"
  unfolding linked_list_defs Let_def by (intro pres_all frame_intros)+

definition all_node_cells :: "cell_id set" where
  "all_node_cells = {CDelegator v a j | v a j. j = 6 \<or> j = 7}"

lemma node_cells_le: "all_node_cells \<subseteq> F \<Longrightarrow> node_cells k \<subseteq> F"
  by (auto simp: node_cells_def all_node_cells_def)

lemma linked_list_touches [frame_intros]:
  "all_node_cells \<subseteq> F \<Longrightarrow> preserves (touches F) (linked_list_insert v a)"
  "all_node_cells \<subseteq> F \<Longrightarrow> preserves (touches F) (linked_list_remove v a)"
  unfolding linked_list_defs Let_def by (intro pres_all frame_intros node_cells_le; assumption)+

lemma links_nodes:
  assumes "\<And>k. node_at (store t) k = node_at (store s) k"
  shows "links t D V = links s D V"
proof -
  have "same_a UNIV s t" "same_i UNIV s t" using assms by (simp_all add: same_a_def same_i_def)
  then show ?thesis by (simp add: links_def delegator_list_same delegation_list_same)
qed

lemma links_touches:
  assumes t: "touches F s t" and "F \<inter> all_node_cells = {}"
  shows "links t D V = links s D V"
  using assms(2) node_cells_le [of all_node_cells]
  by (intro links_nodes touches_views(3) [OF t]) blast

section \<open>Properties\<close>

lemma node_at_empty: "node_at (\<lambda>_. 0) k = \<lparr>n_inext = 0, n_iprev = 0, n_anext = 0, n_aprev = 0\<rparr>"
proof -
  have "replicate 16 0 @ replicate 4 (0 :: u8) = replicate 20 0" by (simp flip: replicate_add)
  then show ?thesis by (cases k) (simp add: node_at_def from_slots_def to_be_bytes_zero)
qed

lemma links_empty: "links (host_of []) (\<lambda>_. []) (\<lambda>_. [])"
  using sentinel_nonzero
  by (auto simp: links_def delegator_list_def delegation_list_def delegators.holds_def
      delegations.holds_def node_at_empty)

text \<open>C23: linked_list_insert puts a new pair at the head of both of its lists, leaves a pair that
  is already linked where it is, and keeps every other list; the two families stay well-formed
  doubly linked lists that agree with each other.\<close>

theorem linked_list_insert_lists:
  assumes "backend_ok s" and "links s D V"
    and "v \<noteq> 0" and "v \<noteq> SENTINEL_VAL_ID" and "a \<noteq> 0" and "a \<noteq> SENTINEL_ADDRESS"
  shows "\<exists>t. linked_list_insert v a s = (Inr (), t) \<and>
    links t (D(v := insert_once a (D v))) (V(a := insert_once v (V a)))"
  using assms by (rule insert_links)

theorem linked_list_insert_lists_witness:
  "\<exists>t. linked_list_insert 1 8 (host_of []) = (Inr (), t) \<and>
    links t ((\<lambda>_. [])(1 := [8])) ((\<lambda>_. [])(8 := [1]))"
  using linked_list_insert_lists [OF backend_ok_host_of links_empty, of 1 8]
  by (simp add: insert_once_def SENTINEL_VAL_ID_def SENTINEL_ADDRESS_max)

text \<open>C24: linked_list_remove takes the pair out of both of its lists, is a no-op for a pair that is
  not linked, and keeps the order of what remains and every other list.\<close>

theorem linked_list_remove_lists:
  assumes "backend_ok s" and "links s D V"
  shows "\<exists>t. linked_list_remove v a s = (Inr (), t) \<and>
    links t (D(v := remove1 a (D v))) (V(a := remove1 v (V a)))"
  using assms by (rule remove_links)

lemma links_example:
  "\<exists>s. backend_ok s \<and> links s ((\<lambda>_. [])(1 := [9, 8])) ((\<lambda>_. [])(8 := [1], 9 := [1]))"
proof -
  note sent = SENTINEL_VAL_ID_def SENTINEL_ADDRESS_max
  obtain s1 where 1: "linked_list_insert 1 8 (host_of []) = (Inr (), s1)"
    and l1: "links s1 ((\<lambda>_. [])(1 := [8])) ((\<lambda>_. [])(8 := [1]))"
    using insert_links [OF backend_ok_host_of links_empty, of 1 8]
    by (auto simp: insert_once_def sent)
  have ok1: "backend_ok s1"
    using same_env_backend [OF preservesD [OF env.host_linked_list(1) 1]] by simp
  obtain s2 where 2: "linked_list_insert 1 9 s1 = (Inr (), s2)"
    and l2: "links s2 ((\<lambda>_. [])(1 := [9, 8])) ((\<lambda>_. [])(8 := [1], 9 := [1]))"
    using insert_links [OF ok1 l1, of 1 9] by (auto simp: insert_once_def sent)
  have "backend_ok s2"
    using same_env_backend [OF preservesD [OF env.host_linked_list(1) 2]] ok1 by simp
  with l2 show ?thesis by blast
qed

theorem linked_list_remove_lists_witness:
  "\<exists>s t. backend_ok s \<and> links s ((\<lambda>_. [])(1 := [9, 8])) ((\<lambda>_. [])(8 := [1], 9 := [1])) \<and>
    linked_list_remove 1 8 s = (Inr (), t) \<and>
    links t ((\<lambda>_. [])(1 := [9])) ((\<lambda>_. [])(8 := [], 9 := [1]))"
proof -
  obtain s where s: "backend_ok s"
    "links s ((\<lambda>_. [])(1 := [9, 8])) ((\<lambda>_. [])(8 := [1], 9 := [1]))"
    using links_example by blast
  then show ?thesis
    using linked_list_remove_lists [OF s, of 1 8] by (force simp: fun_upd_twist)
qed

end
