(* ===== verification/Abi.thy ===== *)
theory Abi
  imports Host
begin

text \<open>
  The ABI of the staking precompile (\<open>staking/interface.rs\<close>). The decoders, encoders, event
  hashes and the Display text of errors are generated by alloy's \<open>sol!\<close> macro or belong to revm:
  they are the fields of the record \<open>abi\<close>, a parameter of the handlers about which nothing is
  assumed. The selectors are the values the README tables list for the same signatures.
\<close>

section \<open>Selectors\<close>

type_synonym selector = bytes

definition SEL_getEpoch :: selector where "SEL_getEpoch = [0x75, 0x79, 0x91, 0xa8]"
definition SEL_getProposerValId :: selector where "SEL_getProposerValId = [0xfb, 0xac, 0xb0, 0xbe]"
definition SEL_getValidator :: selector where "SEL_getValidator = [0x2b, 0x6d, 0x63, 0x9a]"
definition SEL_getDelegator :: selector where "SEL_getDelegator = [0x57, 0x3c, 0x1c, 0xe0]"
definition SEL_getWithdrawalRequest :: selector where
  "SEL_getWithdrawalRequest = [0x56, 0xfa, 0x20, 0x45]"
definition SEL_getConsensusValidatorSet :: selector where
  "SEL_getConsensusValidatorSet = [0xfb, 0x29, 0xb7, 0x29]"
definition SEL_getSnapshotValidatorSet :: selector where
  "SEL_getSnapshotValidatorSet = [0xde, 0x66, 0xa3, 0x68]"
definition SEL_getExecutionValidatorSet :: selector where
  "SEL_getExecutionValidatorSet = [0x7c, 0xb0, 0x74, 0xdf]"
definition SEL_getDelegations :: selector where "SEL_getDelegations = [0x4f, 0xd6, 0x60, 0x50]"
definition SEL_getDelegators :: selector where "SEL_getDelegators = [0xa0, 0x84, 0x3a, 0x26]"
definition SEL_addValidator :: selector where "SEL_addValidator = [0xf1, 0x45, 0x20, 0x4c]"
definition SEL_delegate :: selector where "SEL_delegate = [0x84, 0x99, 0x4f, 0xec]"
definition SEL_undelegate :: selector where "SEL_undelegate = [0x5c, 0xf4, 0x15, 0x14]"
definition SEL_withdraw :: selector where "SEL_withdraw = [0xae, 0xd2, 0xee, 0x73]"
definition SEL_compound :: selector where "SEL_compound = [0xb3, 0x4f, 0xea, 0x67]"
definition SEL_claimRewards :: selector where "SEL_claimRewards = [0xa7, 0x6e, 0x2c, 0xa5]"
definition SEL_changeCommission :: selector where "SEL_changeCommission = [0x9b, 0xdc, 0xc3, 0xc8]"
definition SEL_externalReward :: selector where "SEL_externalReward = [0xe4, 0xb3, 0x30, 0x3b]"
definition SEL_syscallReward :: selector where "SEL_syscallReward = [0x79, 0x1b, 0xdc, 0xf3]"
definition SEL_syscallSnapshot :: selector where "SEL_syscallSnapshot = [0x15, 0x7e, 0xeb, 0x21]"
definition SEL_syscallOnEpochChange :: selector where
  "SEL_syscallOnEpochChange = [0x1d, 0x4e, 0x9f, 0x02]"

lemmas selector_defs = SEL_getEpoch_def SEL_getProposerValId_def SEL_getValidator_def
  SEL_getDelegator_def SEL_getWithdrawalRequest_def SEL_getConsensusValidatorSet_def
  SEL_getSnapshotValidatorSet_def SEL_getExecutionValidatorSet_def SEL_getDelegations_def
  SEL_getDelegators_def SEL_addValidator_def SEL_delegate_def SEL_undelegate_def SEL_withdraw_def
  SEL_compound_def SEL_claimRewards_def SEL_changeCommission_def SEL_externalReward_def
  SEL_syscallReward_def SEL_syscallSnapshot_def SEL_syscallOnEpochChange_def

definition all_selectors :: "selector list" where
  "all_selectors = [SEL_getEpoch, SEL_getProposerValId, SEL_getValidator, SEL_getDelegator,
     SEL_getWithdrawalRequest, SEL_getConsensusValidatorSet, SEL_getSnapshotValidatorSet,
     SEL_getExecutionValidatorSet, SEL_getDelegations, SEL_getDelegators, SEL_addValidator,
     SEL_delegate, SEL_undelegate, SEL_withdraw, SEL_compound, SEL_claimRewards,
     SEL_changeCommission, SEL_externalReward, SEL_syscallReward, SEL_syscallSnapshot,
     SEL_syscallOnEpochChange]"

lemma distinct_selectors: "distinct all_selectors"
  by (simp add: all_selectors_def selector_defs)

section \<open>Generated coders\<close>

datatype event_kind =
    EvClaimRewards | EvCommissionChanged | EvDelegate | EvEpochChanged | EvUndelegate
  | EvValidatorCreated | EvValidatorRewarded | EvValidatorStatusChanged | EvWithdraw

text \<open>The fields of getValidatorReturn beyond those of the validator itself.\<close>

record validator_views =
  vv_consensus_stake :: u256
  vv_consensus_commission :: u256
  vv_snapshot_stake :: u256
  vv_snapshot_commission :: u256

record abi =
  dec_addValidator :: "bytes \<Rightarrow> string + bytes \<times> bytes \<times> bytes"
  dec_delegate :: "bytes \<Rightarrow> string + u64"
  dec_undelegate :: "bytes \<Rightarrow> string + u64 \<times> u256 \<times> u8"
  dec_withdraw :: "bytes \<Rightarrow> string + u64 \<times> u8"
  dec_compound :: "bytes \<Rightarrow> string + u64"
  dec_claimRewards :: "bytes \<Rightarrow> string + u64"
  dec_changeCommission :: "bytes \<Rightarrow> string + u64 \<times> u256"
  dec_externalReward :: "bytes \<Rightarrow> string + u64"
  dec_syscallReward :: "bytes \<Rightarrow> string + address"
  dec_syscallOnEpochChange :: "bytes \<Rightarrow> string + u64"
  dec_getValidator :: "bytes \<Rightarrow> string + u64"
  dec_getDelegator :: "bytes \<Rightarrow> string + u64 \<times> address"
  dec_getWithdrawalRequest :: "bytes \<Rightarrow> string + u64 \<times> address \<times> u8"
  dec_getConsensusValidatorSet :: "bytes \<Rightarrow> string + u32"
  dec_getDelegations :: "bytes \<Rightarrow> string + address \<times> u64"
  dec_getDelegators :: "bytes \<Rightarrow> string + u64 \<times> address"
  enc_bool :: "bool \<Rightarrow> bytes"
  enc_u64 :: "u64 \<Rightarrow> bytes"
  enc_getEpoch :: "EpochInfo \<Rightarrow> bytes"
  enc_getValidator :: "Validator \<Rightarrow> validator_views \<Rightarrow> bytes"
  enc_getDelegator :: "Delegator \<Rightarrow> bytes"
  enc_getWithdrawalRequest :: "WithdrawalRequest \<Rightarrow> bytes"
  enc_validatorSet :: "bool \<times> u32 \<times> u64 list \<Rightarrow> bytes"
  enc_getDelegations :: "bool \<times> u64 \<times> u64 list \<Rightarrow> bytes"
  enc_getDelegators :: "bool \<times> address \<times> address list \<Rightarrow> bytes"
  signature_hash :: "event_kind \<Rightarrow> u256"
  display_error :: "precompile_error \<Rightarrow> bytes"

text \<open>\<open>abi_decode_raw(..).map_err(..)?\<close>\<close>

definition decode_call :: "(bytes \<Rightarrow> string + 'c) \<Rightarrow> bytes \<Rightarrow> ('s, 'c) comp" where
  "decode_call dec input = (case dec (drop 4 input) of
       Inl e \<Rightarrow> throw (Other (''Invalid input: '' @ e))
     | Inr c \<Rightarrow> ret c)"

text \<open>Topics and data words of the events.\<close>

definition topic_u64 :: "u64 \<Rightarrow> u256" where
  "topic_u64 v = ucast v"

definition topic_address :: "address \<Rightarrow> u256" where
  "topic_address a = from_be_bytes (to_be_bytes 20 a)"

definition word_data :: "u256 \<Rightarrow> bytes" where
  "word_data x = to_be_bytes 32 x"

lemma decode_call_Inr [simp]:
  "dec (drop 4 input) = Inr c \<Longrightarrow> decode_call dec input = ret c"
  by (simp add: decode_call_def)

section \<open>A concrete coder\<close>

text \<open>An instance of the parameter for the witnesses: static arguments in 32-byte words, results
  as words, event kinds numbered. The dynamic arguments of addValidator are laid out flat.\<close>

definition arg_word :: "nat \<Rightarrow> bytes \<Rightarrow> 'a::len word" where
  "arg_word i bs = from_be_bytes (take 32 (drop (32 * i) bs))"

fun event_number :: "event_kind \<Rightarrow> u256" where
  "event_number EvClaimRewards = 1" | "event_number EvCommissionChanged = 2"
| "event_number EvDelegate = 3" | "event_number EvEpochChanged = 4"
| "event_number EvUndelegate = 5" | "event_number EvValidatorCreated = 6"
| "event_number EvValidatorRewarded = 7" | "event_number EvValidatorStatusChanged = 8"
| "event_number EvWithdraw = 9"

definition word_abi :: abi where
  "word_abi = \<lparr>
     dec_addValidator = (\<lambda>bs. Inr (bs, [], [])),
     dec_delegate = (\<lambda>bs. Inr (arg_word 0 bs)),
     dec_undelegate = (\<lambda>bs. Inr (arg_word 0 bs, arg_word 1 bs, arg_word 2 bs)),
     dec_withdraw = (\<lambda>bs. Inr (arg_word 0 bs, arg_word 1 bs)),
     dec_compound = (\<lambda>bs. Inr (arg_word 0 bs)),
     dec_claimRewards = (\<lambda>bs. Inr (arg_word 0 bs)),
     dec_changeCommission = (\<lambda>bs. Inr (arg_word 0 bs, arg_word 1 bs)),
     dec_externalReward = (\<lambda>bs. Inr (arg_word 0 bs)),
     dec_syscallReward = (\<lambda>bs. Inr (arg_word 0 bs)),
     dec_syscallOnEpochChange = (\<lambda>bs. Inr (arg_word 0 bs)),
     dec_getValidator = (\<lambda>bs. Inr (arg_word 0 bs)),
     dec_getDelegator = (\<lambda>bs. Inr (arg_word 0 bs, arg_word 1 bs)),
     dec_getWithdrawalRequest = (\<lambda>bs. Inr (arg_word 0 bs, arg_word 1 bs, arg_word 2 bs)),
     dec_getConsensusValidatorSet = (\<lambda>bs. Inr (arg_word 0 bs)),
     dec_getDelegations = (\<lambda>bs. Inr (arg_word 0 bs, arg_word 1 bs)),
     dec_getDelegators = (\<lambda>bs. Inr (arg_word 0 bs, arg_word 1 bs)),
     enc_bool = (\<lambda>b. word_data (if b then 1 else 0)),
     enc_u64 = (\<lambda>v. word_data (ucast v)),
     enc_getEpoch = (\<lambda>i. word_data (ucast (ei_epoch i))),
     enc_getValidator = (\<lambda>v w. word_data (v_stake v)),
     enc_getDelegator = (\<lambda>d. word_data (d_stake d) @ word_data (d_acc d) @ word_data (d_rewards d)),
     enc_getWithdrawalRequest = (\<lambda>q. word_data (wr_amount q)),
     enc_validatorSet = (\<lambda>(_, n, _). word_data (ucast n)),
     enc_getDelegations = (\<lambda>(_, n, _). word_data (ucast n)),
     enc_getDelegators = (\<lambda>(_, n, _). word_data (ucast n)),
     signature_hash = event_number,
     display_error = (\<lambda>_. [])\<rparr>"

lemma word_abi_decoders [simp]:
  "dec_addValidator word_abi bs = Inr (bs, [], [])"
  "dec_delegate word_abi bs = Inr (arg_word 0 bs)"
  "dec_undelegate word_abi bs = Inr (arg_word 0 bs, arg_word 1 bs, arg_word 2 bs)"
  "dec_withdraw word_abi bs = Inr (arg_word 0 bs, arg_word 1 bs)"
  "dec_compound word_abi bs = Inr (arg_word 0 bs)"
  "dec_claimRewards word_abi bs = Inr (arg_word 0 bs)"
  "dec_changeCommission word_abi bs = Inr (arg_word 0 bs, arg_word 1 bs)"
  "dec_externalReward word_abi bs = Inr (arg_word 0 bs)"
  "dec_syscallReward word_abi bs = Inr (arg_word 0 bs)"
  "dec_syscallOnEpochChange word_abi bs = Inr (arg_word 0 bs)"
  "dec_getDelegator word_abi bs = Inr (arg_word 0 bs, arg_word 1 bs)"
  by (simp_all add: word_abi_def)

text \<open>Call data with these words as arguments (the selector does not matter to a handler).\<close>

definition call_data :: "selector \<Rightarrow> u256 list \<Rightarrow> bytes" where
  "call_data sel ws = sel @ concat (map word_data ws)"

lemma length_word_data [simp]: "length (word_data w) = 32"
  by (simp add: word_data_def)

lemma from_word_data [simp]: "from_be_bytes (word_data w) = (ucast w :: 'a::len word)"
proof -
  have "unat w < 256 ^ 32" using unat_lt2p [of w] by simp
  then have "be_nat (word_data w) = unat w" by (simp add: word_data_def be_nat_to_be_bytes)
  then show ?thesis by (simp add: from_be_bytes_def)
qed

lemma arg_words [simp]:
  "arg_word 0 (word_data x @ bs) = ucast x"
  "arg_word (Suc 0) (word_data x @ word_data y @ bs) = ucast y"
  "arg_word 2 (word_data x @ word_data y @ word_data z @ bs) = ucast z"
  "arg_word 0 (word_data x) = ucast x"
  "arg_word (Suc 0) (word_data x @ word_data y) = ucast y"
  "arg_word 2 (word_data x @ word_data y @ word_data z) = ucast z"
  by (simp_all add: arg_word_def)

lemma length_selectors [simp]:
  "length SEL_delegate = 4" "length SEL_undelegate = 4" "length SEL_withdraw = 4"
  "length SEL_compound = 4" "length SEL_claimRewards = 4" "length SEL_addValidator = 4"
  "length SEL_changeCommission = 4" "length SEL_externalReward = 4" "length SEL_getDelegator = 4"
  "length SEL_syscallReward = 4" "length SEL_syscallSnapshot = 4"
  "length SEL_syscallOnEpochChange = 4"
  by (simp_all add: selector_defs)

lemma drop_call_data [simp]: "length sel = 4 \<Longrightarrow> drop 4 (call_data sel ws) = concat (map word_data ws)"
  by (simp add: call_data_def)

end
