(* ===== verification/Valset.thy ===== *)
theory Valset
  imports Delegation LinkedLists Abi
begin

text \<open>
  The execution validator set (bitset and array), the validator flags and \<open>internal_delegate\<close>,
  the part of \<open>staking/write.rs\<close> that delegate, compound and addValidator share.
\<close>

section \<open>Model\<close>

definition add_to_valset :: "u64 \<Rightarrow> bool action" where
  "add_to_valset val_id =
     (let bucket_key = bitset_bucket_key val_id in
      bindc (read_u256 bucket_key) (\<lambda>set.
      let bit = and val_id 0xFF;
          mask = push_bit (unat bit) (1 :: u256);
          inserted = (and set mask = 0);
          new_set = or set mask in
      seqc (write_storage_u256 bucket_key new_set)
      (seqc (if inserted
             then bindc (read_u64 VALSET_EXECUTION) (\<lambda>len.
                  seqc (write_storage_u64 (VALSET_EXECUTION + ucast (1 + len)) val_id)
                  (write_storage_u64 VALSET_EXECUTION (len + 1)))
             else ret ())
      (ret inserted))))"

definition remove_from_valset :: "u64 \<Rightarrow> unit action" where
  "remove_from_valset val_id =
     (let bucket_key = bitset_bucket_key val_id in
      bindc (read_u256 bucket_key) (\<lambda>set.
      let bit = and val_id 0xFF;
          mask = not (push_bit (unat bit) (1 :: u256));
          new_set = and set mask in
      write_storage_u256 bucket_key new_set))"

definition emit_status_changed :: "abi \<Rightarrow> u64 \<Rightarrow> u64 \<Rightarrow> unit action" where
  "emit_status_changed A val_id flags =
     emit_event [signature_hash A EvValidatorStatusChanged, topic_u64 val_id]
       (word_data (ucast flags))"

definition update_validator_flags_after_delegate ::
    "abi \<Rightarrow> u64 \<Rightarrow> Validator \<Rightarrow> Delegator \<Rightarrow> address \<Rightarrow> u64 action" where
  "update_validator_flags_after_delegate A val_id val del caller =
     (let flags = v_flags val;
          flags = (if ACTIVE_VALIDATOR_STAKE \<le> v_stake val
                   then and flags (not FLAG_STAKE_TOO_LOW) else flags);
          flags = (if caller = v_auth_address val \<and> MIN_AUTH_ADDRESS_STAKE \<le> total_stake del
                   then and flags (not FLAG_WITHDRAWN) else flags) in
      seqc (if flags \<noteq> v_flags val
            then seqc (write_validator_flags val_id val flags) (emit_status_changed A val_id flags)
            else ret ())
      (ret flags))"

definition update_validator_flags_after_undelegate ::
    "abi \<Rightarrow> u64 \<Rightarrow> Validator \<Rightarrow> Delegator \<Rightarrow> address \<Rightarrow> u64 action" where
  "update_validator_flags_after_undelegate A val_id val del caller =
     (let flags = v_flags val;
          flags = (if v_stake val < ACTIVE_VALIDATOR_STAKE
                   then or flags FLAG_STAKE_TOO_LOW else flags);
          flags = (if caller = v_auth_address val \<and> total_stake del < MIN_AUTH_ADDRESS_STAKE
                   then or flags FLAG_WITHDRAWN else flags) in
      seqc (if flags \<noteq> v_flags val
            then seqc (write_validator_flags val_id val flags) (emit_status_changed A val_id flags)
            else ret ())
      (ret flags))"

text \<open>The block "Add to appropriate delta track" of internal_delegate.\<close>

definition credit_delta_track ::
    "u64 \<Rightarrow> address \<Rightarrow> u256 \<Rightarrow> bool \<Rightarrow> u64 \<Rightarrow> Delegator \<Rightarrow> Delegator action" where
  "credit_delta_track val_id caller amount in_boundary activation_epoch del =
     (if in_boundary
      then let need_acc = (d_next_delta_epoch del = 0) in
           bindc (lift_res (checked_add_u256 (d_next_delta_stake del) amount)) (\<lambda>x.
           let del = del\<lparr>d_next_delta_stake := x, d_next_delta_epoch := activation_epoch\<rparr> in
           seqc (write_delegator val_id caller del)
           (seqc (if need_acc then increment_accumulator_refcount val_id else ret ())
           (ret del)))
      else let need_acc = (d_delta_epoch del = 0) in
           bindc (lift_res (checked_add_u256 (d_delta_stake del) amount)) (\<lambda>x.
           let del = del\<lparr>d_delta_stake := x, d_delta_epoch := activation_epoch\<rparr> in
           seqc (write_delegator val_id caller del)
           (seqc (if need_acc then increment_accumulator_refcount val_id else ret ())
           (ret del))))"

definition internal_delegate :: "abi \<Rightarrow> u64 \<Rightarrow> address \<Rightarrow> u256 \<Rightarrow> unit action" where
  "internal_delegate A val_id caller amount =
     bindc (pull_delegator_up_to_date val_id caller) (\<lambda>del.
     bindc read_in_boundary (\<lambda>in_boundary.
     bindc get_activation_epoch (\<lambda>activation_epoch.
     bindc (credit_delta_track val_id caller amount in_boundary activation_epoch del) (\<lambda>del.
     bindc (read_validator val_id) (\<lambda>val.
     bindc (lift_res (checked_add_u256 (v_stake val) amount)) (\<lambda>stake.
     let val = val\<lparr>v_stake := stake\<rparr> in
     seqc (write_validator_stake val_id (v_stake val))
     (bindc (update_validator_flags_after_delegate A val_id val del caller) (\<lambda>flags.
     seqc (if flags = FLAG_OK then bindc (add_to_valset val_id) (\<lambda>_. ret ()) else ret ())
     (seqc (linked_list_insert val_id caller)
     (seqc (emit_event
              [signature_hash A EvDelegate, topic_u64 val_id, topic_address caller]
              (word_data amount @ word_data (ucast activation_epoch)))
     (ret ())))))))))))"

section \<open>Frames\<close>

lemmas valset_defs = add_to_valset_def remove_from_valset_def emit_status_changed_def
  update_validator_flags_after_delegate_def update_validator_flags_after_undelegate_def
  credit_delta_track_def

context host_relation
begin

lemma host_valset [frame_intros]:
  "preserves R (add_to_valset v)"
  "preserves R (remove_from_valset v)"
  unfolding valset_defs Let_def by (intro pres_intros pres_case_prod pres_case_sum frame_intros)+

end

lemma valset_frames [frame_intros]:
  "preserves same_balances (add_to_valset v)"
  "preserves same_balances (remove_from_valset v)"
  unfolding valset_defs Let_def by (intro pres_all frame_intros)+

context host_relation
begin

lemma host_flags [frame_intros]:
  "preserves R (update_validator_flags_after_delegate A v val d c)"
  "preserves R (update_validator_flags_after_undelegate A v val d c)"
  unfolding valset_defs Let_def by (intro pres_intros pres_case_prod pres_case_sum frame_intros)+

end

lemma flags_frames [frame_intros]:
  "preserves same_balances (update_validator_flags_after_delegate A v val d c)"
  "preserves same_balances (update_validator_flags_after_undelegate A v val d c)"
  "CValidator v 6 \<in> F \<Longrightarrow> preserves (touches F) (update_validator_flags_after_delegate A v val d c)"
  "CValidator v 6 \<in> F \<Longrightarrow> preserves (touches F) (update_validator_flags_after_undelegate A v val d c)"
  unfolding valset_defs Let_def by (intro pres_all frame_intros; assumption)+

definition valset_cells :: "cell_id set" where
  "valset_cells = range CExecution \<union> range CBitset"

lemma valset_touches [frame_intros]:
  "valset_cells \<subseteq> F \<Longrightarrow> preserves (touches F) (add_to_valset v)"
  "valset_cells \<subseteq> F \<Longrightarrow> preserves (touches F) (remove_from_valset v)"
  unfolding valset_defs Let_def
  by (intro pres_all frame_intros; auto simp: key_folds valset_cells_def)+

context host_relation
begin

lemma host_credit [frame_intros]:
  "preserves R (credit_delta_track v a x b e d)"
  unfolding valset_defs Let_def by (intro pres_intros pres_case_prod pres_case_sum frame_intros)+

end

lemma credit_frames [frame_intros]:
  "preserves same_balances (credit_delta_track v a x b e d)"
  "delegator_cells (v, a) \<union> acc_cells v \<subseteq> F \<Longrightarrow> preserves (touches F) (credit_delta_track v a x b e d)"
  unfolding valset_defs Let_def by (intro pres_all frame_intros; auto)+

definition delegate_cells :: "u64 \<Rightarrow> address \<Rightarrow> cell_id set" where
  "delegate_cells v a = insert (CValidator v 0) (insert (CValidator v 6)
     (pull_cells v a \<union> valset_cells \<union> all_node_cells))"

context host_relation
begin

lemma host_internal_delegate [frame_intros]:
  "preserves R (internal_delegate A v a x)"
  unfolding internal_delegate_def Let_def
  by (intro pres_intros pres_case_prod pres_case_sum frame_intros)+

end

lemma internal_delegate_frames [frame_intros]:
  "preserves same_balances (internal_delegate A v a x)"
  "delegate_cells v a \<subseteq> F \<Longrightarrow> preserves (touches F) (internal_delegate A v a x)"
  unfolding internal_delegate_def Let_def
  by (intro pres_all frame_intros; auto simp: delegate_cells_def pull_cells_def)+

lemma valset_backend:
  "add_to_valset v s = (r1, t) \<Longrightarrow> backend_ok t = backend_ok s"
  "update_validator_flags_after_delegate A v val d c s = (r2, t) \<Longrightarrow> backend_ok t = backend_ok s"
  "update_validator_flags_after_undelegate A v val d c s = (r2, t) \<Longrightarrow> backend_ok t = backend_ok s"
  "credit_delta_track v a x b e d s = (r3, t) \<Longrightarrow> backend_ok t = backend_ok s"
  "internal_delegate A v a x s = (r4, t) \<Longrightarrow> backend_ok t = backend_ok s"
  "linked_list_insert v a s = (r4, t) \<Longrightarrow> backend_ok t = backend_ok s"
  "linked_list_remove v a s = (r4, t) \<Longrightarrow> backend_ok t = backend_ok s"
  by (rule same_env_backend, erule preservesD [rotated], intro frame_intros)+

section \<open>The execution set\<close>

definition in_valset :: "storage \<Rightarrow> u64 \<Rightarrow> bool" where
  "in_valset st v \<longleftrightarrow> bit (st (key_of (CBitset (drop_bit 8 v)))) (unat (and v 0xFF))"

text \<open>A StorageArray: the length in cell 0, element i in cell 1 + i.\<close>

definition array_at :: "storage \<Rightarrow> (u64 \<Rightarrow> cell_id) \<Rightarrow> u64 list" where
  "array_at st C = map (\<lambda>i. u64_at st (C (of_nat (Suc i)))) [0..<unat (u64_at st (C 0))]"

lemma low_byte: "and v 0xFF = take_bit 8 (v :: u64)"
  by (simp add: take_bit_eq_mask mask_eq_exp_minus_1)

lemma bucket_and_bit:
  "drop_bit 8 w = drop_bit 8 v \<and> unat (and w 0xFF) = unat (and v 0xFF) \<longleftrightarrow> w = (v :: u64)"
  unfolding low_byte word_unat_eq_iff [symmetric] by (metis bits_ident)

lemma low_byte_less: "unat (and v 0xFF :: u64) < 256"
  using take_bit_nat_less_exp [of 8 "unat v"] by (simp add: low_byte unsigned_take_bit_eq)

lemma in_valset_set:
  "in_valset (st(key_of (CBitset (drop_bit 8 v)) :=
      or (st (key_of (CBitset (drop_bit 8 v)))) (2 ^ unat (and v 0xFF)))) w
   \<longleftrightarrow> w = v \<or> in_valset st w"
  using low_byte_less [of v] low_byte_less [of w] bucket_and_bit [of w v]
  by (auto simp: in_valset_def bit_or_iff bit_exp_iff)

lemma in_valset_clear:
  "in_valset (st(key_of (CBitset (drop_bit 8 v)) :=
      and (st (key_of (CBitset (drop_bit 8 v)))) (not (2 ^ unat (and v 0xFF))))) w
   \<longleftrightarrow> w \<noteq> v \<and> in_valset st w"
  using low_byte_less [of v] low_byte_less [of w] bucket_and_bit [of w v]
  by (auto simp: in_valset_def bit_and_iff bit_not_iff bit_exp_iff)

lemma not_in_valset_mask:
  "and (st (key_of (CBitset (drop_bit 8 v)))) (2 ^ unat (and v 0xFF)) = 0
   \<longleftrightarrow> \<not> in_valset st v"
proof -
  let ?n = "unat (and v 0xFF)" and ?x = "st (key_of (CBitset (drop_bit 8 v)))"
  have "and ?x (2 ^ ?n) = (if bit ?x ?n then 2 ^ ?n else 0)"
    by (rule bit_word_eqI) (auto simp: bit_and_iff bit_exp_iff)
  moreover have "(2 :: u256) ^ ?n \<noteq> 0"
    using low_byte_less [of v] by simp
  ultimately show ?thesis by (simp add: in_valset_def)
qed

lemma add_to_valset_ok:
  fixes v :: u64
  assumes "backend_ok s"
  defines "k \<equiv> key_of (CBitset (drop_bit 8 v))"
    and "n \<equiv> u64_at (store s) (CExecution 0)"
  shows "add_to_valset v s = (Inr (\<not> in_valset (store s) v),
    let st = (store s)(k := or (store s k) (2 ^ unat (and v 0xFF))) in
    s\<lparr>store := (if in_valset (store s) v then st
               else put_u64 (CExecution 0) (n + 1) (put_u64 (CExecution (1 + n)) v st))\<rparr>)"
  using assms(1)
  by (simp add: add_to_valset_def Let_def bindc_apply key_folds not_in_valset_mask k_def n_def
      put_u64_def u64_at_def)

lemma unat_of_nat_u64: "m < 2 ^ 64 \<Longrightarrow> unat (of_nat m :: u64) = m"
  by (simp add: unat_of_nat)

lemma index_ne: "m < 2 ^ 64 \<Longrightarrow> n < 2 ^ 64 \<Longrightarrow> of_nat m = (of_nat n :: u64) \<longleftrightarrow> m = n"
  by (metis unat_of_nat_u64)

lemma array_at_cong:
  "(\<And>i. u64_at st' (C i) = u64_at st (C i)) \<Longrightarrow> array_at st' C = array_at st C"
  by (simp add: array_at_def)

lemma length_array_at [simp]: "length (array_at st C) = unat (u64_at st (C 0))"
  by (simp add: array_at_def)

lemma u64_at_put_u64: "u64_at (put_u64 c x st) d = (if d = c then x else u64_at st d)"
  by (rule u64cell.get_put_if) simp

lemma array_push:
  assumes C: "inj C" and n: "unat (u64_at st (C 0)) + 1 < 2 ^ 64"
  shows "array_at (put_u64 (C 0) (u64_at st (C 0) + 1)
           (put_u64 (C (1 + u64_at st (C 0))) v st)) C = array_at st C @ [v]"
proof -
  define k where "k = unat (u64_at st (C 0))"
  have len: "u64_at st (C 0) = of_nat k" by (simp add: k_def)
  have k: "k + 1 < 2 ^ 64" using n by (simp add: k_def)
  have C_eq: "C i = C j \<longleftrightarrow> i = j" for i j using C by (auto dest: injD)
  have ne: "of_nat (Suc i) = (0 :: u64) \<longleftrightarrow> False"
    "of_nat (Suc i) = (of_nat (Suc k) :: u64) \<longleftrightarrow> i = k" if "i \<le> k" for i
    using index_ne [of "Suc i" 0] index_ne [of "Suc i" "Suc k"] that k by (auto simp del: of_nat_Suc)
  have sk: "1 + of_nat k = (of_nat (Suc k) :: u64)" "of_nat k + 1 = (of_nat (Suc k) :: u64)"
    by simp_all
  have uk: "unat (of_nat (Suc k) :: u64) = Suc k" using k by (intro unat_of_nat_u64) simp
  have uk0: "unat (of_nat k :: u64) = k" using k by (intro unat_of_nat_u64) simp
  show ?thesis
    unfolding array_at_def len sk
    by (simp add: u64_at_put_u64 C_eq uk uk0 len ne del: of_nat_Suc)
qed

lemma add_to_valset_effect:
  assumes ok: "backend_ok s" and add: "add_to_valset v s = (Inr b, t)"
  shows "in_valset (store t) w \<longleftrightarrow> w = v \<or> in_valset (store s) w"
    and "b \<longleftrightarrow> \<not> in_valset (store s) v"
    and "unat (u64_at (store s) (CExecution 0)) + 1 < 2 ^ 64 \<Longrightarrow>
      array_at (store t) CExecution =
        array_at (store s) CExecution @ (if in_valset (store s) v then [] else [v])"
proof -
  note a = add [unfolded add_to_valset_ok [OF ok] Let_def prod.inject sum.inject]
  let ?st = "(store s)(key_of (CBitset (drop_bit 8 v)) :=
      or (store s (key_of (CBitset (drop_bit 8 v)))) (2 ^ unat (and v 0xFF)))"
  have t: "store t = (if in_valset (store s) v then ?st
     else put_u64 (CExecution 0) (u64_at (store s) (CExecution 0) + 1)
            (put_u64 (CExecution (1 + u64_at (store s) (CExecution 0))) v ?st))"
    using a by auto
  have u: "u64_at ?st (CExecution i) = u64_at (store s) (CExecution i)" for i
    by (simp add: u64_at_def)
  have iv: "in_valset (put_u64 (CExecution i) x st') w = in_valset st' w" for i x st'
    by (simp add: in_valset_def put_u64_def)
  show "in_valset (store t) w \<longleftrightarrow> w = v \<or> in_valset (store s) w"
    by (simp add: t iv in_valset_set)
  show "b \<longleftrightarrow> \<not> in_valset (store s) v" using a by auto
  assume n: "unat (u64_at (store s) (CExecution 0)) + 1 < 2 ^ 64"
  have "array_at ?st CExecution = array_at (store s) CExecution" by (rule array_at_cong) (rule u)
  then show "array_at (store t) CExecution =
      array_at (store s) CExecution @ (if in_valset (store s) v then [] else [v])"
    using array_push [of CExecution ?st v] n by (simp add: t u inj_def)
qed

section \<open>The effect of internal_delegate\<close>

text \<open>Scheduling a stake: it joins the pending stake of its epoch if there is one.\<close>

fun schedule :: "nat \<Rightarrow> nat \<Rightarrow> (nat \<times> nat) list \<Rightarrow> (nat \<times> nat) list" where
  "schedule e x [] = [(e, x)]"
| "schedule e x ((e', y) # ps) = (if e' = e then (e', y + x) # ps else (e', y) # schedule e x ps)"

definition schedule_stake :: "nat \<Rightarrow> nat \<Rightarrow> position \<Rightarrow> position" where
  "schedule_stake e x p = p\<lparr>p_pending := schedule e x (p_pending p)\<rparr>"

lemma checked_add_u256_nat:
  "checked_add_u256 a b = Inr c \<Longrightarrow> unat c = unat a + unat b"
  by (simp add: checked_add_u256_Inr unat_reward_sum)

lemma accumulator_cells_views:
  "backend_ok s \<Longrightarrow> increment_accumulator_refcount v s = (Inr (), t) \<Longrightarrow>
     delegator_at (store t) k = delegator_at (store s) k"
  by (auto simp: Let_def cell_simps)

text \<open>The delegator the block "Add to appropriate delta track" leaves, in the variables and in
  storage.\<close>

lemma credit_delta_effect:
  assumes ok: "backend_ok s" and credit: "credit_delta_track v a x b act d s = (Inr d', t)"
  shows "d' = (if b
      then d\<lparr>d_next_delta_stake := d_next_delta_stake d + x, d_next_delta_epoch := act\<rparr>
      else d\<lparr>d_delta_stake := d_delta_stake d + x, d_delta_epoch := act\<rparr>)"
    and "unat (if b then d_next_delta_stake d else d_delta_stake d) + unat x < 2 ^ 256"
    and "delegator_at (store t) (v, a) = d'"
    and "validator_at (store t) = validator_at (store s)"
proof -
  have "d' = (if b
      then d\<lparr>d_next_delta_stake := d_next_delta_stake d + x, d_next_delta_epoch := act\<rparr>
      else d\<lparr>d_delta_stake := d_delta_stake d + x, d_delta_epoch := act\<rparr>) \<and>
    unat (if b then d_next_delta_stake d else d_delta_stake d) + unat x < 2 ^ 256 \<and>
    delegator_at (store t) (v, a) = d' \<and> validator_at (store t) = validator_at (store s)"
    using ok credit
    by (cases b) (auto simp: credit_delta_track_def Let_def bindc_Inr checked_add_u256_Inr
        cell_simps fun_eq_iff split: if_splits)
  then show "d' = (if b
      then d\<lparr>d_next_delta_stake := d_next_delta_stake d + x, d_next_delta_epoch := act\<rparr>
      else d\<lparr>d_delta_stake := d_delta_stake d + x, d_delta_epoch := act\<rparr>)"
    and "unat (if b then d_next_delta_stake d else d_delta_stake d) + unat x < 2 ^ 256"
    and "delegator_at (store t) (v, a) = d'"
    and "validator_at (store t) = validator_at (store s)" by blast+
qed

text \<open>Outside the boundary the stake goes to the next epoch, inside it to the one after.\<close>

lemma credit_schedules:
  assumes act: "act = (if b then e + 2 else e + 1)" and small: "unat e + 2 < 2 ^ 64"
    and one: "d_delta_epoch d = 0 \<or> d_delta_epoch d = e + 1"
    and two: "d_next_delta_epoch d = 0 \<or> b \<and> d_next_delta_epoch d = e + 2"
    and wf: "delegator_wf d"
    and d': "d' = (if b
      then d\<lparr>d_next_delta_stake := d_next_delta_stake d + x, d_next_delta_epoch := act\<rparr>
      else d\<lparr>d_delta_stake := d_delta_stake d + x, d_delta_epoch := act\<rparr>)"
    and bound: "unat (if b then d_next_delta_stake d else d_delta_stake d) + unat x < 2 ^ 256"
  shows "position_of d' = schedule_stake (unat act) (unat x) (position_of d)"
    and "timed (unat e) b d'" and "stake_sum d' = stake_sum d + unat x"
proof -
  have e1: "unat (e + 1) = unat e + 1" and e2: "unat (e + 2) = unat e + 2"
    using small by (simp_all add: unat_plus_lt)
  have nz: "e + 1 \<noteq> 0" "e + 2 \<noteq> 0" "e + 1 \<noteq> e + 2" "e + 1 < e + 2"
    using e1 e2 by (auto simp: word_unat_eq_iff word_less_nat_alt)
  have sum: "unat ((if b then d_next_delta_stake d else d_delta_stake d) + x)
      = unat (if b then d_next_delta_stake d else d_delta_stake d) + unat x"
    using bound by (rule unat_reward_sum)
  show "position_of d' = schedule_stake (unat act) (unat x) (position_of d)"
    using one two wf sum nz
    by (cases b) (auto simp: d' act position_of_def pending_of_def schedule_stake_def
        delegator_wf_def e1 e2)
  show "timed (unat e) b d'"
    using one two wf nz by (cases b) (auto simp: d' act timed_def delegator_wf_def e1 e2)
  show "stake_sum d' = stake_sum d + unat x"
    using sum by (cases b) (auto simp: d' stake_sum_def)
qed

lemma join_backend:
  "(if f = FLAG_OK then bindc (add_to_valset v) (\<lambda>_. ret ()) else ret ()) s = (Inr (), t)
    \<Longrightarrow> backend_ok t = backend_ok s"
  by (auto simp: bindc_Inr valset_backend(1) split: if_splits)

lemma internal_delegate_Inr:
  assumes ok: "backend_ok s" and run: "internal_delegate A v a x s = (Inr (), t)"
  obtains d s1 d' s2 stake flags s4 s5 s6 where
    "pull_delegator_up_to_date v a s = (Inr d, s1)" "backend_ok s1"
    "credit_delta_track v a x (in_boundary_at (store s1)) (activation_epoch_at (store s1)) d s1
       = (Inr d', s2)" "backend_ok s2"
    "checked_add_u256 (v_stake (validator_at (store s2) v)) x = Inr stake"
    "update_validator_flags_after_delegate A v ((validator_at (store s2) v)\<lparr>v_stake := stake\<rparr>) d' a
       (s2\<lparr>store := (store s2)(key_of (CValidator v 0) := stake)\<rparr>) = (Inr flags, s4)" "backend_ok s4"
    "(if flags = FLAG_OK then bindc (add_to_valset v) (\<lambda>_. ret ()) else ret ()) s4 = (Inr (), s5)"
    "backend_ok s5" "linked_list_insert v a s5 = (Inr (), s6)"
    "store t = store s6" "balances t = balances s6"
  using run unfolding internal_delegate_def Let_def
  apply (elim bindc_InrE)
  apply (frule delegation_backend(2), simp add: ok)
  apply (frule valset_backend(4), simp, clarify)
  apply (frule valset_backend(2), simp)
  apply (frule join_backend, simp)
  apply (rule that, assumption+)
  apply (auto simp: emit_event_def)
  done

definition flags_after_delegate :: "Validator \<Rightarrow> Delegator \<Rightarrow> address \<Rightarrow> u64" where
  "flags_after_delegate val del caller =
     (let f = (if ACTIVE_VALIDATOR_STAKE \<le> v_stake val
               then and (v_flags val) (not FLAG_STAKE_TOO_LOW) else v_flags val)
      in if caller = v_auth_address val \<and> MIN_AUTH_ADDRESS_STAKE \<le> total_stake del
         then and f (not FLAG_WITHDRAWN) else f)"

definition flags_after_undelegate :: "Validator \<Rightarrow> Delegator \<Rightarrow> address \<Rightarrow> u64" where
  "flags_after_undelegate val del caller =
     (let f = (if v_stake val < ACTIVE_VALIDATOR_STAKE
               then or (v_flags val) FLAG_STAKE_TOO_LOW else v_flags val)
      in if caller = v_auth_address val \<and> total_stake del < MIN_AUTH_ADDRESS_STAKE
         then or f FLAG_WITHDRAWN else f)"

lemma flags_effect:
  assumes ok: "backend_ok s"
  shows "update_validator_flags_after_delegate A v val d c s = (Inr f, t) \<Longrightarrow>
      f = flags_after_delegate val d c \<and> balances t = balances s \<and>
      store t = (if f = v_flags val then store s else put_flags v (v_auth_address val) f (store s))"
    and "update_validator_flags_after_undelegate A v val d c s = (Inr f, t) \<Longrightarrow>
      f = flags_after_undelegate val d c \<and> balances t = balances s \<and>
      store t = (if f = v_flags val then store s else put_flags v (v_auth_address val) f (store s))"
  using ok
  by (auto simp: update_validator_flags_after_delegate_def
      update_validator_flags_after_undelegate_def flags_after_delegate_def
      flags_after_undelegate_def Let_def bindc_Inr emit_status_changed_def emit_event_def
      simp del: not_le split: if_splits)

lemma linked_list_insert_valid:
  "linked_list_insert v a s = (Inr (), t) \<Longrightarrow>
     v \<noteq> 0 \<and> v \<noteq> SENTINEL_VAL_ID \<and> a \<noteq> 0 \<and> a \<noteq> SENTINEL_ADDRESS"
  by (auto simp: linked_list_insert_def linked_list_insert_address_def
      linked_list_insert_val_id_def bindc_Inr split: if_splits)

lemma join_valset_touches:
  "preserves (touches valset_cells) (if f = FLAG_OK then bindc (add_to_valset v) (\<lambda>_. ret ()) else ret ())"
  by (intro pres_all frame_intros) simp

section \<open>What a settlement leaves alone\<close>

lemma pull_leaves:
  assumes ok: "backend_ok s" and pull: "pull_delegator_up_to_date v a s = (Inr d, t)"
  shows "v_stake (validator_at (store t) w) = v_stake (validator_at (store s) w)"
    and "v_acc (validator_at (store t) w) = v_acc (validator_at (store s) w)"
    and "v_auth_address (validator_at (store t) w) = v_auth_address (validator_at (store s) w)"
    and "v_flags (validator_at (store t) w) = v_flags (validator_at (store s) w)"
    and "withdrawal_at (store t) k3 = withdrawal_at (store s) k3"
    and "activation_epoch_at (store t) = activation_epoch_at (store s)"
    and "epoch_at (store t) = epoch_at (store s)"
    and "in_boundary_at (store t) = in_boundary_at (store s)"
    and "links t D V = links s D V" and "balances t = balances s" and "xfer t = xfer s"
    and "backend_ok t" and "k \<noteq> (v, a) \<Longrightarrow> delegator_at (store t) k = delegator_at (store s) k"
proof -
  have T: "touches (pull_cells v a) s t" by (rule preservesD [OF pull_touches pull]) simp
  note cells = pull_cells_def acc_cells_def region_cells all_node_cells_def
  have same: "store t (key_of (CValidator w j)) = store s (key_of (CValidator w j))" if "j \<noteq> 7" for j
    using that by (intro touches_cell [OF T]) (auto simp: cells)
  show "v_stake (validator_at (store t) w) = v_stake (validator_at (store s) w)"
    "v_acc (validator_at (store t) w) = v_acc (validator_at (store s) w)"
    "v_auth_address (validator_at (store t) w) = v_auth_address (validator_at (store s) w)"
    "v_flags (validator_at (store t) w) = v_flags (validator_at (store s) w)"
    by (simp_all add: validator_at_def same)
  show "withdrawal_at (store t) k3 = withdrawal_at (store s) k3"
    by (rule touches_views(5) [OF T]) (auto simp: cells)
  have e: "u64_at (store t) CEpoch = u64_at (store s) CEpoch"
    by (rule touches_views(6) [OF T]) (auto simp: cells)
  show b: "in_boundary_at (store t) = in_boundary_at (store s)"
    by (rule touches_views(7) [OF T]) (auto simp: cells)
  show "activation_epoch_at (store t) = activation_epoch_at (store s)"
    "epoch_at (store t) = epoch_at (store s)"
    by (simp_all add: activation_epoch_at_def epoch_at_def e b)
  show "links t D V = links s D V" by (rule links_touches [OF T]) (auto simp: cells)
  show "balances t = balances s"
    using preservesD [OF pull_frames pull] by (simp add: same_balances_def)
  show "xfer t = xfer s" using preservesD [OF env.host_pull pull] by (simp add: same_env_def)
  show "backend_ok t" using delegation_backend(2) [OF pull] ok by simp
  show "delegator_at (store t) k = delegator_at (store s) k" if "k \<noteq> (v, a)"
    by (rule touches_views(2) [OF T]) (use that in \<open>auto simp: cells\<close>)
qed

section \<open>The effect of internal_delegate\<close>

text \<open>Everything after the credit: the validator's total, its flags, the execution set and the
  lists.\<close>

lemma internal_delegate_outcome:
  assumes ok: "backend_ok s" and run: "internal_delegate A v a x s = (Inr (), t)"
  obtains d s1 d' s2 where
    "pull_delegator_up_to_date v a s = (Inr d, s1)"
    "credit_delta_track v a x (in_boundary_at (store s1)) (activation_epoch_at (store s1)) d s1
       = (Inr d', s2)"
    "delegator_at (store t) (v, a) = d'"
    "unat (v_stake (validator_at (store t) v)) = unat (v_stake (validator_at (store s2) v)) + unat x"
    "v_unclaimed_rewards (validator_at (store t) v) = v_unclaimed_rewards (validator_at (store s2) v)"
    "v_auth_address (validator_at (store t) v) = v_auth_address (validator_at (store s2) v)"
    "\<forall>D V. links s2 D V \<longrightarrow> links t (D(v := insert_once a (D v))) (V(a := insert_once v (V a)))"
proof -
  obtain d s1 d' s2 stake flags s4 s5 s6 where
    1: "pull_delegator_up_to_date v a s = (Inr d, s1)" and b1: "backend_ok s1" and
    2: "credit_delta_track v a x (in_boundary_at (store s1)) (activation_epoch_at (store s1)) d s1
       = (Inr d', s2)" and b2: "backend_ok s2" and
    3: "checked_add_u256 (v_stake (validator_at (store s2) v)) x = Inr stake" and
    4: "update_validator_flags_after_delegate A v ((validator_at (store s2) v)\<lparr>v_stake := stake\<rparr>) d' a
       (s2\<lparr>store := (store s2)(key_of (CValidator v 0) := stake)\<rparr>) = (Inr flags, s4)" and
    5: "(if flags = FLAG_OK then bindc (add_to_valset v) (\<lambda>_. ret ()) else ret ()) s4 = (Inr (), s5)"
    and b5: "backend_ok s5" and 6: "linked_list_insert v a s5 = (Inr (), s6)" and
    t: "store t = store s6"
    by (rule internal_delegate_Inr [OF ok run])
  let ?s3 = "s2\<lparr>store := (store s2)(key_of (CValidator v 0) := stake)\<rparr>"
  note cells = region_cells valset_cells_def all_node_cells_def
  have T4: "touches {CValidator v 6} ?s3 s4" by (rule preservesD [OF flags_frames(3) 4]) simp
  have T5: "touches valset_cells s4 s5" by (rule preservesD [OF join_valset_touches 5])
  have "touches all_node_cells s5 s6" by (rule preservesD [OF linked_list_touches(1) 6]) simp
  with T5 have T: "touches (valset_cells \<union> all_node_cells) s4 t"
    by (simp add: touches_def t image_Un)
  have "delegator_at (store t) (v, a) = delegator_at (store s4) (v, a)"
    by (rule touches_views(2) [OF T]) (auto simp: cells)
  also have "\<dots> = delegator_at (store ?s3) (v, a)"
    by (rule touches_views(2) [OF T4]) (auto simp: cells)
  finally have dt: "delegator_at (store t) (v, a) = d'"
    by (simp add: cell_simps credit_delta_effect(3) [OF b1 2])
  have vt: "validator_at (store t) v = validator_at (store s4) v"
    by (rule touches_views(1) [OF T]) (auto simp: cells)
  have "backend_ok ?s3" using b2 by simp
  note fl = flags_effect(1) [OF this 4]
  have "links s4 D V = links s2 D V" for D V
    by (rule links_nodes) (use fl in \<open>auto simp: cell_simps split: if_splits\<close>)
  then have l5: "links s5 D V = links s2 D V" for D V
    by (subst links_touches [OF T5]) (auto simp: cells)
  have links: "\<forall>D V. links s2 D V \<longrightarrow>
      links t (D(v := insert_once a (D v))) (V(a := insert_once v (V a)))"
    using insert_links [OF b5, of _ _ v a] linked_list_insert_valid [OF 6] 6
      links_nodes [of t s6] by (auto simp: t l5)
  show ?thesis
    by (rule that [OF 1 2 dt _ _ _ links])
      (use fl checked_add_u256_nat [OF 3] in \<open>auto simp: vt cell_simps split: if_splits\<close>)
qed

lemma internal_delegate_effect:
  assumes ok: "backend_ok s" and run: "internal_delegate A v a x s = (Inr (), t)"
    and timed: "timed (epoch_at (store s)) (in_boundary_at (store s)) (delegator_at (store s) (v, a))"
    and small: "epoch_at (store s) + 2 < 2 ^ 64"
  shows "position_of (delegator_at (store t) (v, a)) =
      schedule_stake (unat (activation_epoch_at (store s))) (unat x)
        (settle (epoch_at (store s)) (snapshots_at (store s) v)
          (unat (v_acc (validator_at (store s) v))) (position_of (delegator_at (store s) (v, a))))"
    and "timed (epoch_at (store s)) (in_boundary_at (store s)) (delegator_at (store t) (v, a))"
    and "stake_sum (delegator_at (store t) (v, a)) = stake_sum (delegator_at (store s) (v, a)) + unat x"
    and "unat (v_stake (validator_at (store t) v)) = unat (v_stake (validator_at (store s) v)) + unat x"
    and "unat (v_unclaimed_rewards (validator_at (store t) v))
           + unat (d_rewards (delegator_at (store t) (v, a)))
         = unat (v_unclaimed_rewards (validator_at (store s) v))
           + unat (d_rewards (delegator_at (store s) (v, a)))"
    and "links s D V \<Longrightarrow> links t (D(v := insert_once a (D v))) (V(a := insert_once v (V a)))"
    and "v_auth_address (validator_at (store t) v) = v_auth_address (validator_at (store s) v)"
proof -
  let ?e = "epoch_at (store s)" and ?b = "in_boundary_at (store s)"
  obtain d s1 d' s2 where 1: "pull_delegator_up_to_date v a s = (Inr d, s1)"
    and 2: "credit_delta_track v a x (in_boundary_at (store s1)) (activation_epoch_at (store s1)) d s1
       = (Inr d', s2)"
    and dt: "delegator_at (store t) (v, a) = d'"
    and vt: "unat (v_stake (validator_at (store t) v)) = unat (v_stake (validator_at (store s2) v)) + unat x"
      "v_unclaimed_rewards (validator_at (store t) v) = v_unclaimed_rewards (validator_at (store s2) v)"
      "v_auth_address (validator_at (store t) v) = v_auth_address (validator_at (store s2) v)"
    and late: "\<forall>D V. links s2 D V \<longrightarrow>
      links t (D(v := insert_once a (D v))) (V(a := insert_once v (V a)))"
    by (rule internal_delegate_outcome [OF ok run])
  note lv = pull_leaves [OF ok 1]
  have act: "activation_epoch_at (store s) = (if ?b then u64_at (store s) CEpoch + 2
      else u64_at (store s) CEpoch + 1)"
    by (simp add: activation_epoch_at_def)
  have wf: "delegator_wf (delegator_at (store s) (v, a))" using timed by (simp add: timed_def)
  have small': "unat (u64_at (store s) CEpoch) + 2 < 2 ^ 64" using small by (simp add: epoch_at_def)
  note pe = pull_effect [OF ok 1 wf epoch_step [OF small]] and ep = pull_epochs [OF ok 1 timed small]
  note ce = credit_delta_effect [OF lv(12) 2, unfolded lv(6) lv(8)]
  note cs = credit_schedules [OF act small' ep(1,2) pe(3) ce(1,2)]
  show "position_of (delegator_at (store t) (v, a)) =
      schedule_stake (unat (activation_epoch_at (store s))) (unat x)
        (settle ?e (snapshots_at (store s) v)
          (unat (v_acc (validator_at (store s) v))) (position_of (delegator_at (store s) (v, a))))"
    using cs(1) pe(1) by (simp add: dt epoch_at_def)
  show "timed ?e ?b (delegator_at (store t) (v, a))" using cs(2) by (simp add: dt epoch_at_def)
  show "stake_sum (delegator_at (store t) (v, a)) = stake_sum (delegator_at (store s) (v, a)) + unat x"
    using cs(3) pe(2) by (simp add: dt)
  show "unat (v_stake (validator_at (store t) v)) = unat (v_stake (validator_at (store s) v)) + unat x"
    "v_auth_address (validator_at (store t) v) = v_auth_address (validator_at (store s) v)"
    by (simp_all add: vt ce(4) lv)
  show "unat (v_unclaimed_rewards (validator_at (store t) v))
           + unat (d_rewards (delegator_at (store t) (v, a)))
         = unat (v_unclaimed_rewards (validator_at (store s) v))
           + unat (d_rewards (delegator_at (store s) (v, a)))"
    using pe(4) ce(1,4) by (simp add: dt vt)
  have "touches (delegator_cells (v, a) \<union> acc_cells v) s1 s2"
    by (rule preservesD [OF credit_frames(2) 2]) simp
  then have "links s2 D V = links s1 D V"
    by (rule links_touches) (auto simp: acc_cells_def region_cells all_node_cells_def)
  then show "links s D V \<Longrightarrow> links t (D(v := insert_once a (D v))) (V(a := insert_once v (V a)))"
    using late lv(9) by simp
qed

lemma internal_delegate_leaves:
  assumes "internal_delegate A v a x s = (Inr (), t)"
  shows "withdrawal_at (store t) k = withdrawal_at (store s) k" and "balances t = balances s"
proof -
  have T: "touches (delegate_cells v a) s t"
    by (rule preservesD [OF internal_delegate_frames(2) assms]) simp
  show "withdrawal_at (store t) k = withdrawal_at (store s) k"
    by (rule touches_views(5) [OF T])
      (auto simp: delegate_cells_def pull_cells_def acc_cells_def region_cells valset_cells_def
        all_node_cells_def)
  show "balances t = balances s"
    using preservesD [OF internal_delegate_frames(1) assms] by (simp add: same_balances_def)
qed

end
