(* ===== verification/Handlers.thy ===== *)
theory Handlers
  imports Valset
begin

text \<open>
  The user-callable handlers of \<open>staking/write.rs\<close>: each is the whole function, gas guard, ABI
  decoding, checks, state changes, event and encoded result, in the order of the source.
\<close>

section \<open>Model\<close>

definition require :: "bool \<Rightarrow> precompile_error \<Rightarrow> ('s, unit) comp" where
  "require b e = (if b then ret () else throw e)"

definition handle_change_commission ::
    "abi \<Rightarrow> bytes \<Rightarrow> u64 \<Rightarrow> address \<Rightarrow> (u64 \<times> bytes) action" where
  "handle_change_commission A input gas_limit caller =
     seqc (require (\<not> gas_limit < GAS_CHANGE_COMMISSION) OutOfGas)
     (bindc (decode_call (dec_changeCommission A) input) (\<lambda>(validatorId, commission).
     bindc (read_validator validatorId) (\<lambda>val.
     seqc (require (validator_exists val) (Other ''unknown validator''))
     (seqc (require (caller = v_auth_address val) (Other ''requires auth address''))
     (seqc (require (\<not> MAX_COMMISSION < commission) (Other ''commission too high''))
     (let old_commission = v_commission val in
      seqc (if commission \<noteq> old_commission
            then seqc (write_validator_commission validatorId commission)
                 (emit_event [signature_hash A EvCommissionChanged, topic_u64 validatorId]
                    (word_data old_commission @ word_data commission))
            else ret ())
      (ret (GAS_CHANGE_COMMISSION, enc_bool A True))))))))"

definition emit_claim_rewards :: "abi \<Rightarrow> u64 \<Rightarrow> address \<Rightarrow> u256 \<Rightarrow> u64 \<Rightarrow> unit action" where
  "emit_claim_rewards A val_id caller rewards epoch =
     emit_event [signature_hash A EvClaimRewards, topic_u64 val_id, topic_address caller]
       (word_data rewards @ word_data (ucast epoch))"

definition handle_claim_rewards ::
    "abi \<Rightarrow> bytes \<Rightarrow> u64 \<Rightarrow> address \<Rightarrow> (u64 \<times> bytes) action" where
  "handle_claim_rewards A input gas_limit caller =
     seqc (require (\<not> gas_limit < GAS_CLAIM_REWARDS) OutOfGas)
     (bindc (decode_call (dec_claimRewards A) input) (\<lambda>validatorId.
     bindc (pull_delegator_up_to_date validatorId caller) (\<lambda>del.
     seqc (if d_rewards del \<noteq> 0
           then let rewards = d_rewards del in
                seqc (transfer STAKING_ADDRESS caller rewards)
                (seqc (write_delegator validatorId caller (del\<lparr>d_rewards := 0\<rparr>))
                (bindc read_epoch (\<lambda>epoch.
                 emit_claim_rewards A validatorId caller rewards epoch)))
           else ret ())
     (ret (GAS_CLAIM_REWARDS, enc_bool A True)))))"

definition handle_external_reward ::
    "abi \<Rightarrow> bytes \<Rightarrow> u64 \<Rightarrow> address \<Rightarrow> u256 \<Rightarrow> (u64 \<times> bytes) action" where
  "handle_external_reward A input gas_limit caller call_value =
     seqc (require (\<not> gas_limit < GAS_EXTERNAL_REWARD) OutOfGas)
     (bindc (decode_call (dec_externalReward A) input) (\<lambda>validatorId.
     bindc (read_validator validatorId) (\<lambda>val.
     seqc (require (validator_exists val) (Other ''unknown validator''))
     (bindc read_in_boundary (\<lambda>in_boundary.
     let view_key = (if in_boundary then snapshot_view_key validatorId 0
                     else consensus_view_key validatorId 0) in
     bindc (read_u256 view_key) (\<lambda>active_stake.
     seqc (require (active_stake \<noteq> 0) (Other ''not in validator set''))
     (seqc (require (\<not> call_value < MIN_EXTERNAL_REWARD) (Other ''external reward too small''))
     (seqc (require (\<not> MAX_EXTERNAL_REWARD < call_value) (Other ''external reward too large''))
     (bindc (lift_res (checked_mul_div_u256 call_value UNIT_BIAS active_stake)) (\<lambda>reward_acc.
     bindc (lift_res (checked_add_u256 (v_acc val) reward_acc)) (\<lambda>new_acc.
     seqc (write_validator_acc validatorId new_acc)
     (bindc (lift_res (checked_add_u256 (v_unclaimed_rewards val) call_value)) (\<lambda>unclaimed.
     seqc (write_validator_unclaimed_rewards validatorId unclaimed)
     (bindc read_epoch (\<lambda>epoch.
     seqc (emit_event
            [signature_hash A EvValidatorRewarded, topic_u64 validatorId, topic_address caller]
            (word_data call_value @ word_data (ucast epoch)))
     (ret (GAS_EXTERNAL_REWARD, enc_bool A True)))))))))))))))))"

definition handle_delegate ::
    "abi \<Rightarrow> bytes \<Rightarrow> u64 \<Rightarrow> address \<Rightarrow> u256 \<Rightarrow> (u64 \<times> bytes) action" where
  "handle_delegate A input gas_limit caller call_value =
     seqc (require (\<not> gas_limit < GAS_DELEGATE) OutOfGas)
     (bindc (decode_call (dec_delegate A) input) (\<lambda>validatorId.
     bindc (read_validator validatorId) (\<lambda>val.
     seqc (require (validator_exists val) (Other ''unknown validator''))
     (if call_value = 0 then ret (GAS_DELEGATE, enc_bool A True)
      else
        seqc (require (\<not> call_value < DUST_THRESHOLD) (Other ''delegation is too small''))
        (seqc (internal_delegate A validatorId caller call_value)
        (ret (GAS_DELEGATE, enc_bool A True)))))))"

text \<open>The part of handle_undelegate after the settlement and the dust rule: \<open>amount\<close> is what
  leaves, \<open>wr_acc\<close> the accumulator saved for the withdrawal request.\<close>

definition undelegate_amount ::
    "abi \<Rightarrow> u64 \<Rightarrow> address \<Rightarrow> u8 \<Rightarrow> u256 \<Rightarrow> u256 \<Rightarrow> Delegator \<Rightarrow> unit action" where
  "undelegate_amount A validatorId caller withdrawId amount wr_acc del =
     bindc (lift_res (checked_sub_u256 (d_stake del) amount)) (\<lambda>stake.
     let del = del\<lparr>d_stake := stake\<rparr>;
         del = (if d_stake del = 0 then del\<lparr>d_acc := 0\<rparr> else del) in
     bindc (read_validator validatorId) (\<lambda>val.
     bindc (lift_res (checked_sub_u256 (v_stake val) amount)) (\<lambda>val_stake.
     let val = val\<lparr>v_stake := val_stake\<rparr> in
     seqc (write_validator_stake validatorId (v_stake val))
     (bindc (update_validator_flags_after_undelegate A validatorId val del caller) (\<lambda>_.
     bindc get_activation_epoch (\<lambda>activation_epoch.
     seqc (write_withdrawal_request validatorId caller withdrawId amount wr_acc activation_epoch)
     (seqc (increment_accumulator_refcount validatorId)
     (seqc (write_delegator validatorId caller del)
     (seqc (if \<not> delegator_exists del then linked_list_remove validatorId caller else ret ())
     (emit_event
        [signature_hash A EvUndelegate, topic_u64 validatorId, topic_address caller]
        (word_data (ucast withdrawId) @ word_data amount @ word_data (ucast activation_epoch))))))))))))"

definition handle_undelegate ::
    "abi \<Rightarrow> bytes \<Rightarrow> u64 \<Rightarrow> address \<Rightarrow> (u64 \<times> bytes) action" where
  "handle_undelegate A input gas_limit caller =
     seqc (require (\<not> gas_limit < GAS_UNDELEGATE) OutOfGas)
     (bindc (decode_call (dec_undelegate A) input) (\<lambda>(validatorId, call_amount, withdrawId).
     if call_amount = 0 then ret (GAS_UNDELEGATE, enc_bool A True)
     else
       bindc (read_validator validatorId) (\<lambda>val.
       seqc (require (validator_exists val) (Other ''unknown validator''))
       (bindc (read_u256 (withdrawal_key validatorId caller withdrawId WR_OFF_AMOUNT))
         (\<lambda>existing_wr.
       seqc (require (existing_wr = 0) (Other ''withdrawal id exists''))
       (bindc (pull_delegator_up_to_date validatorId caller) (\<lambda>del.
       let amount = call_amount in
       seqc (require (\<not> d_stake del < amount) (Other ''insufficient stake''))
       (bindc (lift_res (checked_sub_u256 (d_stake del) amount)) (\<lambda>remaining.
       let amount = (if remaining \<noteq> 0 \<and> remaining < DUST_THRESHOLD then d_stake del else amount);
           wr_acc = d_acc del in
       seqc (undelegate_amount A validatorId caller withdrawId amount wr_acc del)
       (ret (GAS_UNDELEGATE, enc_bool A True)))))))))))"

definition handle_withdraw ::
    "abi \<Rightarrow> bytes \<Rightarrow> u64 \<Rightarrow> address \<Rightarrow> (u64 \<times> bytes) action" where
  "handle_withdraw A input gas_limit caller =
     seqc (require (\<not> gas_limit < GAS_WITHDRAW) OutOfGas)
     (bindc (decode_call (dec_withdraw A) input) (\<lambda>(validatorId, withdrawId).
     bindc (read_u256 (withdrawal_key validatorId caller withdrawId WR_OFF_AMOUNT)) (\<lambda>wr_amount.
     seqc (require (wr_amount \<noteq> 0) (Other ''unknown withdrawal id''))
     (bindc (read_u256 (withdrawal_key validatorId caller withdrawId WR_OFF_ACCUMULATOR)) (\<lambda>wr_acc.
     bindc (read_u64 (withdrawal_key validatorId caller withdrawId WR_OFF_EPOCH)) (\<lambda>wr_epoch.
     bindc read_epoch (\<lambda>current_epoch.
     seqc (require (\<not> (\<not> is_epoch_active current_epoch wr_epoch \<or>
                      current_epoch < wr_epoch + WITHDRAWAL_DELAY))
             (Other ''withdrawal not ready''))
     (bindc (decrement_accumulator_refcount wr_epoch validatorId) (\<lambda>epoch_acc.
     bindc (lift_res (calculate_rewards wr_amount epoch_acc wr_acc)) (\<lambda>rewards.
     bindc (read_validator validatorId) (\<lambda>val.
     seqc (require (\<not> v_unclaimed_rewards val < rewards) (Other ''solvency error''))
     (bindc (lift_res (checked_sub_u256 (v_unclaimed_rewards val) rewards)) (\<lambda>unclaimed.
     seqc (write_validator_unclaimed_rewards validatorId unclaimed)
     (bindc (lift_res (checked_add_u256 wr_amount rewards)) (\<lambda>total_payout.
     seqc (transfer STAKING_ADDRESS caller total_payout)
     (seqc (clear_withdrawal_request validatorId caller withdrawId)
     (seqc (emit_event
              [signature_hash A EvWithdraw, topic_u64 validatorId, topic_address caller]
              (word_data (ucast withdrawId) @ word_data total_payout
                 @ word_data (ucast current_epoch)))
     (ret (GAS_WITHDRAW, enc_bool A True)))))))))))))))))))"

definition handle_compound ::
    "abi \<Rightarrow> bytes \<Rightarrow> u64 \<Rightarrow> address \<Rightarrow> (u64 \<times> bytes) action" where
  "handle_compound A input gas_limit caller =
     seqc (require (\<not> gas_limit < GAS_COMPOUND) OutOfGas)
     (bindc (decode_call (dec_compound A) input) (\<lambda>validatorId.
     bindc (pull_delegator_up_to_date validatorId caller) (\<lambda>del.
     seqc (if d_rewards del \<noteq> 0
           then let rewards = d_rewards del in
                seqc (write_delegator validatorId caller (del\<lparr>d_rewards := 0\<rparr>))
                (bindc read_epoch (\<lambda>epoch.
                 seqc (emit_claim_rewards A validatorId caller rewards epoch)
                 (internal_delegate A validatorId caller rewards)))
           else ret ())
     (ret (GAS_COMPOUND, enc_bool A True)))))"

text \<open>The fields of the addValidator payload: secp key, bls key, address, stake, commission.\<close>

definition handle_add_validator ::
    "abi \<Rightarrow> bytes \<Rightarrow> u64 \<Rightarrow> address \<Rightarrow> u256 \<Rightarrow> (u64 \<times> bytes) action" where
  "handle_add_validator A input gas_limit caller call_value =
     seqc (require (\<not> gas_limit < GAS_ADD_VALIDATOR) OutOfGas)
     (bindc (decode_call (dec_addValidator A) input) (\<lambda>(payload, _, _).
     seqc (require (\<not> length payload < 165) (Other ''invalid input''))
     (let secp_pubkey = take 33 payload;
          bls_pubkey = take 48 (drop 33 payload);
          auth_address = from_be_bytes (take 20 (drop 81 payload));
          signed_stake = from_be_bytes (take 32 (drop 101 payload));
          commission = from_be_bytes (take 32 (drop 133 payload)) in
      seqc (require (\<not> call_value \<noteq> signed_stake) (Other ''invalid input''))
      (seqc (require (\<not> call_value < MIN_AUTH_ADDRESS_STAKE) (Other ''insufficient stake''))
      (seqc (require (\<not> MAX_COMMISSION < commission) (Other ''commission too high''))
      (let secp_addr = auth_address;
           bls_addr = from_be_bytes (take 20 bls_pubkey) in
       bindc (read_u64 (val_id_secp_key secp_addr)) (\<lambda>existing_secp.
       seqc (require (\<not> existing_secp \<noteq> 0) (Other ''validator exists''))
       (bindc (read_u64 (val_id_bls_key bls_addr)) (\<lambda>existing_bls.
       seqc (require (\<not> existing_bls \<noteq> 0) (Other ''validator exists''))
       (bindc (read_u64 SLOT_LAST_VAL_ID) (\<lambda>last_val_id.
       let new_val_id = last_val_id + 1 in
       seqc (write_storage_u64 SLOT_LAST_VAL_ID new_val_id)
       (seqc (write_storage_u64 (val_id_secp_key secp_addr) new_val_id)
       (seqc (write_storage_u64 (val_id_bls_key bls_addr) new_val_id)
       (let val = \<lparr>v_stake = 0, v_acc = 0, v_commission = commission,
                   v_secp_pubkey = secp_pubkey, v_bls_pubkey = bls_pubkey,
                   v_auth_address = auth_address, v_flags = FLAG_STAKE_TOO_LOW,
                   v_unclaimed_rewards = 0\<rparr> in
        seqc (write_validator_full new_val_id val)
        (seqc (emit_event
                [signature_hash A EvValidatorCreated, topic_u64 new_val_id,
                 topic_address auth_address]
                (word_data commission))
        (seqc (internal_delegate A new_val_id auth_address call_value)
        (ret (GAS_ADD_VALIDATOR, enc_u64 A new_val_id))))))))))))))))))"

definition handle_get_delegator_write ::
    "abi \<Rightarrow> bytes \<Rightarrow> u64 \<Rightarrow> (u64 \<times> bytes) action" where
  "handle_get_delegator_write A input gas_limit =
     seqc (require (\<not> gas_limit < GAS_GET_DELEGATOR) OutOfGas)
     (bindc (decode_call (dec_getDelegator A) input) (\<lambda>(validatorId, delegator).
     bindc (pull_delegator_up_to_date validatorId delegator) (\<lambda>del.
     ret (GAS_GET_DELEGATOR, enc_getDelegator A del))))"

lemma require_Inr [comp_simps]: "require b e s = (Inr u, t) \<longleftrightarrow> b \<and> t = s"
  by (auto simp: require_def)

context host_relation
begin

lemma host_require [frame_intros]:
  "preserves R (require b e)"
  unfolding require_def by (intro pres_intros pres_case_prod pres_case_sum)+

end

lemma require_frames [frame_intros]:
  "preserves (touches F) (require b e)"
  "preserves same_balances (require b e)"
  unfolding require_def by (intro pres_all)+

context host_relation
begin

lemma host_decode [frame_intros]:
  "preserves R (decode_call dec i)"
  unfolding decode_call_def by (intro pres_intros pres_case_prod pres_case_sum)+

end

lemma decode_frames [frame_intros]:
  "preserves (touches F) (decode_call dec i)"
  "preserves same_balances (decode_call dec i)"
  unfolding decode_call_def by (intro pres_all)+

section \<open>Effects\<close>

lemma transfer_Inr:
  "transfer f r x s = (Inr u, t) \<longleftrightarrow>
     (if x = 0 then t = s else \<exists>b. xfer s f r x (balances s) = TransferOk b \<and> t = s\<lparr>balances := b\<rparr>)"
  by (auto simp: transfer_def split: journal_transfer.splits)

text \<open>What validator \<open>v\<close> and delegator \<open>a\<close> (with withdrawal request \<open>w\<close>) hold in the contract.\<close>

definition liability :: "storage \<Rightarrow> u64 \<Rightarrow> address \<Rightarrow> u8 \<Rightarrow> nat" where
  "liability st v a w =
     unat (v_stake (validator_at st v)) + unat (v_unclaimed_rewards (validator_at st v))
     + unat (d_rewards (delegator_at st (v, a))) + unat (wr_amount (withdrawal_at st (v, a, w)))"

lemma withdrawal_cell_views:
  "st (key_of (CWithdrawal v a w 0)) = wr_amount (withdrawal_at st (v, a, w))"
  "st (key_of (CWithdrawal v a w 1)) = wr_accumulator (withdrawal_at st (v, a, w))"
  "u64_of_slot (st (key_of (CWithdrawal v a w 2))) = wr_epoch (withdrawal_at st (v, a, w))"
  by (simp_all add: withdrawal_at_def)

lemma validator_cell_views:
  "st (key_of (CValidator v 0)) = v_stake (validator_at st v)"
  "st (key_of (CValidator v 1)) = v_acc (validator_at st v)"
  "st (key_of (CValidator v 2)) = v_commission (validator_at st v)"
  "st (key_of (CValidator v 7)) = v_unclaimed_rewards (validator_at st v)"
  by (simp_all add: validator_at_def)

lemma payout_nonzero: "(x :: u256) \<noteq> 0 \<Longrightarrow> unat x + unat r < 2 ^ 256 \<Longrightarrow> x + r \<noteq> 0"
  by (metis add_is_0 unat_0 unat_eq_zero unat_reward_sum)

lemmas handler_simps = require_Inr bindc_Inr if_distribR transfer_Inr key_folds offset_defs
  withdrawal_cell_views validator_cell_views checked_sub_u256_Inr checked_add_u256_Inr
  emit_event_def not_less

text \<open>Inversion of a successful withdrawal.\<close>

lemma withdraw_Inr:
  assumes ok: "backend_ok s" and dec: "dec_withdraw A (drop 4 input) = Inr (v, w)"
    and run: "handle_withdraw A input gas a s = (Inr r, t)"
  defines "q \<equiv> withdrawal_at (store s) (v, a, w)"
  shows "wr_amount q \<noteq> 0 \<and> wr_epoch q \<noteq> 0 \<and> wr_epoch q \<le> u64_at (store s) CEpoch \<and>
    wr_epoch q + WITHDRAWAL_DELAY \<le> u64_at (store s) CEpoch \<and>
    (\<exists>reward b.
      calculate_rewards (wr_amount q) (snapshot_value (accumulator_at (store s) (wr_epoch q, v)))
        (wr_accumulator q) = Inr reward \<and>
      reward \<le> v_unclaimed_rewards (validator_at (store s) v) \<and>
      unat (wr_amount q) + unat reward < 2 ^ 256 \<and>
      xfer s STAKING_ADDRESS a (wr_amount q + reward) (balances s) = TransferOk b \<and>
      balances t = b \<and>
      store t = put_withdrawal (v, a, w) \<lparr>wr_amount = 0, wr_accumulator = 0, wr_epoch = 0\<rparr>
        ((store (after_decrement (wr_epoch q) v s))
           (key_of (CValidator v 7) := v_unclaimed_rewards (validator_at (store s) v) - reward))) \<and>
    fst r = GAS_WITHDRAW"
proof -
  have "\<not> gas < GAS_WITHDRAW"
    using run by (rule_tac ccontr) (simp add: handle_withdraw_def bindc_Inr require_Inr)
  then show ?thesis
    using run ok dec
    using payout_nonzero
    by (simp add: handle_withdraw_def handler_simps decrement_after is_epoch_active_def q_def
        del: decrement_accumulator_refcount_ok) (fastforce)
qed

lemma change_commission_Inr:
  assumes ok: "backend_ok s" and dec: "dec_changeCommission A (drop 4 input) = Inr (v, c)"
    and run: "handle_change_commission A input gas a s = (Inr r, t)"
  shows "validator_exists (validator_at (store s) v) \<and>
    a = v_auth_address (validator_at (store s) v) \<and> c \<le> MAX_COMMISSION \<and>
    store t = (store s)(key_of (CValidator v 2) := c) \<and> balances t = balances s \<and>
    logs t = (if c = v_commission (validator_at (store s) v) then logs s
      else logs s @ [\<lparr>log_address = STAKING_ADDRESS,
        log_topics = [signature_hash A EvCommissionChanged, topic_u64 v],
        log_data = word_data (v_commission (validator_at (store s) v)) @ word_data c\<rparr>])"
proof -
  have "(store s)(key_of (CValidator v 2) := v_commission (validator_at (store s) v)) = store s"
    by (simp add: validator_at_def)
  then show ?thesis
    using run ok dec
    by (auto simp: handle_change_commission_def handler_simps split: if_splits)
qed

lemma claim_rewards_Inr:
  assumes ok: "backend_ok s" and dec: "dec_claimRewards A (drop 4 input) = Inr v"
    and run: "handle_claim_rewards A input gas a s = (Inr r, t)"
  obtains d s1 where "pull_delegator_up_to_date v a s = (Inr d, s1)" "backend_ok s1"
    and "store t = put_delegator (v, a) (d\<lparr>d_rewards := 0\<rparr>) (store s1)"
    and "if d_rewards d = 0 then balances t = balances s1
         else xfer s1 STAKING_ADDRESS a (d_rewards d) (balances s1) = TransferOk (balances t)"
proof -
  obtain d s1 where 1: "pull_delegator_up_to_date v a s = (Inr d, s1)"
    and r: "seqc (if d_rewards d \<noteq> 0
           then let rewards = d_rewards d in
                seqc (transfer STAKING_ADDRESS a rewards)
                (seqc (write_delegator v a (d\<lparr>d_rewards := 0\<rparr>))
                (bindc read_epoch (\<lambda>epoch. emit_claim_rewards A v a rewards epoch)))
           else ret ())
     (ret (GAS_CLAIM_REWARDS, enc_bool A True)) s1 = (Inr r, t)"
    using run dec
    by (auto simp: handle_claim_rewards_def bindc_Inr [of "require b e" for b e] require_Inr
        bindc_Inr [of "pull_delegator_up_to_date v a"])
  have b1: "backend_ok s1" using delegation_backend(2) [OF 1] ok by simp
  have same: "d_rewards d = 0 \<Longrightarrow> d\<lparr>d_rewards := 0\<rparr> = d" by (cases d) simp
  show ?thesis
    using r b1 pull_writes_back [OF ok 1]
    by (intro that [OF 1 b1])
      (auto simp: handler_simps Let_def emit_claim_rewards_def same
        split: if_splits)
qed

lemma external_reward_Inr:
  assumes ok: "backend_ok s" and dec: "dec_externalReward A (drop 4 input) = Inr v"
    and run: "handle_external_reward A input gas a x s = (Inr r, t)"
  defines "val \<equiv> validator_at (store s) v"
    and "active \<equiv> store s (key_of (if in_boundary_at (store s) then CSnapshotView v 0
                                   else CConsensusView v 0))"
  shows "validator_exists val \<and> active \<noteq> 0 \<and> MIN_EXTERNAL_REWARD \<le> x \<and> x \<le> MAX_EXTERNAL_REWARD \<and>
    (\<exists>acc. checked_mul_div_u256 x UNIT_BIAS active = Inr acc \<and>
      unat (v_acc val) + unat acc < 2 ^ 256 \<and> unat (v_unclaimed_rewards val) + unat x < 2 ^ 256 \<and>
      store t = (store s)(key_of (CValidator v 1) := v_acc val + acc,
                          key_of (CValidator v 7) := v_unclaimed_rewards val + x)) \<and>
    balances t = balances s"
  using run ok dec
  by (cases "in_boundary_at (store s)")
    (auto simp: handle_external_reward_def handler_simps val_def active_def Let_def)

lemma delegate_Inr:
  assumes ok: "backend_ok s" and dec: "dec_delegate A (drop 4 input) = Inr v"
    and run: "handle_delegate A input gas a x s = (Inr r, t)"
  shows "validator_exists (validator_at (store s) v) \<and>
    (if x = 0 then t = s else DUST_THRESHOLD \<le> x \<and> internal_delegate A v a x s = (Inr (), t))"
  using run ok dec by (auto simp: handle_delegate_def handler_simps split: if_splits)

text \<open>The dust rule: what leaves when \<open>amount\<close> of \<open>stake\<close> is undelegated.\<close>

definition dust_amount :: "u256 \<Rightarrow> u256 \<Rightarrow> u256" where
  "dust_amount stake amount =
     (if stake - amount \<noteq> 0 \<and> stake - amount < DUST_THRESHOLD then stake else amount)"

lemma dust_fold: "(if d \<noteq> x \<and> d - x < DUST_THRESHOLD then d else x) = dust_amount d x"
  by (simp add: dust_amount_def)

lemma undelegate_Inr:
  assumes ok: "backend_ok s" and dec: "dec_undelegate A (drop 4 input) = Inr (v, x, w)"
    and run: "handle_undelegate A input gas a s = (Inr r, t)"
  shows "if x = 0 then t = s
    else validator_exists (validator_at (store s) v) \<and>
      wr_amount (withdrawal_at (store s) (v, a, w)) = 0 \<and>
      (\<exists>d s1. pull_delegator_up_to_date v a s = (Inr d, s1) \<and> x \<le> d_stake d \<and>
        undelegate_amount A v a w (dust_amount (d_stake d) x) (d_acc d) d s1 = (Inr (), t))"
  using run ok dec
  by (cases "x = 0") (auto simp: handle_undelegate_def handler_simps dust_fold Let_def)

definition after_unstake :: "Delegator \<Rightarrow> u256 \<Rightarrow> Delegator" where
  "after_unstake d x =
     (if d_stake d = x then d\<lparr>d_stake := 0, d_acc := 0\<rparr> else d\<lparr>d_stake := d_stake d - x\<rparr>)"

lemma word_diff_zero: "(x :: u256) - y = 0 \<longleftrightarrow> x = y"
  by simp

lemma unlink_frames:
  "preserves (touches all_node_cells) (if b then linked_list_remove v a else ret ())"
  "preserves same_balances (if b then linked_list_remove v a else ret ())"
  by (intro pres_all frame_intros order_refl)+

context host_relation
begin

lemma host_undelegate_amount [frame_intros]:
  "preserves R (undelegate_amount A v a w x acc d)"
  unfolding undelegate_amount_def Let_def by (intro pres_intros pres_case_prod pres_case_sum frame_intros)+

end

lemma undelegate_amount_frames [frame_intros]:
  "{CValidator v 0, CValidator v 6} \<union> withdrawal_cells (v, a, w) \<union> acc_cells v \<union> delegator_cells (v, a)
     \<union> all_node_cells \<subseteq> F \<Longrightarrow> preserves (touches F) (undelegate_amount A v a w x acc d)"
  unfolding undelegate_amount_def Let_def by (intro pres_all frame_intros; auto)+

text \<open>What undelegating writes after the validator's flags: the request, a reference to the
  accumulator it will be paid at, and the delegator.\<close>

definition requested_at ::
    "u64 \<Rightarrow> address \<Rightarrow> u8 \<Rightarrow> u256 \<Rightarrow> u256 \<Rightarrow> u64 \<Rightarrow> Delegator \<Rightarrow> storage \<Rightarrow> storage" where
  "requested_at v a w x acc e d st =
     put_delegator (v, a) d
       (put_accumulator (e, v)
         \<lparr>acc_value = v_acc (validator_at st v),
          acc_refcount = acc_refcount (accumulator_at st (e, v)) + 1\<rparr>
         (put_withdrawal (v, a, w) \<lparr>wr_amount = x, wr_accumulator = acc, wr_epoch = e\<rparr> st))"

lemma requested_views:
  "delegator_at (requested_at v a w x acc e d st) (v, a) = d"
  "withdrawal_at (requested_at v a w x acc e d st) (v, a, w)
     = \<lparr>wr_amount = x, wr_accumulator = acc, wr_epoch = e\<rparr>"
  "validator_at (requested_at v a w x acc e d st) u = validator_at st u"
  "node_at (requested_at v a w x acc e d st) k = node_at st k"
  by (simp_all add: requested_at_def cell_simps)

lemma undelegate_amount_Inr:
  assumes ok: "backend_ok s" and run: "undelegate_amount A v a w x acc d s = (Inr (), t)"
  obtains f s3 s5 where "x \<le> d_stake d" "x \<le> v_stake (validator_at (store s) v)"
    "update_validator_flags_after_undelegate A v
       ((validator_at (store s) v)\<lparr>v_stake := v_stake (validator_at (store s) v) - x\<rparr>)
       (after_unstake d x) a
       (s\<lparr>store := (store s)(key_of (CValidator v 0) := v_stake (validator_at (store s) v) - x)\<rparr>)
     = (Inr f, s3)" "backend_ok s3"
    "(if \<not> delegator_exists (after_unstake d x) then linked_list_remove v a else ret ())
       (s3\<lparr>store := requested_at v a w x acc (activation_epoch_at (store s)) (after_unstake d x)
         (store s3)\<rparr>) = (Inr (), s5)"
    "store t = store s5" "balances t = balances s5"
proof -
  have act: "activation_epoch_at (put_withdrawal k q st) = activation_epoch_at st" for k q st
    by (simp add: activation_epoch_at_def cell_simps)
  have d: "(if d_stake d = x then d\<lparr>d_stake := d_stake d - x, d_acc := 0\<rparr>
      else d\<lparr>d_stake := d_stake d - x\<rparr>) = after_unstake d x"
    by (simp add: after_unstake_def)
  show ?thesis
    using run unfolding undelegate_amount_def Let_def
    apply (elim bindc_InrE)
    apply (simp add: ok checked_sub_u256_Inr d, clarify)
    apply (frule valset_backend(3), simp add: ok)
    apply (frule flags_effect(2) [rotated], simp add: ok, clarsimp simp: emit_event_def)
    apply (rule that, assumption+)
    apply (rule trans [rotated], assumption)
    apply (auto simp: emit_event_def requested_at_def act cell_simps activation_epoch_at_def Let_def)
    done
qed

lemma undelegate_amount_effect:
  assumes ok: "backend_ok s" and run: "undelegate_amount A v a w x acc d s = (Inr (), t)"
  shows "x \<le> d_stake d" and "x \<le> v_stake (validator_at (store s) v)"
    and "delegator_at (store t) (v, a) = after_unstake d x"
    and "withdrawal_at (store t) (v, a, w)
       = \<lparr>wr_amount = x, wr_accumulator = acc, wr_epoch = activation_epoch_at (store s)\<rparr>"
    and "v_stake (validator_at (store t) v) = v_stake (validator_at (store s) v) - x"
    and "v_unclaimed_rewards (validator_at (store t) v)
       = v_unclaimed_rewards (validator_at (store s) v)"
    and "balances t = balances s"
    and "links s D V \<Longrightarrow> if delegator_exists (after_unstake d x) then links t D V
       else links t (D(v := remove1 a (D v))) (V(a := remove1 v (V a)))"
    and "v_auth_address (validator_at (store t) v) = v_auth_address (validator_at (store s) v)"
proof -
  let ?d = "after_unstake d x" and ?e = "activation_epoch_at (store s)"
  obtain f s3 s5 where le: "x \<le> d_stake d" "x \<le> v_stake (validator_at (store s) v)"
    and 3: "update_validator_flags_after_undelegate A v
       ((validator_at (store s) v)\<lparr>v_stake := v_stake (validator_at (store s) v) - x\<rparr>) ?d a
       (s\<lparr>store := (store s)(key_of (CValidator v 0) := v_stake (validator_at (store s) v) - x)\<rparr>)
       = (Inr f, s3)" and b3: "backend_ok s3"
    and 5: "(if \<not> delegator_exists ?d then linked_list_remove v a else ret ())
       (s3\<lparr>store := requested_at v a w x acc ?e ?d (store s3)\<rparr>) = (Inr (), s5)"
    and t: "store t = store s5" "balances t = balances s5"
    by (rule undelegate_amount_Inr [OF ok run])
  let ?s4 = "s3\<lparr>store := requested_at v a w x acc ?e ?d (store s3)\<rparr>"
  note fl = flags_effect(2) [OF _ 3]
  have T5: "touches all_node_cells ?s4 s5" and B5: "same_balances ?s4 s5"
    by (rule preservesD [OF unlink_frames(1) 5], rule preservesD [OF unlink_frames(2) 5])
  note cells = region_cells all_node_cells_def requested_views
  show "x \<le> d_stake d" "x \<le> v_stake (validator_at (store s) v)" by fact+
  show "delegator_at (store t) (v, a) = ?d"
    unfolding t by (subst touches_views(2) [OF T5]) (auto simp: cells)
  show "withdrawal_at (store t) (v, a, w)
      = \<lparr>wr_amount = x, wr_accumulator = acc, wr_epoch = ?e\<rparr>"
    unfolding t by (subst touches_views(5) [OF T5]) (auto simp: cells)
  have v: "validator_at (store t) v = validator_at (store s3) v"
    unfolding t by (subst touches_views(1) [OF T5]) (auto simp: cells)
  show "v_stake (validator_at (store t) v) = v_stake (validator_at (store s) v) - x"
    "v_unclaimed_rewards (validator_at (store t) v) = v_unclaimed_rewards (validator_at (store s) v)"
    "v_auth_address (validator_at (store t) v) = v_auth_address (validator_at (store s) v)"
    using fl ok by (auto simp: v cell_simps split: if_splits)
  show "balances t = balances s" using B5 fl ok by (simp add: t same_balances_def)
  have lt: "links t D' V' = links s5 D' V'" for D' V' by (rule links_nodes) (simp add: t)
  assume l: "links s D V"
  have "links ?s4 D V = links s D V"
    by (rule links_nodes) (use fl ok in \<open>auto simp: cells cell_simps split: if_splits\<close>)
  then have l4: "links ?s4 D V" using l by simp
  show "if delegator_exists ?d then links t D V
      else links t (D(v := remove1 a (D v))) (V(a := remove1 v (V a)))"
    using 5 l4 remove_links [OF _ l4, of v a] b3 by (auto simp: lt)
qed

section \<open>Compounding and withdrawing\<close>

lemma settle_settled:
  assumes "\<not> is_epoch_active e (d_delta_epoch d)" "\<not> is_epoch_active e (d_next_delta_epoch d)"
    and "d_stake d \<noteq> 0 \<Longrightarrow> d_acc d = x"
  shows "settle (unat e) val (unat x) (position_of d) = position_of d"
proof -
  have "settle_pending (unat e) val (position_of d) (pending_of d) = position_of d"
    using assms(1,2) by (auto simp: position_of_def pending_of_def active_le)
  then show ?thesis
    using assms(3)
    by (auto simp: settle_def Let_def position_of_def accrue_at_def reward_of_def unat_eq_zero)
qed

lemma compound_Inr:
  assumes ok: "backend_ok s" and dec: "dec_compound A (drop 4 input) = Inr v"
    and run: "handle_compound A input gas a s = (Inr r, t)"
  obtains d s1 where "pull_delegator_up_to_date v a s = (Inr d, s1)"
    and "d_rewards d = 0 \<longrightarrow> t = s1"
    and "d_rewards d \<noteq> 0 \<longrightarrow> (\<exists>l. internal_delegate A v a (d_rewards d)
      (s1\<lparr>store := put_delegator (v, a) (d\<lparr>d_rewards := 0\<rparr>) (store s1), logs := l\<rparr>) = (Inr (), t))"
proof -
  obtain d s1 where 1: "pull_delegator_up_to_date v a s = (Inr d, s1)"
    and r: "seqc (if d_rewards d \<noteq> 0
           then let rewards = d_rewards d in
                seqc (write_delegator v a (d\<lparr>d_rewards := 0\<rparr>))
                (bindc read_epoch (\<lambda>epoch.
                 seqc (emit_claim_rewards A v a rewards epoch) (internal_delegate A v a rewards)))
           else ret ())
     (ret (GAS_COMPOUND, enc_bool A True)) s1 = (Inr r, t)"
    using run dec
    by (auto simp: handle_compound_def bindc_Inr [of "require b e" for b e] require_Inr
        bindc_Inr [of "pull_delegator_up_to_date v a"])
  have b1: "backend_ok s1" using delegation_backend(2) [OF 1] ok by simp
  show ?thesis
    using r b1
    by (intro that [OF 1])
      (auto simp: handler_simps Let_def emit_claim_rewards_def split: if_splits)
qed

text \<open>The record of a new validator, and the storage addValidator reaches before the initial
  delegation.\<close>

definition add_validator_record :: "address \<Rightarrow> u256 \<Rightarrow> bytes \<Rightarrow> bytes \<Rightarrow> Validator" where
  "add_validator_record auth commission secp bls =
     \<lparr>v_stake = 0, v_acc = 0, v_commission = commission, v_secp_pubkey = secp,
      v_bls_pubkey = bls, v_auth_address = auth, v_flags = FLAG_STAKE_TOO_LOW,
      v_unclaimed_rewards = 0\<rparr>"

definition registered_at :: "u64 \<Rightarrow> address \<Rightarrow> address \<Rightarrow> Validator \<Rightarrow> storage \<Rightarrow> storage" where
  "registered_at new auth bls_addr val st =
     put_validator new val
       (put_u64 (CValIdBls bls_addr) new (put_u64 (CValIdSecp auth) new (put_u64 CLastValId new st)))"

lemma registered_views:
  "validator_wf val \<Longrightarrow> validator_at (registered_at new auth b val st) w
     = (if w = new then val else validator_at st w)"
  "delegator_at (registered_at new auth b val st) k = delegator_at st k"
  "node_at (registered_at new auth b val st) k = node_at st k"
  "epoch_at (registered_at new auth b val st) = epoch_at st"
  "in_boundary_at (registered_at new auth b val st) = in_boundary_at st"
  "u64_at (registered_at new auth b val st) CLastValId = new"
  "u64_at (registered_at new auth b val st) (CValIdSecp c)
     = (if c = auth then new else u64_at st (CValIdSecp c))"
  "u64_at (registered_at new auth b val st) (CValIdBls c)
     = (if c = b then new else u64_at st (CValIdBls c))"
  by (simp_all add: registered_at_def epoch_at_def cell_simps)

lemma add_validator_Inr:
  assumes ok: "backend_ok s" and dec: "dec_addValidator A (drop 4 input) = Inr (payload, y, z)"
    and run: "handle_add_validator A input gas c x s = (Inr r, t)"
  defines "auth \<equiv> from_be_bytes (take 20 (drop 81 payload)) :: address"
    and "bls \<equiv> take 48 (drop 33 payload)"
    and "commission \<equiv> from_be_bytes (take 32 (drop 133 payload)) :: u256"
    and "new \<equiv> u64_at (store s) CLastValId + 1"
  defines "bls_addr \<equiv> from_be_bytes (take 20 bls) :: address"
  shows "165 \<le> length payload \<and> x = from_be_bytes (take 32 (drop 101 payload)) \<and>
    MIN_AUTH_ADDRESS_STAKE \<le> x \<and> commission \<le> MAX_COMMISSION \<and>
    u64_at (store s) (CValIdSecp auth) = 0 \<and> u64_at (store s) (CValIdBls bls_addr) = 0 \<and>
    r = (GAS_ADD_VALIDATOR, enc_u64 A new) \<and>
    (\<exists>l. internal_delegate A new auth x
       (s\<lparr>store := registered_at new auth bls_addr
            (add_validator_record auth commission (take 33 payload) bls) (store s),
          logs := l\<rparr>) = (Inr (), t))"
  using run ok dec
  by (auto simp: handle_add_validator_def handler_simps Let_def auth_def bls_def commission_def
      new_def bls_addr_def add_validator_record_def registered_at_def u64_at_def put_u64_def)

section \<open>When operations succeed\<close>

lemma credit_delta_ok:
  assumes "backend_ok s"
    and "unat (if b then d_next_delta_stake d else d_delta_stake d) + unat x < 2 ^ 256"
  shows "\<exists>d' t. credit_delta_track v a x b act d s = (Inr d', t)"
proof -
  have "\<exists>c. checked_add_u256 (if b then d_next_delta_stake d else d_delta_stake d) x = Inr c"
    using assms(2) by (simp add: checked_add_u256_Inr)
  then show ?thesis
    using assms(1) by (cases b) (auto simp: credit_delta_track_def bindc_apply Let_def)
qed

lemma flags_ok:
  assumes "backend_ok s"
  shows "\<exists>f t. update_validator_flags_after_delegate A v val d c s = (Inr f, t)"
    and "\<exists>f t. update_validator_flags_after_undelegate A v val d c s = (Inr f, t)"
  using assms
  by (simp_all add: update_validator_flags_after_delegate_def emit_status_changed_def emit_event_def
      update_validator_flags_after_undelegate_def Let_def bindc_apply del: not_le)

lemma linked_list_insert_ok:
  assumes "backend_ok s" and "v \<noteq> 0" "v \<noteq> SENTINEL_VAL_ID" "a \<noteq> 0" "a \<noteq> SENTINEL_ADDRESS"
  shows "\<exists>t. linked_list_insert v a s = (Inr (), t)"
proof -
  obtain s1 where 1: "linked_list_insert_address v a s = (Inr (), s1)" and b1: "backend_ok s1"
    using insert_address_ok [OF assms(1,4,5), of v] assms(1) by (auto simp: Let_def split: if_splits)
  show ?thesis
    using insert_val_id_ok [OF b1 assms(2,3)] by (simp add: linked_list_insert_def bindc_apply 1)
qed

lemma internal_delegate_ok:
  assumes ok: "backend_ok s" and pull: "pull_delegator_up_to_date v a s = (Inr d, s1)"
    and sums: "unat (if in_boundary_at (store s) then d_next_delta_stake d else d_delta_stake d)
        + unat x < 2 ^ 256" "unat (v_stake (validator_at (store s) v)) + unat x < 2 ^ 256"
    and ids: "v \<noteq> 0" "v \<noteq> SENTINEL_VAL_ID" "a \<noteq> 0" "a \<noteq> SENTINEL_ADDRESS"
  shows "\<exists>t. internal_delegate A v a x s = (Inr (), t)"
proof -
  note lv = pull_leaves [OF ok pull]
  let ?act = "activation_epoch_at (store s1)"
  obtain d' s2 where 2: "credit_delta_track v a x (in_boundary_at (store s1)) ?act d s1 = (Inr d', s2)"
    using credit_delta_ok [OF lv(12), where b = "in_boundary_at (store s1)" and d = d and x = x
        and v = v and a = a and act = ?act] sums(1) by (auto simp: lv)
  have b2: "backend_ok s2" using valset_backend(4) [OF 2] lv(12) by simp
  note ce = credit_delta_effect(4) [OF lv(12) 2]
  obtain stake where 3: "checked_add_u256 (v_stake (validator_at (store s2) v)) x = Inr stake"
    using sums(2) by (simp add: checked_add_u256_Inr ce lv)
  let ?s3 = "s2\<lparr>store := (store s2)(key_of (CValidator v 0) := stake)\<rparr>"
  have "backend_ok ?s3" using b2 by simp
  from flags_ok(1) [OF this] obtain f s4 where
    4: "update_validator_flags_after_delegate A v ((validator_at (store s2) v)\<lparr>v_stake := stake\<rparr>) d' a
      ?s3 = (Inr f, s4)" by blast
  have b4: "backend_ok s4" using valset_backend(2) [OF 4] b2 by simp
  obtain s5 where 5: "(if f = FLAG_OK then bindc (add_to_valset v) (\<lambda>_. ret ()) else ret ()) s4 = (Inr (), s5)"
    and b5: "backend_ok s5"
    using b4 by (cases "f = FLAG_OK") (simp_all add: bindc_apply add_to_valset_ok Let_def)
  obtain s6 where 6: "linked_list_insert v a s5 = (Inr (), s6)"
    using linked_list_insert_ok [OF b5 ids] by blast
  show ?thesis
    using b2
    by (simp add: internal_delegate_def Let_def bindc_apply pull lv(12) 2 3 4 5 6 emit_event_def)
qed

lemma linked_list_remove_ok:
  "backend_ok s \<Longrightarrow> \<exists>t. linked_list_remove v a s = (Inr (), t)"
proof -
  assume ok: "backend_ok s"
  obtain s1 where 1: "linked_list_remove_address v a s = (Inr (), s1)" and b1: "backend_ok s1"
    using remove_address_ok [OF ok, of v a] ok by (auto simp: Let_def split: if_splits)
  show ?thesis
    using remove_val_id_ok [OF b1, of v a] by (simp add: linked_list_remove_def bindc_apply 1)
qed

lemma undelegate_amount_ok:
  assumes ok: "backend_ok s" and le: "x \<le> d_stake d" "x \<le> v_stake (validator_at (store s) v)"
  shows "\<exists>t. undelegate_amount A v a w x acc d s = (Inr (), t)"
proof -
  let ?e = "d\<lparr>d_stake := d_stake d - x\<rparr>"
  let ?d = "if d_stake ?e = 0 then ?e\<lparr>d_acc := 0\<rparr> else ?e"
  let ?val = "(validator_at (store s) v)\<lparr>v_stake := v_stake (validator_at (store s) v) - x\<rparr>"
  let ?s2 = "s\<lparr>store := (store s)(key_of (CValidator v 0) := v_stake ?val)\<rparr>"
  have sub: "checked_sub_u256 (d_stake d) x = Inr (d_stake d - x)"
    "checked_sub_u256 (v_stake (validator_at (store s) v)) x
      = Inr (v_stake (validator_at (store s) v) - x)"
    using le by (simp_all add: checked_sub_u256_Inr)
  have b2: "backend_ok ?s2" using ok by simp
  from flags_ok(2) [OF this] obtain f s3 where
    3: "update_validator_flags_after_undelegate A v ?val ?d a ?s2 = (Inr f, s3)" by blast
  have b3: "backend_ok s3" using valset_backend(3) [OF 3] b2 by simp
  have last: "\<exists>t. seqc (if \<not> delegator_exists ?d then linked_list_remove v a else ret ())
      (emit_event ts bs) s' = (Inr (), t)" if "backend_ok s'" for s' ts bs
    using linked_list_remove_ok [OF that, of v a]
    by (cases "delegator_exists ?d") (auto simp: bindc_apply emit_event_def)
  show ?thesis
    using ok b3
    by (simp only: undelegate_amount_def Let_def bindc_apply [of "lift_res r" for r] lift_res_apply
        sub prod.case sum.case)
      (simp only: bindc_apply [of "read_validator v"] bindc_apply [of "write_validator_stake v y" for y]
        bindc_apply [of "lift_res r" for r] lift_res_apply read_validator_ok sub prod.case sum.case
        write_validator_fields_ok Validator.simps 3
        bindc_apply [of "update_validator_flags_after_undelegate A v val e c" for val e c]
        bindc_apply [of get_activation_epoch] get_activation_epoch_ok
        bindc_apply [of "write_withdrawal_request v a w x acc e" for e] write_withdrawal_request_ok
        bindc_apply [of "increment_accumulator_refcount v"] increment_accumulator_refcount_ok
        backend_ok_update bindc_apply [of "write_delegator v a e" for e] write_delegator_ok last)
qed

section \<open>Properties\<close>

text \<open>C2: a successful delegate of a non-zero value (at least the dust threshold, to an existing
  validator) settles the delegator, schedules exactly the value at the activation epoch, adds it
  to the validator's total stake, links the pair in both lists and leaves the delegator's tracks
  in order; no other money changes hands inside the contract.\<close>

theorem delegate_effect:
  assumes "backend_ok s" and "dec_delegate A (drop 4 input) = Inr v" and "x \<noteq> 0"
    and "timed (epoch_at (store s)) (in_boundary_at (store s)) (delegator_at (store s) (v, a))"
    and "epoch_at (store s) + 2 < 2 ^ 64" and "links s D V"
    and "handle_delegate A input gas a x s = (Inr r, t)"
  shows "validator_exists (validator_at (store s) v) \<and> 10 ^ 9 \<le> unat x \<and>
    position_of (delegator_at (store t) (v, a)) =
      schedule_stake (unat (activation_epoch_at (store s))) (unat x)
        (settle (epoch_at (store s)) (snapshots_at (store s) v)
          (unat (v_acc (validator_at (store s) v))) (position_of (delegator_at (store s) (v, a)))) \<and>
    unat (v_stake (validator_at (store t) v)) = unat (v_stake (validator_at (store s) v)) + unat x \<and>
    links t (D(v := insert_once a (D v))) (V(a := insert_once v (V a))) \<and>
    timed (epoch_at (store s)) (in_boundary_at (store s)) (delegator_at (store t) (v, a)) \<and>
    liability (store t) v a w = liability (store s) v a w + unat x \<and> balances t = balances s"
proof -
  note run = delegate_Inr [OF assms(1,2,7)]
  from run assms(3) have i: "internal_delegate A v a x s = (Inr (), t)" and "DUST_THRESHOLD \<le> x"
    by simp_all
  then have dust: "10 ^ 9 \<le> unat x" by (simp add: word_le_nat_alt unat_constants)
  note e = internal_delegate_effect [OF assms(1) i assms(4,5)]
  show ?thesis
    using run dust e(1,2,4,5) e(6) [OF assms(6)]
    by (simp add: liability_def internal_delegate_leaves [OF i])
qed

text \<open>C9: a successful undelegate pays out the dust rule's amount: the requested one, or the whole
  active stake when less than the dust threshold would remain. It opens a request under an id that
  was free, records the settled accumulator mark and the activation epoch, lowers the delegator's
  active stake and the validator's stake by the amount, unlinks a delegator who has nothing left,
  and neither creates nor destroys value.\<close>

theorem undelegate_effect:
  assumes "backend_ok s" and "dec_undelegate A (drop 4 input) = Inr (v, x, w)" and "x \<noteq> 0"
    and "delegator_wf (delegator_at (store s) (v, a))" and "u64_at (store s) CEpoch + 1 \<noteq> 0"
    and "links s D V" and "handle_undelegate A input gas a s = (Inr r, t)"
  shows "wr_amount (withdrawal_at (store s) (v, a, w)) = 0 \<and>
    (\<exists>d s1. pull_delegator_up_to_date v a s = (Inr d, s1) \<and>
      (let amount = dust_amount (d_stake d) x; d' = after_unstake d amount in
       x \<le> amount \<and> amount \<le> d_stake d \<and>
       (d_stake d' = 0 \<or> DUST_THRESHOLD \<le> d_stake d') \<and>
       delegator_at (store t) (v, a) = d' \<and>
       withdrawal_at (store t) (v, a, w) = \<lparr>wr_amount = amount, wr_accumulator = d_acc d,
          wr_epoch = activation_epoch_at (store s)\<rparr> \<and>
       v_stake (validator_at (store t) v) = v_stake (validator_at (store s) v) - amount \<and>
       (if delegator_exists d' then links t D V
        else links t (D(v := remove1 a (D v))) (V(a := remove1 v (V a)))))) \<and>
    liability (store t) v a w = liability (store s) v a w \<and> balances t = balances s"
proof -
  obtain d s1 where free: "wr_amount (withdrawal_at (store s) (v, a, w)) = 0"
    and 1: "pull_delegator_up_to_date v a s = (Inr d, s1)" and le: "x \<le> d_stake d"
    and 2: "undelegate_amount A v a w (dust_amount (d_stake d) x) (d_acc d) d s1 = (Inr (), t)"
    using undelegate_Inr [OF assms(1,2,7)] assms(3) by auto
  define amount where "amount = dust_amount (d_stake d) x"
  note leaves = pull_leaves [OF assms(1) 1]
  note eff = undelegate_amount_effect [OF leaves(12) 2, folded amount_def]
  have x: "x \<le> amount" using le by (simp add: amount_def dust_amount_def)
  have rest: "d_stake (after_unstake d amount) = 0 \<or> DUST_THRESHOLD \<le> d_stake (after_unstake d amount)"
    by (auto simp: amount_def dust_amount_def after_unstake_def not_less)
  have rew: "d_rewards (after_unstake d amount) = d_rewards d" by (simp add: after_unstake_def)
  have sum: "unat (v_stake (validator_at (store s) v) - amount) + unat amount
      = unat (v_stake (validator_at (store s) v))"
    using eff(2) by (simp add: leaves unat_minus_le word_le_nat_alt)
  have lia: "liability (store t) v a w = liability (store s) v a w"
    using pull_effect(4) [OF assms(1) 1 assms(4,5)] sum free
    by (simp add: liability_def eff(3-6) rew leaves)
  have links: "if delegator_exists (after_unstake d amount) then links t D V
      else links t (D(v := remove1 a (D v))) (V(a := remove1 v (V a)))"
    using eff(8) assms(6) by (simp add: leaves)
  have "balances t = balances s" by (simp add: eff(7) leaves)
  with free 1 x rest links lia eff show ?thesis
    by (auto simp: Let_def amount_def [symmetric] leaves)
qed

text \<open>A world for the witnesses: epoch 5, validator 1 with auth address 9 and a stake of two dust
  thresholds, delegator 8 with nothing yet, nobody linked.\<close>

definition delegate_example :: host where
  "delegate_example = host_of [(CEpoch, slot_of_u64 5),
     (CValidator 1 0, 2 * 10 ^ 9), (CValidator 1 6, slot_of_address_flags 9 1)]"

lemma links_host_of:
  assumes "\<And>v a. map_of cs (CDelegator v a 6) = None" and "\<And>v a. map_of cs (CDelegator v a 7) = None"
  shows "links (host_of cs) (\<lambda>_. []) (\<lambda>_. [])"
proof -
  have "node_at (store_of cs) k = node_at (\<lambda>_. 0) k" for k
    by (cases k) (simp add: node_at_def assms)
  then have "same_a UNIV (host_of []) (host_of cs)" "same_i UNIV (host_of []) (host_of cs)"
    by (simp_all add: same_a_def same_i_def)
  then show ?thesis
    using links_empty by (simp add: links_def delegator_list_same delegation_list_same)
qed

lemma delegate_example_facts [simp]:
  "backend_ok delegate_example" "links delegate_example (\<lambda>_. []) (\<lambda>_. [])"
  "delegator_at (store delegate_example) (1, 8) = Delegator_default"
  "u64_at (store delegate_example) CEpoch = 5" "\<not> in_boundary_at (store delegate_example)"
  "validator_exists (validator_at (store delegate_example) 1)"
  by (simp_all add: delegate_example_def links_host_of delegator_at_def u64_at_def in_boundary_at_def
      validator_exists_def validator_at_def Delegator_default_def)

lemma delegate_example_run:
  "\<exists>t. handle_delegate word_abi (call_data SEL_delegate [1]) GAS_DELEGATE 8 (10 ^ 9) delegate_example
     = (Inr (GAS_DELEGATE, enc_bool word_abi True), t)"
proof -
  obtain s1 where "pull_delegator_up_to_date 1 8 delegate_example = (Inr Delegator_default, s1)"
    using pull_noop [of delegate_example 1 8]
    by (simp add: promote_delta_def Delegator_default_def is_epoch_active_def)
  from internal_delegate_ok [OF _ this, of "10 ^ 9" word_abi]
  obtain t where "internal_delegate word_abi 1 8 (10 ^ 9) delegate_example = (Inr (), t)"
    by (auto simp: Delegator_default_def SENTINEL_VAL_ID_def SENTINEL_ADDRESS_max)
      (auto simp: delegate_example_def validator_at_def)
  then show ?thesis
    by (simp add: handle_delegate_def require_def decode_call_def  bindc_apply
        constant_values)
qed

theorem delegate_effect_witness:
  "\<exists>t. handle_delegate word_abi (call_data SEL_delegate [1]) GAS_DELEGATE 8 (10 ^ 9) delegate_example
      = (Inr (GAS_DELEGATE, enc_bool word_abi True), t) \<and>
    p_pending (position_of (delegator_at (store t) (1, 8))) = [(6, 10 ^ 9)] \<and>
    unat (v_stake (validator_at (store t) 1)) = 3 * 10 ^ 9 \<and>
    links t ((\<lambda>_. [])(1 := [8])) ((\<lambda>_. [])(8 := [1]))"
proof -
  obtain t where t: "handle_delegate word_abi (call_data SEL_delegate [1]) GAS_DELEGATE 8 (10 ^ 9)
      delegate_example = (Inr (GAS_DELEGATE, enc_bool word_abi True), t)"
    using delegate_example_run by blast
  have dec: "dec_delegate word_abi (drop 4 (call_data SEL_delegate [1])) = Inr 1"
    by simp
  have "v_stake (validator_at (store delegate_example) 1) = 2 * 10 ^ 9"
    by (simp add: delegate_example_def validator_at_def)
  with delegate_effect [OF _ dec _ _ _ _ t, of "\<lambda>_. []" "\<lambda>_. []" 0] t show ?thesis
    by (intro exI [of _ t]) (simp add: epoch_at_def timed_def delegator_wf_def Delegator_default_def
        activation_epoch_at_def schedule_stake_def settle_def position_of_def pending_of_def
        insert_once_def)
qed

text \<open>Delegator 8 has 5 dust thresholds staked; undelegating 4.5 of them takes the rest along.\<close>

definition undelegate_example :: host where
  "undelegate_example = host_of [(CEpoch, slot_of_u64 5), (CValidator 1 0, 5 * 10 ^ 9),
     (CValidator 1 1, 10 ^ 30), (CValidator 1 6, slot_of_address_flags 9 1),
     (CDelegator 1 8 0, 5 * 10 ^ 9), (CDelegator 1 8 1, 10 ^ 30)]"

definition undelegate_example_delegator :: Delegator where
  "undelegate_example_delegator = Delegator_default\<lparr>d_stake := 5 * 10 ^ 9, d_acc := 10 ^ 30\<rparr>"

lemma undelegate_example_facts [simp]:
  "backend_ok undelegate_example" "links undelegate_example (\<lambda>_. []) (\<lambda>_. [])"
  "delegator_at (store undelegate_example) (1, 8) = undelegate_example_delegator"
  "u64_at (store undelegate_example) CEpoch = 5" "\<not> in_boundary_at (store undelegate_example)"
  "validator_exists (validator_at (store undelegate_example) 1)"
  "v_stake (validator_at (store undelegate_example) 1) = 5 * 10 ^ 9"
  "v_acc (validator_at (store undelegate_example) 1) = 10 ^ 30"
  "store undelegate_example (key_of (CWithdrawal 1 8 0 0)) = 0"
  by (simp_all add: undelegate_example_def links_host_of delegator_at_def u64_at_def
      in_boundary_at_def validator_exists_def validator_at_def undelegate_example_delegator_def
      Delegator_default_def)

lemma undelegate_example_run:
  "\<exists>t. handle_undelegate word_abi (call_data SEL_undelegate [1, 4500000000, 0]) GAS_UNDELEGATE 8
     undelegate_example = (Inr (GAS_UNDELEGATE, enc_bool word_abi True), t)"
  "\<exists>t. pull_delegator_up_to_date 1 8 undelegate_example = (Inr undelegate_example_delegator, t)"
proof -
  show 1: "\<exists>t. pull_delegator_up_to_date 1 8 undelegate_example = (Inr undelegate_example_delegator, t)"
    using pull_noop [of undelegate_example 1 8]
    by (simp add: promote_delta_def undelegate_example_delegator_def Delegator_default_def
        is_epoch_active_def)
  then obtain s1 where s1: "pull_delegator_up_to_date 1 8 undelegate_example
      = (Inr undelegate_example_delegator, s1)" by blast
  note lv = pull_leaves [OF undelegate_example_facts(1) s1]
  obtain t where "undelegate_amount word_abi 1 8 0 (5 * 10 ^ 9) (10 ^ 30)
      undelegate_example_delegator s1 = (Inr (), t)"
    using undelegate_amount_ok [OF lv(12), where x = "5 * 10 ^ 9" and v = 1 and a = 8 and w = 0
        and A = word_abi and acc = "10 ^ 30" and d = undelegate_example_delegator]
    by (auto simp: lv undelegate_example_delegator_def)
  with s1 show "\<exists>t. handle_undelegate word_abi (call_data SEL_undelegate [1, 4500000000, 0])
      GAS_UNDELEGATE 8 undelegate_example = (Inr (GAS_UNDELEGATE, enc_bool word_abi True), t)"
    by (simp add: handle_undelegate_def require_def decode_call_def  bindc_apply
        constant_values key_folds offset_defs undelegate_example_delegator_def checked_eval)
qed

theorem undelegate_effect_witness:
  "\<exists>t. handle_undelegate word_abi (call_data SEL_undelegate [1, 4500000000, 0]) GAS_UNDELEGATE 8
      undelegate_example = (Inr (GAS_UNDELEGATE, enc_bool word_abi True), t) \<and>
    d_stake (delegator_at (store t) (1, 8)) = 0 \<and>
    withdrawal_at (store t) (1, 8, 0)
      = \<lparr>wr_amount = 5 * 10 ^ 9, wr_accumulator = 10 ^ 30, wr_epoch = 6\<rparr>"
proof -
  let ?i = "call_data SEL_undelegate [1, 4500000000, 0]"
  obtain t s1 where t: "handle_undelegate word_abi ?i GAS_UNDELEGATE 8 undelegate_example
      = (Inr (GAS_UNDELEGATE, enc_bool word_abi True), t)"
    and s1: "pull_delegator_up_to_date 1 8 undelegate_example = (Inr undelegate_example_delegator, s1)"
    using undelegate_example_run by blast
  have dec: "dec_undelegate word_abi (drop 4 ?i) = Inr (1, 4500000000, 0)"
    by simp
  have "delegator_wf (delegator_at (store undelegate_example) (1, 8))"
    by (simp add: delegator_wf_def undelegate_example_delegator_def Delegator_default_def)
  with undelegate_effect [OF _ dec _ _ _ _ t, of "\<lambda>_. []" "\<lambda>_. []"] t s1 show ?thesis
    by (intro exI [of _ t]) (auto simp: undelegate_example_delegator_def dust_amount_def
        constant_values after_unstake_def activation_epoch_at_def Let_def)
qed

lemma withdraw_gas:
  "handle_withdraw A input gas a s = (Inr r, t) \<Longrightarrow> \<not> gas < GAS_WITHDRAW"
  by (simp add: handle_withdraw_def bindc_Inr require_Inr)

lemma withdraw_unknown:
  assumes "backend_ok s" and "dec_withdraw A (drop 4 input) = Inr (v, w)" and "\<not> gas < GAS_WITHDRAW"
    and "wr_amount (withdrawal_at (store s) (v, a, w)) = 0"
  shows "handle_withdraw A input gas a s = (Inl (Other ''unknown withdrawal id''), s)"
  using assms
  by (simp add: handle_withdraw_def require_def bindc_apply key_folds offset_defs
      withdrawal_cell_views)


text \<open>A successful claimRewards settles the delegator and transfers exactly the rewards owed
  after the settlement; afterwards nothing is owed, and what the contract owes has dropped by the
  amount transferred.\<close>

theorem claim_rewards_effect:
  assumes "backend_ok s" and "dec_claimRewards A (drop 4 input) = Inr v"
    and "delegator_wf (delegator_at (store s) (v, a))" and "u64_at (store s) CEpoch + 1 \<noteq> 0"
    and "handle_claim_rewards A input gas a s = (Inr r, t)"
  shows "\<exists>d s1. pull_delegator_up_to_date v a s = (Inr d, s1) \<and>
    delegator_at (store t) (v, a) = d\<lparr>d_rewards := 0\<rparr> \<and>
    liability (store t) v a w + unat (d_rewards d) = liability (store s) v a w \<and>
    (if d_rewards d = 0 then balances t = balances s
     else xfer s STAKING_ADDRESS a (d_rewards d) (balances s) = TransferOk (balances t))"
proof -
  obtain d s1 where 1: "pull_delegator_up_to_date v a s = (Inr d, s1)"
    and st: "store t = put_delegator (v, a) (d\<lparr>d_rewards := 0\<rparr>) (store s1)"
    and bal: "if d_rewards d = 0 then balances t = balances s1
         else xfer s1 STAKING_ADDRESS a (d_rewards d) (balances s1) = TransferOk (balances t)"
    by (rule claim_rewards_Inr [OF assms(1,2,5)])
  note lv = pull_leaves [OF assms(1) 1] and eff = pull_effect [OF assms(1) 1 assms(3,4)]
  have "liability (store t) v a w + unat (d_rewards d) = liability (store s) v a w"
    using eff(4) by (simp add: liability_def st cell_simps lv)
  then show ?thesis
    using 1 bal
    by (intro exI [of _ d] exI [of _ s1]) (simp add: st cell_simps lv split: if_splits)
qed

text \<open>Delegating the rewards of a settled delegator whose record no longer shows them.\<close>

lemma restake_effect:
  assumes ok: "backend_ok s" and pull: "pull_delegator_up_to_date v a s = (Inr d, s1)"
    and timed: "timed (epoch_at (store s)) (in_boundary_at (store s)) (delegator_at (store s) (v, a))"
    and small: "epoch_at (store s) + 2 < 2 ^ 64"
    and run: "internal_delegate A v a x
      (s1\<lparr>store := put_delegator (v, a) (d\<lparr>d_rewards := 0\<rparr>) (store s1), logs := l\<rparr>) = (Inr (), t)"
  shows "p_pending (position_of (delegator_at (store t) (v, a)))
      = schedule (unat (activation_epoch_at (store s))) (unat x) (p_pending (position_of d))"
    and "d_rewards (delegator_at (store t) (v, a)) = 0"
    and "stake_sum (delegator_at (store t) (v, a)) = stake_sum d + unat x"
    and "unat (v_stake (validator_at (store t) v)) = unat (v_stake (validator_at (store s) v)) + unat x"
    and "v_unclaimed_rewards (validator_at (store t) v) = v_unclaimed_rewards (validator_at (store s1) v)"
    and "withdrawal_at (store t) k = withdrawal_at (store s) k" and "balances t = balances s"
proof -
  define d0 where "d0 = d\<lparr>d_rewards := 0\<rparr>"
  let ?s3 = "s1\<lparr>store := put_delegator (v, a) d0 (store s1), logs := l\<rparr>"
  have run': "internal_delegate A v a x ?s3 = (Inr (), t)" using run by (simp add: d0_def)
  have wf: "delegator_wf (delegator_at (store s) (v, a))" using timed by (simp add: timed_def)
  note lv = pull_leaves [OF ok pull] and eff = pull_effect [OF ok pull wf epoch_step [OF small]]
  have ok3: "backend_ok ?s3" using lv(12) by simp
  have e3: "epoch_at (store ?s3) = epoch_at (store s)"
    "in_boundary_at (store ?s3) = in_boundary_at (store s)"
    "activation_epoch_at (store ?s3) = activation_epoch_at (store s)"
    using lv(6-8)
    by (simp_all add: epoch_at_def activation_epoch_at_def cell_simps word_unat_eq_iff [symmetric])
  have d3: "delegator_at (store ?s3) (v, a) = d0"
    and v3: "validator_at (store ?s3) v = validator_at (store s1) v" by (simp_all add: cell_simps)
  have "timed (epoch_at (store ?s3)) (in_boundary_at (store ?s3)) (delegator_at (store ?s3) (v, a))"
    unfolding e3 d3 using pull_epochs(3) [OF ok pull timed small]
    by (simp add: d0_def timed_def delegator_wf_def)
  note e = internal_delegate_effect [OF ok3 run' this, unfolded d3 v3, unfolded e3, OF small]
  have "settle (epoch_at (store s)) (snapshots_at (store ?s3) v)
      (unat (v_acc (validator_at (store s1) v))) (position_of d0) = position_of d0"
    unfolding lv(2) unfolding epoch_at_def
    by (rule settle_settled) (use eff(5,6,8) in \<open>simp_all add: d0_def\<close>)
  then have p: "position_of (delegator_at (store t) (v, a)) =
      schedule_stake (unat (activation_epoch_at (store s))) (unat x) (position_of d0)"
    using e(1) by simp
  show rew0: "d_rewards (delegator_at (store t) (v, a)) = 0"
    using arg_cong [OF p, of p_rewards]
    by (simp add: position_of_def schedule_stake_def d0_def unat_eq_zero)
  show "p_pending (position_of (delegator_at (store t) (v, a)))
      = schedule (unat (activation_epoch_at (store s))) (unat x) (p_pending (position_of d))"
    unfolding p by (simp add: position_of_def schedule_stake_def d0_def pending_of_def)
  show "stake_sum (delegator_at (store t) (v, a)) = stake_sum d + unat x"
    using e(3) by (simp add: d0_def stake_sum_def)
  show "unat (v_stake (validator_at (store t) v)) = unat (v_stake (validator_at (store s) v)) + unat x"
    using e(4) by (simp add: lv)
  show "v_unclaimed_rewards (validator_at (store t) v) = v_unclaimed_rewards (validator_at (store s1) v)"
    using e(5) rew0 by (simp add: word_unat_eq_iff d0_def)
  show "withdrawal_at (store t) k = withdrawal_at (store s) k" "balances t = balances s"
    using internal_delegate_leaves [OF run'] lv(5,10) by (simp_all add: cell_simps)
qed

text \<open>C29: compound settles the delegator and turns the rewards it then owes into stake: the rewards
  are zero afterwards, the same amount is scheduled at the activation epoch on top of what was
  pending and added to the validator's stake, and the contract owes as much as before.\<close>

theorem compound_effect:
  assumes "backend_ok s" and "dec_compound A (drop 4 input) = Inr v"
    and "timed (epoch_at (store s)) (in_boundary_at (store s)) (delegator_at (store s) (v, a))"
    and "epoch_at (store s) + 2 < 2 ^ 64"
    and "handle_compound A input gas a s = (Inr r, t)"
  shows "\<exists>d s1. pull_delegator_up_to_date v a s = (Inr d, s1) \<and>
    (if d_rewards d = 0 then t = s1
     else p_pending (position_of (delegator_at (store t) (v, a))) =
            schedule (unat (activation_epoch_at (store s))) (unat (d_rewards d))
              (p_pending (position_of d)) \<and>
          d_rewards (delegator_at (store t) (v, a)) = 0 \<and>
          stake_sum (delegator_at (store t) (v, a)) = stake_sum d + unat (d_rewards d) \<and>
          unat (v_stake (validator_at (store t) v))
            = unat (v_stake (validator_at (store s) v)) + unat (d_rewards d)) \<and>
    liability (store t) v a w = liability (store s) v a w \<and> balances t = balances s"
proof -
  obtain d s1 where 1: "pull_delegator_up_to_date v a s = (Inr d, s1)"
    and zero: "d_rewards d = 0 \<longrightarrow> t = s1"
    and pos: "d_rewards d \<noteq> 0 \<longrightarrow> (\<exists>l. internal_delegate A v a (d_rewards d)
      (s1\<lparr>store := put_delegator (v, a) (d\<lparr>d_rewards := 0\<rparr>) (store s1), logs := l\<rparr>) = (Inr (), t))"
    by (rule compound_Inr [OF assms(1,2,5)])
  have wf: "delegator_wf (delegator_at (store s) (v, a))" using assms(3) by (simp add: timed_def)
  note lv = pull_leaves [OF assms(1) 1]
    and eff = pull_effect [OF assms(1) 1 wf epoch_step [OF assms(4)]]
  have lia: "liability (store s1) v a w = liability (store s) v a w"
    using eff(4) by (simp add: liability_def lv eff(7))
  show ?thesis
  proof (cases "d_rewards d = 0")
    case True
    then show ?thesis using 1 zero lia lv(10) by (intro exI [of _ d] exI [of _ s1]) simp
  next
    case False
    with pos obtain l where "internal_delegate A v a (d_rewards d)
        (s1\<lparr>store := put_delegator (v, a) (d\<lparr>d_rewards := 0\<rparr>) (store s1), logs := l\<rparr>) = (Inr (), t)"
      by blast
    note e = restake_effect [OF assms(1) 1 assms(3,4) this]
    have "liability (store t) v a w = liability (store s) v a w"
      using lia by (simp add: liability_def e eff(7) lv)
    with 1 False e show ?thesis by (intro exI [of _ d] exI [of _ s1]) simp
  qed
qed

text \<open>The method changeCommission succeeds only for the validator's own auth address and only up to 100
  percent; it changes the commission and nothing else, and logs the change exactly when there is
  one.\<close>

theorem change_commission_effect:
  assumes "backend_ok s" and "dec_changeCommission A (drop 4 input) = Inr (v, c)"
    and "handle_change_commission A input gas a s = (Inr r, t)"
  shows "v_auth_address (validator_at (store s) v) \<noteq> 0 \<and>
    a = v_auth_address (validator_at (store s) v) \<and> unat c \<le> 10 ^ 18 \<and>
    validator_at (store t) = (validator_at (store s))(v := (validator_at (store s) v)\<lparr>v_commission := c\<rparr>) \<and>
    touches {CValidator v 2} s t \<and> balances t = balances s \<and>
    length (logs t) = length (logs s) + (if c = v_commission (validator_at (store s) v) then 0 else 1)"
proof -
  note inv = change_commission_Inr [OF assms]
  have "validator_at (store t) = (validator_at (store s))(v := (validator_at (store s) v)\<lparr>v_commission := c\<rparr>)"
  proof -
    have "store t = (store s)(key_of (CValidator v 2) := c)" using inv by blast
    then show ?thesis by (intro ext) (simp add: cell_simps)
  qed
  moreover have "touches {CValidator v 2} s t" using inv by (auto simp: touches_def)
  moreover have "unat c \<le> 10 ^ 18" using inv by (simp add: MAX_COMMISSION_def word_le_nat_alt unat_constants)
  ultimately show ?thesis using inv by (simp add: validator_exists_def)
qed

text \<open>The method externalReward succeeds only for a validator with active stake in the current view and
  a value between the documented bounds; it raises the accumulator by floor(value * 10^36 /
  active stake) and the unclaimed rewards by the whole value, and changes nothing else.\<close>

theorem external_reward_effect:
  assumes "backend_ok s" and "dec_externalReward A (drop 4 input) = Inr v"
    and "handle_external_reward A input gas a x s = (Inr r, t)"
  defines "active \<equiv> store s (key_of (if in_boundary_at (store s) then CSnapshotView v 0
                                      else CConsensusView v 0))"
  shows "active \<noteq> 0 \<and> 10 ^ 9 \<le> unat x \<and> unat x \<le> 10 ^ 25 \<and>
    unat (v_acc (validator_at (store t) v))
      = unat (v_acc (validator_at (store s) v)) + unat x * 10 ^ 36 div unat active \<and>
    unat (v_unclaimed_rewards (validator_at (store t) v))
      = unat (v_unclaimed_rewards (validator_at (store s) v)) + unat x \<and>
    touches {CValidator v 1, CValidator v 7} s t \<and> balances t = balances s"
proof -
  let ?val = "validator_at (store s) v"
  obtain acc where act: "active \<noteq> 0" and range: "MIN_EXTERNAL_REWARD \<le> x" "x \<le> MAX_EXTERNAL_REWARD"
    and acc: "checked_mul_div_u256 x UNIT_BIAS active = Inr acc"
    and sums: "unat (v_acc ?val) + unat acc < 2 ^ 256"
      "unat (v_unclaimed_rewards ?val) + unat x < 2 ^ 256"
    and st: "store t = (store s)(key_of (CValidator v 1) := v_acc ?val + acc,
      key_of (CValidator v 7) := v_unclaimed_rewards ?val + x)" and bal: "balances t = balances s"
    using external_reward_Inr [OF assms(1-3), folded active_def] by auto
  have "unat acc = unat x * unat UNIT_BIAS div unat active"
    using acc by (auto simp: checked_mul_div_u256_Inr intro: unat_mul_div)
  moreover have "10 ^ 9 \<le> unat x" "unat x \<le> 10 ^ 25"
    using range by (simp_all add: word_le_nat_alt constant_values)
  ultimately show ?thesis
    using act sums bal
    by (auto simp: st cell_simps unat_reward_sum unat_constants touches_def)
qed

text \<open>The state after a registration.\<close>

lemma add_validator_state:
  assumes "backend_ok s" and "dec_addValidator A (drop 4 input) = Inr (payload, y, z)"
    and "handle_add_validator A input gas c x s = (Inr r, t)"
  defines "auth \<equiv> from_be_bytes (take 20 (drop 81 payload)) :: address"
    and "bls_addr \<equiv> from_be_bytes (take 20 (take 48 (drop 33 payload))) :: address"
    and "new \<equiv> u64_at (store s) CLastValId + 1"
  assumes "timed (epoch_at (store s)) (in_boundary_at (store s)) (delegator_at (store s) (new, auth))"
    and "epoch_at (store s) + 2 < 2 ^ 64"
  shows "u64_at (store t) (CValIdSecp auth) = new" and "u64_at (store t) (CValIdBls bls_addr) = new"
    and "u64_at (store t) CLastValId = new" and "new \<noteq> 0" and "auth \<noteq> 0"
    and "v_auth_address (validator_at (store t) new) = auth"
    and "v_commission (validator_at (store t) new) = from_be_bytes (take 32 (drop 133 payload))"
    and "v_stake (validator_at (store t) new) = x"
    and "stake_sum (delegator_at (store t) (new, auth))
      = stake_sum (delegator_at (store s) (new, auth)) + unat x"
proof -
  let ?com = "from_be_bytes (take 32 (drop 133 payload)) :: u256"
  note inv = add_validator_Inr [OF assms(1-3), folded auth_def bls_addr_def new_def]
  let ?rec = "add_validator_record auth ?com (take 33 payload) (take 48 (drop 33 payload))"
  obtain l where i: "internal_delegate A new auth x
       (s\<lparr>store := registered_at new auth bls_addr ?rec (store s), logs := l\<rparr>) = (Inr (), t)"
    using inv by blast
  let ?s1 = "s\<lparr>store := registered_at new auth bls_addr ?rec (store s), logs := l\<rparr>"
  have ok1: "backend_ok ?s1" using assms(1) by simp
  have "165 \<le> length payload" using inv by blast
  then have "validator_wf ?rec" by (simp add: validator_wf_def add_validator_record_def)
  then have v1: "validator_at (store ?s1) new = ?rec" by (simp add: registered_views)
  have e1: "epoch_at (store ?s1) = epoch_at (store s)"
    "in_boundary_at (store ?s1) = in_boundary_at (store s)"
    "delegator_at (store ?s1) k = delegator_at (store s) k" for k
    by (simp_all add: registered_views)
  note e = internal_delegate_effect [OF ok1 i, unfolded e1, OF assms(7,8)]
  have T: "touches (delegate_cells new auth) ?s1 t"
    by (rule preservesD [OF internal_delegate_frames(2) i]) simp
  note cells = delegate_cells_def pull_cells_def acc_cells_def region_cells valset_cells_def
    all_node_cells_def
  have "u64_at (store t) (CValIdSecp auth) = u64_at (store ?s1) (CValIdSecp auth)"
    "u64_at (store t) (CValIdBls bls_addr) = u64_at (store ?s1) (CValIdBls bls_addr)"
    "u64_at (store t) CLastValId = u64_at (store ?s1) CLastValId"
    by (rule touches_views(6) [OF T]; auto simp: cells)+
  then show "u64_at (store t) (CValIdSecp auth) = new" "u64_at (store t) (CValIdBls bls_addr) = new"
    "u64_at (store t) CLastValId = new"
    by (simp_all add: registered_views)
  have "store t (key_of (CValidator new 2)) = store ?s1 (key_of (CValidator new 2))"
    by (rule touches_cell [OF T]) (auto simp: cells)
  then show "v_commission (validator_at (store t) new) = ?com"
    using v1 by (simp add: validator_at_def add_validator_record_def)
  show "v_auth_address (validator_at (store t) new) = auth"
    using e(7) v1 by (simp add: add_validator_record_def)
  show "v_stake (validator_at (store t) new) = x"
    using e(4) v1 by (simp add: add_validator_record_def word_unat_eq_iff)
  obtain s5 s6 where "linked_list_insert new auth s5 = (Inr (), s6)"
    by (rule internal_delegate_Inr [OF ok1 i]) blast
  then show "new \<noteq> 0" "auth \<noteq> 0" using linked_list_insert_valid by blast+
  show "stake_sum (delegator_at (store t) (new, auth))
      = stake_sum (delegator_at (store s) (new, auth)) + unat x"
    by (rule e(3))
qed

text \<open>C30: addValidator gives a new validator the next id, under the auth address and the BLS
  address that were both unused, with the commission of the payload (at most 100 percent), and
  delegates the signed stake, at least the minimum, on behalf of the auth address. (The
  accumulators of the delegator's next epochs must be in order, as they are for a fresh id.)\<close>

theorem add_validator_effect:
  assumes "backend_ok s" and "dec_addValidator A (drop 4 input) = Inr (payload, y, z)"
    and "handle_add_validator A input gas c x s = (Inr r, t)"
  defines "auth \<equiv> from_be_bytes (take 20 (drop 81 payload)) :: address"
    and "bls_addr \<equiv> from_be_bytes (take 20 (take 48 (drop 33 payload))) :: address"
    and "new \<equiv> u64_at (store s) CLastValId + 1"
  assumes "timed (epoch_at (store s)) (in_boundary_at (store s)) (delegator_at (store s) (new, auth))"
    and "epoch_at (store s) + 2 < 2 ^ 64"
  shows "r = (GAS_ADD_VALIDATOR, enc_u64 A new) \<and>
    u64_at (store s) (CValIdSecp auth) = 0 \<and> u64_at (store s) (CValIdBls bls_addr) = 0 \<and>
    u64_at (store t) (CValIdSecp auth) = new \<and> u64_at (store t) (CValIdBls bls_addr) = new \<and>
    u64_at (store t) CLastValId = new \<and> new \<noteq> 0 \<and> auth \<noteq> 0 \<and>
    v_auth_address (validator_at (store t) new) = auth \<and>
    v_commission (validator_at (store t) new) = from_be_bytes (take 32 (drop 133 payload)) \<and>
    unat (v_commission (validator_at (store t) new)) \<le> 10 ^ 18 \<and>
    v_stake (validator_at (store t) new) = x \<and> 10 ^ 23 \<le> unat x \<and>
    stake_sum (delegator_at (store t) (new, auth))
      = stake_sum (delegator_at (store s) (new, auth)) + unat x"
proof -
  note inv = add_validator_Inr [OF assms(1-3), folded auth_def bls_addr_def new_def]
  note st = add_validator_state [OF assms(1-3), folded auth_def bls_addr_def new_def, OF assms(7,8)]
  have "from_be_bytes (take 32 (drop 133 payload)) \<le> MAX_COMMISSION" "MIN_AUTH_ADDRESS_STAKE \<le> x"
    using inv by blast+
  then have "unat (v_commission (validator_at (store t) new)) \<le> 10 ^ 18" "10 ^ 23 \<le> unat x"
    by (simp_all add: st(7) MAX_COMMISSION_def word_le_nat_alt unat_constants)
  moreover have "r = (GAS_ADD_VALIDATOR, enc_u64 A new)" "u64_at (store s) (CValIdSecp auth) = 0"
    "u64_at (store s) (CValIdBls bls_addr) = 0" using inv by blast+
  ultimately show ?thesis using st by simp
qed

section \<open>Witnesses\<close>

text \<open>Epoch 7; delegator 8 undelegated 100 units that left at epoch 5, when the accumulator had
  grown by 3 per unit since the last payment.\<close>

definition withdraw_example :: host where
  "withdraw_example = host_of [(CEpoch, slot_of_u64 7), (CValidator 1 7, 1000),
     (CAccumulator 5 1 0, 5 * 10 ^ 36), (CAccumulator 5 1 1, 1),
     (CWithdrawal 1 8 0 0, 100), (CWithdrawal 1 8 0 1, 2 * 10 ^ 36),
     (CWithdrawal 1 8 0 2, slot_of_u64 5)]"

lemma withdraw_example_facts [simp]:
  "backend_ok withdraw_example" "u64_at (store withdraw_example) CEpoch = 7"
  "withdrawal_at (store withdraw_example) (1, 8, 0)
     = \<lparr>wr_amount = 100, wr_accumulator = 2 * 10 ^ 36, wr_epoch = 5\<rparr>"
  "accumulator_at (store withdraw_example) (5, 1) = \<lparr>acc_value = 5 * 10 ^ 36, acc_refcount = 1\<rparr>"
  "v_unclaimed_rewards (validator_at (store withdraw_example) 1) = 1000"
  "balances withdraw_example = (\<lambda>_. 10 ^ 30)" "xfer withdraw_example = ledger"
  by (simp_all add: withdraw_example_def u64_at_def withdrawal_at_def accumulator_at_def
      validator_at_def) (simp_all add: host_of_def)

lemma withdraw_example_run:
  "\<exists>t. handle_withdraw word_abi (call_data SEL_withdraw [1, 0]) GAS_WITHDRAW 8 withdraw_example
     = (Inr (GAS_WITHDRAW, enc_bool word_abi True), t)"
  by (simp add: handle_withdraw_def bindc_apply require_def decode_call_def  key_folds
      offset_defs withdrawal_cell_views is_epoch_active_def WITHDRAWAL_DELAY_def
      calculate_rewards_def checked_eval constant_values snapshot_value_def transfer_def
      ledger_def Let_def emit_event_def decrement_after cell_simps
      del: decrement_accumulator_refcount_ok)


text \<open>The settled delegator of the settlement example is owed 34 units.\<close>

lemma settle_example_facts [simp]:
  "delegator_wf (delegator_at (store settle_example) (1, 8))"
  "timed (epoch_at (store settle_example)) (in_boundary_at (store settle_example))
     (delegator_at (store settle_example) (1, 8))"
  "epoch_at (store settle_example) = 6" "\<not> in_boundary_at (store settle_example)"
  "xfer settle_example = ledger" "balances settle_example = (\<lambda>_. 10 ^ 30)"
  "v_stake (validator_at (store settle_example) 1) = 0"
  by (simp_all add: delegator_wf_def timed_def epoch_at_def)
    (simp_all add: settle_example_def in_boundary_at_def validator_at_def host_of_def)

lemma claim_example_run:
  "\<exists>t. handle_claim_rewards word_abi (call_data SEL_claimRewards [1]) GAS_CLAIM_REWARDS 8 settle_example
     = (Inr (GAS_CLAIM_REWARDS, enc_bool word_abi True), t)"
proof -
  obtain s1 where 1: "pull_delegator_up_to_date 1 8 settle_example = (Inr settle_result, s1)"
    using settle_example_pull by blast
  note lv = pull_leaves [OF settle_example_views(1) 1]
  have "d_rewards settle_result = 34" by (simp add: settle_result_def)
  then show ?thesis
    using 1 lv
    by (simp add: handle_claim_rewards_def bindc_apply require_def decode_call_def 
        transfer_def ledger_def Let_def emit_claim_rewards_def emit_event_def)
qed

theorem claim_rewards_effect_witness:
  "\<exists>t. handle_claim_rewards word_abi (call_data SEL_claimRewards [1]) GAS_CLAIM_REWARDS 8 settle_example
      = (Inr (GAS_CLAIM_REWARDS, enc_bool word_abi True), t) \<and>
    delegator_at (store t) (1, 8) = settle_result\<lparr>d_rewards := 0\<rparr> \<and>
    ledger STAKING_ADDRESS 8 34 (\<lambda>_. 10 ^ 30) = TransferOk (balances t)"
proof -
  let ?i = "call_data SEL_claimRewards [1]"
  obtain t where t: "handle_claim_rewards word_abi ?i GAS_CLAIM_REWARDS 8 settle_example
      = (Inr (GAS_CLAIM_REWARDS, enc_bool word_abi True), t)"
    using claim_example_run by blast
  obtain s1 where 1: "pull_delegator_up_to_date 1 8 settle_example = (Inr settle_result, s1)"
    using settle_example_pull by blast
  have dec: "dec_claimRewards word_abi (drop 4 ?i) = Inr 1" by simp
  have "d_rewards settle_result = 34" by (simp add: settle_result_def)
  with claim_rewards_effect [OF _ dec settle_example_facts(1) _ t, of 0] t 1 show ?thesis
    by (intro exI [of _ t]) simp
qed

lemma compound_example_run:
  "\<exists>t. handle_compound word_abi (call_data SEL_compound [1]) GAS_COMPOUND 8 settle_example
     = (Inr (GAS_COMPOUND, enc_bool word_abi True), t)"
proof -
  obtain s1 where 1: "pull_delegator_up_to_date 1 8 settle_example = (Inr settle_result, s1)"
    using settle_example_pull by blast
  note lv = pull_leaves [OF settle_example_views(1) 1]
    and eff = pull_effect [OF settle_example_views(1) 1 settle_example_facts(1)]
  let ?d = "settle_result\<lparr>d_rewards := 0\<rparr>"
  have run: "\<exists>t. internal_delegate word_abi 1 8 34
      (s1\<lparr>store := put_delegator (1, 8) ?d (store s1), logs := l\<rparr>) = (Inr (), t)" for l
  proof -
    let ?s = "s1\<lparr>store := put_delegator (1, 8) ?d (store s1), logs := l\<rparr>"
    have b: "backend_ok ?s" using lv(12) by simp
    have e: "u64_at (store ?s) CEpoch = 6" "\<not> in_boundary_at (store ?s)"
      using lv(7,8) by (simp_all add: cell_simps epoch_at_def word_unat_eq_iff)
    have p: "pull_delegator_up_to_date 1 8 ?s = (Inr ?d, ?s\<lparr>store := put_delegator (1, 8) ?d (store ?s)\<rparr>)"
      using pull_noop [OF b, of 1 8] e eff(8) lv(2)
      by (simp add: cell_simps promote_delta_def settle_result_def is_epoch_active_def)
    show ?thesis
      using internal_delegate_ok [OF b p, where x = 34 and A = word_abi] e lv(1)
      by (simp add: cell_simps settle_result_def SENTINEL_VAL_ID_def SENTINEL_ADDRESS_max)
  qed
  then obtain f where f: "\<And>l. internal_delegate word_abi 1 8 34
      (s1\<lparr>store := put_delegator (1, 8) ?d (store s1), logs := l\<rparr>) = (Inr (), f l)"
    by metis
  have "d_rewards settle_result = 34" by (simp add: settle_result_def)
  then show ?thesis
    using 1 lv(12)
    by (simp add: f handle_compound_def bindc_apply require_def decode_call_def 
        Let_def emit_claim_rewards_def emit_event_def)
qed

theorem compound_effect_witness:
  "\<exists>t. handle_compound word_abi (call_data SEL_compound [1]) GAS_COMPOUND 8 settle_example
      = (Inr (GAS_COMPOUND, enc_bool word_abi True), t) \<and>
    p_pending (position_of (delegator_at (store t) (1, 8))) = [(7, 36)] \<and>
    unat (v_stake (validator_at (store t) 1)) = 34"
proof -
  let ?i = "call_data SEL_compound [1]"
  obtain t where t: "handle_compound word_abi ?i GAS_COMPOUND 8 settle_example
      = (Inr (GAS_COMPOUND, enc_bool word_abi True), t)"
    using compound_example_run by blast
  obtain s1 where 1: "pull_delegator_up_to_date 1 8 settle_example = (Inr settle_result, s1)"
    using settle_example_pull by blast
  have dec: "dec_compound word_abi (drop 4 ?i) = Inr 1" by simp
  have "d_rewards settle_result = 34" by (simp add: settle_result_def)
  moreover have "p_pending (position_of settle_result) = [(7, 2)]"
    by (simp add: position_of_def pending_of_def settle_result_def)
  moreover have "activation_epoch_at (store settle_example) = 7"
    by (simp add: activation_epoch_at_def)
  ultimately show ?thesis
    using compound_effect [OF _ dec settle_example_facts(2) _ t, of 0] t 1
    by (intro exI [of _ t]) simp
qed

text \<open>Validator 1 with auth address 9, a commission of 5 percent and an active stake of one unit.\<close>

definition validator_example :: host where
  "validator_example = host_of [(CEpoch, slot_of_u64 5), (CValidator 1 1, 3), (CValidator 1 7, 10),
     (CValidator 1 2, 5 * 10 ^ 16), (CValidator 1 6, slot_of_address_flags 9 0),
     (CConsensusView 1 0, 10 ^ 18)]"

lemma validator_example_facts [simp]:
  "backend_ok validator_example" "v_auth_address (validator_at (store validator_example) 1) = 9"
  "v_commission (validator_at (store validator_example) 1) = 5 * 10 ^ 16"
  "v_acc (validator_at (store validator_example) 1) = 3"
  "v_unclaimed_rewards (validator_at (store validator_example) 1) = 10"
  "\<not> in_boundary_at (store validator_example)" "u64_at (store validator_example) CLastValId = 0"
  "u64_at (store validator_example) (CValIdSecp b) = 0"
  "u64_at (store validator_example) (CValIdBls b) = 0"
  "store validator_example (key_of (CConsensusView 1 0)) = 10 ^ 18"
  "epoch_at (store validator_example) = 5"
  "delegator_at (store validator_example) k = Delegator_default"
  by (simp_all add: validator_example_def validator_at_def in_boundary_at_def u64_at_def
      epoch_at_def delegator_at_def Delegator_default_def split: prod.splits)

theorem change_commission_effect_witness:
  "\<exists>t. handle_change_commission word_abi (call_data SEL_changeCommission [1, 10 ^ 17])
      GAS_CHANGE_COMMISSION 9 validator_example = (Inr (GAS_CHANGE_COMMISSION, enc_bool word_abi True), t) \<and>
    v_commission (validator_at (store t) 1) = 10 ^ 17"
proof -
  let ?i = "call_data SEL_changeCommission [1, 10 ^ 17]"
  obtain t where t: "handle_change_commission word_abi ?i GAS_CHANGE_COMMISSION 9 validator_example
      = (Inr (GAS_CHANGE_COMMISSION, enc_bool word_abi True), t)"
    by (simp add: handle_change_commission_def bindc_apply require_def decode_call_def 
        validator_exists_def MAX_COMMISSION_def constant_values Let_def emit_event_def)
  have dec: "dec_changeCommission word_abi (drop 4 ?i) = Inr (1, 10 ^ 17)" by simp
  from change_commission_effect [OF _ dec t] t show ?thesis
    by (intro exI [of _ t]) (simp add: fun_eq_iff)
qed

theorem external_reward_effect_witness:
  "\<exists>t. handle_external_reward word_abi (call_data SEL_externalReward [1]) GAS_EXTERNAL_REWARD 8
      (10 ^ 9) validator_example = (Inr (GAS_EXTERNAL_REWARD, enc_bool word_abi True), t) \<and>
    unat (v_acc (validator_at (store t) 1)) = 3 + 10 ^ 27"
proof -
  let ?i = "call_data SEL_externalReward [1]"
  obtain t where t: "handle_external_reward word_abi ?i GAS_EXTERNAL_REWARD 8 (10 ^ 9) validator_example
      = (Inr (GAS_EXTERNAL_REWARD, enc_bool word_abi True), t)"
    by (simp add: handle_external_reward_def bindc_apply require_def decode_call_def 
        validator_exists_def constant_values key_folds checked_eval Let_def emit_event_def)
  have dec: "dec_externalReward word_abi (drop 4 ?i) = Inr 1" by simp
  from external_reward_effect [OF _ dec t] t show ?thesis
    by (intro exI [of _ t]) simp
qed

definition example_payload :: bytes where
  "example_payload = replicate 33 2 @ replicate 48 3 @ to_be_bytes 20 (9 :: address)
     @ to_be_bytes 32 (10 ^ 23 :: u256) @ to_be_bytes 32 (5 * 10 ^ 16 :: u256)"

lemma example_payload_fields:
  "length example_payload = 165"
  "from_be_bytes (take 20 (drop 81 example_payload)) = (9 :: address)"
  "from_be_bytes (take 32 (drop 101 example_payload)) = (10 ^ 23 :: u256)"
  "from_be_bytes (take 32 (drop 133 example_payload)) = (5 * 10 ^ 16 :: u256)"
  "from_be_bytes (drop 133 example_payload) = (5 * 10 ^ 16 :: u256)"
  by (simp_all add: example_payload_def from_to_be_bytes)

text \<open>The first registration in a contract without validators.\<close>

lemma add_first_validator_run:
  assumes ok: "backend_ok s" and ids: "u64_at (store s) CLastValId = 0"
    "\<And>b. u64_at (store s) (CValIdSecp b) = 0" "\<And>b. u64_at (store s) (CValIdBls b) = 0"
    and d: "\<And>k. delegator_at (store s) k = Delegator_default"
  shows "\<exists>t. handle_add_validator word_abi (SEL_addValidator @ example_payload) GAS_ADD_VALIDATOR 8
     (10 ^ 23) s = (Inr (GAS_ADD_VALIDATOR, enc_u64 word_abi 1), t)"
proof -
  let ?bls = "from_be_bytes (take 20 (take 48 (drop 33 example_payload))) :: address"
  let ?rec = "add_validator_record 9 (5 * 10 ^ 16) (take 33 example_payload)
     (take 48 (drop 33 example_payload))"
  let ?st = "registered_at 1 9 ?bls ?rec (store s)"
  have "\<exists>t. internal_delegate word_abi 1 9 (10 ^ 23) (s\<lparr>store := ?st, logs := l\<rparr>)
      = (Inr (), t)" for l
  proof -
    let ?s = "s\<lparr>store := ?st, logs := l\<rparr>"
    have b: "backend_ok ?s" using ok by simp
    have wf: "validator_wf ?rec"
      by (simp add: validator_wf_def add_validator_record_def example_payload_fields)
    have "delegator_at (store ?s) (1, 9) = Delegator_default" by (simp add: registered_views d)
    then have p: "pull_delegator_up_to_date 1 9 ?s
        = (Inr Delegator_default, ?s\<lparr>store := put_delegator (1, 9) Delegator_default (store ?s)\<rparr>)"
      using pull_noop [OF b, of 1 9]
      by (simp add: promote_delta_def Delegator_default_def is_epoch_active_def)
    have "v_stake (validator_at (store ?s) 1) = 0"
      using wf by (simp add: registered_views add_validator_record_def)
    then show ?thesis
      using internal_delegate_ok [OF b p, where x = "10 ^ 23" and A = word_abi]
      by (simp add: cell_simps Delegator_default_def SENTINEL_VAL_ID_def SENTINEL_ADDRESS_max)
  qed
  then obtain f where f: "\<And>l. internal_delegate word_abi 1 9 (10 ^ 23)
      (s\<lparr>store := ?st, logs := l\<rparr>) = (Inr (), f l)"
    by metis
  show ?thesis
    using f ok ids
    by (simp add: handle_add_validator_def bindc_apply require_def decode_call_def key_folds
        example_payload_fields Let_def constant_values add_validator_record_def emit_event_def
        registered_at_def u64_at_def [symmetric] put_u64_def [symmetric])
qed

theorem add_validator_effect_witness:
  "\<exists>t. handle_add_validator word_abi (SEL_addValidator @ example_payload) GAS_ADD_VALIDATOR 8
      (10 ^ 23) validator_example = (Inr (GAS_ADD_VALIDATOR, enc_u64 word_abi 1), t) \<and>
    u64_at (store t) (CValIdSecp 9) = 1 \<and> v_auth_address (validator_at (store t) 1) = 9 \<and>
    v_stake (validator_at (store t) 1) = 10 ^ 23"
proof -
  let ?i = "SEL_addValidator @ example_payload"
  obtain t where t: "handle_add_validator word_abi ?i GAS_ADD_VALIDATOR 8 (10 ^ 23) validator_example
      = (Inr (GAS_ADD_VALIDATOR, enc_u64 word_abi 1), t)"
    using add_first_validator_run [of validator_example] by auto
  have dec: "dec_addValidator word_abi (drop 4 ?i) = Inr (example_payload, [], [])" by simp
  from add_validator_effect [OF _ dec t] t show ?thesis
    by (intro exI [of _ t]) (simp add: example_payload_fields timed_def delegator_wf_def
        Delegator_default_def)
qed

end
