(* ===== verification/Syscalls.thy ===== *)
theory Syscalls
  imports Handlers
begin

text \<open>
  Two of the three system calls of \<open>staking/write.rs\<close>, the block reward and the epoch change,
  and the reading of the loops of the system calls as folds over the store.
\<close>

section \<open>Model\<close>

definition not_system_address :: precompile_error where
  "not_system_address = Other ''Unauthorized: not system address''"

text \<open>The part of handle_syscall_reward that credits the commission to the auth address and the
  rest to the validator's pool and accumulator.\<close>

definition distribute_reward :: "u64 \<Rightarrow> u256 \<Rightarrow> u256 \<Rightarrow> u256 \<Rightarrow> unit action" where
  "distribute_reward val_id active_stake commission_amount del_reward =
     bindc (read_validator val_id) (\<lambda>val.
     let auth_addr = v_auth_address val in
     bindc (read_delegator val_id auth_addr) (\<lambda>auth_del.
     bindc (lift_res (checked_add_u256 (d_rewards auth_del) commission_amount)) (\<lambda>rewards.
     seqc (write_delegator val_id auth_addr (auth_del\<lparr>d_rewards := rewards\<rparr>))
     (bindc (lift_res (checked_add_u256 (v_unclaimed_rewards val) del_reward)) (\<lambda>unclaimed.
     seqc (write_validator_unclaimed_rewards val_id unclaimed)
     (if del_reward \<noteq> 0 \<and> active_stake \<noteq> 0
      then bindc (lift_res (checked_mul_div_u256 del_reward UNIT_BIAS active_stake)) (\<lambda>reward_acc.
           bindc (lift_res (checked_add_u256 (v_acc val) reward_acc)) (\<lambda>new_acc.
           write_validator_acc val_id new_acc))
      else ret ()))))))"

definition handle_syscall_reward ::
    "abi \<Rightarrow> bytes \<Rightarrow> u64 \<Rightarrow> address \<Rightarrow> u256 \<Rightarrow> (u64 \<times> bytes) action" where
  "handle_syscall_reward A input gas_limit caller call_value =
     seqc (require (\<not> gas_limit < GAS_SYSCALL_REWARD) OutOfGas)
     (seqc (require (\<not> caller \<noteq> SYSTEM_ADDRESS) not_system_address)
     (bindc (decode_call (dec_syscallReward A) input) (\<lambda>block_author.
     let block_reward = (if 68 \<le> length input then from_be_bytes (take 32 (drop 36 input))
                         else call_value) in
     bindc (read_u64 (val_id_secp_key block_author)) (\<lambda>val_id.
     seqc (require (\<not> val_id = 0) (Other ''not in validator set''))
     (bindc read_in_boundary (\<lambda>in_boundary.
     let view_key = (if in_boundary then snapshot_view_key val_id 0
                     else consensus_view_key val_id 0) in
     bindc (read_u256 view_key) (\<lambda>active_stake.
     seqc (require (\<not> active_stake = 0) (Other ''not in validator set''))
     (let commission_view_key = (if in_boundary then snapshot_view_key val_id 1
                                 else consensus_view_key val_id 1) in
      bindc (read_u256 commission_view_key) (\<lambda>commission_rate.
      bindc (lift_res (checked_mul_div_u256 block_reward commission_rate MON)) (\<lambda>commission_amount.
      bindc (lift_res (checked_sub_u256 block_reward commission_amount)) (\<lambda>del_reward.
      seqc (distribute_reward val_id active_stake commission_amount del_reward)
      (seqc (write_storage_u64 SLOT_PROPOSER_VAL_ID val_id)
      (bindc read_epoch (\<lambda>epoch.
      seqc (emit_event
             [signature_hash A EvValidatorRewarded, topic_u64 val_id, topic_address SYSTEM_ADDRESS]
             (word_data del_reward @ word_data (ucast epoch)))
      (ret (GAS_SYSCALL_REWARD, []))))))))))))))))"

text \<open>The loops of the snapshot. A loop \<open>for i in 0..n\<close> over a u64 runs over
  \<open>u64_range n\<close>.\<close>

definition u64_range :: "u64 \<Rightarrow> u64 list" where
  "u64_range n = map of_nat [0..<unat n]"

definition epoch_change_accumulator :: "u64 \<Rightarrow> u64 \<Rightarrow> u256 \<Rightarrow> unit action" where
  "epoch_change_accumulator epoch val_id current_val_acc =
     bindc (read_accumulator epoch val_id) (\<lambda>acc.
     if 0 < acc_refcount acc
     then write_accumulator epoch val_id
            \<lparr>acc_value = current_val_acc, acc_refcount = acc_refcount acc\<rparr>
     else ret ())"

definition epoch_change_validators :: "u64 \<Rightarrow> u64 \<Rightarrow> u64 \<Rightarrow> unit action" where
  "epoch_change_validators snapshot_len next_epoch next_next_epoch =
     for_each (u64_range snapshot_len) (\<lambda>i.
       let val_slot = saturating_add VALSET_SNAPSHOT (ucast (i + 1)) in
       bindc (read_u64 val_slot) (\<lambda>val_id.
       bindc (read_u256 (validator_key val_id VAL_OFF_ACC)) (\<lambda>current_val_acc.
       seqc (epoch_change_accumulator next_epoch val_id current_val_acc)
       (epoch_change_accumulator next_next_epoch val_id current_val_acc))))"

definition handle_syscall_on_epoch_change ::
    "abi \<Rightarrow> bytes \<Rightarrow> u64 \<Rightarrow> address \<Rightarrow> (u64 \<times> bytes) action" where
  "handle_syscall_on_epoch_change A input gas_limit caller =
     seqc (require (\<not> gas_limit < GAS_SYSCALL_ON_EPOCH_CHANGE) OutOfGas)
     (seqc (require (\<not> caller \<noteq> SYSTEM_ADDRESS) not_system_address)
     (bindc (decode_call (dec_syscallOnEpochChange A) input) (\<lambda>call_epoch.
     bindc read_epoch (\<lambda>current_epoch.
     seqc (require (\<not> call_epoch \<le> current_epoch) (Other ''invalid epoch change''))
     (let next_epoch = call_epoch; next_next_epoch = next_epoch + 1 in
      seqc (emit_event [signature_hash A EvEpochChanged]
              (word_data (ucast current_epoch) @ word_data (ucast next_epoch)))
      (bindc (read_u64 VALSET_SNAPSHOT) (\<lambda>snapshot_len.
      seqc (epoch_change_validators snapshot_len next_epoch next_next_epoch)
      (seqc (write_storage_u256 SLOT_IN_BOUNDARY 0)
      (seqc (write_storage_u64 SLOT_EPOCH next_epoch)
      (ret (GAS_SYSCALL_ON_EPOCH_CHANGE, [])))))))))))"


section \<open>Frames\<close>

context host_relation
begin

lemma host_distribute_reward [frame_intros]:
  "preserves R (distribute_reward v act com lft)"
  unfolding distribute_reward_def Let_def by (intro pres_intros pres_case_prod pres_case_sum frame_intros)+

end

lemma distribute_reward_frames [frame_intros]:
  "preserves same_balances (distribute_reward v act com lft)"
  unfolding distribute_reward_def Let_def by (intro pres_all frame_intros)+

context host_relation
begin

lemma host_epoch_change [frame_intros]:
  "preserves R (epoch_change_validators n e e')"
  unfolding epoch_change_validators_def epoch_change_accumulator_def Let_def
  by (intro pres_intros pres_case_prod pres_case_sum frame_intros)+

end

section \<open>Block rewards\<close>

lemma distribute_reward_Inr:
  assumes ok: "backend_ok s" and run: "distribute_reward v act com lft s = (Inr u, t)"
    and act: "act \<noteq> 0"
  defines "val \<equiv> validator_at (store s) v"
  defines "auth \<equiv> v_auth_address val"
  defines "del \<equiv> delegator_at (store s) (v, auth)"
  shows "unat (d_rewards del) + unat com < 2 ^ 256 \<and>
      unat (v_unclaimed_rewards val) + unat lft < 2 ^ 256 \<and>
      (\<exists>acc. (if lft = 0 then acc = 0 else checked_mul_div_u256 lft UNIT_BIAS act = Inr acc) \<and>
        unat (v_acc val) + unat acc < 2 ^ 256 \<and>
      store t = ((put_delegator (v, auth) (del\<lparr>d_rewards := d_rewards del + com\<rparr>) (store s))
           (key_of (CValidator v 7) := v_unclaimed_rewards val + lft))
           (key_of (CValidator v 1) := v_acc val + acc)) \<and> backend_ok t"
proof -
  have "put_delegator k d (store s) (key_of (CValidator v 1)) = v_acc val" for k d
    by (simp add: val_def validator_at_def cell_simps)
  moreover have "unat (v_acc val) < 2 ^ 256" using unat_lt2p [of "v_acc val"] by simp
  ultimately show ?thesis using run ok act
    by (cases "lft = 0")
      (auto simp: distribute_reward_def handler_simps val_def [symmetric] auth_def [symmetric]
        del_def [symmetric] Let_def unat_reward_sum)
qed

lemma syscall_reward_Inr:
  assumes ok: "backend_ok s" and dec: "dec_syscallReward A (drop 4 input) = Inr author"
    and run: "handle_syscall_reward A input gas caller x s = (Inr r, t)"
  defines "reward \<equiv> if 68 \<le> length input then from_be_bytes (take 32 (drop 36 input)) else x"
    and "v \<equiv> u64_at (store s) (CValIdSecp author)"
  defines "view k \<equiv> store s (key_of (if in_boundary_at (store s) then CSnapshotView v k
                                     else CConsensusView v k))"
  shows "caller = SYSTEM_ADDRESS \<and> v \<noteq> 0 \<and> view 0 \<noteq> 0 \<and> r = (GAS_SYSCALL_REWARD, []) \<and>
    balances t = balances s \<and>
    (\<exists>com u. checked_mul_div_u256 reward (view 1) MON = Inr com \<and> com \<le> reward \<and>
      distribute_reward v (view 0) com (reward - com) s = (Inr (), u) \<and>
      store t = put_u64 CProposer v (store u))"
proof -
  have "backend_ok u" "balances u = balances s"
    if "distribute_reward v act com lft s = (Inr (), u)" for act com lft u
    using preservesD [OF env.host_distribute_reward that] preservesD [OF distribute_reward_frames that] ok
    by (auto simp: same_env_backend same_balances_def)
  with run ok dec show ?thesis
    by (cases "in_boundary_at (store s)"; cases "68 \<le> length input")
      (auto simp: handle_syscall_reward_def handler_simps reward_def view_def Let_def put_u64_def
        v_def u64_at_def [symmetric] not_system_address_def)
qed

lemma unat_lookup_mul_div:
  "checked_mul_div_u256 a b d = Inr c \<Longrightarrow> unat c = unat a * unat b div unat d"
  by (auto simp: checked_mul_div_u256_Inr intro: unat_mul_div)

definition reward_cells :: "u64 \<Rightarrow> address \<Rightarrow> cell_id set" where
  "reward_cells v auth = {CProposer, CValidator v 1, CValidator v 7} \<union> delegator_cells (v, auth)"

text \<open>C18: a block reward is accepted only from the system address and only for a validator with
  active stake in the view of the epoch. It is split exactly: the commission, floor(reward *
  rate / 10^18), goes to the rewards of the auth address, all the rest to the unclaimed pool of
  the validator, whose accumulator grows by floor(rest * 10^36 / active stake). The author
  becomes the proposer; no balance moves and nothing else is written.\<close>

theorem syscall_reward_effect:
  assumes "backend_ok s" and "dec_syscallReward A (drop 4 input) = Inr author"
    and "handle_syscall_reward A input gas caller x s = (Inr r, t)"
  defines "reward \<equiv> if 68 \<le> length input then from_be_bytes (take 32 (drop 36 input)) else x"
    and "v \<equiv> u64_at (store s) (CValIdSecp author)"
  defines "view k \<equiv> store s (key_of (if in_boundary_at (store s) then CSnapshotView v k
                                     else CConsensusView v k))"
    and "auth \<equiv> v_auth_address (validator_at (store s) v)"
  defines "com \<equiv> unat reward * unat (view 1) div 10 ^ 18"
  shows "caller = SYSTEM_ADDRESS \<and> v \<noteq> 0 \<and> view 0 \<noteq> 0 \<and> com \<le> unat reward \<and>
    unat (d_rewards (delegator_at (store t) (v, auth)))
      = unat (d_rewards (delegator_at (store s) (v, auth))) + com \<and>
    unat (v_unclaimed_rewards (validator_at (store t) v))
      = unat (v_unclaimed_rewards (validator_at (store s) v)) + (unat reward - com) \<and>
    unat (v_acc (validator_at (store t) v))
      = unat (v_acc (validator_at (store s) v)) + (unat reward - com) * 10 ^ 36 div unat (view 0) \<and>
    u64_at (store t) CProposer = v \<and>
    touches (reward_cells v auth) s t \<and> balances t = balances s"
proof -
  obtain c u where act: "view 0 \<noteq> 0"
    and c: "checked_mul_div_u256 reward (view 1) MON = Inr c" and le: "c \<le> reward"
    and d: "distribute_reward v (view 0) c (reward - c) s = (Inr (), u)"
    and st: "store t = put_u64 CProposer v (store u)"
    and g: "caller = SYSTEM_ADDRESS" "v \<noteq> 0" "balances t = balances s"
    using syscall_reward_Inr [OF assms(1-3), folded reward_def v_def]
    unfolding view_def by blast
  note dist = distribute_reward_Inr [OF assms(1) d act, folded auth_def]
  then obtain acc where acc: "if reward - c = 0 then acc = 0
      else checked_mul_div_u256 (reward - c) UNIT_BIAS (view 0) = Inr acc"
    and sum: "unat (v_acc (validator_at (store s) v)) + unat acc < 2 ^ 256"
    and su: "store u = ((put_delegator (v, auth) ((delegator_at (store s) (v, auth))\<lparr>d_rewards :=
           d_rewards (delegator_at (store s) (v, auth)) + c\<rparr>) (store s))
           (key_of (CValidator v 7) := v_unclaimed_rewards (validator_at (store s) v) + (reward - c)))
           (key_of (CValidator v 1) := v_acc (validator_at (store s) v) + acc)"
    by blast
  have uc: "unat c = com"
    using unat_lookup_mul_div [OF c] by (simp add: com_def unat_constants)
  have left: "unat (reward - c) = unat reward - com" using le by (simp add: unat_sub uc)
  have "unat acc = (unat reward - com) * 10 ^ 36 div unat (view 0)"
  proof (cases "reward - c = 0")
    case True
    then show ?thesis using acc left by simp
  next
    case False
    then have "checked_mul_div_u256 (reward - c) UNIT_BIAS (view 0) = Inr acc" using acc by simp
    then show ?thesis by (simp add: unat_lookup_mul_div left unat_constants)
  qed
  moreover have "com \<le> unat reward" using le by (simp add: word_le_nat_alt uc)
  moreover have "touches (reward_cells v auth) s t"
    unfolding touches_def
    by (auto simp: st su reward_cells_def put_u64_def put_delegator_def region_cells)
  ultimately show ?thesis
    using dist act g sum
    by (auto simp: st su cell_simps unat_reward_sum uc left auth_def)
qed

text \<open>Epoch 5, author 8 runs validator 1 with an active stake of one unit and 5 percent.\<close>

definition reward_example :: host where
  "reward_example = host_of [(CEpoch, slot_of_u64 5), (CValIdSecp 8, slot_of_u64 1),
     (CValidator 1 1, 3), (CValidator 1 7, 10), (CValidator 1 6, slot_of_address_flags 9 0),
     (CConsensusView 1 0, 10 ^ 18), (CConsensusView 1 1, 5 * 10 ^ 16)]"

lemma reward_example_facts [simp]:
  "backend_ok reward_example" "v_auth_address (validator_at (store reward_example) 1) = 9"
  "v_acc (validator_at (store reward_example) 1) = 3"
  "v_unclaimed_rewards (validator_at (store reward_example) 1) = 10"
  "\<not> in_boundary_at (store reward_example)"
  "u64_at (store reward_example) (CValIdSecp 8) = 1"
  "store reward_example (key_of (CConsensusView 1 0)) = 10 ^ 18"
  "store reward_example (key_of (CConsensusView 1 1)) = 5 * 10 ^ 16"
  "delegator_at (store reward_example) k = Delegator_default"
  by (simp_all add: reward_example_def validator_at_def in_boundary_at_def u64_at_def
      epoch_at_def delegator_at_def Delegator_default_def split: prod.splits)

lemma reward_example_run:
  "\<exists>t. handle_syscall_reward word_abi (call_data SEL_syscallReward [8]) GAS_SYSCALL_REWARD
     SYSTEM_ADDRESS 1000 reward_example = (Inr (GAS_SYSCALL_REWARD, []), t)"
proof -
  let ?i = "call_data SEL_syscallReward [8]"
  have "v_acc (validator_at (put_delegator k d (store reward_example)) 1) = 3" for k d
    by (simp add: cell_simps)
  then have "\<exists>u. distribute_reward 1 (10 ^ 18) 50 950 reward_example = (Inr (), u)"
    by (simp add: distribute_reward_def bindc_apply Let_def checked_eval constant_values
        Delegator_default_def)
  moreover have "backend_ok u" if "distribute_reward 1 (10 ^ 18) 50 950 reward_example = (Inr (), u)" for u
    by (rule preserves_backend [OF env.host_distribute_reward that]) simp
  ultimately show ?thesis
    by (auto simp: handle_syscall_reward_def bindc_apply require_def decode_call_def constant_values
        key_folds checked_eval Let_def emit_event_def u64_at_def [symmetric] call_data_def)
qed

theorem syscall_reward_effect_witness:
  "\<exists>t. handle_syscall_reward word_abi (call_data SEL_syscallReward [8]) GAS_SYSCALL_REWARD
      SYSTEM_ADDRESS 1000 reward_example = (Inr (GAS_SYSCALL_REWARD, []), t) \<and>
    unat (d_rewards (delegator_at (store t) (1, 9))) = 50 \<and>
    unat (v_unclaimed_rewards (validator_at (store t) 1)) = 960 \<and>
    unat (v_acc (validator_at (store t) 1)) = 3 + 950 * 10 ^ 18"
proof -
  let ?i = "call_data SEL_syscallReward [8]"
  obtain t where t: "handle_syscall_reward word_abi ?i GAS_SYSCALL_REWARD SYSTEM_ADDRESS 1000
      reward_example = (Inr (GAS_SYSCALL_REWARD, []), t)"
    using reward_example_run by blast
  have dec: "dec_syscallReward word_abi (drop 4 ?i) = Inr 8" by simp
  have "length ?i = 36" by (simp add: call_data_def SEL_syscallReward_def word_data_def)
  with syscall_reward_effect [OF _ dec t] t show ?thesis
    by (intro exI [of _ t]) (simp add: Delegator_default_def)
qed

section \<open>Loops as folds\<close>

text \<open>With a backend that answers, a loop whose body updates the store is a fold over it, and a
  collecting loop whose body only reads is a filter.\<close>

lemma for_each_fold:
  assumes "\<And>x s. x \<in> set xs \<Longrightarrow> backend_ok s \<Longrightarrow> f x s = (Inr (), s\<lparr>store := g x (store s)\<rparr>)"
    and "backend_ok s"
  shows "for_each xs f s = (Inr (), s\<lparr>store := fold g xs (store s)\<rparr>)"
  using assms by (induction xs arbitrary: s) (simp_all add: bindc_apply)

lemma collect_each_filter:
  assumes "\<And>x. x \<in> set xs \<Longrightarrow> f x s = (Inr (h x), s)"
  shows "collect_each xs f s = (Inr (List.map_filter h xs), s)"
  using assms by (induction xs) (auto simp: bindc_apply map_filter_simps split: option.splits)

text \<open>The first \<open>m\<close> elements of an array.\<close>

definition entries :: "storage \<Rightarrow> (u64 \<Rightarrow> cell_id) \<Rightarrow> nat \<Rightarrow> u64 list" where
  "entries st C m = map (\<lambda>i. u64_at st (C (of_nat (Suc i)))) [0..<m]"

lemma array_entries: "array_at st C = entries st C (unat (u64_at st (C 0)))"
  by (simp add: array_at_def entries_def)

lemma entries_simps [simp]:
  "entries st C 0 = []" "length (entries st C m) = m"
  "entries st C (Suc m) = entries st C m @ [u64_at st (C (of_nat (Suc m)))]"
  by (simp_all add: entries_def)

lemma entries_cong:
  "(\<And>i. 0 < i \<Longrightarrow> i \<le> m \<Longrightarrow> u64_at st' (C (of_nat i)) = u64_at st (C (of_nat i))) \<Longrightarrow>
    entries st' C m = entries st C m"
  by (auto simp: entries_def simp del: of_nat_Suc)

lemma fold_u64_range:
  "fold g (u64_range n) st = fold (\<lambda>i. g (of_nat i)) [0..<unat n] st"
  by (simp add: u64_range_def fold_map comp_def)

lemma index_eq: "m < 2 ^ 64 \<Longrightarrow> j = (of_nat m :: u64) \<longleftrightarrow> unat j = m"
  by (auto simp: unat_of_nat_u64)

section \<open>Epoch change\<close>

definition refresh :: "u64 \<Rightarrow> u64 \<Rightarrow> storage \<Rightarrow> storage" where
  "refresh e v st = (if 0 < acc_refcount (accumulator_at st (e, v))
     then put_accumulator (e, v) \<lparr>acc_value = v_acc (validator_at st v),
            acc_refcount = acc_refcount (accumulator_at st (e, v))\<rparr> st
     else st)"

lemma refresh_views [simp]:
  "u64_at (refresh e v st) (CSnapshot i) = u64_at st (CSnapshot i)"
  "validator_at (refresh e v st) w = validator_at st w"
  "accumulator_at (refresh e v st) (e', w) = (if (e', w) = (e, v) \<and> 0 < acc_refcount (accumulator_at st (e, v))
     then \<lparr>acc_value = v_acc (validator_at st v), acc_refcount = acc_refcount (accumulator_at st (e, v))\<rparr>
     else accumulator_at st (e', w))"
  by (auto simp: refresh_def cell_simps region_cells)

lemma refresh_other [simp]:
  "k \<notin> key_of ` accumulator_cells (e, v) \<Longrightarrow> refresh e v st k = st k"
  by (simp add: refresh_def put_accumulator_def region_cells)

lemma epoch_change_accumulator_ok:
  "backend_ok s \<Longrightarrow> epoch_change_accumulator e v (v_acc (validator_at (store s) v)) s
     = (Inr (), s\<lparr>store := refresh e v (store s)\<rparr>)"
  by (simp add: epoch_change_accumulator_def bindc_apply refresh_def)

definition refresh_all :: "u64 \<Rightarrow> u64 \<Rightarrow> u64 list \<Rightarrow> storage \<Rightarrow> storage" where
  "refresh_all e e' vs st = fold (\<lambda>v st. refresh e' v (refresh e v st)) vs st"

lemma refresh_all_snoc:
  "refresh_all e e' [] st = st"
  "refresh_all e e' (vs @ [v]) st = refresh e' v (refresh e v (refresh_all e e' vs st))"
  by (simp_all add: refresh_all_def)

lemma refresh_all_Cons:
  "refresh_all e e' (v # vs) st = refresh_all e e' vs (refresh e' v (refresh e v st))"
  by (simp add: refresh_all_def)

lemma refresh_all_array: "u64_at (refresh_all e e' vs st) (CSnapshot i) = u64_at st (CSnapshot i)"
  by (induction vs arbitrary: st) (simp_all add: refresh_all_snoc(1) refresh_all_Cons)

lemma refresh_all_validator: "validator_at (refresh_all e e' vs st) w = validator_at st w"
  by (induction vs arbitrary: st) (simp_all add: refresh_all_snoc(1) refresh_all_Cons)

lemma refresh_all_refcount: "acc_refcount (accumulator_at (refresh_all e e' vs st) (d, w))
    = acc_refcount (accumulator_at st (d, w))"
  by (induction vs arbitrary: st) (simp_all add: refresh_all_snoc(1) refresh_all_Cons)

lemma refresh_all_value: "acc_value (accumulator_at (refresh_all e e' vs st) (d, w)) =
     (if w \<in> set vs \<and> d \<in> {e, e'} \<and> 0 < acc_refcount (accumulator_at st (d, w))
      then v_acc (validator_at st w) else acc_value (accumulator_at st (d, w)))"
  by (induction vs arbitrary: st) (auto simp: refresh_all_snoc(1) refresh_all_Cons)

lemma refresh_all_other:
  "(\<And>d w. d \<in> {e, e'} \<Longrightarrow> w \<in> set vs \<Longrightarrow> k \<notin> key_of ` accumulator_cells (d, w)) \<Longrightarrow>
     refresh_all e e' vs st k = st k"
  by (induction vs arbitrary: st) (simp_all add: refresh_all_snoc(1) refresh_all_Cons)

lemma fold_refresh:
  "fold (\<lambda>i st. let v = u64_at st (CSnapshot (of_nat (Suc i))) in refresh e' v (refresh e v st))
     [0..<m] st = refresh_all e e' (entries st CSnapshot m) st"
  by (induction m) (simp_all add: Let_def refresh_all_snoc refresh_all_array del: of_nat_Suc)

lemma epoch_change_validators_ok:
  assumes "backend_ok s"
  shows "epoch_change_validators n e e' s
    = (Inr (), s\<lparr>store := refresh_all e e' (entries (store s) CSnapshot (unat n)) (store s)\<rparr>)"
proof -
  have "epoch_change_validators n e e' s = (Inr (), s\<lparr>store := fold (\<lambda>i st.
      let v = u64_at st (CSnapshot (i + 1)) in refresh e' v (refresh e v st)) (u64_range n) (store s)\<rparr>)"
    unfolding epoch_change_validators_def
  proof (rule for_each_fold [OF _ assms])
    fix i and s :: host
    assume ok: "backend_ok s"
    let ?v = "u64_at (store s) (CSnapshot (i + 1))"
    let ?s = "s\<lparr>store := refresh e ?v (store s)\<rparr>"
    have "epoch_change_accumulator e' ?v (v_acc (validator_at (store s) ?v)) ?s
        = (Inr (), ?s\<lparr>store := refresh e' ?v (store ?s)\<rparr>)"
      using epoch_change_accumulator_ok [of ?s e' ?v] ok by simp
    moreover note epoch_change_accumulator_ok [OF ok, of e ?v]
    ultimately show "(let val_slot = saturating_add VALSET_SNAPSHOT (ucast (i + 1)) in
         bindc (read_u64 val_slot) (\<lambda>val_id.
         bindc (read_u256 (validator_key val_id VAL_OFF_ACC)) (\<lambda>current_val_acc.
         seqc (epoch_change_accumulator e val_id current_val_acc)
         (epoch_change_accumulator e' val_id current_val_acc)))) s
       = (Inr (), s\<lparr>store := let v = u64_at (store s) (CSnapshot (i + 1)) in
            refresh e' v (refresh e v (store s))\<rparr>)"
      using ok by (simp add: Let_def bindc_apply key_folds offset_defs validator_cell_views
          u64_at_def [symmetric])
  qed
  then show ?thesis
    by (simp add: fold_u64_range fold_refresh [unfolded of_nat_Suc] add.commute)
qed

definition epoch_change_store :: "u64 \<Rightarrow> storage \<Rightarrow> storage" where
  "epoch_change_store e st = put_u64 CEpoch e ((refresh_all e (e + 1) (array_at st CSnapshot) st)
     (key_of CInBoundary := 0))"

lemma epoch_change_ok:
  assumes "backend_ok s" and "dec_syscallOnEpochChange A (drop 4 input) = Inr e"
    and "GAS_SYSCALL_ON_EPOCH_CHANGE \<le> gas" and "u64_at (store s) CEpoch < e"
  shows "handle_syscall_on_epoch_change A input gas SYSTEM_ADDRESS s
    = (Inr (GAS_SYSCALL_ON_EPOCH_CHANGE, []),
       s\<lparr>store := epoch_change_store e (store s), logs := logs s @
         [\<lparr>log_address = STAKING_ADDRESS, log_topics = [signature_hash A EvEpochChanged],
           log_data = word_data (ucast (u64_at (store s) CEpoch)) @ word_data (ucast e)\<rparr>]\<rparr>)"
  using assms
  by (simp add: linorder_not_le handle_syscall_on_epoch_change_def bindc_apply require_def key_folds Let_def
      emit_event_def epoch_change_validators_ok epoch_change_store_def put_u64_def not_less
      u64_at_def [symmetric] array_entries)

text \<open>C17: an epoch change to any later epoch succeeds. It moves the epoch forward, ends the delay
  period and, for every validator of the snapshot set, writes the current accumulator into the
  entries of the new epoch and the one after it that are in use, so that the stakes activating
  there start from it; references are kept, other entries and all balances are unchanged.\<close>

theorem epoch_change_effect:
  assumes "backend_ok s" and "dec_syscallOnEpochChange A (drop 4 input) = Inr e"
    and "GAS_SYSCALL_ON_EPOCH_CHANGE \<le> gas" and "u64_at (store s) CEpoch < e"
  shows "\<exists>t. handle_syscall_on_epoch_change A input gas SYSTEM_ADDRESS s
      = (Inr (GAS_SYSCALL_ON_EPOCH_CHANGE, []), t) \<and>
    epoch_at (store s) < epoch_at (store t) \<and> u64_at (store t) CEpoch = e \<and>
    \<not> in_boundary_at (store t) \<and> balances t = balances s \<and>
    (\<forall>d v. acc_refcount (accumulator_at (store t) (d, v)) = acc_refcount (accumulator_at (store s) (d, v)) \<and>
      acc_value (accumulator_at (store t) (d, v)) =
       (if v \<in> set (array_at (store s) CSnapshot) \<and> d \<in> {e, e + 1} \<and>
           0 < acc_refcount (accumulator_at (store s) (d, v))
        then v_acc (validator_at (store s) v) else acc_value (accumulator_at (store s) (d, v)))) \<and>
    touches ({CEpoch, CInBoundary} \<union>
      (\<Union>v \<in> set (array_at (store s) CSnapshot). accumulator_cells (e, v) \<union> accumulator_cells (e + 1, v))) s t"
proof -
  obtain l where run: "handle_syscall_on_epoch_change A input gas SYSTEM_ADDRESS s
    = (Inr (GAS_SYSCALL_ON_EPOCH_CHANGE, []),
       s\<lparr>store := epoch_change_store e (store s), logs := logs s @ [l]\<rparr>)"
    using epoch_change_ok [OF assms] by blast
  let ?F = "{CEpoch, CInBoundary} \<union>
      (\<Union>v \<in> set (array_at (store s) CSnapshot). accumulator_cells (e, v) \<union> accumulator_cells (e + 1, v))"
  have "epoch_change_store e (store s) k = store s k" if "k \<notin> key_of ` ?F" for k
    using that unfolding epoch_change_store_def put_u64_def
    by (auto intro!: refresh_all_other)
  then have "touches ?F s (s\<lparr>store := epoch_change_store e (store s), logs := logs s @ [l]\<rparr>)"
    by (auto simp: touches_def)
  with run show ?thesis
    by (intro exI conjI)
      (auto simp: epoch_change_store_def cell_simps refresh_all_refcount refresh_all_value
        epoch_at_def region_cells assms(4) [unfolded word_less_nat_alt])
qed

definition epoch_example :: host where
  "epoch_example = host_of [(CEpoch, slot_of_u64 5), (CInBoundary, 1),
     (CSnapshot 0, slot_of_u64 1), (CSnapshot 1, slot_of_u64 7), (CValidator 7 1, 42),
     (CAccumulator 6 7 0, 3), (CAccumulator 6 7 1, 2)]"

theorem epoch_change_effect_witness:
  "\<exists>t. handle_syscall_on_epoch_change word_abi (call_data SEL_syscallOnEpochChange [6])
      GAS_SYSCALL_ON_EPOCH_CHANGE SYSTEM_ADDRESS epoch_example
      = (Inr (GAS_SYSCALL_ON_EPOCH_CHANGE, []), t) \<and>
    u64_at (store t) CEpoch = 6 \<and> accumulator_at (store t) (6, 7) = \<lparr>acc_value = 42, acc_refcount = 2\<rparr>"
proof -
  let ?i = "call_data SEL_syscallOnEpochChange [6]" and ?s = epoch_example
  have ok: "backend_ok ?s" by (simp add: epoch_example_def)
  have dec: "dec_syscallOnEpochChange word_abi (drop 4 ?i) = Inr 6" by simp
  have e: "u64_at (store ?s) CEpoch < 6" by (simp add: epoch_example_def u64_at_def)
  have "7 \<in> set (array_at (store ?s) CSnapshot)"
    by (simp add: array_at_def epoch_example_def u64_at_def)
  moreover have "accumulator_at (store ?s) (6, 7) = \<lparr>acc_value = 3, acc_refcount = 2\<rparr>"
    "v_acc (validator_at (store ?s) 7) = 42"
    by (simp_all add: accumulator_at_def validator_at_def epoch_example_def)
  ultimately show ?thesis
    using epoch_change_effect [OF ok dec order_refl e] by (auto intro: RefCountedAccumulator.equality)
qed

end
