(* ===== verification/Snapshot.thy ===== *)
theory Snapshot
  imports Syscalls "HOL-Library.Product_Lexorder" "HOL-Library.Multiset"
begin

text \<open>
  The epoch-boundary snapshot of \<open>staking/write.rs\<close>: the consensus set becomes the snapshot set,
  the best validators of the execution set become the consensus set, and the execution set loses
  the validators that are not in good standing.
\<close>

section \<open>Model\<close>

definition snapshot_clear_old :: "u64 \<Rightarrow> unit action" where
  "snapshot_clear_old old_snapshot_len =
     for_each (u64_range old_snapshot_len) (\<lambda>i.
       bindc (read_u64 (VALSET_SNAPSHOT + ucast (1 + i))) (\<lambda>old_val_id.
       seqc (write_storage_u256 (snapshot_view_key old_val_id 0) 0)
       (seqc (write_storage_u256 (snapshot_view_key old_val_id 1) 0)
       (write_storage_u64 (VALSET_SNAPSHOT + ucast (1 + i)) 0))))"

definition snapshot_copy_consensus :: "u64 \<Rightarrow> unit action" where
  "snapshot_copy_consensus consensus_len =
     for_each (u64_range consensus_len) (\<lambda>i.
       bindc (read_u64 (VALSET_CONSENSUS + ucast (1 + i))) (\<lambda>val_id.
       seqc (write_storage_u64 (VALSET_SNAPSHOT + ucast (1 + i)) val_id)
       (bindc (read_u256 (consensus_view_key val_id 0)) (\<lambda>c_stake.
       bindc (read_u256 (consensus_view_key val_id 1)) (\<lambda>c_commission.
       seqc (write_storage_u256 (snapshot_view_key val_id 0) c_stake)
       (write_storage_u256 (snapshot_view_key val_id 1) c_commission))))))"

definition snapshot_clear_consensus :: "u64 \<Rightarrow> unit action" where
  "snapshot_clear_consensus consensus_len =
     for_each (u64_range consensus_len) (\<lambda>i.
       bindc (read_u64 (VALSET_CONSENSUS + ucast (1 + i))) (\<lambda>old_val_id.
       seqc (write_storage_u256 (consensus_view_key old_val_id 0) 0)
       (seqc (write_storage_u256 (consensus_view_key old_val_id 1) 0)
       (write_storage_u64 (VALSET_CONSENSUS + ucast (1 + i)) 0))))"

definition read_flags :: "u64 \<Rightarrow> u64 action" where
  "read_flags val_id =
     bindc (read_u256 (validator_key val_id VAL_OFF_ADDRESS_FLAGS)) (\<lambda>w.
     let addr_flags = to_be_bytes 32 w in
     ret (from_be_bytes (take 8 (drop 20 addr_flags))))"

definition snapshot_candidates :: "u64 \<Rightarrow> (u64 \<times> u256) list action" where
  "snapshot_candidates exec_len =
     collect_each (u64_range exec_len) (\<lambda>i.
       bindc (read_u64 (VALSET_EXECUTION + ucast (1 + i))) (\<lambda>val_id.
       bindc (read_u256 (validator_key val_id VAL_OFF_STAKE)) (\<lambda>stake.
       bindc (read_flags val_id) (\<lambda>flags.
       ret (if flags = FLAG_OK then Some (val_id, stake) else None)))))"

text \<open>\<open>sort_by(|a, b| b.1.cmp(&a.1).then_with(|| a.0.cmp(&b.0)))\<close>: a stable sort, by stake
  descending, then by id.\<close>

definition sort_candidates :: "(u64 \<times> u256) list \<Rightarrow> (u64 \<times> u256) list" where
  "sort_candidates xs = sort_key (\<lambda>(v, st). (- int (unat st), unat v)) xs"

definition snapshot_write_consensus :: "(u64 \<times> u256) list \<Rightarrow> unit action" where
  "snapshot_write_consensus chosen =
     for_each (zip [0..<length chosen] chosen) (\<lambda>(i, (val_id, _)).
       seqc (write_storage_u64 (VALSET_CONSENSUS + ucast (1 + (of_nat i :: u64))) val_id)
       (bindc (read_validator val_id) (\<lambda>val.
       seqc (write_storage_u256 (consensus_view_key val_id 0) (v_stake val))
       (write_storage_u256 (consensus_view_key val_id 1) (v_commission val)))))"

definition snapshot_removals :: "u64 \<Rightarrow> u64 list action" where
  "snapshot_removals exec_len =
     collect_each (u64_range exec_len) (\<lambda>i.
       bindc (read_u64 (VALSET_EXECUTION + ucast (1 + i))) (\<lambda>vid.
       bindc (read_flags vid) (\<lambda>flags.
       ret (if flags \<noteq> FLAG_OK then Some i else None))))"

text \<open>The pop-and-swap loop, over the removals in reverse; returns the final length.\<close>

fun snapshot_compact :: "u64 list \<Rightarrow> u64 \<Rightarrow> u64 action" where
  "snapshot_compact [] current_len = ret current_len"
| "snapshot_compact (idx # removals) current_len =
     bindc (read_u64 (VALSET_EXECUTION + ucast (1 + idx))) (\<lambda>removed_vid.
     seqc (remove_from_valset removed_vid)
     (let current_len = current_len - 1 in
      seqc (if idx < current_len
            then bindc (read_u64 (VALSET_EXECUTION + ucast (1 + current_len))) (\<lambda>last_vid.
                 write_storage_u64 (VALSET_EXECUTION + ucast (1 + idx)) last_vid)
            else ret ())
      (seqc (write_storage_u64 (VALSET_EXECUTION + ucast (1 + current_len)) 0)
      (snapshot_compact removals current_len))))"

definition handle_syscall_snapshot ::
    "abi \<Rightarrow> bytes \<Rightarrow> u64 \<Rightarrow> address \<Rightarrow> (u64 \<times> bytes) action" where
  "handle_syscall_snapshot A input gas_limit caller =
     seqc (require (\<not> gas_limit < GAS_SYSCALL_SNAPSHOT) OutOfGas)
     (seqc (require (\<not> caller \<noteq> SYSTEM_ADDRESS) not_system_address)
     (bindc read_in_boundary (\<lambda>in_boundary.
     seqc (require (\<not> in_boundary) (Other ''called snapshot while in boundary''))
     (seqc (write_storage_u256 SLOT_IN_BOUNDARY (from_be_bytes (1 # replicate 31 0)))
     (bindc (read_u64 VALSET_CONSENSUS) (\<lambda>consensus_len.
     bindc (read_u64 VALSET_SNAPSHOT) (\<lambda>old_snapshot_len.
     seqc (snapshot_clear_old old_snapshot_len)
     (seqc (write_storage_u64 VALSET_SNAPSHOT consensus_len)
     (seqc (snapshot_copy_consensus consensus_len)
     (seqc (snapshot_clear_consensus consensus_len)
     (bindc (read_u64 VALSET_EXECUTION) (\<lambda>exec_len.
     bindc (snapshot_candidates exec_len) (\<lambda>candidates.
     let validators = sort_candidates candidates;
         new_consensus_len = min (length validators) ACTIVE_VALSET_SIZE in
     seqc (write_storage_u64 VALSET_CONSENSUS (of_nat new_consensus_len))
     (seqc (snapshot_write_consensus (take new_consensus_len validators))
     (bindc (read_u64 VALSET_EXECUTION) (\<lambda>exec_len.
     bindc (snapshot_removals exec_len) (\<lambda>removals.
     bindc (snapshot_compact (rev removals) exec_len) (\<lambda>current_len.
     seqc (write_storage_u64 VALSET_EXECUTION current_len)
     (ret (GAS_SYSCALL_SNAPSHOT, []))))))))))))))))))))"

section \<open>Frames\<close>

context host_relation
begin

lemma host_snapshot [frame_intros]:
  "preserves R (snapshot_clear_old n)"
  "preserves R (snapshot_copy_consensus n)"
  "preserves R (snapshot_clear_consensus n)"
  "preserves R (snapshot_candidates n)"
  "preserves R (snapshot_removals n)"
  "preserves R (snapshot_write_consensus c)"
  unfolding snapshot_clear_old_def snapshot_copy_consensus_def snapshot_clear_consensus_def
    snapshot_candidates_def snapshot_removals_def read_flags_def snapshot_write_consensus_def Let_def
  by (intro pres_intros pres_case_prod pres_case_sum frame_intros | simp split: prod.splits)+

end

context host_relation
begin

lemma host_snapshot_compact [frame_intros]: "preserves R (snapshot_compact is n)"
proof (induction "is" n rule: snapshot_compact.induct)
  case (1 n)
  show ?case unfolding snapshot_compact.simps by (intro pres_intros)
next
  case (2 i "is" n)
  show ?case unfolding snapshot_compact.simps Let_def
    by (intro pres_intros pres_case_prod pres_case_sum frame_intros 2 refl)
qed

end

section \<open>The array loops\<close>

text \<open>One iteration of either clearing loop, on array \<open>C\<close> with views \<open>V\<close>.\<close>

definition clear_entry :: "(u64 \<Rightarrow> cell_id) \<Rightarrow> (u64 \<Rightarrow> u8 \<Rightarrow> cell_id) \<Rightarrow> u64 \<Rightarrow> storage \<Rightarrow> storage" where
  "clear_entry C V i st = (let v = u64_at st (C (1 + i)) in
     st(key_of (V v 0) := 0, key_of (V v 1) := 0, key_of (C (1 + i)) := slot_of_u64 0))"

definition copy_entry :: "u64 \<Rightarrow> storage \<Rightarrow> storage" where
  "copy_entry i st = (let v = u64_at st (CConsensus (1 + i)) in
     st(key_of (CSnapshot (1 + i)) := slot_of_u64 v,
        key_of (CSnapshotView v 0) := st (key_of (CConsensusView v 0)),
        key_of (CSnapshotView v 1) := st (key_of (CConsensusView v 1))))"

lemma snapshot_loops:
  assumes "backend_ok s"
  shows "snapshot_clear_old n s
      = (Inr (), s\<lparr>store := fold (clear_entry CSnapshot CSnapshotView) (u64_range n) (store s)\<rparr>)"
    and "snapshot_clear_consensus n s
      = (Inr (), s\<lparr>store := fold (clear_entry CConsensus CConsensusView) (u64_range n) (store s)\<rparr>)"
    and "snapshot_copy_consensus n s
      = (Inr (), s\<lparr>store := fold copy_entry (u64_range n) (store s)\<rparr>)"
  unfolding snapshot_clear_old_def snapshot_clear_consensus_def snapshot_copy_consensus_def
  by (rule for_each_fold [OF _ assms];
      simp add: bindc_apply key_folds clear_entry_def copy_entry_def Let_def u64_at_def [symmetric])+

locale array_views =
  fixes C :: "u64 \<Rightarrow> cell_id" and V :: "u64 \<Rightarrow> u8 \<Rightarrow> cell_id"
  assumes C_inj: "C i = C j \<longleftrightarrow> i = j" and V_inj: "V v k = V w l \<longleftrightarrow> v = w \<and> k = l"
    and C_V: "C i \<noteq> V v k"
begin

text \<open>The store after the first \<open>m\<close> iterations of a clearing loop.\<close>

lemma cleared:
  fixes st :: storage
  assumes "m < 2 ^ 64"
  defines "st' \<equiv> fold (\<lambda>i. clear_entry C V (of_nat i)) [0..<m] st"
  shows "st' (key_of (C j)) = (if 0 < unat j \<and> unat j \<le> m then 0 else st (key_of (C j)))"
    and "st' (key_of (V v k)) = (if k < 2 \<and> v \<in> set (entries st C m) then 0 else st (key_of (V v k)))"
    and "(\<And>i. c \<noteq> C i) \<Longrightarrow> (\<And>v k. c \<noteq> V v k) \<Longrightarrow> st' (key_of c) = st (key_of c)"
proof -
  let ?f = "\<lambda>m. fold (\<lambda>i. clear_entry C V (of_nat i)) [0..<m] st"
  have k2: "k < 2 \<longleftrightarrow> k = 0 \<or> k = 1" for k :: u8
    by (auto simp: word_less_nat_alt word_unat_eq_iff)
  have "(\<forall>j. ?f m (key_of (C j)) = (if 0 < unat j \<and> unat j \<le> m then 0 else st (key_of (C j)))) \<and>
    (\<forall>v k. ?f m (key_of (V v k)) = (if k < 2 \<and> v \<in> set (entries st C m) then 0 else st (key_of (V v k)))) \<and>
    (\<forall>c. (\<forall>i. c \<noteq> C i) \<longrightarrow> (\<forall>v k. c \<noteq> V v k) \<longrightarrow> ?f m (key_of c) = st (key_of c))"
    using assms(1)
  proof (induction m)
    case 0
    then show ?case by auto
  next
    case (Suc m)
    let ?st = "?f m" and ?i = "of_nat (Suc m) :: u64"
    have i: "1 + of_nat m = ?i" by simp
    have u: "j = ?i \<longleftrightarrow> unat j = Suc m" for j using Suc.prems by (rule index_eq)
    then have "unat ?i = Suc m" by blast
    with Suc have "u64_at ?st (C ?i) = u64_at st (C ?i)" by (simp add: u64_at_def)
    then have step: "?f (Suc m) = ?st(key_of (V (u64_at st (C ?i)) 0) := 0,
        key_of (V (u64_at st (C ?i)) 1) := 0, key_of (C ?i) := 0)"
      by (simp add: clear_entry_def Let_def i del: of_nat_Suc)
    have V_C: "V v k \<noteq> C i" for v k i using C_V by metis
    have IH: "?st (key_of (C j)) = (if 0 < unat j \<and> unat j \<le> m then 0 else st (key_of (C j)))"
      "?st (key_of (V v k)) = (if k < 2 \<and> v \<in> set (entries st C m) then 0 else st (key_of (V v k)))"
      "(\<forall>i. c \<noteq> C i) \<longrightarrow> (\<forall>v k. c \<noteq> V v k) \<longrightarrow> ?st (key_of c) = st (key_of c)" for j v k c
      using Suc by auto
    show ?case unfolding step
      by (auto simp: IH u C_inj V_inj C_V V_C k2 le_Suc_eq simp del: of_nat_Suc)
  qed
  then show "st' (key_of (C j)) = (if 0 < unat j \<and> unat j \<le> m then 0 else st (key_of (C j)))"
    and "st' (key_of (V v k)) = (if k < 2 \<and> v \<in> set (entries st C m) then 0 else st (key_of (V v k)))"
    and "(\<And>i. c \<noteq> C i) \<Longrightarrow> (\<And>v k. c \<noteq> V v k) \<Longrightarrow> st' (key_of c) = st (key_of c)"
    unfolding st'_def by blast+
qed

end

interpretation snapshot: array_views CSnapshot CSnapshotView
  by unfold_locales auto

interpretation consensus: array_views CConsensus CConsensusView
  by unfold_locales auto

lemma u8_less_2: "k < 2 \<longleftrightarrow> k = 0 \<or> k = (1 :: u8)"
  by (auto simp: word_less_nat_alt word_unat_eq_iff)

lemma copied_all:
  fixes st :: storage
  assumes "m < 2 ^ 64"
  defines "f \<equiv> \<lambda>m. fold (\<lambda>i. copy_entry (of_nat i)) [0..<m] st"
  shows "(\<forall>j. f m (key_of (CSnapshot j)) = (if 0 < unat j \<and> unat j \<le> m
        then slot_of_u64 (u64_at st (CConsensus j)) else st (key_of (CSnapshot j)))) \<and>
    (\<forall>v k. f m (key_of (CSnapshotView v k)) = (if k < 2 \<and> v \<in> set (entries st CConsensus m)
      then st (key_of (CConsensusView v k)) else st (key_of (CSnapshotView v k)))) \<and>
    (\<forall>c. (\<forall>i. c \<noteq> CSnapshot i) \<longrightarrow> (\<forall>v k. c \<noteq> CSnapshotView v k) \<longrightarrow> f m (key_of c) = st (key_of c))"
  using assms(1)
proof (induction m)
  case 0
  then show ?case by (auto simp: f_def)
next
  case (Suc m)
  let ?st = "f m" and ?i = "of_nat (Suc m) :: u64"
  have i: "1 + of_nat m = ?i" by simp
  have f: "f (Suc m) = copy_entry (of_nat m) ?st" by (simp add: f_def)
  have u: "j = ?i \<longleftrightarrow> unat j = Suc m" for j using Suc.prems by (rule index_eq)
  then have w: "unat j \<le> Suc m \<longleftrightarrow> unat j \<le> m \<or> j = ?i" "unat ?i = Suc m" for j
    by (auto simp: le_Suc_eq)
  have IH: "?st (key_of (CSnapshot j)) = (if 0 < unat j \<and> unat j \<le> m
      then slot_of_u64 (u64_at st (CConsensus j)) else st (key_of (CSnapshot j)))"
    "?st (key_of (CSnapshotView v k)) = (if k < 2 \<and> v \<in> set (entries st CConsensus m)
      then st (key_of (CConsensusView v k)) else st (key_of (CSnapshotView v k)))"
    "(\<forall>i. c \<noteq> CSnapshot i) \<longrightarrow> (\<forall>v k. c \<noteq> CSnapshotView v k) \<longrightarrow> ?st (key_of c) = st (key_of c)" for j v k c
    using Suc by auto
  let ?v = "u64_at st (CConsensus ?i)"
  have "u64_at ?st (CConsensus ?i) = ?v" by (simp add: u64_at_def IH(3))
  then have step: "f (Suc m) = ?st(key_of (CSnapshot ?i) := slot_of_u64 ?v,
      key_of (CSnapshotView ?v 0) := st (key_of (CConsensusView ?v 0)),
      key_of (CSnapshotView ?v 1) := st (key_of (CConsensusView ?v 1)))"
    by (simp add: f copy_entry_def Let_def i IH(3) del: of_nat_Suc)
  show ?case unfolding step
    by (auto simp: IH w u8_less_2 simp del: of_nat_Suc)
qed

lemma copied:
  fixes st :: storage
  assumes "m < 2 ^ 64"
  defines "st' \<equiv> fold (\<lambda>i. copy_entry (of_nat i)) [0..<m] st"
  shows "st' (key_of (CSnapshot j)) =
      (if 0 < unat j \<and> unat j \<le> m then slot_of_u64 (u64_at st (CConsensus j)) else st (key_of (CSnapshot j)))"
    and "st' (key_of (CSnapshotView v k)) = (if k < 2 \<and> v \<in> set (entries st CConsensus m)
      then st (key_of (CConsensusView v k)) else st (key_of (CSnapshotView v k)))"
    and "(\<And>i. c \<noteq> CSnapshot i) \<Longrightarrow> (\<And>v k. c \<noteq> CSnapshotView v k) \<Longrightarrow> st' (key_of c) = st (key_of c)"
  using copied_all [OF assms(1), of st] unfolding st'_def by blast+

definition elect_entry :: "nat \<times> u64 \<times> u256 \<Rightarrow> storage \<Rightarrow> storage" where
  "elect_entry = (\<lambda>(i, v, _) st.
     st(key_of (CConsensus (1 + of_nat i)) := slot_of_u64 v,
        key_of (CConsensusView v 0) := v_stake (validator_at st v),
        key_of (CConsensusView v 1) := v_commission (validator_at st v)))"

lemma snapshot_write_consensus_ok:
  assumes "backend_ok s"
  shows "snapshot_write_consensus xs s
    = (Inr (), s\<lparr>store := fold elect_entry (zip [0..<length xs] xs) (store s)\<rparr>)"
  unfolding snapshot_write_consensus_def
  by (rule for_each_fold [OF _ assms])
    (auto simp: bindc_apply key_folds elect_entry_def cell_simps region_cells)

lemma elected_all:
  fixes st :: storage
  assumes "length xs < 2 ^ 64"
  defines "f \<equiv> \<lambda>xs. fold elect_entry (zip [0..<length xs] xs) st"
  shows "(\<forall>j. f xs (key_of (CConsensus j)) = (if 0 < unat j \<and> unat j \<le> length xs
      then slot_of_u64 (fst (xs ! (unat j - 1))) else st (key_of (CConsensus j)))) \<and>
    (\<forall>v k. f xs (key_of (CConsensusView v k)) = (if v \<in> fst ` set xs \<and> k = 0 then v_stake (validator_at st v)
      else if v \<in> fst ` set xs \<and> k = 1 then v_commission (validator_at st v)
      else st (key_of (CConsensusView v k)))) \<and>
    (\<forall>c. (\<forall>i. c \<noteq> CConsensus i) \<longrightarrow> (\<forall>v k. c \<noteq> CConsensusView v k) \<longrightarrow> f xs (key_of c) = st (key_of c))"
  using assms(1)
proof (induction xs rule: rev_induct)
  case Nil
  then show ?case by (auto simp: f_def)
next
  case (snoc x xs)
  obtain v y where x: "x = (v, y)" by (cases x)
  let ?st = "f xs" and ?i = "of_nat (Suc (length xs)) :: u64"
  have i: "1 + of_nat (length xs) = ?i" by simp
  have f: "f (xs @ [(v, y)]) = elect_entry (length xs, v, y) ?st" by (simp add: f_def)
  have u: "j = ?i \<longleftrightarrow> unat j = Suc (length xs)" for j using snoc.prems by (intro index_eq) simp
  then have w: "unat j \<le> Suc (length xs) \<longleftrightarrow> unat j \<le> length xs \<or> j = ?i"
    "unat ?i = Suc (length xs)" for j
    by (auto simp: le_Suc_eq)
  have IH: "?st (key_of (CConsensus j)) = (if 0 < unat j \<and> unat j \<le> length xs
      then slot_of_u64 (fst (xs ! (unat j - 1))) else st (key_of (CConsensus j)))"
    "?st (key_of (CConsensusView w k)) = (if w \<in> fst ` set xs \<and> k = 0 then v_stake (validator_at st w)
      else if w \<in> fst ` set xs \<and> k = 1 then v_commission (validator_at st w)
      else st (key_of (CConsensusView w k)))"
    "(\<forall>i. c \<noteq> CConsensus i) \<longrightarrow> (\<forall>v k. c \<noteq> CConsensusView v k) \<longrightarrow> ?st (key_of c) = st (key_of c)" for j w k c
    using snoc by auto
  have "v_stake (validator_at ?st v) = v_stake (validator_at st v)"
    "v_commission (validator_at ?st v) = v_commission (validator_at st v)"
    by (simp_all add: validator_at_def IH(3))
  then have step: "f (xs @ [x]) = ?st(key_of (CConsensus ?i) := slot_of_u64 v,
      key_of (CConsensusView v 0) := v_stake (validator_at st v),
      key_of (CConsensusView v 1) := v_commission (validator_at st v))"
    by (simp add: f elect_entry_def i x del: of_nat_Suc)
  show ?case unfolding step
    by (auto simp: IH w x nth_append simp del: of_nat_Suc)
qed

lemma elected:
  fixes st :: storage
  assumes "length xs < 2 ^ 64"
  defines "st' \<equiv> fold elect_entry (zip [0..<length xs] xs) st"
  shows "st' (key_of (CConsensus j)) = (if 0 < unat j \<and> unat j \<le> length xs
      then slot_of_u64 (fst (xs ! (unat j - 1))) else st (key_of (CConsensus j)))"
    and "st' (key_of (CConsensusView v k)) = (if v \<in> fst ` set xs \<and> k = 0 then v_stake (validator_at st v)
      else if v \<in> fst ` set xs \<and> k = 1 then v_commission (validator_at st v)
      else st (key_of (CConsensusView v k)))"
    and "(\<And>i. c \<noteq> CConsensus i) \<Longrightarrow> (\<And>v k. c \<noteq> CConsensusView v k) \<Longrightarrow> st' (key_of c) = st (key_of c)"
  using elected_all [OF assms(1), of st] unfolding st'_def by blast+

section \<open>Candidates and election\<close>

definition standing :: "storage \<Rightarrow> u64 \<Rightarrow> bool" where
  "standing st v \<longleftrightarrow> v_flags (validator_at st v) = FLAG_OK"

lemma read_flags_ok [simp]:
  "backend_ok s \<Longrightarrow> read_flags v s = (Inr (v_flags (validator_at (store s) v)), s)"
  by (simp add: read_flags_def bindc_apply key_folds offset_defs validator_at_def flags_of_slot_def
      Let_def)

lemma map_filter_filter:
  "List.map_filter (\<lambda>i. if P (g i) then Some (f (g i)) else None) xs = map f (filter P (map g xs))"
  by (induction xs) (simp_all add: map_filter_simps)

lemma entries_range: "map (\<lambda>i. u64_at st (C (1 + i))) (u64_range n) = entries st C (unat n)"
  by (simp add: entries_def u64_range_def)

lemma snapshot_candidates_ok:
  assumes "backend_ok s"
  shows "snapshot_candidates n s = (Inr (map (\<lambda>v. (v, v_stake (validator_at (store s) v)))
     (filter (standing (store s)) (entries (store s) CExecution (unat n)))), s)"
proof -
  let ?g = "\<lambda>i. u64_at (store s) (CExecution (1 + i))"
    and ?f = "\<lambda>v. (v, v_stake (validator_at (store s) v))"
  have "snapshot_candidates n s = (Inr (List.map_filter
      (\<lambda>i. if standing (store s) (?g i) then Some (?f (?g i)) else None) (u64_range n)), s)"
    unfolding snapshot_candidates_def
    by (rule collect_each_filter) (simp add: assms bindc_apply key_folds offset_defs standing_def
        u64_at_def [symmetric] validator_cell_views)
  then show ?thesis
    using map_filter_filter [of "standing (store s)" ?g ?f "u64_range n"] by (simp add: entries_range)
qed

lemma snapshot_removals_ok:
  assumes "backend_ok s"
  shows "snapshot_removals n s = (Inr (filter (\<lambda>i. \<not> standing (store s)
     (u64_at (store s) (CExecution (1 + i)))) (u64_range n)), s)"
proof -
  let ?P = "\<lambda>i. \<not> standing (store s) (u64_at (store s) (CExecution (1 + i)))"
  have "snapshot_removals n s = (Inr (List.map_filter (\<lambda>i. if ?P i then Some i else None) (u64_range n)), s)"
    unfolding snapshot_removals_def
    by (rule collect_each_filter) (simp add: assms bindc_apply key_folds standing_def
        u64_at_def [symmetric])
  then show ?thesis
    using map_filter_filter [of ?P "\<lambda>i. i" "\<lambda>i. i" "u64_range n"] by simp
qed

text \<open>The order of the election: more stake first, the smaller id on a tie.\<close>

definition outranks :: "storage \<Rightarrow> u64 \<Rightarrow> u64 \<Rightarrow> bool" where
  "outranks st v w \<longleftrightarrow> v_stake (validator_at st w) < v_stake (validator_at st v) \<or>
     v_stake (validator_at st v) = v_stake (validator_at st w) \<and> v \<le> w"

definition election :: "storage \<Rightarrow> u64 list \<Rightarrow> u64 list" where
  "election st vs = map fst (take ACTIVE_VALSET_SIZE
     (sort_candidates (map (\<lambda>v. (v, v_stake (validator_at st v))) vs)))"

lemma sort_candidates_ids:
  "map fst (sort_candidates (map (\<lambda>v. (v, v_stake (validator_at st v))) vs))
     = sort_key (\<lambda>v. (- int (unat (v_stake (validator_at st v))), unat v)) vs"
proof -
  let ?key = "\<lambda>v. (- int (unat (v_stake (validator_at st v))), unat v)"
    and ?f = "\<lambda>v. (v, v_stake (validator_at st v))"
  have pairs: "insort_key (\<lambda>(v, st). (- int (unat st), unat v)) (?f v) (map ?f xs)
      = map ?f (insort_key ?key v xs)" for v xs
    by (induction xs) auto
  have "sort_key (\<lambda>(v, st). (- int (unat st), unat v)) (map ?f vs) = map ?f (sort_key ?key vs)"
    by (induction vs) (simp_all add: sort_key_def pairs [simplified])
  then show ?thesis by (simp add: sort_candidates_def comp_def)
qed

lemma outranks_key:
  "outranks st v w \<longleftrightarrow> (- int (unat (v_stake (validator_at st v))), unat v)
     \<le> (- int (unat (v_stake (validator_at st w))), unat w)"
  by (auto simp: outranks_def less_eq_prod_def word_less_def word_uint_eq_iff word_le_nat_alt)

text \<open>What the election promises: it elects from the candidates, at most the size of the active
  set, in rank order, and everyone elected outranks everyone left out.\<close>

lemma election_spec:
  fixes st :: storage and vs :: "u64 list"
  defines "elected \<equiv> election st vs"
  shows "length elected = min (length vs) ACTIVE_VALSET_SIZE"
    and "sorted_wrt (outranks st) elected"
    and "\<exists>rest. mset vs = mset elected + mset rest \<and> (\<forall>v \<in> set elected. \<forall>w \<in> set rest. outranks st v w)"
proof -
  define key where "key \<equiv> \<lambda>v. (- int (unat (v_stake (validator_at st v))), unat v)"
  define all where "all \<equiv> sort_key key vs"
  have e: "elected = take ACTIVE_VALSET_SIZE all"
    unfolding elected_def election_def all_def key_def
    by (simp only: take_map [symmetric] sort_candidates_ids)
  have "sorted (map key all)" by (simp add: all_def)
  then have s: "sorted_wrt (outranks st) all"
    by (simp only: sorted_map outranks_key [abs_def] key_def)
  then have "sorted_wrt (outranks st) (elected @ drop ACTIVE_VALSET_SIZE all)" by (simp add: e)
  moreover have "mset vs = mset elected + mset (drop ACTIVE_VALSET_SIZE all)"
    by (metis all_def append_take_drop_id e mset_append mset_sort)
  ultimately show "sorted_wrt (outranks st) elected"
    and "\<exists>rest. mset vs = mset elected + mset rest \<and> (\<forall>v \<in> set elected. \<forall>w \<in> set rest. outranks st v w)"
    by (auto simp: sorted_wrt_append)
  show "length elected = min (length vs) ACTIVE_VALSET_SIZE" by (simp add: e all_def)
qed

section \<open>Compaction\<close>

fun compact_list :: "nat list \<Rightarrow> 'a list \<Rightarrow> 'a list" where
  "compact_list [] E = E"
| "compact_list (i # is) E = compact_list is (butlast (E[i := last E]))"

fun compact_removed :: "nat list \<Rightarrow> 'a list \<Rightarrow> 'a list" where
  "compact_removed [] E = []"
| "compact_removed (i # is) E = E ! i # compact_removed is (butlast (E[i := last E]))"

lemma mset_swap_remove:
  assumes "i < length E"
  shows "mset (butlast (E[i := last E])) = mset E - {#E ! i#}"
proof -
  obtain F x where E: "E = F @ [x]" using assms by (cases E rule: rev_cases) auto
  show ?thesis
  proof (cases "i = length F")
    case True
    then show ?thesis by (simp add: E)
  next
    case False
    then have i: "i < length F" using assms E by simp
    then have "mset (butlast (E[i := last E])) = mset F - {#F ! i#} + {#x#}"
      by (simp add: E list_update_append nth_append mset_update)
    moreover have "F ! i \<in># mset F" using i by simp
    ultimately show ?thesis using i by (simp add: E nth_append)
  qed
qed

text \<open>Removing the positions of the bad elements from the right keeps exactly the good ones.\<close>

lemma compact_good:
  assumes "sorted_wrt (>) is" and "set is = {i. i < length E \<and> \<not> P (E ! i)}"
  shows "mset (compact_list is E) = filter_mset P (mset E) \<and>
    set (compact_removed is E) = {x \<in> set E. \<not> P x}"
  using assms
proof (induction "is" arbitrary: E)
  case Nil
  then have "\<forall>x \<in> set E. P x" by (auto simp: in_set_conv_nth)
  then show ?case by (auto simp flip: mset_filter)
next
  case (Cons i "is")
  let ?E = "butlast (E[i := last E])"
  have top: "sorted_wrt (>) is" "\<forall>j \<in> set is. j < i" using Cons.prems(1) by auto
  have mem: "j < length E \<and> \<not> P (E ! j) \<longleftrightarrow> j = i \<or> j \<in> set is" for j
    using arg_cong [OF Cons.prems(2), of "\<lambda>A. j \<in> A"] by simp
  then have i: "i < length E" "\<not> P (E ! i)" by blast+
  have last: "P (last E)" if "i < length E - 1"
  proof (rule ccontr)
    assume "\<not> P (last E)"
    with i(1) have "length E - 1 < length E \<and> \<not> P (E ! (length E - 1))"
      by (cases E rule: rev_cases) simp_all
    then show False using that top(2) mem by fastforce
  qed
  have nth: "?E ! j = (if j = i then last E else E ! j)" if "j < length E - 1" for j
    using that i(1) by (auto simp: nth_butlast nth_list_update)
  have "set is = {j. j < length ?E \<and> \<not> P (?E ! j)}" (is "_ = ?bad")
  proof (intro set_eqI iffI)
    fix j assume "j \<in> set is"
    then have "j < i" "j < length E" "\<not> P (E ! j)" using top mem by blast+
    with i(1) show "j \<in> ?bad" by (auto simp: nth)
  next
    fix j assume "j \<in> ?bad"
    then have j: "j < length E - 1" "\<not> P (?E ! j)" by auto
    then have "j \<noteq> i" "\<not> P (E ! j)" using last by (auto simp: nth split: if_splits)
    with j(1) show "j \<in> set is" using mem [of j] by auto
  qed
  note IH = Cons.IH [OF top(1) this]
  have m: "mset E = add_mset (E ! i) (mset ?E)" using i(1) by (simp add: mset_swap_remove)
  have "set E = insert (E ! i) (set ?E)" using arg_cong [OF m, of set_mset] by simp
  with IH i(2) show ?case by (auto simp: m)
qed

definition clear_bit_store :: "u64 \<Rightarrow> storage \<Rightarrow> storage" where
  "clear_bit_store v st = st(key_of (CBitset (drop_bit 8 v)) :=
     and (st (key_of (CBitset (drop_bit 8 v)))) (not (2 ^ unat (and v 0xFF))))"

lemma remove_from_valset_ok:
  "backend_ok s \<Longrightarrow> remove_from_valset v s = (Inr (), s\<lparr>store := clear_bit_store v (store s)\<rparr>)"
  by (simp add: remove_from_valset_def Let_def bindc_apply key_folds clear_bit_store_def)

lemma clear_bit_views [simp]:
  "in_valset (clear_bit_store v st) w \<longleftrightarrow> w \<noteq> v \<and> in_valset st w"
  "c \<notin> range CBitset \<Longrightarrow> clear_bit_store v st (key_of c) = st (key_of c)"
  "(\<And>b. c \<noteq> CBitset b) \<Longrightarrow> u64_at (clear_bit_store v st) c = u64_at st c"
  by (auto simp: clear_bit_store_def in_valset_clear u64_at_def)

text \<open>One removal: the bit of the removed id, the swap and the pop.\<close>

definition pop_swap :: "nat \<Rightarrow> nat \<Rightarrow> storage \<Rightarrow> storage" where
  "pop_swap i m st = (let st' = clear_bit_store (u64_at st (CExecution (of_nat (Suc i)))) st in
     put_u64 (CExecution (of_nat m)) 0
       (if i < m - 1 then put_u64 (CExecution (of_nat (Suc i))) (u64_at st (CExecution (of_nat m))) st'
        else st'))"

lemma pop_swap_valset:
  "in_valset (pop_swap i m st) w \<longleftrightarrow>
     w \<noteq> u64_at st (CExecution (of_nat (Suc i))) \<and> in_valset st w"
proof -
  have "in_valset (put_u64 (CExecution j) x st') w = in_valset st' w" for j x st'
    by (simp add: in_valset_def put_u64_def)
  then show ?thesis by (simp add: pop_swap_def Let_def del: of_nat_Suc)
qed

lemma pop_swap_other:
  "c \<notin> valset_cells \<Longrightarrow> pop_swap i m st (key_of c) = st (key_of c)"
  by (auto simp: pop_swap_def Let_def put_u64_def valset_cells_def simp del: of_nat_Suc)

lemma nth_entries: "i < m \<Longrightarrow> entries st C m ! i = u64_at st (C (of_nat (Suc i)))"
  by (simp add: entries_def del: of_nat_Suc)

lemma pop_swap_entries:
  assumes "i < m" and "m < 2 ^ 64"
  shows "entries (pop_swap i m st) CExecution (m - 1) =
    butlast ((entries st CExecution m)[i := last (entries st CExecution m)])"
proof (rule nth_equalityI)
  show "length (entries (pop_swap i m st) CExecution (m - 1)) =
    length (butlast ((entries st CExecution m)[i := last (entries st CExecution m)]))" by simp
next
  fix j assume "j < length (entries (pop_swap i m st) CExecution (m - 1))"
  then have j: "j < m - 1" by simp
  have idx: "of_nat (Suc k) = (of_nat (Suc l) :: u64) \<longleftrightarrow> k = l" "of_nat (Suc k) = (of_nat m :: u64) \<longleftrightarrow> Suc k = m"
    if "k < m" "l < m" for k l
    using index_ne [of "Suc k" "Suc l"] index_ne [of "Suc k" m] that assms by (auto simp del: of_nat_Suc)
  have "entries st CExecution m \<noteq> []" using assms(1) by (metis entries_simps(2) less_nat_zero_code list.size(3))
  then have last: "last (entries st CExecution m) = u64_at st (CExecution (of_nat m))"
    using assms(1) by (simp add: last_conv_nth nth_entries del: of_nat_Suc)
  show "entries (pop_swap i m st) CExecution (m - 1) ! j =
    butlast ((entries st CExecution m)[i := last (entries st CExecution m)]) ! j"
    using j assms(1) idx(1) [of j i] idx(2) [of j i]
    by (auto simp: nth_entries nth_butlast nth_list_update last pop_swap_def Let_def u64_at_put_u64
        simp del: of_nat_Suc)
qed

lemma snapshot_compact_step:
  assumes "backend_ok s" and "i < m" and "m < 2 ^ 64"
  shows "snapshot_compact (of_nat i # is) (of_nat m) s =
    snapshot_compact is (of_nat (m - 1)) (s\<lparr>store := pop_swap i m (store s)\<rparr>)"
proof -
  obtain n where m: "m = Suc n" using assms(2) by (cases m) auto
  have len: "of_nat (Suc n) - 1 = (of_nat n :: u64)" "1 + of_nat n = (of_nat (Suc n) :: u64)"
    "1 + of_nat i = (of_nat (Suc i) :: u64)"
    by simp_all
  have less: "of_nat i < (of_nat n :: u64) \<longleftrightarrow> i < n"
    unfolding word_less_nat_alt using assms m by (subst (1 2) unat_of_nat_u64) auto
  show ?thesis
    using assms(1)
    by (simp add: m bindc_apply key_folds remove_from_valset_ok pop_swap_def Let_def put_u64_def
        u64_at_def [symmetric] len less del: of_nat_Suc)
qed

lemma snapshot_compact_ok:
  assumes "backend_ok s" and "sorted_wrt (>) is" and "\<forall>i \<in> set is. i < m" and "m < 2 ^ 64"
  shows "\<exists>st'. snapshot_compact (map of_nat is) (of_nat m) s
      = (Inr (of_nat (length (compact_list is (entries (store s) CExecution m)))), s\<lparr>store := st'\<rparr>) \<and>
    entries st' CExecution (length (compact_list is (entries (store s) CExecution m)))
      = compact_list is (entries (store s) CExecution m) \<and>
    (\<forall>w. in_valset st' w \<longleftrightarrow>
       in_valset (store s) w \<and> w \<notin> set (compact_removed is (entries (store s) CExecution m))) \<and>
    (\<forall>c. c \<notin> valset_cells \<longrightarrow> st' (key_of c) = store s (key_of c))"
  using assms
proof (induction "is" arbitrary: s m)
  case Nil
  then show ?case by (intro exI [of _ "store s"]) simp
next
  case (Cons i "is")
  let ?s = "s\<lparr>store := pop_swap i m (store s)\<rparr>"
  have im: "i < m" and top: "\<forall>j \<in> set is. j < m - 1" and sub: "m - 1 < 2 ^ 64"
    using Cons.prems by auto
  have e: "entries (store ?s) CExecution (m - 1) =
      butlast ((entries (store s) CExecution m)[i := last (entries (store s) CExecution m)])"
    using pop_swap_entries [OF im Cons.prems(4)] by simp
  have step: "snapshot_compact (map of_nat (i # is)) (of_nat m) s
      = snapshot_compact (map of_nat is) (of_nat (m - 1)) ?s"
    using snapshot_compact_step [OF Cons.prems(1) im Cons.prems(4)] by simp
  have "\<exists>st'. snapshot_compact (map of_nat is) (of_nat (m - 1)) ?s
      = (Inr (of_nat (length (compact_list is (entries (store ?s) CExecution (m - 1))))), ?s\<lparr>store := st'\<rparr>) \<and>
    entries st' CExecution (length (compact_list is (entries (store ?s) CExecution (m - 1))))
      = compact_list is (entries (store ?s) CExecution (m - 1)) \<and>
    (\<forall>w. in_valset st' w \<longleftrightarrow>
       in_valset (store ?s) w \<and> w \<notin> set (compact_removed is (entries (store ?s) CExecution (m - 1)))) \<and>
    (\<forall>c. c \<notin> valset_cells \<longrightarrow> st' (key_of c) = store ?s (key_of c))"
    using Cons.IH [OF _ _ top sub, of ?s] Cons.prems(1,2) by simp
  then show ?case
    unfolding step e using im
    by (elim exE conjE) (intro exI conjI, auto simp: pop_swap_valset pop_swap_other nth_entries simp del: of_nat_Suc)
qed

section \<open>The snapshot\<close>

text \<open>The rotation of the sets, before the execution set is compacted.\<close>

definition boundary_true :: u256 where
  "boundary_true = from_be_bytes (1 # replicate 31 0)"

definition chosen_at :: "storage \<Rightarrow> (u64 \<times> u256) list" where
  "chosen_at st = take ACTIVE_VALSET_SIZE (sort_candidates
     (map (\<lambda>v. (v, v_stake (validator_at st v))) (filter (standing st) (array_at st CExecution))))"

definition rotate_snapshot :: "storage \<Rightarrow> storage" where
  "rotate_snapshot st =
     fold copy_entry (u64_range (u64_at st (CConsensus 0)))
      (put_u64 (CSnapshot 0) (u64_at st (CConsensus 0))
       (fold (clear_entry CSnapshot CSnapshotView) (u64_range (u64_at st (CSnapshot 0)))
        (st(key_of CInBoundary := boundary_true))))"

definition rotate_consensus :: "(u64 \<times> u256) list \<Rightarrow> storage \<Rightarrow> storage" where
  "rotate_consensus xs st =
     fold elect_entry (zip [0..<length xs] xs)
      (put_u64 (CConsensus 0) (of_nat (length xs))
       (fold (clear_entry CConsensus CConsensusView) (u64_range (u64_at st (CConsensus 0))) st))"

lemma unat_less_2_64: "unat (n :: u64) < 2 ^ 64"
  using unat_lt2p [of n] by simp

lemma rotate_snapshot_views:
  fixes st :: storage
  defines "st' \<equiv> rotate_snapshot st"
  shows "u64_at st' (CSnapshot 0) = u64_at st (CConsensus 0)"
    and "0 < unat j \<Longrightarrow> unat j \<le> unat (u64_at st (CConsensus 0)) \<Longrightarrow>
      u64_at st' (CSnapshot j) = u64_at st (CConsensus j)"
    and "k < 2 \<Longrightarrow> st' (key_of (CSnapshotView v k)) =
      (if v \<in> set (array_at st CConsensus) then st (key_of (CConsensusView v k))
       else if v \<in> set (array_at st CSnapshot) then 0 else st (key_of (CSnapshotView v k)))"
    and "st' (key_of CInBoundary) = boundary_true"
    and "(\<And>i. c \<noteq> CSnapshot i) \<Longrightarrow> (\<And>v k. c \<noteq> CSnapshotView v k) \<Longrightarrow> c \<noteq> CInBoundary \<Longrightarrow>
      st' (key_of c) = st (key_of c)"
proof -
  define st1 where "st1 = st(key_of CInBoundary := boundary_true)"
  define st2 where "st2 = fold (clear_entry CSnapshot CSnapshotView) (u64_range (u64_at st (CSnapshot 0))) st1"
  define st3 where "st3 = put_u64 (CSnapshot 0) (u64_at st (CConsensus 0)) st2"
  have st': "st' = fold (\<lambda>i. copy_entry (of_nat i)) [0..<unat (u64_at st (CConsensus 0))] st3"
    by (simp add: st'_def rotate_snapshot_def st3_def st2_def st1_def fold_u64_range)
  have u1: "u64_at st1 c = u64_at st c" if "c \<noteq> CInBoundary" for c
    using that by (simp add: u64_at_def st1_def)
  have e1: "entries st1 CSnapshot m = entries st CSnapshot m" for m
    by (rule entries_cong) (simp add: u1)
  note c2 = snapshot.cleared [OF unat_less_2_64 [of "u64_at st (CSnapshot 0)"], where st = st1,
      folded fold_u64_range st2_def, unfolded e1, folded array_entries]
  have u3: "st3 (key_of c) = (if c = CSnapshot 0 then slot_of_u64 (u64_at st (CConsensus 0)) else st2 (key_of c))" for c
    by (simp add: st3_def put_u64_def)
  have o3: "st3 (key_of c) = st1 (key_of c)"
    if "\<And>i. c \<noteq> CSnapshot i" "\<And>v k. c \<noteq> CSnapshotView v k" for c
    using that c2(3) by (auto simp: u3)
  have e3: "entries st3 CConsensus m = entries st CConsensus m" for m
    by (rule entries_cong) (simp add: u64_at_def o3 st1_def)
  note c4 = copied [OF unat_less_2_64 [of "u64_at st (CConsensus 0)"], where st = st3, folded st',
      unfolded e3, folded array_entries]
  show "u64_at st' (CSnapshot 0) = u64_at st (CConsensus 0)"
    by (simp add: u64_at_def c4(1) u3)
  show "u64_at st' (CSnapshot j) = u64_at st (CConsensus j)"
    if "0 < unat j" "unat j \<le> unat (u64_at st (CConsensus 0))"
    using that by (simp add: u64_at_def c4(1) o3 st1_def)
  show "st' (key_of (CSnapshotView v k)) =
      (if v \<in> set (array_at st CConsensus) then st (key_of (CConsensusView v k))
       else if v \<in> set (array_at st CSnapshot) then 0 else st (key_of (CSnapshotView v k)))" if "k < 2"
  proof -
    have "st3 (key_of (CConsensusView v k)) = st (key_of (CConsensusView v k))"
      by (simp add: o3 st1_def)
    then show ?thesis using that by (simp add: c4(2) u3 c2(2) st1_def)
  qed
  show "st' (key_of CInBoundary) = boundary_true" by (simp add: c4(3) o3 st1_def)
  show "st' (key_of c) = st (key_of c)"
    if "\<And>i. c \<noteq> CSnapshot i" "\<And>v k. c \<noteq> CSnapshotView v k" "c \<noteq> CInBoundary"
    using that by (simp add: c4(3) o3 st1_def)
qed

lemma rotate_consensus_views:
  fixes st :: storage and xs :: "(u64 \<times> u256) list"
  assumes xs: "length xs < 2 ^ 64"
  defines "st' \<equiv> rotate_consensus xs st"
  shows "u64_at st' (CConsensus 0) = of_nat (length xs)"
    and "0 < unat j \<Longrightarrow> unat j \<le> length xs \<Longrightarrow> u64_at st' (CConsensus j) = fst (xs ! (unat j - 1))"
    and "st' (key_of (CConsensusView v 0)) = (if v \<in> fst ` set xs then v_stake (validator_at st v)
      else if v \<in> set (array_at st CConsensus) then 0 else st (key_of (CConsensusView v 0)))"
    and "st' (key_of (CConsensusView v 1)) = (if v \<in> fst ` set xs then v_commission (validator_at st v)
      else if v \<in> set (array_at st CConsensus) then 0 else st (key_of (CConsensusView v 1)))"
    and "(\<And>i. c \<noteq> CConsensus i) \<Longrightarrow> (\<And>v k. c \<noteq> CConsensusView v k) \<Longrightarrow> st' (key_of c) = st (key_of c)"
proof -
  define st2 where "st2 = fold (clear_entry CConsensus CConsensusView) (u64_range (u64_at st (CConsensus 0))) st"
  define st3 where "st3 = put_u64 (CConsensus 0) (of_nat (length xs)) st2"
  have st': "st' = fold elect_entry (zip [0..<length xs] xs) st3"
    by (simp add: st'_def rotate_consensus_def st3_def st2_def)
  note c2 = consensus.cleared [OF unat_less_2_64 [of "u64_at st (CConsensus 0)"], where st = st,
      folded fold_u64_range st2_def, folded array_entries]
  have u3: "st3 (key_of c) = (if c = CConsensus 0 then slot_of_u64 (of_nat (length xs)) else st2 (key_of c))" for c
    by (simp add: st3_def put_u64_def)
  have o3: "st3 (key_of c) = st (key_of c)"
    if "\<And>i. c \<noteq> CConsensus i" "\<And>v k. c \<noteq> CConsensusView v k" for c
    using that c2(3) by (auto simp: u3)
  have v3: "validator_at st3 v = validator_at st v" for v
    by (simp add: validator_at_def keys_at_def o3)
  note c4 = elected [OF xs, where st = st3, folded st']
  show "u64_at st' (CConsensus 0) = of_nat (length xs)" by (simp add: u64_at_def c4(1) u3)
  show "u64_at st' (CConsensus j) = fst (xs ! (unat j - 1))" if "0 < unat j" "unat j \<le> length xs"
    using that by (simp add: u64_at_def c4(1))
  show "st' (key_of (CConsensusView v 0)) = (if v \<in> fst ` set xs then v_stake (validator_at st v)
      else if v \<in> set (array_at st CConsensus) then 0 else st (key_of (CConsensusView v 0)))"
    by (simp add: c4(2) u3 v3 c2(2) u8_less_2)
  show "st' (key_of (CConsensusView v 1)) = (if v \<in> fst ` set xs then v_commission (validator_at st v)
      else if v \<in> set (array_at st CConsensus) then 0 else st (key_of (CConsensusView v 1)))"
    by (simp add: c4(2) u3 v3 c2(2) u8_less_2)
  show "st' (key_of c) = st (key_of c)"
    if "\<And>i. c \<noteq> CConsensus i" "\<And>v k. c \<noteq> CConsensusView v k"
    using that by (simp add: c4(3) o3)
qed

definition snapshot_store :: "storage \<Rightarrow> storage" where
  "snapshot_store st = rotate_consensus (chosen_at st) (rotate_snapshot st)"

lemma length_chosen: "length (chosen_at st) < 2 ^ 64" "length (chosen_at st) \<le> ACTIVE_VALSET_SIZE"
  by (simp_all add: chosen_at_def ACTIVE_VALSET_SIZE_def)

lemma chosen_election: "map fst (chosen_at st) = election st (filter (standing st) (array_at st CExecution))"
  by (simp add: chosen_at_def election_def)

lemma rotate_snapshot_same:
  "u64_at (rotate_snapshot st) (CConsensus i) = u64_at st (CConsensus i)"
  "u64_at (rotate_snapshot st) (CExecution i) = u64_at st (CExecution i)"
  "validator_at (rotate_snapshot st) v = validator_at st v"
  "in_valset (rotate_snapshot st) v = in_valset st v"
  "array_at (rotate_snapshot st) CConsensus = array_at st CConsensus"
  "array_at (rotate_snapshot st) CExecution = array_at st CExecution"
  "standing (rotate_snapshot st) = standing st"
  by (simp_all add: standing_def fun_eq_iff u64_at_def validator_at_def keys_at_def in_valset_def array_at_def
      rotate_snapshot_views(5))

lemma snapshot_store_same:
  "u64_at (snapshot_store st) (CExecution i) = u64_at st (CExecution i)"
  "validator_at (snapshot_store st) v = validator_at st v"
  "in_valset (snapshot_store st) v = in_valset st v"
  "entries (snapshot_store st) CExecution m = entries st CExecution m"
  "standing (snapshot_store st) = standing st"
  by (simp_all add: u64_at_def validator_at_def keys_at_def in_valset_def entries_def standing_def
      fun_eq_iff snapshot_store_def rotate_consensus_views(5) [OF length_chosen(1)]
      rotate_snapshot_views(5))

text \<open>The handler up to the compaction.\<close>

lemma snapshot_candidates_at:
  assumes "backend_ok s" and "n = u64_at (store s) (CExecution 0)"
  shows "snapshot_candidates n s = (Inr (map (\<lambda>v. (v, v_stake (validator_at (store s) v)))
     (filter (standing (store s)) (array_at (store s) CExecution))), s)"
  using snapshot_candidates_ok [OF assms(1), of n] by (simp add: array_entries assms(2))

lemma cleared_same:
  fixes st :: storage and n :: u64
  defines "st' \<equiv> fold (clear_entry CConsensus CConsensusView) (u64_range n) st"
  shows "u64_at st' (CExecution i) = u64_at st (CExecution i)"
    and "validator_at st' v = validator_at st v" and "standing st' = standing st"
    and "array_at st' CExecution = array_at st CExecution"
proof -
  note c = consensus.cleared(3) [OF unat_less_2_64 [of n], where st = st, folded fold_u64_range st'_def]
  show "u64_at st' (CExecution i) = u64_at st (CExecution i)" "validator_at st' v = validator_at st v"
    "standing st' = standing st" "array_at st' CExecution = array_at st CExecution"
    by (simp_all add: u64_at_def validator_at_def keys_at_def standing_def array_at_def fun_eq_iff c)
qed

lemma snapshot_run:
  assumes "backend_ok s" and "GAS_SYSCALL_SNAPSHOT \<le> gas" and "\<not> in_boundary_at (store s)"
  defines "st \<equiv> snapshot_store (store s)"
  shows "handle_syscall_snapshot A input gas SYSTEM_ADDRESS s =
    bindc (bindc (snapshot_removals (u64_at st (CExecution 0))) (\<lambda>removals.
      snapshot_compact (rev removals) (u64_at st (CExecution 0)))) (\<lambda>current_len.
      seqc (write_storage_u64 VALSET_EXECUTION current_len)
      (ret (GAS_SYSCALL_SNAPSHOT, []))) (s\<lparr>store := st\<rparr>)"
proof -
  let ?s = "store s"
  let ?st1 = "?s(key_of CInBoundary := boundary_true)"
  have u1: "u64_at ?st1 c = u64_at ?s c" if "c \<noteq> CInBoundary" for c using that by (simp add: u64_at_def)
  let ?st2 = "fold (clear_entry CSnapshot CSnapshotView) (u64_range (u64_at ?s (CSnapshot 0))) ?st1"
  let ?st5 = "fold (clear_entry CConsensus CConsensusView) (u64_range (u64_at ?s (CConsensus 0)))
    (rotate_snapshot ?s)"
  have cand: "snapshot_candidates (u64_at ?s (CExecution 0)) (s\<lparr>store := ?st5\<rparr>)
      = (Inr (map (\<lambda>v. (v, v_stake (validator_at ?s v)))
     (filter (standing ?s) (array_at ?s CExecution))), s\<lparr>store := ?st5\<rparr>)"
    using snapshot_candidates_at [of "s\<lparr>store := ?st5\<rparr>"] assms(1)
    by (simp add: cleared_same rotate_snapshot_same)
  let ?ys = "sort_candidates (map (\<lambda>v. (v, v_stake (validator_at ?s v)))
     (filter (standing ?s) (array_at ?s CExecution)))"
  have chosen: "take (length (chosen_at ?s)) ?ys = chosen_at ?s"
    "min (length ?ys) ACTIVE_VALSET_SIZE = length (chosen_at ?s)"
    by (auto simp: chosen_at_def min_def)
  have st: "fold elect_entry (zip [0..<length (chosen_at ?s)] (chosen_at ?s))
      (put_u64 (CConsensus 0) (of_nat (length (chosen_at ?s))) ?st5) = st"
    by (simp add: st_def snapshot_store_def rotate_consensus_def rotate_snapshot_same)
  have e: "u64_at st (CExecution 0) = u64_at ?s (CExecution 0)"
    by (simp add: st_def snapshot_store_same)
  show ?thesis
    using assms(1-3) cand
    by (simp add: handle_syscall_snapshot_def bindc_apply require_def key_folds Let_def not_less
        u64_at_def [symmetric] u1 snapshot_loops put_u64_def [symmetric] boundary_true_def [symmetric]
        rotate_snapshot_def [symmetric] cleared_same(1) rotate_snapshot_same chosen
        snapshot_write_consensus_ok st e bindc_assoc)
qed

lemma bad_positions:
  fixes st :: storage and n :: u64
  defines "bad \<equiv> rev (filter (\<lambda>i. \<not> standing st (u64_at st (CExecution (of_nat (Suc i))))) [0..<unat n])"
  shows "rev (filter (\<lambda>i. \<not> standing st (u64_at st (CExecution (1 + i)))) (u64_range n)) = map of_nat bad"
    and "sorted_wrt (>) bad"
    and "set bad = {i. i < length (entries st CExecution (unat n)) \<and>
      \<not> standing st (entries st CExecution (unat n) ! i)}"
proof -
  show "rev (filter (\<lambda>i. \<not> standing st (u64_at st (CExecution (1 + i)))) (u64_range n)) = map of_nat bad"
    by (simp add: bad_def u64_range_def filter_map comp_def rev_map)
  have "sorted_wrt (<) [0..<unat n]" by (rule sorted_wrt_upt)
  then show "sorted_wrt (>) bad" by (simp add: bad_def sorted_wrt_rev sorted_wrt_filter)
  show "set bad = {i. i < length (entries st CExecution (unat n)) \<and>
      \<not> standing st (entries st CExecution (unat n) ! i)}"
    by (auto simp: bad_def nth_entries simp del: of_nat_Suc)
qed

lemma length_compact_list: "length (compact_list is E) \<le> length E"
  by (induction "is" E rule: compact_list.induct) auto

lemma array_put_length: "array_at (put_u64 (CExecution 0) l st) CExecution = entries st CExecution (unat l)"
proof -
  have "entries (put_u64 (CExecution 0) l st) CExecution (unat l) = entries st CExecution (unat l)"
  proof (rule entries_cong)
    fix i assume "0 < i" "i \<le> unat l"
    then have "of_nat i \<noteq> (0 :: u64)" using index_ne [of i 0] unat_less_2_64 [of l] by simp
    then show "u64_at (put_u64 (CExecution 0) l st) (CExecution (of_nat i)) = u64_at st (CExecution (of_nat i))"
      by (simp add: u64_at_put_u64)
  qed
  then show ?thesis using array_entries [of _ CExecution] by (simp add: u64_at_put_u64)
qed

lemma snapshot_effect:
  assumes "backend_ok s" and "GAS_SYSCALL_SNAPSHOT \<le> gas" and "\<not> in_boundary_at (store s)"
  obtains st where
    "handle_syscall_snapshot A input gas SYSTEM_ADDRESS s = (Inr (GAS_SYSCALL_SNAPSHOT, []), s\<lparr>store := st\<rparr>)"
    and "mset (array_at st CExecution) = filter_mset (standing (store s)) (mset (array_at (store s) CExecution))"
    and "\<And>w. in_valset st w \<longleftrightarrow> in_valset (store s) w \<and>
      \<not> (w \<in> set (array_at (store s) CExecution) \<and> \<not> standing (store s) w)"
    and "\<And>c. c \<notin> valset_cells \<Longrightarrow> st (key_of c) = snapshot_store (store s) (key_of c)"
proof -
  let ?s = "s\<lparr>store := snapshot_store (store s)\<rparr>" and ?n = "u64_at (store s) (CExecution 0)"
  let ?E = "array_at (store s) CExecution"
  define bad where "bad = rev (filter (\<lambda>i. \<not> standing (store s)
      (u64_at (store s) (CExecution (of_nat (Suc i))))) [0..<unat ?n])"
  note bad = bad_positions [of "store s" ?n, folded bad_def array_entries]
  have ok: "backend_ok ?s" using assms(1) by simp
  have rem: "snapshot_removals ?n ?s = (Inr (filter (\<lambda>i. \<not> standing (store s)
     (u64_at (store s) (CExecution (1 + i)))) (u64_range ?n)), ?s)"
    using snapshot_removals_ok [OF ok, of ?n] by (simp add: snapshot_store_same)
  have "\<forall>i \<in> set bad. i < unat ?n" by (simp add: bad(3))
  from snapshot_compact_ok [OF ok bad(2) this unat_less_2_64]
  obtain st' where c: "snapshot_compact (map of_nat bad) ?n ?s
      = (Inr (of_nat (length (compact_list bad ?E))), ?s\<lparr>store := st'\<rparr>)"
    and e: "entries st' CExecution (length (compact_list bad ?E)) = compact_list bad ?E"
    and v: "\<And>w. in_valset st' w \<longleftrightarrow> in_valset (store s) w \<and> w \<notin> set (compact_removed bad ?E)"
    and o: "\<And>c. c \<notin> valset_cells \<Longrightarrow> st' (key_of c) = snapshot_store (store s) (key_of c)"
    by (auto simp: snapshot_store_same array_entries [symmetric])
  let ?l = "of_nat (length (compact_list bad ?E)) :: u64"
  let ?st = "put_u64 (CExecution 0) ?l st'"
  note good = compact_good [OF bad(2,3)]
  have "length (compact_list bad ?E) < 2 ^ 64"
    using length_compact_list [of bad ?E] unat_less_2_64 [of ?n] by simp
  then have l: "unat ?l = length (compact_list bad ?E)" by (rule unat_of_nat_u64)
  then have arr: "array_at ?st CExecution = compact_list bad ?E"
    using array_put_length [of ?l st'] by (simp add: e)
  have iv: "in_valset ?st w = in_valset st' w" for w by (simp add: in_valset_def put_u64_def)
  have run: "handle_syscall_snapshot A input gas SYSTEM_ADDRESS s
      = (Inr (GAS_SYSCALL_SNAPSHOT, []), s\<lparr>store := ?st\<rparr>)"
    using assms(1) by (simp add: snapshot_run [OF assms] snapshot_store_same bindc_apply rem bad(1) c
        key_folds put_u64_def)
  show thesis
  proof (rule that [OF run])
    show "mset (array_at ?st CExecution) = filter_mset (standing (store s)) (mset ?E)"
      using good by (simp add: arr)
    show "in_valset ?st w \<longleftrightarrow> in_valset (store s) w \<and> \<not> (w \<in> set ?E \<and> \<not> standing (store s) w)" for w
      using good by (simp add: iv v)
    show "?st (key_of c) = snapshot_store (store s) (key_of c)" if "c \<notin> valset_cells" for c
      using that o by (auto simp: put_u64_def valset_cells_def)
  qed
qed

lemma boundary_true_nonzero: "boundary_true \<noteq> 0"
proof -
  have "be_nat (1 # replicate 31 0) = 256 ^ 31" by (simp add: be_nat_Cons)
  then show ?thesis by (simp add: boundary_true_def from_be_bytes_def)
qed

text \<open>The sets outside the execution set after the snapshot.\<close>

lemma chosen_array:
  fixes s :: host and st :: storage
  assumes same: "\<And>c. c \<notin> valset_cells \<Longrightarrow> st (key_of c) = snapshot_store (store s) (key_of c)"
  shows "array_at st CConsensus = map fst (chosen_at (store s))"
proof -
  let ?xs = "chosen_at (store s)"
  note len = length_chosen(1) [of "store s"]
  note c = rotate_consensus_views [OF len, where st = "rotate_snapshot (store s)"]
  have "CConsensus j \<notin> valset_cells" for j by (auto simp: valset_cells_def)
  then have st: "u64_at st (CConsensus j)
      = u64_at (rotate_consensus ?xs (rotate_snapshot (store s))) (CConsensus j)" for j
    using same by (simp add: u64_at_def snapshot_store_def)
  have "u64_at st (CConsensus (of_nat (Suc i))) = fst (?xs ! i)" if "i < length ?xs" for i
  proof -
    have "unat (of_nat (Suc i) :: u64) = Suc i" using that len by (intro unat_of_nat_u64) simp
    then show ?thesis using that by (simp add: st c(2) del: of_nat_Suc)
  qed
  then show ?thesis
    unfolding array_at_def st [of 0]
    by (intro nth_equalityI) (use len in \<open>simp_all add: c(1) unat_of_nat_u64 del: of_nat_Suc\<close>)
qed

lemma snapshot_sets:
  fixes s :: host and st :: storage
  assumes same: "\<And>c. c \<notin> valset_cells \<Longrightarrow> st (key_of c) = snapshot_store (store s) (key_of c)"
  defines "elected \<equiv> election (store s) (filter (standing (store s)) (array_at (store s) CExecution))"
  shows "in_boundary_at st"
    and "array_at st CSnapshot = array_at (store s) CConsensus"
    and "k < 2 \<Longrightarrow> st (key_of (CSnapshotView v k)) =
      (if v \<in> set (array_at (store s) CConsensus) then store s (key_of (CConsensusView v k))
       else if v \<in> set (array_at (store s) CSnapshot) then 0 else store s (key_of (CSnapshotView v k)))"
    and "array_at st CConsensus = elected"
    and "st (key_of (CConsensusView v 0)) = (if v \<in> set elected then v_stake (validator_at (store s) v)
      else if v \<in> set (array_at (store s) CConsensus) then 0 else store s (key_of (CConsensusView v 0)))"
    and "st (key_of (CConsensusView v 1)) = (if v \<in> set elected then v_commission (validator_at (store s) v)
      else if v \<in> set (array_at (store s) CConsensus) then 0 else store s (key_of (CConsensusView v 1)))"
    and "validator_at st v = validator_at (store s) v"
proof -
  let ?xs = "chosen_at (store s)" and ?r = "rotate_snapshot (store s)"
  note c = rotate_consensus_views [OF length_chosen(1) [of "store s"], where st = ?r]
  note r = rotate_snapshot_views [where st = "store s"]
  have elected: "elected = map fst ?xs" by (simp add: elected_def chosen_election)
  then have set_elected: "set elected = fst ` set ?xs" by simp
  have st: "st (key_of c) = rotate_consensus ?xs ?r (key_of c)" if "c \<notin> valset_cells" for c
    using same [OF that] by (simp add: snapshot_store_def)
  have out: "c \<notin> valset_cells" if "\<And>i. c \<noteq> CExecution i" "\<And>b. c \<noteq> CBitset b" for c
    using that by (auto simp: valset_cells_def)
  show "in_boundary_at st"
    by (simp add: in_boundary_at_def st out c(5) r(4) boundary_true_nonzero)
  have u: "u64_at st (CSnapshot j) = u64_at ?r (CSnapshot j)" for j
    by (simp add: u64_at_def st out c(5))
  have idx: "unat (of_nat (Suc i) :: u64) = Suc i" if "i < unat (n :: u64)" for i n
    using that unat_less_2_64 [of n] by (intro unat_of_nat_u64) simp
  show "array_at st CSnapshot = array_at (store s) CConsensus"
    unfolding array_at_def u r(1)
    by (rule map_cong [OF refl]) (simp add: r(2) idx del: of_nat_Suc)
  show "st (key_of (CSnapshotView v k)) =
      (if v \<in> set (array_at (store s) CConsensus) then store s (key_of (CConsensusView v k))
       else if v \<in> set (array_at (store s) CSnapshot) then 0 else store s (key_of (CSnapshotView v k)))"
    if "k < 2" using that by (simp add: st out c(5) r(3))
  show "array_at st CConsensus = elected" by (simp add: chosen_array [OF same] elected)
  show "st (key_of (CConsensusView v 0)) = (if v \<in> set elected then v_stake (validator_at (store s) v)
      else if v \<in> set (array_at (store s) CConsensus) then 0 else store s (key_of (CConsensusView v 0)))"
    by (simp add: st out c(3) set_elected rotate_snapshot_same r(5))
  show "st (key_of (CConsensusView v 1)) = (if v \<in> set elected then v_commission (validator_at (store s) v)
      else if v \<in> set (array_at (store s) CConsensus) then 0 else store s (key_of (CConsensusView v 1)))"
    by (simp add: st out c(4) set_elected rotate_snapshot_same r(5))
  show "validator_at st v = validator_at (store s) v"
    by (simp add: validator_at_def keys_at_def st out c(5) r(5))
qed

lemma snapshot_obtains_sets:
  assumes "backend_ok s" and "GAS_SYSCALL_SNAPSHOT \<le> gas" and "\<not> in_boundary_at (store s)"
  obtains st where "handle_syscall_snapshot A input gas SYSTEM_ADDRESS s
      = (Inr (GAS_SYSCALL_SNAPSHOT, []), s\<lparr>store := st\<rparr>)"
    and "\<And>c. c \<notin> valset_cells \<Longrightarrow> st (key_of c) = snapshot_store (store s) (key_of c)"
  using snapshot_effect [OF assms] by metis

section \<open>Properties\<close>

text \<open>outside the delay period the snapshot always succeeds. It opens the delay period and
  makes the old consensus set the snapshot set, each member keeping the stake and commission of
  its consensus view; validators, money and logs are untouched.\<close>

theorem snapshot_rotates:
  assumes "backend_ok s" and "GAS_SYSCALL_SNAPSHOT \<le> gas" and "\<not> in_boundary_at (store s)"
  shows "\<exists>t. handle_syscall_snapshot A input gas SYSTEM_ADDRESS s = (Inr (GAS_SYSCALL_SNAPSHOT, []), t) \<and>
    in_boundary_at (store t) \<and>
    array_at (store t) CSnapshot = array_at (store s) CConsensus \<and>
    (\<forall>v \<in> set (array_at (store s) CConsensus). \<forall>k < 2.
       store t (key_of (CSnapshotView v k)) = store s (key_of (CConsensusView v k))) \<and>
    (\<forall>v. validator_at (store t) v = validator_at (store s) v) \<and>
    balances t = balances s \<and> logs t = logs s"
proof -
  obtain st where run: "handle_syscall_snapshot A input gas SYSTEM_ADDRESS s
      = (Inr (GAS_SYSCALL_SNAPSHOT, []), s\<lparr>store := st\<rparr>)"
    and same: "\<And>c. c \<notin> valset_cells \<Longrightarrow> st (key_of c) = snapshot_store (store s) (key_of c)"
    using snapshot_obtains_sets [OF assms] by blast
  show ?thesis
    by (rule exI, rule conjI, rule run) (simp add: snapshot_sets [OF same])
qed

text \<open>C8: the snapshot elects the new consensus set from the validators of the execution set in
  good standing: as many as there are, at most 200, in the order of their stake (the smaller id
  first on a tie), and nobody left out outranks anyone elected. The views of the elected hold
  their stake and commission; those of members voted out are cleared.\<close>

theorem snapshot_elects:
  assumes "backend_ok s" and "GAS_SYSCALL_SNAPSHOT \<le> gas" and "\<not> in_boundary_at (store s)"
  defines "good \<equiv> filter (standing (store s)) (array_at (store s) CExecution)"
  shows "\<exists>t. handle_syscall_snapshot A input gas SYSTEM_ADDRESS s = (Inr (GAS_SYSCALL_SNAPSHOT, []), t) \<and>
    (let elected = array_at (store t) CConsensus in
     length elected = min (length good) 200 \<and>
     sorted_wrt (outranks (store s)) elected \<and>
     (\<exists>rest. mset good = mset elected + mset rest \<and>
        (\<forall>v \<in> set elected. \<forall>w \<in> set rest. outranks (store s) v w)) \<and>
     (\<forall>v \<in> set elected. store t (key_of (CConsensusView v 0)) = v_stake (validator_at (store s) v) \<and>
        store t (key_of (CConsensusView v 1)) = v_commission (validator_at (store s) v)) \<and>
     (\<forall>v \<in> set (array_at (store s) CConsensus) - set elected.
        store t (key_of (CConsensusView v 0)) = 0 \<and> store t (key_of (CConsensusView v 1)) = 0))"
proof -
  obtain st where run: "handle_syscall_snapshot A input gas SYSTEM_ADDRESS s
      = (Inr (GAS_SYSCALL_SNAPSHOT, []), s\<lparr>store := st\<rparr>)"
    and same: "\<And>c. c \<notin> valset_cells \<Longrightarrow> st (key_of c) = snapshot_store (store s) (key_of c)"
    using snapshot_obtains_sets [OF assms(1-3)] by blast
  note sets = snapshot_sets [OF same, folded good_def]
  note spec = election_spec [where st = "store s" and vs = good]
  show ?thesis
    by (rule exI, rule conjI, rule run) (simp add: Let_def sets(4-6) spec ACTIVE_VALSET_SIZE_def)
qed

text \<open>The snapshot removes from the execution set exactly the validators that are not in good
  standing, from the array (whose order may change) and from the bitset.\<close>

theorem snapshot_compacts:
  assumes "backend_ok s" and "GAS_SYSCALL_SNAPSHOT \<le> gas" and "\<not> in_boundary_at (store s)"
  shows "\<exists>t. handle_syscall_snapshot A input gas SYSTEM_ADDRESS s = (Inr (GAS_SYSCALL_SNAPSHOT, []), t) \<and>
    mset (array_at (store t) CExecution)
      = filter_mset (standing (store s)) (mset (array_at (store s) CExecution)) \<and>
    (\<forall>w. in_valset (store t) w \<longleftrightarrow> in_valset (store s) w \<and>
      (w \<in> set (array_at (store s) CExecution) \<longrightarrow> standing (store s) w))"
proof -
  obtain st where "handle_syscall_snapshot A input gas SYSTEM_ADDRESS s
      = (Inr (GAS_SYSCALL_SNAPSHOT, []), s\<lparr>store := st\<rparr>)"
    and "mset (array_at st CExecution) = filter_mset (standing (store s)) (mset (array_at (store s) CExecution))"
    and "\<And>w. in_valset st w \<longleftrightarrow> in_valset (store s) w \<and>
      \<not> (w \<in> set (array_at (store s) CExecution) \<and> \<not> standing (store s) w)"
    using snapshot_effect [OF assms] by metis
  then show ?thesis by (intro exI [of _ "s\<lparr>store := st\<rparr>"]) simp
qed

text \<open>A view outside its set is empty: what the rewards rely on when they read a zero view as
  "not in the set".\<close>

definition views_within :: "(u64 \<Rightarrow> cell_id) \<Rightarrow> (u64 \<Rightarrow> u8 \<Rightarrow> cell_id) \<Rightarrow> storage \<Rightarrow> bool" where
  "views_within C V st \<longleftrightarrow> (\<forall>v k. k < 2 \<longrightarrow> v \<notin> set (array_at st C) \<longrightarrow> st (key_of (V v k)) = 0)"

text \<open>The snapshot preserves the invariant that the consensus and the snapshot views are empty
  outside their sets.\<close>

theorem snapshot_keeps_views:
  assumes "backend_ok s" and "GAS_SYSCALL_SNAPSHOT \<le> gas" and "\<not> in_boundary_at (store s)"
    and "views_within CConsensus CConsensusView (store s)"
    and "views_within CSnapshot CSnapshotView (store s)"
  shows "\<exists>t. handle_syscall_snapshot A input gas SYSTEM_ADDRESS s = (Inr (GAS_SYSCALL_SNAPSHOT, []), t) \<and>
    views_within CConsensus CConsensusView (store t) \<and> views_within CSnapshot CSnapshotView (store t)"
proof -
  obtain st where run: "handle_syscall_snapshot A input gas SYSTEM_ADDRESS s
      = (Inr (GAS_SYSCALL_SNAPSHOT, []), s\<lparr>store := st\<rparr>)"
    and same: "\<And>c. c \<notin> valset_cells \<Longrightarrow> st (key_of c) = snapshot_store (store s) (key_of c)"
    using snapshot_obtains_sets [OF assms(1-3)] by blast
  note sets = snapshot_sets [OF same]
  have old: "store s (key_of (CConsensusView v k)) = 0"
    if "k < 2" "v \<notin> set (array_at (store s) CConsensus)" for v k
    using assms(4) that by (simp add: views_within_def)
  have "st (key_of (CConsensusView v k)) = 0" if k: "k < 2" "v \<notin> set (array_at st CConsensus)" for v k
  proof -
    have o: "store s (key_of (CConsensusView v k)) = 0 \<or> v \<in> set (array_at (store s) CConsensus)"
      using old k(1) by blast
    from k(1) consider "k = 0" | "k = 1" unfolding u8_less_2 by blast
    then show ?thesis
      using k(2) o by cases (auto simp: sets(4-6))
  qed
  then have "views_within CConsensus CConsensusView st" by (simp add: views_within_def)
  moreover have "views_within CSnapshot CSnapshotView st"
    using assms(5) old by (simp add: views_within_def sets(2,3))
  ultimately have "views_within CConsensus CConsensusView st" "views_within CSnapshot CSnapshotView st"
    by blast+
  with run show ?thesis by (intro exI conjI) auto
qed

section \<open>Witnesses\<close>

text \<open>Validators 1 and 2 are in the execution set, 2 with too little stake; 3 leaves the consensus
  set.\<close>

definition snapshot_example :: host where
  "snapshot_example = host_of [(CExecution 0, slot_of_u64 2), (CExecution 1, slot_of_u64 2),
     (CExecution 2, slot_of_u64 1), (CBitset 0, 6), (CValidator 1 0, 500),
     (CValidator 1 2, 7), (CValidator 2 6, slot_of_address_flags 9 1),
     (CConsensus 0, slot_of_u64 1), (CConsensus 1, slot_of_u64 3),
     (CConsensusView 3 0, 90), (CConsensusView 3 1, 5)]"

lemma upt_0_2: "[0..<2] = [0, 1 :: nat]"
  by (simp add: numeral_2_eq_2)

lemma snapshot_example_facts [simp]:
  "backend_ok snapshot_example" "\<not> in_boundary_at (store snapshot_example)"
  "array_at (store snapshot_example) CExecution = [2, 1]"
  "array_at (store snapshot_example) CConsensus = [3]"
  "array_at (store snapshot_example) CSnapshot = []"
  "standing (store snapshot_example) 1" "\<not> standing (store snapshot_example) 2"
  "in_valset (store snapshot_example) 1" "in_valset (store snapshot_example) 2"
  "v_stake (validator_at (store snapshot_example) 1) = 500"
  by (simp_all add: snapshot_example_def in_boundary_at_def array_at_def u64_at_def standing_def
      validator_at_def FLAG_OK_def in_valset_def upt_0_2)

lemma snapshot_example_views:
  "views_within CConsensus CConsensusView (store snapshot_example)"
  "views_within CSnapshot CSnapshotView (store snapshot_example)"
  by (auto simp: views_within_def u8_less_2) (simp_all add: snapshot_example_def)

theorem snapshot_rotates_witness:
  "\<exists>t. handle_syscall_snapshot word_abi SEL_syscallSnapshot GAS_SYSCALL_SNAPSHOT SYSTEM_ADDRESS
      snapshot_example = (Inr (GAS_SYSCALL_SNAPSHOT, []), t) \<and> array_at (store t) CSnapshot = [3]"
  using snapshot_rotates [of snapshot_example GAS_SYSCALL_SNAPSHOT word_abi SEL_syscallSnapshot] by auto

theorem snapshot_elects_witness:
  "\<exists>t. handle_syscall_snapshot word_abi SEL_syscallSnapshot GAS_SYSCALL_SNAPSHOT SYSTEM_ADDRESS
      snapshot_example = (Inr (GAS_SYSCALL_SNAPSHOT, []), t) \<and>
    array_at (store t) CConsensus = [1] \<and> store t (key_of (CConsensusView 1 0)) = 500"
proof -
  obtain t where t: "handle_syscall_snapshot word_abi SEL_syscallSnapshot GAS_SYSCALL_SNAPSHOT
      SYSTEM_ADDRESS snapshot_example = (Inr (GAS_SYSCALL_SNAPSHOT, []), t)"
    and len: "length (array_at (store t) CConsensus) = 1"
    and rest: "\<exists>rest. mset [1] = mset (array_at (store t) CConsensus) + mset rest"
    and view: "\<forall>v \<in> set (array_at (store t) CConsensus).
      store t (key_of (CConsensusView v 0)) = v_stake (validator_at (store snapshot_example) v)"
    using snapshot_elects [of snapshot_example GAS_SYSCALL_SNAPSHOT word_abi SEL_syscallSnapshot]
    by (auto simp: Let_def simp del: length_array_at)
  from len obtain x where x: "array_at (store t) CConsensus = [x]" by (auto simp: length_Suc_conv simp del: length_array_at)
  with rest have "x = 1" by auto
  with t x view show ?thesis by auto
qed

theorem snapshot_compacts_witness:
  "\<exists>t. handle_syscall_snapshot word_abi SEL_syscallSnapshot GAS_SYSCALL_SNAPSHOT SYSTEM_ADDRESS
      snapshot_example = (Inr (GAS_SYSCALL_SNAPSHOT, []), t) \<and>
    array_at (store t) CExecution = [1] \<and> \<not> in_valset (store t) 2"
  using snapshot_compacts [of snapshot_example GAS_SYSCALL_SNAPSHOT word_abi SEL_syscallSnapshot]
  by auto

theorem snapshot_keeps_views_witness:
  "\<exists>t. handle_syscall_snapshot word_abi SEL_syscallSnapshot GAS_SYSCALL_SNAPSHOT SYSTEM_ADDRESS
      snapshot_example = (Inr (GAS_SYSCALL_SNAPSHOT, []), t) \<and>
    views_within CSnapshot CSnapshotView (store t)"
  using snapshot_keeps_views [OF snapshot_example_facts(1) order_refl snapshot_example_facts(2)
      snapshot_example_views, of word_abi SEL_syscallSnapshot] by auto
end
