(* ===== verification/Dispatch.thy ===== *)
theory Dispatch
  imports Snapshot
begin

text \<open>
  The dispatch of \<open>staking/write.rs\<close>: selector classes, the payability guard, the fallback and
  \<open>run_staking_write\<close>, which turns a handler's outcome into an interpreter result. revm's Gas
  is a parameter: \<open>record_cost\<close> maps the remaining gas and a cost to whether the cost was
  recorded and what remains; \<open>meter_ok\<close> is its documented behaviour.
\<close>

section \<open>Model\<close>

type_synonym gas_meter = "u64 \<Rightarrow> u64 \<Rightarrow> bool \<times> u64"

definition meter_ok :: "gas_meter \<Rightarrow> bool" where
  "meter_ok G \<longleftrightarrow> (\<forall>r c. G r c = (if c \<le> r then (True, r - c) else (False, r)))"

text \<open>The instance the witnesses use.\<close>

definition plain_meter :: gas_meter where
  "plain_meter r c = (if c \<le> r then (True, r - c) else (False, r))"

datatype instruction_result = Return | Revert | PrecompileOOG

record interpreter_result =
  ir_result :: instruction_result
  ir_gas_limit :: u64
  ir_gas_remaining :: u64
  ir_output :: bytes

definition is_payable_selector :: "selector \<Rightarrow> bool" where
  "is_payable_selector s \<longleftrightarrow> s \<in> {SEL_delegate, SEL_addValidator, SEL_externalReward}"

definition is_syscall_selector :: "selector \<Rightarrow> bool" where
  "is_syscall_selector s \<longleftrightarrow> s \<in> {SEL_syscallReward, SEL_syscallSnapshot, SEL_syscallOnEpochChange}"

definition is_write_selector :: "selector \<Rightarrow> bool" where
  "is_write_selector s \<longleftrightarrow> s \<in> {SEL_delegate, SEL_undelegate, SEL_withdraw, SEL_compound,
     SEL_claimRewards, SEL_addValidator, SEL_changeCommission, SEL_externalReward,
     SEL_syscallReward, SEL_syscallSnapshot, SEL_syscallOnEpochChange, SEL_getDelegator}"

definition function_not_payable :: "u256 \<Rightarrow> ('s, unit) comp" where
  "function_not_payable call_value =
     (if call_value \<noteq> 0 then throw (Other ''value non-zero'') else ret ())"

text \<open>The bytes of "method not supported".\<close>

definition method_not_supported :: bytes where
  "method_not_supported = map (\<lambda>c. of_nat (of_char c)) ''method not supported''"

definition fallback_result :: "gas_meter \<Rightarrow> u64 \<Rightarrow> interpreter_result" where
  "fallback_result G gas_limit =
     (if gas_limit < GAS_FALLBACK
      then \<lparr>ir_result = PrecompileOOG, ir_gas_limit = gas_limit, ir_gas_remaining = gas_limit,
            ir_output = []\<rparr>
      else \<lparr>ir_result = Revert, ir_gas_limit = gas_limit,
            ir_gas_remaining = snd (G gas_limit gas_limit), ir_output = method_not_supported\<rparr>)"

text \<open>\<open>input.get(..4)\<close>.\<close>

definition selector_of :: "bytes \<Rightarrow> selector option" where
  "selector_of input = (if length input < 4 then None else Some (take 4 input))"

text \<open>The match of run_staking_write: the handler of a selector, None for the fallback.\<close>

definition write_handler ::
    "abi \<Rightarrow> selector \<Rightarrow> bytes \<Rightarrow> u64 \<Rightarrow> address \<Rightarrow> u256 \<Rightarrow> (u64 \<times> bytes) action option" where
  "write_handler A sel input gas_limit caller call_value =
     (if sel = SEL_delegate then Some (handle_delegate A input gas_limit caller call_value)
      else if sel = SEL_addValidator then Some (handle_add_validator A input gas_limit caller call_value)
      else if sel = SEL_externalReward
        then Some (handle_external_reward A input gas_limit caller call_value)
      else if sel = SEL_changeCommission
        then Some (seqc (function_not_payable call_value)
               (handle_change_commission A input gas_limit caller))
      else if sel = SEL_claimRewards
        then Some (seqc (function_not_payable call_value)
               (handle_claim_rewards A input gas_limit caller))
      else if sel = SEL_undelegate
        then Some (seqc (function_not_payable call_value) (handle_undelegate A input gas_limit caller))
      else if sel = SEL_withdraw
        then Some (seqc (function_not_payable call_value) (handle_withdraw A input gas_limit caller))
      else if sel = SEL_compound
        then Some (seqc (function_not_payable call_value) (handle_compound A input gas_limit caller))
      else if sel = SEL_syscallReward
        then Some (handle_syscall_reward A input gas_limit caller call_value)
      else if sel = SEL_syscallSnapshot
        then Some (seqc (function_not_payable call_value)
               (handle_syscall_snapshot A input gas_limit caller))
      else if sel = SEL_syscallOnEpochChange
        then Some (seqc (function_not_payable call_value)
               (handle_syscall_on_epoch_change A input gas_limit caller))
      else if sel = SEL_getDelegator
        then Some (seqc (function_not_payable call_value) (handle_get_delegator_write A input gas_limit))
      else None)"

text \<open>The conversion of a handler's Result at the end of run_staking_write.\<close>

definition result_of ::
    "abi \<Rightarrow> gas_meter \<Rightarrow> u64 \<Rightarrow> (precompile_error + u64 \<times> bytes) \<Rightarrow> interpreter_result" where
  "result_of A G gas_limit r =
     (case r of
        Inr (gas_used, output) \<Rightarrow>
          (case G gas_limit gas_used of (recorded, remaining) \<Rightarrow>
             \<lparr>ir_result = (if \<not> recorded then PrecompileOOG else Return),
              ir_gas_limit = gas_limit, ir_gas_remaining = remaining, ir_output = output\<rparr>)
      | Inl e \<Rightarrow>
          \<lparr>ir_result = (if is_oog e then PrecompileOOG else Revert),
           ir_gas_limit = gas_limit, ir_gas_remaining = snd (G gas_limit gas_limit),
           ir_output = display_error A e\<rparr>)"

definition run_staking_write ::
    "abi \<Rightarrow> gas_meter \<Rightarrow> bytes \<Rightarrow> u64 \<Rightarrow> address \<Rightarrow> u256 \<Rightarrow> host \<Rightarrow> interpreter_result \<times> host" where
  "run_staking_write A G input gas_limit caller call_value s =
     (case selector_of input of
        None \<Rightarrow> (fallback_result G gas_limit, s)
      | Some sel \<Rightarrow>
          (case write_handler A sel input gas_limit caller call_value of
             None \<Rightarrow> (fallback_result G gas_limit, s)
           | Some m \<Rightarrow> (case m s of (r, s') \<Rightarrow> (result_of A G gas_limit r, s'))))"

section \<open>The handlers behind the dispatch\<close>

context host_relation
begin

lemma host_handlers [frame_intros]:
  "preserves R (handle_change_commission A input gas c)"
  "preserves R (handle_claim_rewards A input gas c)"
  "preserves R (handle_external_reward A input gas c x)"
  "preserves R (handle_delegate A input gas c x)"
  "preserves R (handle_undelegate A input gas c)"
  "preserves R (handle_withdraw A input gas c)"
  "preserves R (handle_compound A input gas c)"
  "preserves R (handle_add_validator A input gas c x)"
  "preserves R (handle_get_delegator_write A input gas)"
  "preserves R (handle_syscall_reward A input gas c x)"
  "preserves R (handle_syscall_snapshot A input gas c)"
  "preserves R (handle_syscall_on_epoch_change A input gas c)"
  "preserves R (function_not_payable x)"
  unfolding handle_change_commission_def handle_claim_rewards_def handle_external_reward_def
    handle_delegate_def handle_undelegate_def handle_withdraw_def handle_compound_def
    handle_add_validator_def handle_get_delegator_write_def handle_syscall_reward_def
    handle_syscall_snapshot_def handle_syscall_on_epoch_change_def function_not_payable_def
    emit_claim_rewards_def Let_def
  by (intro pres_intros pres_case_prod pres_case_sum frame_intros)+

end

lemma decoded: "bindc (decode_call dec input) f s = (Inr r, t) \<Longrightarrow> \<exists>c. dec (drop 4 input) = Inr c"
  by (cases "dec (drop 4 input)") (simp_all add: decode_call_def bindc_apply)

lemmas past_gas = bindc_Inr [of "require b e" for b e] require_Inr

lemma handlers_decoded:
  "handle_change_commission A input gas c s = (Inr r, t) \<Longrightarrow> \<exists>d. dec_changeCommission A (drop 4 input) = Inr d"
  "handle_claim_rewards A input gas c s = (Inr r, t) \<Longrightarrow> \<exists>d. dec_claimRewards A (drop 4 input) = Inr d"
  "handle_external_reward A input gas c x s = (Inr r, t) \<Longrightarrow> \<exists>d. dec_externalReward A (drop 4 input) = Inr d"
  "handle_delegate A input gas c x s = (Inr r, t) \<Longrightarrow> \<exists>d. dec_delegate A (drop 4 input) = Inr d"
  "handle_undelegate A input gas c s = (Inr r, t) \<Longrightarrow> \<exists>d. dec_undelegate A (drop 4 input) = Inr d"
  "handle_withdraw A input gas c s = (Inr r, t) \<Longrightarrow> \<exists>d. dec_withdraw A (drop 4 input) = Inr d"
  "handle_compound A input gas c s = (Inr r, t) \<Longrightarrow> \<exists>d. dec_compound A (drop 4 input) = Inr d"
  "handle_add_validator A input gas c x s = (Inr r, t) \<Longrightarrow> \<exists>d. dec_addValidator A (drop 4 input) = Inr d"
  "handle_get_delegator_write A input gas s = (Inr r, t) \<Longrightarrow> \<exists>d. dec_getDelegator A (drop 4 input) = Inr d"
  "handle_syscall_reward A input gas c x s = (Inr r, t) \<Longrightarrow> \<exists>d. dec_syscallReward A (drop 4 input) = Inr d"
  "handle_syscall_on_epoch_change A input gas c s = (Inr r, t) \<Longrightarrow> \<exists>d. dec_syscallOnEpochChange A (drop 4 input) = Inr d"
  unfolding handle_change_commission_def handle_claim_rewards_def handle_external_reward_def
    handle_delegate_def handle_undelegate_def handle_withdraw_def handle_compound_def
    handle_add_validator_def handle_get_delegator_write_def handle_syscall_reward_def
    handle_syscall_on_epoch_change_def
  by (auto simp only: past_gas dest: decoded)

context host_relation
begin

lemma host_write_handler: "write_handler A sel input gas c x = Some m \<Longrightarrow> preserves R m"
  unfolding write_handler_def
  by (auto split: if_splits intro!: pres_intros pres_case_prod pres_case_sum frame_intros)

end

lemma past_value: "seqc (function_not_payable x) m s = (Inr r, t) \<longleftrightarrow> x = 0 \<and> m s = (Inr r, t)"
  by (auto simp: function_not_payable_def bindc_apply)

text \<open>A successful call ran one of the twelve handlers.\<close>

lemma write_handler_runs:
  assumes "write_handler A sel input gas c x = Some m" and "m s = (Inr r, t)"
  obtains
    (delegate) "sel = SEL_delegate" "handle_delegate A input gas c x s = (Inr r, t)"
  | (add_validator) "sel = SEL_addValidator" "handle_add_validator A input gas c x s = (Inr r, t)"
  | (external_reward) "sel = SEL_externalReward" "handle_external_reward A input gas c x s = (Inr r, t)"
  | (change_commission) "sel = SEL_changeCommission" "x = 0" "handle_change_commission A input gas c s = (Inr r, t)"
  | (claim_rewards) "sel = SEL_claimRewards" "x = 0" "handle_claim_rewards A input gas c s = (Inr r, t)"
  | (undelegate) "sel = SEL_undelegate" "x = 0" "handle_undelegate A input gas c s = (Inr r, t)"
  | (withdraw) "sel = SEL_withdraw" "x = 0" "handle_withdraw A input gas c s = (Inr r, t)"
  | (compound) "sel = SEL_compound" "x = 0" "handle_compound A input gas c s = (Inr r, t)"
  | (reward) "sel = SEL_syscallReward" "handle_syscall_reward A input gas c x s = (Inr r, t)"
  | (snapshot) "sel = SEL_syscallSnapshot" "x = 0" "handle_syscall_snapshot A input gas c s = (Inr r, t)"
  | (epoch_change) "sel = SEL_syscallOnEpochChange" "x = 0"
      "handle_syscall_on_epoch_change A input gas c s = (Inr r, t)"
  | (get_delegator) "sel = SEL_getDelegator" "x = 0" "handle_get_delegator_write A input gas s = (Inr r, t)"
  using assms
  by (simp add: write_handler_def split: if_splits; hypsubst; simp only: past_value; blast)

end
