(* ===== verification/Reader.thy ===== *)
theory Reader
  imports Dispatch
begin

text \<open>
  The read side of \<open>staking/mod.rs\<close>. The source has it twice: over a revm context
  (\<open>ContextTr\<close>) and, with the suffix \<open>_reader\<close>, over any implementation of the trait
  StorageReader. The trait is the parameter \<open>rd\<close> of the second copy; the locale
  \<open>storage_reader\<close> states what an honest reader does, and the host's \<open>sload\<close> is one.
\<close>

section \<open>Model\<close>

definition MAX_VALIDATORS_PER_CALL :: u32 where
  "MAX_VALIDATORS_PER_CALL = 100"

definition LINKED_LIST_PAGINATION :: u32 where
  "LINKED_LIST_PAGINATION = 50"

definition u32_range :: "u32 \<Rightarrow> u32 list" where
  "u32_range n = map of_nat [0..<unat n]"

lemma unat_succ_less: "a < b \<Longrightarrow> unat (a + 1) = Suc (unat (a :: 'a::len word))"
proof -
  assume "a < b"
  then have l: "Suc (unat a) < 2 ^ LENGTH('a)"
    using unat_lt2p [of b] word_less_nat_alt [of a b] by (metis Suc_leI le_less_trans)
  have "unat (a + 1) = unat (of_nat (Suc (unat a)) :: 'a word)" by (simp add: add.commute)
  also have "\<dots> = Suc (unat a)" using l by (simp only: unat_of_nat mod_less)
  finally show ?thesis .
qed

lemma count_down: "a < b \<Longrightarrow> unat b - unat (a + 1) < unat b - unat (a :: 'a::len word)"
  by (simp add: unat_succ_less) (simp add: word_less_nat_alt)

text \<open>The loop of the four traversals: push the current pointer, follow its link, and load the
  next node only if the loop goes on.\<close>

function walk_list :: "('p::zero \<Rightarrow> ('s, ListNode) comp) \<Rightarrow> (ListNode \<Rightarrow> 'p) \<Rightarrow> u32 \<Rightarrow>
    'p \<Rightarrow> ListNode \<Rightarrow> u32 \<Rightarrow> 'p list \<Rightarrow> ('s, bool \<times> 'p \<times> 'p list) comp" where
  "walk_list load link limit current_ptr current_node cnt results =
     (if current_ptr \<noteq> 0 \<and> cnt < limit
      then let results = results @ [current_ptr];
               next = link current_node;
               cnt' = cnt + 1 in
           if next \<noteq> 0 \<and> cnt' < limit
           then bindc (load next) (\<lambda>current_node.
                walk_list load link limit next current_node cnt' results)
           else walk_list load link limit next current_node cnt' results
      else ret (current_ptr = 0, current_ptr, results))"
  by pat_completeness auto
termination
  by (relation "measure (\<lambda>(load, link, limit, p, n, cnt, rs). unat limit - unat cnt)")
    (auto simp: count_down)

declare walk_list.simps [simp del]

subsection \<open>Over a revm context\<close>

definition read_storage_u256 :: "u256 \<Rightarrow> u256 action" where
  "read_storage_u256 key = sload key"

definition read_storage_u64 :: "u256 \<Rightarrow> u64 action" where
  "read_storage_u64 key = bindc (read_storage_u256 key) (\<lambda>value.
     ret (from_be_bytes (take 8 (to_be_bytes 32 value))))"

definition read_epoch_info :: "EpochInfo action" where
  "read_epoch_info =
     bindc (read_storage_u64 SLOT_EPOCH) (\<lambda>epoch.
     bindc (read_storage_u256 SLOT_IN_BOUNDARY) (\<lambda>in_delay_raw.
     ret \<lparr>ei_epoch = epoch, ei_in_delay_period = (in_delay_raw \<noteq> 0)\<rparr>))"

definition read_validator_ctx :: "u64 \<Rightarrow> Validator action" where
  "read_validator_ctx val_id =
     bindc (read_storage_u256 (validator_key val_id VAL_OFF_STAKE)) (\<lambda>stake.
     bindc (read_storage_u256 (validator_key val_id VAL_OFF_ACC)) (\<lambda>acc.
     bindc (read_storage_u256 (validator_key val_id VAL_OFF_COMMISSION)) (\<lambda>commission.
     bindc (read_storage_u256 (validator_key val_id VAL_OFF_KEYS)) (\<lambda>k0.
     bindc (read_storage_u256 (validator_key val_id (VAL_OFF_KEYS + 1))) (\<lambda>k1.
     bindc (read_storage_u256 (validator_key val_id (VAL_OFF_KEYS + 2))) (\<lambda>k2.
     let keys_concat = to_be_bytes 32 k0 @ to_be_bytes 32 k1 @ to_be_bytes 32 k2 in
     bindc (read_storage_u256 (validator_key val_id VAL_OFF_ADDRESS_FLAGS)) (\<lambda>af.
     let address_flags_raw = to_be_bytes 32 af in
     bindc (read_storage_u256 (validator_key val_id VAL_OFF_UNCLAIMED_REWARDS)) (\<lambda>unclaimed.
     ret \<lparr>v_stake = stake, v_acc = acc, v_commission = commission,
          v_secp_pubkey = take 33 keys_concat,
          v_bls_pubkey = take 48 (drop 33 keys_concat),
          v_auth_address = from_be_bytes (take 20 address_flags_raw),
          v_flags = from_be_bytes (take 8 (drop 20 address_flags_raw)),
          v_unclaimed_rewards = unclaimed\<rparr>))))))))"

definition read_delegator_ctx :: "u64 \<Rightarrow> address \<Rightarrow> Delegator action" where
  "read_delegator_ctx val_id delegator_addr =
     bindc (read_storage_u256 (delegator_key val_id delegator_addr DEL_OFF_STAKE)) (\<lambda>stake.
     bindc (read_storage_u256 (delegator_key val_id delegator_addr DEL_OFF_ACC)) (\<lambda>acc.
     bindc (read_storage_u256 (delegator_key val_id delegator_addr DEL_OFF_REWARDS)) (\<lambda>rewards.
     bindc (read_storage_u256 (delegator_key val_id delegator_addr DEL_OFF_DELTA_STAKE)) (\<lambda>delta_stake.
     bindc (read_storage_u256 (delegator_key val_id delegator_addr DEL_OFF_NEXT_DELTA_STAKE))
       (\<lambda>next_delta_stake.
     bindc (read_storage_u256 (delegator_key val_id delegator_addr DEL_OFF_EPOCHS)) (\<lambda>ep.
     let epochs_raw = to_be_bytes 32 ep in
     ret \<lparr>d_stake = stake, d_acc = acc, d_rewards = rewards, d_delta_stake = delta_stake,
          d_next_delta_stake = next_delta_stake,
          d_delta_epoch = from_be_bytes (take 8 epochs_raw),
          d_next_delta_epoch = from_be_bytes (take 8 (drop 8 epochs_raw))\<rparr>))))))"

definition read_withdrawal_request ::
    "u64 \<Rightarrow> address \<Rightarrow> u8 \<Rightarrow> WithdrawalRequest action" where
  "read_withdrawal_request val_id delegator_addr withdrawal_id =
     bindc (read_storage_u256 (withdrawal_key val_id delegator_addr withdrawal_id WR_OFF_AMOUNT)) (\<lambda>amount.
     bindc (read_storage_u256 (withdrawal_key val_id delegator_addr withdrawal_id WR_OFF_ACCUMULATOR))
       (\<lambda>accumulator.
     bindc (read_storage_u256 (withdrawal_key val_id delegator_addr withdrawal_id WR_OFF_EPOCH)) (\<lambda>epoch_raw.
     ret \<lparr>wr_amount = amount, wr_accumulator = accumulator,
          wr_epoch = from_be_bytes (take 8 (to_be_bytes 32 epoch_raw))\<rparr>)))"

definition read_list_node_ctx :: "u64 \<Rightarrow> address \<Rightarrow> ListNode action" where
  "read_list_node_ctx val_id delegator_addr =
     bindc (read_storage_u256 (delegator_key val_id delegator_addr DEL_OFF_LIST_NODE)) (\<lambda>slot6.
     bindc (read_storage_u256 (delegator_key val_id delegator_addr (DEL_OFF_LIST_NODE + 1))) (\<lambda>slot7.
     ret (from_slots (to_be_bytes 32 slot6) (to_be_bytes 32 slot7))))"

definition traverse_validators_for_delegator ::
    "address \<Rightarrow> u64 \<Rightarrow> u32 \<Rightarrow> (bool \<times> u64 \<times> u64 list) action" where
  "traverse_validators_for_delegator delegator start_val_id limit =
     bindc (if start_val_id = 0
            then bindc (read_list_node_ctx SENTINEL_VAL_ID delegator) (\<lambda>sentinel.
                 ret (n_inext sentinel))
            else ret start_val_id) (\<lambda>ptr.
     if ptr = 0 then ret (True, 0, [])
     else bindc (read_list_node_ctx ptr delegator) (\<lambda>first_node.
       if n_iprev first_node = 0 then ret (True, ptr, [])
       else walk_list (\<lambda>next. read_list_node_ctx next delegator) n_inext limit ptr first_node 0 []))"

definition traverse_delegators_for_validator ::
    "u64 \<Rightarrow> address \<Rightarrow> u32 \<Rightarrow> (bool \<times> address \<times> address list) action" where
  "traverse_delegators_for_validator val_id start_delegator limit =
     bindc (if start_delegator = 0
            then bindc (read_list_node_ctx val_id SENTINEL_ADDRESS) (\<lambda>sentinel.
                 ret (n_anext sentinel))
            else ret start_delegator) (\<lambda>ptr.
     if ptr = 0 then ret (True, 0, [])
     else bindc (read_list_node_ctx val_id ptr) (\<lambda>first_node.
       if n_aprev first_node = 0 then ret (True, ptr, [])
       else walk_list (\<lambda>next. read_list_node_ctx val_id next) n_anext limit ptr first_node 0 []))"

definition handle_get_epoch :: "abi \<Rightarrow> bytes \<Rightarrow> u64 \<Rightarrow> (u64 \<times> bytes) action" where
  "handle_get_epoch A input gas_limit =
     seqc (require (\<not> gas_limit < GAS_GET_EPOCH) OutOfGas)
     (bindc read_epoch_info (\<lambda>epoch_info.
     ret (GAS_GET_EPOCH, enc_getEpoch A epoch_info)))"

definition handle_get_proposer_val_id :: "abi \<Rightarrow> bytes \<Rightarrow> u64 \<Rightarrow> (u64 \<times> bytes) action" where
  "handle_get_proposer_val_id A input gas_limit =
     seqc (require (\<not> gas_limit < GAS_GET_PROPOSER_VAL_ID) OutOfGas)
     (bindc (read_storage_u64 SLOT_PROPOSER_VAL_ID) (\<lambda>val_id.
     ret (GAS_GET_PROPOSER_VAL_ID, enc_u64 A val_id)))"

definition handle_get_validator :: "abi \<Rightarrow> bytes \<Rightarrow> u64 \<Rightarrow> (u64 \<times> bytes) action" where
  "handle_get_validator A input gas_limit =
     seqc (require (\<not> gas_limit < GAS_GET_VALIDATOR) OutOfGas)
     (bindc (decode_call (dec_getValidator A) input) (\<lambda>val_id.
     bindc (read_validator_ctx val_id) (\<lambda>validator.
     bindc (read_storage_u256 (consensus_view_key val_id 0)) (\<lambda>consensus_stake.
     bindc (read_storage_u256 (consensus_view_key val_id 1)) (\<lambda>consensus_commission.
     bindc (read_storage_u256 (snapshot_view_key val_id 0)) (\<lambda>snapshot_stake.
     bindc (read_storage_u256 (snapshot_view_key val_id 1)) (\<lambda>snapshot_commission.
     ret (GAS_GET_VALIDATOR, enc_getValidator A validator
       \<lparr>vv_consensus_stake = consensus_stake, vv_consensus_commission = consensus_commission,
        vv_snapshot_stake = snapshot_stake, vv_snapshot_commission = snapshot_commission\<rparr>))))))))"

definition handle_get_delegator :: "abi \<Rightarrow> bytes \<Rightarrow> u64 \<Rightarrow> (u64 \<times> bytes) action" where
  "handle_get_delegator A input gas_limit =
     seqc (require (\<not> gas_limit < GAS_GET_DELEGATOR) OutOfGas)
     (bindc (decode_call (dec_getDelegator A) input) (\<lambda>(validatorId, delegator).
     bindc (read_delegator_ctx validatorId delegator) (\<lambda>del.
     ret (GAS_GET_DELEGATOR, enc_getDelegator A del))))"

definition handle_get_withdrawal_request :: "abi \<Rightarrow> bytes \<Rightarrow> u64 \<Rightarrow> (u64 \<times> bytes) action" where
  "handle_get_withdrawal_request A input gas_limit =
     seqc (require (\<not> gas_limit < GAS_GET_WITHDRAWAL_REQUEST) OutOfGas)
     (bindc (decode_call (dec_getWithdrawalRequest A) input) (\<lambda>(validatorId, delegator, withdrawId).
     bindc (read_withdrawal_request validatorId delegator withdrawId) (\<lambda>request.
     ret (GAS_GET_WITHDRAWAL_REQUEST, enc_getWithdrawalRequest A request))))"

definition handle_get_validator_set_impl :: "abi \<Rightarrow> bytes \<Rightarrow> u64 \<Rightarrow> u256 \<Rightarrow> (u64 \<times> bytes) action" where
  "handle_get_validator_set_impl A input gas_limit base_slot =
     (let gas_cost = GAS_GET_CONSENSUS_VALIDATOR_SET in
      seqc (require (\<not> gas_limit < gas_cost) OutOfGas)
      (bindc (decode_call (dec_getConsensusValidatorSet A) input) (\<lambda>start_index.
      bindc (read_storage_u64 base_slot) (\<lambda>len.
      let start = ucast start_index;
          remaining = saturating_sub len start;
          cnt = ucast (min remaining (ucast MAX_VALIDATORS_PER_CALL)) :: u32 in
      bindc (collect_each (u32_range cnt) (\<lambda>i.
          bindc (read_storage_u64 (base_slot + ucast (1 + start_index + i))) (\<lambda>val_id.
          ret (Some val_id)))) (\<lambda>val_ids.
      let next_index = start_index + cnt;
          is_done = len \<le> ucast next_index in
      ret (gas_cost, enc_validatorSet A (is_done, next_index, val_ids)))))))"

definition handle_get_consensus_validator_set :: "abi \<Rightarrow> bytes \<Rightarrow> u64 \<Rightarrow> (u64 \<times> bytes) action" where
  "handle_get_consensus_validator_set A input gas_limit =
     handle_get_validator_set_impl A input gas_limit VALSET_CONSENSUS"

definition handle_get_snapshot_validator_set :: "abi \<Rightarrow> bytes \<Rightarrow> u64 \<Rightarrow> (u64 \<times> bytes) action" where
  "handle_get_snapshot_validator_set A input gas_limit =
     handle_get_validator_set_impl A input gas_limit VALSET_SNAPSHOT"

definition handle_get_execution_validator_set :: "abi \<Rightarrow> bytes \<Rightarrow> u64 \<Rightarrow> (u64 \<times> bytes) action" where
  "handle_get_execution_validator_set A input gas_limit =
     handle_get_validator_set_impl A input gas_limit VALSET_EXECUTION"

definition handle_get_delegations :: "abi \<Rightarrow> bytes \<Rightarrow> u64 \<Rightarrow> (u64 \<times> bytes) action" where
  "handle_get_delegations A input gas_limit =
     (let gas_cost = GAS_GET_DELEGATIONS in
      seqc (require (\<not> gas_limit < gas_cost) OutOfGas)
      (bindc (decode_call (dec_getDelegations A) input) (\<lambda>(delegator, startValId).
      bindc (traverse_validators_for_delegator delegator startValId LINKED_LIST_PAGINATION)
        (\<lambda>page. ret (gas_cost, enc_getDelegations A page)))))"

definition handle_get_delegators :: "abi \<Rightarrow> bytes \<Rightarrow> u64 \<Rightarrow> (u64 \<times> bytes) action" where
  "handle_get_delegators A input gas_limit =
     (let gas_cost = GAS_GET_DELEGATORS in
      seqc (require (\<not> gas_limit < gas_cost) OutOfGas)
      (bindc (decode_call (dec_getDelegators A) input) (\<lambda>(validatorId, startDelegator).
      bindc (traverse_delegators_for_validator validatorId startDelegator LINKED_LIST_PAGINATION)
        (\<lambda>page. ret (gas_cost, enc_getDelegators A page)))))"

subsection \<open>Over a StorageReader\<close>

type_synonym 's reader = "u256 \<Rightarrow> ('s, u256) comp"

definition read_storage_u256_reader :: "'s reader \<Rightarrow> u256 \<Rightarrow> ('s, u256) comp" where
  "read_storage_u256_reader rd key = rd key"

definition read_storage_u64_reader :: "'s reader \<Rightarrow> u256 \<Rightarrow> ('s, u64) comp" where
  "read_storage_u64_reader rd key = bindc (read_storage_u256_reader rd key) (\<lambda>value.
     ret (from_be_bytes (take 8 (to_be_bytes 32 value))))"

definition read_epoch_info_reader :: "'s reader \<Rightarrow> ('s, EpochInfo) comp" where
  "read_epoch_info_reader rd =
     bindc (read_storage_u64_reader rd SLOT_EPOCH) (\<lambda>epoch.
     bindc (read_storage_u256_reader rd SLOT_IN_BOUNDARY) (\<lambda>in_delay_raw.
     ret \<lparr>ei_epoch = epoch, ei_in_delay_period = (in_delay_raw \<noteq> 0)\<rparr>))"

definition read_validator_reader :: "'s reader \<Rightarrow> u64 \<Rightarrow> ('s, Validator) comp" where
  "read_validator_reader rd val_id =
     bindc (read_storage_u256_reader rd (validator_key val_id VAL_OFF_STAKE)) (\<lambda>stake.
     bindc (read_storage_u256_reader rd (validator_key val_id VAL_OFF_ACC)) (\<lambda>acc.
     bindc (read_storage_u256_reader rd (validator_key val_id VAL_OFF_COMMISSION)) (\<lambda>commission.
     bindc (read_storage_u256_reader rd (validator_key val_id VAL_OFF_KEYS)) (\<lambda>k0.
     bindc (read_storage_u256_reader rd (validator_key val_id (VAL_OFF_KEYS + 1))) (\<lambda>k1.
     bindc (read_storage_u256_reader rd (validator_key val_id (VAL_OFF_KEYS + 2))) (\<lambda>k2.
     let keys_concat = to_be_bytes 32 k0 @ to_be_bytes 32 k1 @ to_be_bytes 32 k2 in
     bindc (read_storage_u256_reader rd (validator_key val_id VAL_OFF_ADDRESS_FLAGS)) (\<lambda>af.
     let address_flags_raw = to_be_bytes 32 af in
     bindc (read_storage_u256_reader rd (validator_key val_id VAL_OFF_UNCLAIMED_REWARDS)) (\<lambda>unclaimed.
     ret \<lparr>v_stake = stake, v_acc = acc, v_commission = commission,
          v_secp_pubkey = take 33 keys_concat,
          v_bls_pubkey = take 48 (drop 33 keys_concat),
          v_auth_address = from_be_bytes (take 20 address_flags_raw),
          v_flags = from_be_bytes (take 8 (drop 20 address_flags_raw)),
          v_unclaimed_rewards = unclaimed\<rparr>))))))))"

definition read_delegator_reader :: "'s reader \<Rightarrow> u64 \<Rightarrow> address \<Rightarrow> ('s, Delegator) comp" where
  "read_delegator_reader rd val_id delegator_addr =
     bindc (read_storage_u256_reader rd (delegator_key val_id delegator_addr DEL_OFF_STAKE)) (\<lambda>stake.
     bindc (read_storage_u256_reader rd (delegator_key val_id delegator_addr DEL_OFF_ACC)) (\<lambda>acc.
     bindc (read_storage_u256_reader rd (delegator_key val_id delegator_addr DEL_OFF_REWARDS)) (\<lambda>rewards.
     bindc (read_storage_u256_reader rd (delegator_key val_id delegator_addr DEL_OFF_DELTA_STAKE)) (\<lambda>delta_stake.
     bindc (read_storage_u256_reader rd (delegator_key val_id delegator_addr DEL_OFF_NEXT_DELTA_STAKE))
       (\<lambda>next_delta_stake.
     bindc (read_storage_u256_reader rd (delegator_key val_id delegator_addr DEL_OFF_EPOCHS)) (\<lambda>ep.
     let epochs_raw = to_be_bytes 32 ep in
     ret \<lparr>d_stake = stake, d_acc = acc, d_rewards = rewards, d_delta_stake = delta_stake,
          d_next_delta_stake = next_delta_stake,
          d_delta_epoch = from_be_bytes (take 8 epochs_raw),
          d_next_delta_epoch = from_be_bytes (take 8 (drop 8 epochs_raw))\<rparr>))))))"

definition read_withdrawal_request_reader ::
    "'s reader \<Rightarrow> u64 \<Rightarrow> address \<Rightarrow> u8 \<Rightarrow> ('s, WithdrawalRequest) comp" where
  "read_withdrawal_request_reader rd val_id delegator_addr withdrawal_id =
     bindc (read_storage_u256_reader rd (withdrawal_key val_id delegator_addr withdrawal_id WR_OFF_AMOUNT)) (\<lambda>amount.
     bindc (read_storage_u256_reader rd (withdrawal_key val_id delegator_addr withdrawal_id WR_OFF_ACCUMULATOR))
       (\<lambda>accumulator.
     bindc (read_storage_u256_reader rd (withdrawal_key val_id delegator_addr withdrawal_id WR_OFF_EPOCH)) (\<lambda>epoch_raw.
     ret \<lparr>wr_amount = amount, wr_accumulator = accumulator,
          wr_epoch = from_be_bytes (take 8 (to_be_bytes 32 epoch_raw))\<rparr>)))"

definition read_list_node_reader :: "'s reader \<Rightarrow> u64 \<Rightarrow> address \<Rightarrow> ('s, ListNode) comp" where
  "read_list_node_reader rd val_id delegator_addr =
     bindc (read_storage_u256_reader rd (delegator_key val_id delegator_addr DEL_OFF_LIST_NODE)) (\<lambda>slot6.
     bindc (read_storage_u256_reader rd (delegator_key val_id delegator_addr (DEL_OFF_LIST_NODE + 1))) (\<lambda>slot7.
     ret (from_slots (to_be_bytes 32 slot6) (to_be_bytes 32 slot7))))"

definition traverse_validators_for_delegator_reader ::
    "'s reader \<Rightarrow> address \<Rightarrow> u64 \<Rightarrow> u32 \<Rightarrow> ('s, bool \<times> u64 \<times> u64 list) comp" where
  "traverse_validators_for_delegator_reader rd delegator start_val_id limit =
     bindc (if start_val_id = 0
            then bindc (read_list_node_reader rd SENTINEL_VAL_ID delegator) (\<lambda>sentinel.
                 ret (n_inext sentinel))
            else ret start_val_id) (\<lambda>ptr.
     if ptr = 0 then ret (True, 0, [])
     else bindc (read_list_node_reader rd ptr delegator) (\<lambda>first_node.
       if n_iprev first_node = 0 then ret (True, ptr, [])
       else walk_list (\<lambda>next. read_list_node_reader rd next delegator) n_inext limit ptr first_node 0 []))"

definition traverse_delegators_for_validator_reader ::
    "'s reader \<Rightarrow> u64 \<Rightarrow> address \<Rightarrow> u32 \<Rightarrow> ('s, bool \<times> address \<times> address list) comp" where
  "traverse_delegators_for_validator_reader rd val_id start_delegator limit =
     bindc (if start_delegator = 0
            then bindc (read_list_node_reader rd val_id SENTINEL_ADDRESS) (\<lambda>sentinel.
                 ret (n_anext sentinel))
            else ret start_delegator) (\<lambda>ptr.
     if ptr = 0 then ret (True, 0, [])
     else bindc (read_list_node_reader rd val_id ptr) (\<lambda>first_node.
       if n_aprev first_node = 0 then ret (True, ptr, [])
       else walk_list (\<lambda>next. read_list_node_reader rd val_id next) n_anext limit ptr first_node 0 []))"

definition handle_get_epoch_reader :: "'s reader \<Rightarrow> abi \<Rightarrow> bytes \<Rightarrow> u64 \<Rightarrow> ('s, u64 \<times> bytes) comp" where
  "handle_get_epoch_reader rd A input gas_limit =
     seqc (require (\<not> gas_limit < GAS_GET_EPOCH) OutOfGas)
     (bindc (read_epoch_info_reader rd) (\<lambda>epoch_info.
     ret (GAS_GET_EPOCH, enc_getEpoch A epoch_info)))"

definition handle_get_proposer_val_id_reader :: "'s reader \<Rightarrow> abi \<Rightarrow> u64 \<Rightarrow> ('s, u64 \<times> bytes) comp" where
  "handle_get_proposer_val_id_reader rd A gas_limit =
     seqc (require (\<not> gas_limit < GAS_GET_PROPOSER_VAL_ID) OutOfGas)
     (bindc (read_storage_u64_reader rd SLOT_PROPOSER_VAL_ID) (\<lambda>val_id.
     ret (GAS_GET_PROPOSER_VAL_ID, enc_u64 A val_id)))"

definition handle_get_validator_reader :: "'s reader \<Rightarrow> abi \<Rightarrow> bytes \<Rightarrow> u64 \<Rightarrow> ('s, u64 \<times> bytes) comp" where
  "handle_get_validator_reader rd A input gas_limit =
     seqc (require (\<not> gas_limit < GAS_GET_VALIDATOR) OutOfGas)
     (bindc (decode_call (dec_getValidator A) input) (\<lambda>val_id.
     bindc (read_validator_reader rd val_id) (\<lambda>validator.
     bindc (read_storage_u256_reader rd (consensus_view_key val_id 0)) (\<lambda>consensus_stake.
     bindc (read_storage_u256_reader rd (consensus_view_key val_id 1)) (\<lambda>consensus_commission.
     bindc (read_storage_u256_reader rd (snapshot_view_key val_id 0)) (\<lambda>snapshot_stake.
     bindc (read_storage_u256_reader rd (snapshot_view_key val_id 1)) (\<lambda>snapshot_commission.
     ret (GAS_GET_VALIDATOR, enc_getValidator A validator
       \<lparr>vv_consensus_stake = consensus_stake, vv_consensus_commission = consensus_commission,
        vv_snapshot_stake = snapshot_stake, vv_snapshot_commission = snapshot_commission\<rparr>))))))))"

definition handle_get_delegator_reader :: "'s reader \<Rightarrow> abi \<Rightarrow> bytes \<Rightarrow> u64 \<Rightarrow> ('s, u64 \<times> bytes) comp" where
  "handle_get_delegator_reader rd A input gas_limit =
     seqc (require (\<not> gas_limit < GAS_GET_DELEGATOR) OutOfGas)
     (bindc (decode_call (dec_getDelegator A) input) (\<lambda>(validatorId, delegator).
     bindc (read_delegator_reader rd validatorId delegator) (\<lambda>del.
     ret (GAS_GET_DELEGATOR, enc_getDelegator A del))))"

definition handle_get_withdrawal_request_reader :: "'s reader \<Rightarrow> abi \<Rightarrow> bytes \<Rightarrow> u64 \<Rightarrow> ('s, u64 \<times> bytes) comp" where
  "handle_get_withdrawal_request_reader rd A input gas_limit =
     seqc (require (\<not> gas_limit < GAS_GET_WITHDRAWAL_REQUEST) OutOfGas)
     (bindc (decode_call (dec_getWithdrawalRequest A) input) (\<lambda>(validatorId, delegator, withdrawId).
     bindc (read_withdrawal_request_reader rd validatorId delegator withdrawId) (\<lambda>request.
     ret (GAS_GET_WITHDRAWAL_REQUEST, enc_getWithdrawalRequest A request))))"

definition handle_get_validator_set_reader :: "'s reader \<Rightarrow> abi \<Rightarrow> bytes \<Rightarrow> u64 \<Rightarrow> u256 \<Rightarrow> ('s, u64 \<times> bytes) comp" where
  "handle_get_validator_set_reader rd A input gas_limit base_slot =
     (let gas_cost = GAS_GET_CONSENSUS_VALIDATOR_SET in
      seqc (require (\<not> gas_limit < gas_cost) OutOfGas)
      (bindc (decode_call (dec_getConsensusValidatorSet A) input) (\<lambda>start_index.
      bindc (read_storage_u64_reader rd base_slot) (\<lambda>len.
      let start = ucast start_index;
          remaining = saturating_sub len start;
          cnt = ucast (min remaining (ucast MAX_VALIDATORS_PER_CALL)) :: u32 in
      bindc (collect_each (u32_range cnt) (\<lambda>i.
          bindc (read_storage_u64_reader rd (base_slot + ucast (1 + start_index + i))) (\<lambda>val_id.
          ret (Some val_id)))) (\<lambda>val_ids.
      let next_index = start_index + cnt;
          is_done = len \<le> ucast next_index in
      ret (gas_cost, enc_validatorSet A (is_done, next_index, val_ids)))))))"

definition handle_get_delegations_reader :: "'s reader \<Rightarrow> abi \<Rightarrow> bytes \<Rightarrow> u64 \<Rightarrow> ('s, u64 \<times> bytes) comp" where
  "handle_get_delegations_reader rd A input gas_limit =
     (let gas_cost = GAS_GET_DELEGATIONS in
      seqc (require (\<not> gas_limit < gas_cost) OutOfGas)
      (bindc (decode_call (dec_getDelegations A) input) (\<lambda>(delegator, startValId).
      bindc (traverse_validators_for_delegator_reader rd delegator startValId LINKED_LIST_PAGINATION)
        (\<lambda>page. ret (gas_cost, enc_getDelegations A page)))))"

definition handle_get_delegators_reader :: "'s reader \<Rightarrow> abi \<Rightarrow> bytes \<Rightarrow> u64 \<Rightarrow> ('s, u64 \<times> bytes) comp" where
  "handle_get_delegators_reader rd A input gas_limit =
     (let gas_cost = GAS_GET_DELEGATORS in
      seqc (require (\<not> gas_limit < gas_cost) OutOfGas)
      (bindc (decode_call (dec_getDelegators A) input) (\<lambda>(validatorId, startDelegator).
      bindc (traverse_delegators_for_validator_reader rd validatorId startDelegator LINKED_LIST_PAGINATION)
        (\<lambda>page. ret (gas_cost, enc_getDelegators A page)))))"

subsection \<open>Dispatch\<close>

datatype call_scheme = CallScheme_Call | CallCode | DelegateCall | StaticCall

text \<open>CallInput: a range of the shared memory buffer, or the bytes.\<close>

datatype call_input = SharedBuffer "nat \<times> nat" | InputBytes bytes

record call_inputs =
  ci_bytecode_address :: address
  ci_scheme :: call_scheme
  ci_is_static :: bool
  ci_gas_limit :: u64
  ci_input :: call_input
  ci_caller :: address
  ci_call_value :: u256

text \<open>\<open>shared\<close> is \<open>context.local().shared_memory_buffer_slice\<close>.\<close>

definition input_bytes_of :: "(nat \<times> nat \<Rightarrow> bytes option) \<Rightarrow> call_input \<Rightarrow> bytes" where
  "input_bytes_of shared input = (case input of
       SharedBuffer rng \<Rightarrow> (case shared rng of Some bs \<Rightarrow> bs | None \<Rightarrow> [])
     | InputBytes bs \<Rightarrow> bs)"

definition reader_fallback_result :: "gas_meter \<Rightarrow> u64 \<Rightarrow> interpreter_result" where
  "reader_fallback_result G gas_limit =
     (if gas_limit < GAS_FALLBACK
      then \<lparr>ir_result = PrecompileOOG, ir_gas_limit = gas_limit, ir_gas_remaining = gas_limit,
            ir_output = []\<rparr>
      else \<lparr>ir_result = Revert, ir_gas_limit = gas_limit,
            ir_gas_remaining = snd (G gas_limit gas_limit), ir_output = method_not_supported\<rparr>)"

definition function_not_payable_read :: "u256 \<Rightarrow> ('s, unit) comp" where
  "function_not_payable_read call_value =
     (if call_value \<noteq> 0 then throw (Other ''value non-zero'') else ret ())"

text \<open>The two matches over the read selectors.\<close>

definition read_handler :: "abi \<Rightarrow> selector \<Rightarrow> bytes \<Rightarrow> u64 \<Rightarrow> u256 \<Rightarrow> (u64 \<times> bytes) action option" where
  "read_handler A sel input gas_limit call_value =
     (let non_payable = (\<lambda>m. Some (seqc (function_not_payable_read call_value) m)) in
      if sel = SEL_getEpoch then non_payable (handle_get_epoch A input gas_limit)
      else if sel = SEL_getProposerValId
        then non_payable (handle_get_proposer_val_id A input gas_limit)
      else if sel = SEL_getValidator then non_payable (handle_get_validator A input gas_limit)
      else if sel = SEL_getDelegator then non_payable (handle_get_delegator A input gas_limit)
      else if sel = SEL_getWithdrawalRequest
        then non_payable (handle_get_withdrawal_request A input gas_limit)
      else if sel = SEL_getConsensusValidatorSet
        then non_payable (handle_get_consensus_validator_set A input gas_limit)
      else if sel = SEL_getSnapshotValidatorSet
        then non_payable (handle_get_snapshot_validator_set A input gas_limit)
      else if sel = SEL_getExecutionValidatorSet
        then non_payable (handle_get_execution_validator_set A input gas_limit)
      else if sel = SEL_getDelegations then non_payable (handle_get_delegations A input gas_limit)
      else if sel = SEL_getDelegators then non_payable (handle_get_delegators A input gas_limit)
      else None)"

definition read_handler_reader ::
    "'s reader \<Rightarrow> abi \<Rightarrow> selector \<Rightarrow> bytes \<Rightarrow> u64 \<Rightarrow> u256 \<Rightarrow> ('s, u64 \<times> bytes) comp option" where
  "read_handler_reader rd A sel input gas_limit call_value =
     (let non_payable = (\<lambda>m. Some (seqc (function_not_payable_read call_value) m)) in
      if sel = SEL_getEpoch then non_payable (handle_get_epoch_reader rd A input gas_limit)
      else if sel = SEL_getProposerValId
        then non_payable (handle_get_proposer_val_id_reader rd A gas_limit)
      else if sel = SEL_getValidator
        then non_payable (handle_get_validator_reader rd A input gas_limit)
      else if sel = SEL_getDelegator
        then non_payable (handle_get_delegator_reader rd A input gas_limit)
      else if sel = SEL_getWithdrawalRequest
        then non_payable (handle_get_withdrawal_request_reader rd A input gas_limit)
      else if sel = SEL_getConsensusValidatorSet
        then non_payable (handle_get_validator_set_reader rd A input gas_limit VALSET_CONSENSUS)
      else if sel = SEL_getSnapshotValidatorSet
        then non_payable (handle_get_validator_set_reader rd A input gas_limit VALSET_SNAPSHOT)
      else if sel = SEL_getExecutionValidatorSet
        then non_payable (handle_get_validator_set_reader rd A input gas_limit VALSET_EXECUTION)
      else if sel = SEL_getDelegations
        then non_payable (handle_get_delegations_reader rd A input gas_limit)
      else if sel = SEL_getDelegators
        then non_payable (handle_get_delegators_reader rd A input gas_limit)
      else None)"

definition run_staking_with_reader ::
    "'s reader \<Rightarrow> abi \<Rightarrow> gas_meter \<Rightarrow> bytes \<Rightarrow> u64 \<Rightarrow> u256 \<Rightarrow> 's \<Rightarrow> interpreter_result \<times> 's" where
  "run_staking_with_reader rd A G input gas_limit call_value s =
     (case selector_of input of
        None \<Rightarrow> (reader_fallback_result G gas_limit, s)
      | Some sel \<Rightarrow>
          (case read_handler_reader rd A sel input gas_limit call_value of
             None \<Rightarrow> (reader_fallback_result G gas_limit, s)
           | Some m \<Rightarrow> (case m s of (r, s') \<Rightarrow> (result_of A G gas_limit r, s'))))"

definition run_staking_precompile ::
    "abi \<Rightarrow> gas_meter \<Rightarrow> (nat \<times> nat \<Rightarrow> bytes option) \<Rightarrow> call_inputs \<Rightarrow> host \<Rightarrow>
     interpreter_result option \<times> host" where
  "run_staking_precompile A G shared inputs s =
     (if ci_bytecode_address inputs \<noteq> STAKING_ADDRESS then (None, s)
      else if ci_scheme inputs \<noteq> CallScheme_Call \<or> ci_is_static inputs
      then (Some \<lparr>ir_result = Revert, ir_gas_limit = ci_gas_limit inputs,
                  ir_gas_remaining = ci_gas_limit inputs, ir_output = []\<rparr>, s)
      else
        let input_bytes = input_bytes_of shared (ci_input inputs);
            gas_limit = ci_gas_limit inputs;
            call_value = ci_call_value inputs in
        (case selector_of input_bytes of
           None \<Rightarrow> (Some (reader_fallback_result G gas_limit), s)
         | Some sel \<Rightarrow>
             if is_write_selector sel
             then (case run_staking_write A G input_bytes gas_limit (ci_caller inputs) call_value s of
                     (ir, s') \<Rightarrow> (Some ir, s'))
             else
               (case read_handler A sel input_bytes gas_limit call_value of
                  None \<Rightarrow> (Some (reader_fallback_result G gas_limit), s)
                | Some m \<Rightarrow> (case m s of (r, s') \<Rightarrow> (Some (result_of A G gas_limit r), s')))))"

section \<open>The two copies agree\<close>

text \<open>Over the host's own \<open>sload\<close> the second copy is the first.\<close>

named_theorems copy_eqs "the context functions are the reader functions over the journal"

lemma read_copies [copy_eqs]:
  "read_storage_u256 = read_storage_u256_reader sload"
  by (simp add: fun_eq_iff read_storage_u256_def read_storage_u256_reader_def)

lemma read_copies_u64 [copy_eqs]:
  "read_storage_u64 = read_storage_u64_reader sload"
  by (simp add: fun_eq_iff read_storage_u64_def read_storage_u64_reader_def copy_eqs)

lemma read_copies_struct [copy_eqs]:
  "read_epoch_info = read_epoch_info_reader sload"
  "read_validator_ctx = read_validator_reader sload"
  "read_delegator_ctx = read_delegator_reader sload"
  "read_withdrawal_request = read_withdrawal_request_reader sload"
  "read_list_node_ctx = read_list_node_reader sload"
  by (simp_all only: fun_eq_iff read_epoch_info_def read_epoch_info_reader_def read_validator_ctx_def
      read_validator_reader_def read_delegator_ctx_def read_delegator_reader_def
      read_withdrawal_request_def read_withdrawal_request_reader_def read_list_node_ctx_def
      read_list_node_reader_def copy_eqs simp_thms)

lemma traverse_copies [copy_eqs]:
  "traverse_validators_for_delegator = traverse_validators_for_delegator_reader sload"
  "traverse_delegators_for_validator = traverse_delegators_for_validator_reader sload"
  by (simp_all only: fun_eq_iff traverse_validators_for_delegator_def
      traverse_validators_for_delegator_reader_def traverse_delegators_for_validator_def
      traverse_delegators_for_validator_reader_def copy_eqs simp_thms)

lemma handler_copies [copy_eqs]:
  "handle_get_epoch = handle_get_epoch_reader sload"
  "handle_get_proposer_val_id A input gas = handle_get_proposer_val_id_reader sload A gas"
  "handle_get_validator = handle_get_validator_reader sload"
  "handle_get_delegator = handle_get_delegator_reader sload"
  "handle_get_withdrawal_request = handle_get_withdrawal_request_reader sload"
  "handle_get_validator_set_impl = handle_get_validator_set_reader sload"
  "handle_get_delegations = handle_get_delegations_reader sload"
  "handle_get_delegators = handle_get_delegators_reader sload"
  by (simp_all only: fun_eq_iff handle_get_epoch_def handle_get_epoch_reader_def
      handle_get_proposer_val_id_def handle_get_proposer_val_id_reader_def handle_get_validator_def
      handle_get_validator_reader_def handle_get_delegator_def handle_get_delegator_reader_def
      handle_get_withdrawal_request_def handle_get_withdrawal_request_reader_def
      handle_get_validator_set_impl_def handle_get_validator_set_reader_def
      handle_get_delegations_def handle_get_delegations_reader_def handle_get_delegators_def
      handle_get_delegators_reader_def copy_eqs simp_thms)

lemma dispatch_copies [copy_eqs]: "read_handler = read_handler_reader sload"
  by (simp only: fun_eq_iff read_handler_def read_handler_reader_def
      handle_get_consensus_validator_set_def handle_get_snapshot_validator_set_def
      handle_get_execution_validator_set_def copy_eqs simp_thms)

section \<open>An honest reader\<close>

text \<open>What the code relies on in a StorageReader: while the backend answers, a load returns the
  stored word and changes nothing.\<close>

locale storage_reader =
  fixes rd :: "u256 \<Rightarrow> ('s, u256) comp"
    and ok :: "'s \<Rightarrow> bool"
    and contents :: "'s \<Rightarrow> u256 \<Rightarrow> u256"
  assumes rd_reads: "ok s \<Longrightarrow> rd k s = (Inr (contents s k), s)"
begin

lemma reads_u256: "ok s \<Longrightarrow> read_storage_u256_reader rd k s = (Inr (contents s k), s)"
  by (simp add: read_storage_u256_reader_def rd_reads)

lemma reads_u64: "ok s \<Longrightarrow> read_storage_u64_reader rd k s = (Inr (u64_of_slot (contents s k)), s)"
  by (simp add: read_storage_u64_reader_def reads_u256 bindc_apply u64_of_slot_def)

lemma reads_epoch_info: "ok s \<Longrightarrow> read_epoch_info_reader rd s =
    (Inr \<lparr>ei_epoch = u64_at (contents s) CEpoch, ei_in_delay_period = in_boundary_at (contents s)\<rparr>, s)"
  by (simp add: read_epoch_info_reader_def reads_u256 reads_u64 bindc_apply key_folds u64_at_def
      in_boundary_at_def)

lemma reads_validator: "ok s \<Longrightarrow> read_validator_reader rd v s = (Inr (validator_at (contents s) v), s)"
  by (simp add: read_validator_reader_def validator_at_def keys_at_def key_folds bindc_apply Let_def
      offset_defs address_of_slot_def flags_of_slot_def reads_u256)

lemma reads_delegator: "ok s \<Longrightarrow> read_delegator_reader rd v a s = (Inr (delegator_at (contents s) (v, a)), s)"
  by (simp add: read_delegator_reader_def delegator_at_def key_folds bindc_apply Let_def offset_defs
      u64_of_slot_def second_u64_of_slot_def reads_u256)

lemma reads_withdrawal_request: "ok s \<Longrightarrow>
    read_withdrawal_request_reader rd v a w s = (Inr (withdrawal_at (contents s) (v, a, w)), s)"
  by (simp add: read_withdrawal_request_reader_def withdrawal_at_def key_folds bindc_apply offset_defs
      u64_of_slot_def reads_u256)

lemma reads_list_node: "ok s \<Longrightarrow> read_list_node_reader rd v a s = (Inr (node_at (contents s) (v, a)), s)"
  by (simp add: read_list_node_reader_def node_at_def key_folds bindc_apply offset_defs reads_u256)

end

interpretation journal: storage_reader sload backend_ok store
  by unfold_locales simp

section \<open>Traversals\<close>

text \<open>\<open>chain f p xs\<close>: from \<open>p\<close>, following \<open>f\<close> up to zero visits \<open>xs\<close>.\<close>

fun chain :: "('p::zero \<Rightarrow> 'p) \<Rightarrow> 'p \<Rightarrow> 'p list \<Rightarrow> bool" where
  "chain f p [] = (p = 0)"
| "chain f p (x # xs) = (p = x \<and> x \<noteq> 0 \<and> chain f (f x) xs)"

lemma walk_list_chain:
  assumes load: "\<And>q. load q s = (Inr (node q), s)"
    and "chain (\<lambda>q. link (node q)) p xs" and "cnt \<le> limit"
    and "p \<noteq> 0 \<Longrightarrow> cnt < limit \<Longrightarrow> n = node p"
  shows "walk_list load link limit p n cnt rs s =
    (let k = unat limit - unat cnt in
     (Inr (length xs \<le> k, if length xs \<le> k then 0 else xs ! k, rs @ take k xs), s))"
  using assms(2-)
proof (induction xs arbitrary: p n cnt rs)
  case Nil
  then show ?case by (subst walk_list.simps) simp
next
  case (Cons x xs)
  then have p: "p = x" "x \<noteq> 0" and c: "chain (\<lambda>q. link (node q)) (link (node x)) xs" by auto
  show ?case
  proof (cases "cnt < limit")
    case False
    with Cons.prems have "cnt = limit" by simp
    with p show ?thesis by (subst walk_list.simps) simp
  next
    case True
    then have n: "n = node x" using Cons.prems(3) p by simp
    have le: "cnt + 1 \<le> limit" and k: "unat limit - unat cnt = Suc (unat limit - unat (cnt + 1))"
      using True unat_succ_less [OF True] by (simp_all add: word_le_nat_alt word_less_nat_alt)
    let ?y = "link (node x)"
    have "walk_list load link limit x n cnt rs s =
      walk_list load link limit ?y (if ?y \<noteq> 0 \<and> cnt + 1 < limit then node ?y else n) (cnt + 1) (rs @ [x]) s"
      using True p by (subst walk_list.simps) (simp add: n Let_def bindc_apply load)
    also have "\<dots> = (let k = unat limit - unat (cnt + 1) in
       (Inr (length xs \<le> k, if length xs \<le> k then 0 else xs ! k, (rs @ [x]) @ take k xs), s))"
      by (rule Cons.IH [OF c le]) simp
    finally show ?thesis by (simp add: p(1) k Let_def)
  qed
qed

context linked_list begin

lemma path_nth: "path s p xs \<Longrightarrow> k < length xs \<Longrightarrow> prv s (xs ! k) = (p # xs) ! k \<and> nxt s ((p # xs) ! k) = xs ! k"
  by (induction xs arbitrary: p k) (auto simp: nth_Cons split: nat.splits)

lemma holds_links:
  assumes "holds s xs"
  shows "k < length xs \<Longrightarrow> xs ! k \<noteq> null \<and> prv s (xs ! k) \<noteq> null"
    and "k < length xs \<Longrightarrow> nxt s (xs ! k) = (if Suc k < length xs then xs ! Suc k else null)"
    and "nxt s anchor = (if xs = [] then null else hd xs)"
proof -
  have d: "distinct (null # anchor # xs)" and p: "path s anchor xs"
    and l: "nxt s (last (anchor # xs)) = null"
    using assms by (auto simp: holds_def)
  { assume k: "k < length xs"
    then have "xs ! k \<in> set xs" by simp
    moreover have "(anchor # xs) ! k \<in> set (anchor # xs)" using k by (intro nth_mem) simp
    ultimately show "xs ! k \<noteq> null \<and> prv s (xs ! k) \<noteq> null"
      using d path_nth [OF p k] null_anchor by (metis distinct.simps(2) list.set_intros(2)) }
  { assume k: "k < length xs"
    show "nxt s (xs ! k) = (if Suc k < length xs then xs ! Suc k else null)"
    proof (cases "Suc k < length xs")
      case True
      then show ?thesis using path_nth [OF p True] by simp
    next
      case False
      with k have "xs ! k = last (anchor # xs)" by (cases xs rule: rev_cases) (auto simp: less_Suc_eq)
      then show ?thesis using l False by simp
    qed }
  show "nxt s anchor = (if xs = [] then null else hd xs)"
    using p l by (cases xs) auto
qed

end

lemma chain_drop:
  assumes "\<And>k. k < length xs \<Longrightarrow> xs ! k \<noteq> 0"
    and "\<And>k. k < length xs \<Longrightarrow> f (xs ! k) = (if Suc k < length xs then xs ! Suc k else 0)"
    and "k < length xs"
  shows "chain f (xs ! k) (drop k xs)"
  using assms(3)
proof (induction "length xs - k" arbitrary: k)
  case 0
  then show ?case by simp
next
  case (Suc m)
  have d: "drop k xs = xs ! k # drop (Suc k) xs" using Suc.prems by (simp add: Cons_nth_drop_Suc)
  show ?case
  proof (cases "Suc k < length xs")
    case True
    with Suc have "chain f (xs ! Suc k) (drop (Suc k) xs)" by simp
    with True Suc.prems show ?thesis by (simp add: d assms(1,2))
  next
    case False
    with Suc.prems show ?thesis by (simp add: d assms(1,2))
  qed
qed

text \<open>One page of a list, from its position \<open>k\<close>.\<close>

definition page_from :: "nat \<Rightarrow> nat \<Rightarrow> 'p::zero list \<Rightarrow> bool \<times> 'p \<times> 'p list" where
  "page_from L k xs = (length xs \<le> k + L, if length xs \<le> k + L then 0 else xs ! (k + L), take L (drop k xs))"

definition starts_at :: "'p::zero \<Rightarrow> nat \<Rightarrow> 'p list \<Rightarrow> bool" where
  "starts_at p k xs \<longleftrightarrow> p = 0 \<and> k = 0 \<or> k < length xs \<and> p = xs ! k"

lemma traverse_page:
  assumes load: "\<And>q. load q s = (Inr (node q), s)"
    and nz: "\<And>k. k < length xs \<Longrightarrow> xs ! k \<noteq> 0"
    and link: "\<And>k. k < length xs \<Longrightarrow> link (node (xs ! k)) = (if Suc k < length xs then xs ! Suc k else 0)"
    and k: "k < length xs"
  shows "walk_list load link limit (xs ! k) (node (xs ! k)) 0 [] s = (Inr (page_from (unat limit) k xs), s)"
proof -
  have c: "chain (\<lambda>q. link (node q)) (xs ! k) (drop k xs)" by (rule chain_drop [OF nz link k])
  show ?thesis
    using walk_list_chain [of load s node link "xs ! k" "drop k xs" 0 limit, OF load c, where rs = "[]"] k
    by (simp add: page_from_def Let_def) (simp add: add.commute le_diff_conv)
qed

section \<open>Validator-set pages\<close>

definition set_page :: "nat \<Rightarrow> u64 list \<Rightarrow> bool \<times> u32 \<times> u64 list" where
  "set_page i vs = (let ids = take 100 (drop i vs); n = i + length ids in
     (length vs \<le> n, of_nat n, ids))"

lemma unat_of_nat_u32: "m < 2 ^ 32 \<Longrightarrow> unat (of_nat m :: u32) = m"
  by (simp add: unat_of_nat)

lemma unat_ucast_up: "unat (ucast (x :: u32) :: u64) = unat x"
proof -
  have "unat x < 2 ^ 64" by (rule less_trans [OF unat_lt2p]) simp
  then show ?thesis by (simp add: unsigned_ucast_eq take_bit_nat_eq_self)
qed

lemma unat_ucast_u32: "unat (ucast (x :: u32) :: u256) = unat x"
proof -
  have "unat x < 2 ^ 256" by (rule less_trans [OF unat_lt2p]) simp
  then show ?thesis by (simp add: unsigned_ucast_eq take_bit_nat_eq_self)
qed

text \<open>The number of elements of a page, as the code computes it.\<close>

lemma page_count:
  fixes len :: u64 and i :: u32
  defines "c \<equiv> ucast (min (saturating_sub len (ucast i)) (ucast MAX_VALIDATORS_PER_CALL)) :: u32"
  shows "unat c = min (unat len - unat i) 100"
proof -
  let ?m = "min (saturating_sub len (ucast i)) (ucast MAX_VALIDATORS_PER_CALL) :: u64"
  have "unat (saturating_sub len (ucast i)) = unat len - unat i"
    by (auto simp: saturating_sub_def unat_minus_le unat_ucast_up word_le_nat_alt)
  moreover have "unat (ucast MAX_VALIDATORS_PER_CALL :: u64) = 100"
    by (simp add: unat_ucast_up MAX_VALIDATORS_PER_CALL_def)
  ultimately have m: "unat ?m = min (unat len - unat i) 100"
    by (simp add: min_def word_le_nat_alt)
  then have "unat ?m < 2 ^ 32" by simp
  then show ?thesis by (simp add: c_def unsigned_ucast_eq take_bit_nat_eq_self m)
qed

context storage_reader begin

lemma page_slot:
  assumes C: "\<And>j :: u64. key_of (C 0) + ucast j = key_of (C j)" and "Suc (unat i + j) < 2 ^ 32"
  shows "key_of (C 0) + ucast (1 + i + of_nat j :: u32) = key_of (C (of_nat (Suc (unat i + j))))"
proof -
  have "1 + i + of_nat j = (of_nat (Suc (unat i + j)) :: u32)" by simp
  then have u: "unat (1 + i + of_nat j :: u32) = Suc (unat i + j)"
    using assms(2) by (simp only: unat_of_nat_u32)
  have "ucast (1 + i + of_nat j :: u32) = (ucast (of_nat (Suc (unat i + j)) :: u64) :: u256)"
    unfolding word_unat_eq_iff unat_ucast_u32 unat_ucast_u64 u
    using assms(2) by (subst unat_of_nat_u64) simp_all
  then show ?thesis by (simp only: C)
qed

lemma reads_page:
  assumes "ok s" and C: "\<And>j :: u64. key_of (C 0) + ucast j = key_of (C j)"
    and i: "unat i + 100 < 2 ^ 32" and c: "unat c = min (unat (u64_at (contents s) (C 0)) - unat i) 100"
  shows "collect_each (u32_range c) (\<lambda>j. bindc
        (read_storage_u64_reader rd (key_of (C 0) + ucast (1 + i + j))) (\<lambda>v. ret (Some v))) s
      = (Inr (take 100 (drop (unat i) (array_at (contents s) C))), s)"
proof -
  have slot: "key_of (C 0) + ucast (1 + i + of_nat j :: u32) = key_of (C (of_nat (Suc (unat i + j))))"
    if "j < unat c" for j
    by (rule page_slot [OF C]) (use that c i in simp)
  have "collect_each (u32_range c) (\<lambda>j. bindc
        (read_storage_u64_reader rd (key_of (C 0) + ucast (1 + i + j))) (\<lambda>v. ret (Some v))) s
      = (Inr (List.map_filter (\<lambda>j. Some (u64_of_slot (contents s (key_of (C 0) + ucast (1 + i + j)))))
           (u32_range c)), s)"
    by (rule collect_each_filter) (simp add: bindc_apply reads_u64 assms(1))
  also have "List.map_filter (\<lambda>j. Some (u64_of_slot (contents s (key_of (C 0) + ucast (1 + i + j)))))
        (u32_range c) = map (\<lambda>j. u64_at (contents s) (C (of_nat (Suc (unat i + j))))) [0..<unat c]"
    using slot by (simp add: map_filter_def u32_range_def u64_at_def filter_map comp_def del: of_nat_Suc)
  also have "\<dots> = take 100 (drop (unat i) (array_at (contents s) C))"
    by (rule nth_equalityI) (auto simp: c array_at_def min.commute simp del: of_nat_Suc)
  finally show ?thesis .
qed

lemma reads_validator_set:
  assumes "ok s" and "GAS_GET_CONSENSUS_VALIDATOR_SET \<le> gas"
    and "dec_getConsensusValidatorSet A (drop 4 input) = Inr i"
    and C: "\<And>j :: u64. key_of (C 0) + ucast j = key_of (C j)"
    and i: "unat i + 100 < 2 ^ 32"
  shows "handle_get_validator_set_reader rd A input gas (key_of (C 0)) s =
    (Inr (GAS_GET_CONSENSUS_VALIDATOR_SET,
          enc_validatorSet A (set_page (unat i) (array_at (contents s) C))), s)"
proof -
  let ?len = "u64_at (contents s) (C 0)" and ?E = "array_at (contents s) C"
  define c :: u32 where "c = ucast (min (saturating_sub ?len (ucast i)) (ucast MAX_VALIDATORS_PER_CALL))"
  have c: "unat c = min (unat ?len - unat i) 100" unfolding c_def by (rule page_count)
  note loop = reads_page [OF assms(1) C i c]
  have l: "length (take 100 (drop (unat i) ?E)) = unat c" by (simp add: c min.commute)
  have nxt: "i + c = of_nat (unat i + unat c)" by simp
  moreover have "unat i + unat c < 2 ^ 32" using i c by simp
  ultimately have u: "unat (i + c) = unat i + unat c" by (simp only: unat_of_nat_u32)
  have "(?len \<le> ucast (i + c)) = (unat ?len \<le> unat i + unat c)"
    by (simp add: word_le_nat_alt unat_ucast_up u)
  then have page: "(?len \<le> ucast (i + c), i + c, take 100 (drop (unat i) ?E)) = set_page (unat i) ?E"
    by (simp only: set_page_def Let_def l nxt [symmetric] length_array_at)
  have g: "(\<not> gas < GAS_GET_CONSENSUS_VALIDATOR_SET) = True" using assms(2) by simp
  show ?thesis
    unfolding handle_get_validator_set_reader_def Let_def require_def g decode_call_def assms(3) sum.case
    by (simp add: bindc_apply reads_u64 [OF assms(1)] u64_at_def [symmetric] c_def [symmetric] loop page)
qed

end

section \<open>Reads change nothing\<close>

locale quiet_reader =
  fixes rd :: "u256 \<Rightarrow> ('s, u256) comp"
  assumes rd_quiet: "preserves (=) (rd k)"
begin

lemma quiet_step: "step_relation ((=) :: 's \<Rightarrow> 's \<Rightarrow> bool)"
  by unfold_locales auto

lemmas quiet_intros = step_relation.pres_intros [OF quiet_step]

lemma quiet_require: "preserves (=) (require b e :: ('s, unit) comp)"
  unfolding require_def by (intro quiet_intros)

lemma quiet_decode: "preserves (=) (decode_call dec input :: ('s, 'c) comp)"
  unfolding decode_call_def by (cases "dec (drop 4 input)") (simp_all add: quiet_intros)

lemma quiet_reads:
  "preserves (=) (read_storage_u256_reader rd k)" "preserves (=) (read_storage_u64_reader rd k)"
  unfolding read_storage_u256_reader_def read_storage_u64_reader_def
  by (intro quiet_intros rd_quiet)+

lemma quiet_struct_reads:
  "preserves (=) (read_epoch_info_reader rd)" "preserves (=) (read_validator_reader rd v)"
  "preserves (=) (read_delegator_reader rd v a)" "preserves (=) (read_withdrawal_request_reader rd v a w)"
  "preserves (=) (read_list_node_reader rd v a)"
  unfolding read_epoch_info_reader_def read_validator_reader_def read_delegator_reader_def
    read_withdrawal_request_reader_def read_list_node_reader_def Let_def
  by (intro quiet_intros quiet_reads)+

lemma quiet_walk:
  assumes "\<And>p. preserves (=) (load p :: ('s, ListNode) comp)"
  shows "preserves (=) (walk_list load link limit p n cnt rs)"
  using assms
proof (induction load link limit p n cnt rs rule: walk_list.induct)
  case (1 load link limit p n cnt rs)
  show ?case
    by (subst walk_list.simps) (auto simp: Let_def intro!: quiet_intros 1)
qed

lemma quiet_traversals:
  "preserves (=) (traverse_validators_for_delegator_reader rd a v limit)"
  "preserves (=) (traverse_delegators_for_validator_reader rd v a limit)"
  unfolding traverse_validators_for_delegator_reader_def traverse_delegators_for_validator_reader_def
  by (intro quiet_intros quiet_walk quiet_struct_reads)+

lemmas quiet_parts = quiet_intros quiet_require quiet_decode quiet_reads quiet_struct_reads
  quiet_traversals

lemma quiet_handlers:
  "preserves (=) (handle_get_epoch_reader rd A input gas)"
  "preserves (=) (handle_get_proposer_val_id_reader rd A gas)"
  "preserves (=) (handle_get_validator_reader rd A input gas)"
  "preserves (=) (handle_get_delegator_reader rd A input gas)"
  "preserves (=) (handle_get_withdrawal_request_reader rd A input gas)"
  "preserves (=) (handle_get_validator_set_reader rd A input gas base)"
  "preserves (=) (handle_get_delegations_reader rd A input gas)"
  "preserves (=) (handle_get_delegators_reader rd A input gas)"
  unfolding handle_get_epoch_reader_def handle_get_proposer_val_id_reader_def
    handle_get_validator_reader_def handle_get_delegator_reader_def
    handle_get_withdrawal_request_reader_def handle_get_validator_set_reader_def
    handle_get_delegations_reader_def handle_get_delegators_reader_def Let_def split_def
  by (intro quiet_parts)+

lemma quiet_read_handler:
  "read_handler_reader rd A sel input gas x = Some m \<Longrightarrow> preserves (=) m"
  unfolding read_handler_reader_def Let_def function_not_payable_read_def
  by (auto split: if_splits intro!: quiet_intros quiet_handlers)

lemma quiet_run: "snd (run_staking_with_reader rd A G input gas x s) = s"
  by (auto simp: run_staking_with_reader_def split: option.split prod.split
      dest!: quiet_read_handler dest: preservesD [where R = "(=)"])

end

interpretation journal: quiet_reader sload
  by unfold_locales (auto simp: sload_def preserves_def split: option.splits)

section \<open>Properties\<close>

text \<open>Serving a read through a StorageReader, whatever the call and its outcome, leaves the
  state as it was.\<close>

theorem reader_run_pure: "snd (run_staking_with_reader sload A G input gas_limit call_value s) = s"
  by (rule journal.quiet_run)

lemma fallbacks_agree:
  "reader_fallback_result = fallback_result" "function_not_payable_read = function_not_payable"
  by (simp_all add: fun_eq_iff reader_fallback_result_def fallback_result_def
      function_not_payable_read_def function_not_payable_def)

lemma precompile_split:
  "run_staking_precompile A G shared inputs s =
    (if ci_bytecode_address inputs \<noteq> STAKING_ADDRESS then (None, s)
     else if ci_scheme inputs \<noteq> CallScheme_Call \<or> ci_is_static inputs
     then (Some \<lparr>ir_result = Revert, ir_gas_limit = ci_gas_limit inputs,
                 ir_gas_remaining = ci_gas_limit inputs, ir_output = []\<rparr>, s)
     else let input = input_bytes_of shared (ci_input inputs) in
       map_prod Some id
         (if \<exists>sel. selector_of input = Some sel \<and> is_write_selector sel
          then run_staking_write A G input (ci_gas_limit inputs) (ci_caller inputs) (ci_call_value inputs) s
          else run_staking_with_reader sload A G input (ci_gas_limit inputs) (ci_call_value inputs) s))"
  by (auto simp: run_staking_precompile_def run_staking_with_reader_def copy_eqs Let_def
      split: option.splits prod.splits)

text \<open>C21: the precompile entry point is the two specialised ones behind a guard: another address
  is not handled, anything but a plain non-static CALL is rejected with an empty output, a
  selector of the write class is answered as by run_staking_write, and every other input (short
  and unknown ones too) as by run_staking_with_reader over the journal: result, gas and state.\<close>

theorem precompile_dispatches:
  "run_staking_precompile A G shared inputs s =
    (if ci_bytecode_address inputs \<noteq> STAKING_ADDRESS then (None, s)
     else if ci_scheme inputs = CallScheme_Call \<and> \<not> ci_is_static inputs
     then let input = input_bytes_of shared (ci_input inputs) in
       map_prod Some id
         (if \<exists>sel. selector_of input = Some sel \<and> is_write_selector sel
          then run_staking_write A G input (ci_gas_limit inputs) (ci_caller inputs) (ci_call_value inputs) s
          else run_staking_with_reader sload A G input (ci_gas_limit inputs) (ci_call_value inputs) s)
     else (Some \<lparr>ir_result = Revert, ir_gas_limit = ci_gas_limit inputs,
                ir_gas_remaining = ci_gas_limit inputs, ir_output = []\<rparr>, s))"
  by (simp add: precompile_split)

text \<open>each of the three validator-set getters returns the page of at most 100 ids of its array
  that starts at the requested index, the index after it, and whether the array ends there; a
  start past the end gives an empty last page. (The index arithmetic is 32-bit.)\<close>

theorem validator_set_page:
  assumes "backend_ok s" and "GAS_GET_CONSENSUS_VALIDATOR_SET \<le> gas"
    and "dec_getConsensusValidatorSet A (drop 4 input) = Inr i" and "unat i + 100 < 2 ^ 32"
  shows "handle_get_consensus_validator_set A input gas s = (Inr (GAS_GET_CONSENSUS_VALIDATOR_SET,
      enc_validatorSet A (set_page (unat i) (array_at (store s) CConsensus))), s) \<and>
    handle_get_snapshot_validator_set A input gas s = (Inr (GAS_GET_CONSENSUS_VALIDATOR_SET,
      enc_validatorSet A (set_page (unat i) (array_at (store s) CSnapshot))), s) \<and>
    handle_get_execution_validator_set A input gas s = (Inr (GAS_GET_CONSENSUS_VALIDATOR_SET,
      enc_validatorSet A (set_page (unat i) (array_at (store s) CExecution))), s)"
  unfolding handle_get_consensus_validator_set_def handle_get_snapshot_validator_set_def
    handle_get_execution_validator_set_def copy_eqs valset_base_cells
  by (intro conjI; rule journal.reads_validator_set [OF assms(1-3) _ assms(4)]; rule valset_element_cells)

text \<open>The body the four traversals share, on a list with a head anchor.\<close>

lemma list_page:
  assumes load: "\<And>q. load q s = (Inr (node q), s)"
    and elem: "\<And>k. k < length xs \<Longrightarrow> xs ! k \<noteq> 0 \<and> back (node (xs ! k)) \<noteq> 0"
    and link: "\<And>k. k < length xs \<Longrightarrow> link (node (xs ! k)) = (if Suc k < length xs then xs ! Suc k else 0)"
    and head: "link (node anchor) = (if xs = [] then 0 else hd xs)"
    and p: "starts_at p k xs"
  shows "bindc (if p = 0 then bindc (load anchor) (\<lambda>sentinel. ret (link sentinel)) else ret p) (\<lambda>ptr.
     if ptr = 0 then ret (True, 0, [])
     else bindc (load ptr) (\<lambda>first_node.
       if back first_node = 0 then ret (True, ptr, [])
       else walk_list load link limit ptr first_node 0 [])) s = (Inr (page_from (unat limit) k xs), s)"
proof (cases "xs = []")
  case True
  with p head have "p = 0" "k = 0" "link (node anchor) = 0" by (auto simp: starts_at_def)
  with True show ?thesis by (simp add: bindc_apply load page_from_def)
next
  case False
  have k: "k < length xs" using p False by (auto simp: starts_at_def)
  have "(if p = 0 then bindc (load anchor) (\<lambda>sentinel. ret (link sentinel)) else ret p) s = (Inr (xs ! k), s)"
    using p elem k head False by (auto simp: starts_at_def bindc_apply load hd_conv_nth)
  moreover have "walk_list load link limit (xs ! k) (node (xs ! k)) 0 [] s
      = (Inr (page_from (unat limit) k xs), s)"
    by (rule traverse_page [where node = node]) (use load elem link k in auto)
  ultimately show ?thesis using elem [OF k] by (simp add: bindc_ok bindc_apply load)
qed

lemma delegators_walk:
  assumes "backend_ok s" and "delegator_list s v xs" and "starts_at p k xs"
  shows "traverse_delegators_for_validator v p limit s = (Inr (page_from (unat limit) k xs), s)"
proof -
  note links = delegators.holds_links [OF assms(2) [unfolded delegator_list_def]]
  show ?thesis
    unfolding copy_eqs traverse_delegators_for_validator_reader_def
    by (rule list_page [where node = "\<lambda>q. node_at (store s) (v, q)"])
      (use assms(1,3) links in \<open>auto simp: journal.reads_list_node\<close>)
qed

lemma delegations_walk:
  assumes "backend_ok s" and "delegation_list s a vs" and "starts_at p k vs"
  shows "traverse_validators_for_delegator a p limit s = (Inr (page_from (unat limit) k vs), s)"
proof -
  note links = delegations.holds_links [OF assms(2) [unfolded delegation_list_def]]
  show ?thesis
    unfolding copy_eqs traverse_validators_for_delegator_reader_def
    by (rule list_page [where node = "\<lambda>q. node_at (store s) (q, a)"])
      (use assms(1,3) links in \<open>auto simp: journal.reads_list_node\<close>)
qed

text \<open>The method getDelegators answers with the page of at most 50 delegators of the validator's linked
  list that starts at the requested delegator (or at the head), the delegator after the page,
  and whether the list ends there.\<close>

theorem get_delegators_page:
  assumes "backend_ok s" and "delegator_list s v xs" and "starts_at p k xs"
    and "GAS_GET_DELEGATORS \<le> gas" and "dec_getDelegators A (drop 4 input) = Inr (v, p)"
  shows "handle_get_delegators A input gas s
    = (Inr (GAS_GET_DELEGATORS, enc_getDelegators A (page_from 50 k xs)), s)"
  using assms(4,5) delegators_walk [OF assms(1-3), of LINKED_LIST_PAGINATION]
  by (simp add: handle_get_delegators_def Let_def require_def bindc_apply decode_call_def not_less
      LINKED_LIST_PAGINATION_def)

text \<open>GetDelegations does the same for the validators of a delegator.\<close>

theorem get_delegations_page:
  assumes "backend_ok s" and "delegation_list s a vs" and "starts_at p k vs"
    and "GAS_GET_DELEGATIONS \<le> gas" and "dec_getDelegations A (drop 4 input) = Inr (a, p)"
  shows "handle_get_delegations A input gas s
    = (Inr (GAS_GET_DELEGATIONS, enc_getDelegations A (page_from 50 k vs)), s)"
  using assms(4,5) delegations_walk [OF assms(1-3), of LINKED_LIST_PAGINATION]
  by (simp add: handle_get_delegations_def Let_def require_def bindc_apply decode_call_def not_less
      LINKED_LIST_PAGINATION_def)

text \<open>A client that follows the returned pointer until the answer says it is done, for at most
  \<open>n\<close> calls.\<close>

fun follow_pages :: "nat \<Rightarrow> ('p \<Rightarrow> ('s, bool \<times> 'p \<times> 'p list) comp) \<Rightarrow> 'p \<Rightarrow> 's \<Rightarrow> 'p list option" where
  "follow_pages 0 query p s = None"
| "follow_pages (Suc n) query p s = (case query p s of
     (Inr (done, nxt, xs), s') \<Rightarrow>
       if done then Some xs else map_option ((@) xs) (follow_pages n query nxt s')
   | (Inl e, s') \<Rightarrow> None)"

lemma follow_pages_all:
  assumes page: "\<And>p k. starts_at p k xs \<Longrightarrow> query p s = (Inr (page_from L k xs), s)"
    and "0 < L" and "starts_at p k xs" and "length xs < k + n * L" and "k \<le> length xs"
  shows "follow_pages n query p s = Some (drop k xs)"
  using assms(3-5)
proof (induction n arbitrary: p k)
  case 0
  then show ?case by simp
next
  case (Suc n)
  show ?case
  proof (cases "length xs \<le> k + L")
    case True
    then show ?thesis using page [OF Suc.prems(1)] by (simp add: page_from_def)
  next
    case False
    then have "starts_at (xs ! (k + L)) (k + L) xs" by (simp add: starts_at_def)
    with False Suc have "follow_pages n query (xs ! (k + L)) s = Some (drop (k + L) xs)"
      by (simp add: add.assoc)
    then show ?thesis using page [OF Suc.prems(1)] False
      by (simp add: page_from_def append_take_drop_id [of L "drop k xs"] add.commute)
        (metis append_take_drop_id drop_drop add.commute)
  qed
qed

lemma delegators_pages:
  assumes "backend_ok s" and "delegator_list s v xs" and "length xs div 50 < n"
  shows "follow_pages n (\<lambda>p. traverse_delegators_for_validator v p LINKED_LIST_PAGINATION) 0 s = Some xs \<and>
    distinct xs"
proof
  have "length xs < n * 50" using assms(3) by (simp add: div_less_iff_less_mult)
  then show "follow_pages n (\<lambda>p. traverse_delegators_for_validator v p LINKED_LIST_PAGINATION) 0 s = Some xs"
    using follow_pages_all [where query = "\<lambda>p. traverse_delegators_for_validator v p LINKED_LIST_PAGINATION"
        and L = 50 and k = 0 and p = 0 and n = n and xs = xs and s = s]
      delegators_walk [OF assms(1,2), of _ _ LINKED_LIST_PAGINATION]
    by (simp add: LINKED_LIST_PAGINATION_def starts_at_def)
  show "distinct xs"
    using delegators.holds_distinct assms(2) by (simp add: delegator_list_def)
qed

text \<open>Following the pages of getDelegators from the head terminates: after at most
  length / 50 + 1 calls the client has the validator's whole list, in order, each delegator once.\<close>

theorem delegators_paging_complete:
  assumes "backend_ok s" and "delegator_list s v xs" and "length xs div 50 < n"
  shows "follow_pages n (\<lambda>p. traverse_delegators_for_validator v p LINKED_LIST_PAGINATION) 0 s = Some xs \<and>
    distinct xs"
  using assms by (rule delegators_pages)

text \<open>What the settling getDelegator of the write path answers is what the read-only copy
  answers in the state it leaves: the two differ only by the settlement.\<close>

theorem get_delegator_settles:
  assumes "backend_ok s" and "handle_get_delegator_write A input gas s = (Inr r, t)"
  shows "handle_get_delegator_reader sload A input gas t = (Inr r, t)"
proof -
  obtain v a d where dec: "dec_getDelegator A (drop 4 input) = Inr (v, a)" and gas: "\<not> gas < GAS_GET_DELEGATOR"
    and pull: "pull_delegator_up_to_date v a s = (Inr d, t)" and r: "r = (GAS_GET_DELEGATOR, enc_getDelegator A d)"
    using assms(2)
    by (auto simp: handle_get_delegator_write_def bindc_Inr require_Inr decode_call_def
        split: sum.splits prod.splits)
  have "delegator_at (put_delegator (v, a) d (store t)) (v, a) = d" by (simp add: cell_simps)
  then have "delegator_at (store t) (v, a) = d" by (simp add: pull_writes_back [OF assms(1) pull])
  moreover have "backend_ok t" using delegation_backend(2) [OF pull] assms(1) by simp
  ultimately show ?thesis
    using dec gas r by (simp add: handle_get_delegator_reader_def bindc_apply require_def decode_call_def
        journal.reads_delegator)
qed

section \<open>Witnesses\<close>

lemma word_abi_read_decoders [simp]:
  "dec_getConsensusValidatorSet word_abi bs = Inr (arg_word 0 bs)"
  "dec_getDelegations word_abi bs = Inr (arg_word 0 bs, arg_word 1 bs)"
  "dec_getDelegators word_abi bs = Inr (arg_word 0 bs, arg_word 1 bs)"
  by (simp_all add: word_abi_def)

lemma length_read_selectors [simp]:
  "length SEL_getConsensusValidatorSet = 4" "length SEL_getDelegations = 4" "length SEL_getDelegators = 4"
  by (simp_all add: selector_defs)

theorem validator_set_page_witness:
  "handle_get_execution_validator_set word_abi (call_data SEL_getConsensusValidatorSet [1])
      GAS_GET_CONSENSUS_VALIDATOR_SET snapshot_example =
    (Inr (GAS_GET_CONSENSUS_VALIDATOR_SET, enc_validatorSet word_abi (True, 2, [1])), snapshot_example)"
  using validator_set_page [of snapshot_example GAS_GET_CONSENSUS_VALIDATOR_SET word_abi
      "call_data SEL_getConsensusValidatorSet [1]" 1]
  by (simp add: set_page_def)

text \<open>Delegators 9 and 8 of validator 1.\<close>

lemma lists_example:
  obtains s where "backend_ok s" and "delegator_list s 1 [9, 8]" and "delegation_list s 8 [1]"
proof -
  obtain s where ok: "backend_ok s" and l: "links s ((\<lambda>_. [])(1 := [9, 8])) ((\<lambda>_. [])(8 := [1], 9 := [1]))"
    using links_example by blast
  have "delegator_list s 1 [9, 8]"
    using conjunct1 [OF l [unfolded links_def], rule_format, of 1] by simp
  have "delegation_list s 8 [1]"
    using conjunct1 [OF conjunct2 [OF l [unfolded links_def]], rule_format, of 8] by simp
  show thesis by (rule that) fact+
qed

theorem get_delegators_page_witness:
  "\<exists>s. delegator_list s 1 [9, 8] \<and>
    handle_get_delegators word_abi (call_data SEL_getDelegators [1, 8]) GAS_GET_DELEGATORS s =
    (Inr (GAS_GET_DELEGATORS, enc_getDelegators word_abi (True, 0, [8])), s)"
proof -
  obtain s where s: "backend_ok s" "delegator_list s 1 [9, 8]" by (rule lists_example)
  from get_delegators_page [OF s, of 8 1 GAS_GET_DELEGATORS word_abi "call_data SEL_getDelegators [1, 8]"] s
  show ?thesis by (auto simp: starts_at_def page_from_def intro!: exI [of _ s])
qed

theorem get_delegations_page_witness:
  "\<exists>s. delegation_list s 8 [1] \<and>
    handle_get_delegations word_abi (call_data SEL_getDelegations [8, 0]) GAS_GET_DELEGATIONS s =
    (Inr (GAS_GET_DELEGATIONS, enc_getDelegations word_abi (True, 0, [1])), s)"
proof -
  obtain s where s: "backend_ok s" "delegation_list s 8 [1]" by (rule lists_example)
  from get_delegations_page [OF s, of 0 0 GAS_GET_DELEGATIONS word_abi "call_data SEL_getDelegations [8, 0]"] s
  show ?thesis by (auto simp: starts_at_def page_from_def intro!: exI [of _ s])
qed

theorem delegators_paging_complete_witness:
  "\<exists>s. follow_pages 1 (\<lambda>p. traverse_delegators_for_validator 1 p LINKED_LIST_PAGINATION) 0 s = Some [9, 8]"
proof -
  obtain s where s: "backend_ok s" "delegator_list s 1 [9, 8]" by (rule lists_example)
  from delegators_paging_complete [OF s, of 1] show ?thesis by auto
qed

theorem get_delegator_settles_witness:
  "\<exists>t. handle_get_delegator_reader sload word_abi (call_data SEL_getDelegator [1, 8]) GAS_GET_DELEGATOR t =
    (Inr (GAS_GET_DELEGATOR, enc_getDelegator word_abi settle_result), t)"
proof -
  let ?i = "call_data SEL_getDelegator [1, 8]"
  obtain t where "pull_delegator_up_to_date 1 8 settle_example = (Inr settle_result, t)"
    using settle_example_pull by blast
  then have "handle_get_delegator_write word_abi ?i GAS_GET_DELEGATOR settle_example =
      (Inr (GAS_GET_DELEGATOR, enc_getDelegator word_abi settle_result), t)"
    by (simp add: handle_get_delegator_write_def bindc_apply require_def decode_call_def)
  with get_delegator_settles [of settle_example] show ?thesis by (intro exI [of _ t]) simp
qed
end
