(* ===== verification/Books.thy ===== *)
theory Books
  imports Reader
begin

text \<open>
  The books of the staking contract. \<open>books\<close> is the invariant that ties the components
  together: the stake of a validator is the sum of the stakes of its delegators, its delegator
  list holds exactly those who have stake, nobody holds anything with a validator that was never
  registered, and the id index points at registered validators. Every operation keeps it, so it
  holds in every reachable state.
\<close>

section \<open>The invariant\<close>

definition accounts_ok :: "storage \<Rightarrow> (u64 \<Rightarrow> address list) \<Rightarrow> bool" where
  "accounts_ok st D \<longleftrightarrow>
     (\<forall>v a. timed (epoch_at st) (in_boundary_at st) (delegator_at st (v, a))) \<and>
     (\<forall>v. unat (v_stake (validator_at st v)) = (\<Sum>a \<in> UNIV. stake_sum (delegator_at st (v, a)))) \<and>
     (\<forall>v a. a \<in> set (D v) \<longleftrightarrow> stake_sum (delegator_at st (v, a)) \<noteq> 0)"

definition registry_ok :: "storage \<Rightarrow> bool" where
  "registry_ok st \<longleftrightarrow>
     (\<forall>v. v_auth_address (validator_at st v) = 0 \<longrightarrow>
        (\<forall>a. stake_sum (delegator_at st (v, a)) = 0 \<and> d_rewards (delegator_at st (v, a)) = 0)) \<and>
     (\<forall>v. u64_at st CLastValId < v \<longrightarrow> v_auth_address (validator_at st v) = 0) \<and>
     (\<forall>a. u64_at st (CValIdSecp a) \<noteq> 0 \<longrightarrow>
        a \<noteq> 0 \<and> v_auth_address (validator_at st (u64_at st (CValIdSecp a))) = a)"

definition books :: "host \<Rightarrow> (u64 \<Rightarrow> address list) \<Rightarrow> (address \<Rightarrow> u64 list) \<Rightarrow> bool" where
  "books s D V \<longleftrightarrow> backend_ok s \<and> links s D V \<and> accounts_ok (store s) D \<and> registry_ok (store s)"

text \<open>The cells an operation on the pair of validator \<open>v\<close> and delegator \<open>a\<close> may change.\<close>

definition account_cells :: "u64 \<Rightarrow> address \<Rightarrow> cell_id set" where
  "account_cells v a = - ({CEpoch, CInBoundary, CLastValId} \<union> range CValIdSecp \<union>
     (\<Union>k \<in> - {(v, a)}. delegator_cells k) \<union> {CValidator w j | w j. w \<noteq> v \<and> (j = 0 \<or> j = 6)})"

lemma account_frame:
  assumes "touches F s t" and "F \<subseteq> account_cells v a"
  shows "u64_at (store t) CEpoch = u64_at (store s) CEpoch"
    and "epoch_at (store t) = epoch_at (store s)"
    and "in_boundary_at (store t) = in_boundary_at (store s)"
    and "u64_at (store t) CLastValId = u64_at (store s) CLastValId"
    and "u64_at (store t) (CValIdSecp b) = u64_at (store s) (CValIdSecp b)"
    and "k \<noteq> (v, a) \<Longrightarrow> delegator_at (store t) k = delegator_at (store s) k"
    and "w \<noteq> v \<Longrightarrow> v_stake (validator_at (store t) w) = v_stake (validator_at (store s) w)"
    and "w \<noteq> v \<Longrightarrow> v_auth_address (validator_at (store t) w) = v_auth_address (validator_at (store s) w)"
proof -
  note t = touches_mono [OF assms]
  show e: "u64_at (store t) CEpoch = u64_at (store s) CEpoch"
    and "in_boundary_at (store t) = in_boundary_at (store s)"
    and "u64_at (store t) CLastValId = u64_at (store s) CLastValId"
    and "u64_at (store t) (CValIdSecp b) = u64_at (store s) (CValIdSecp b)"
    by (rule touches_views [OF t]; simp add: account_cells_def)+
  show "epoch_at (store t) = epoch_at (store s)" by (simp add: epoch_at_def e)
  show "k \<noteq> (v, a) \<Longrightarrow> delegator_at (store t) k = delegator_at (store s) k"
    by (rule touches_views(2) [OF t]) (auto simp: account_cells_def)
  have "store t (key_of (CValidator w j)) = store s (key_of (CValidator w j))"
    if "w \<noteq> v" "j = 0 \<or> j = 6" for j
    using that by (intro touches_cell [OF t]) (auto simp: account_cells_def)
  then show "w \<noteq> v \<Longrightarrow> v_stake (validator_at (store t) w) = v_stake (validator_at (store s) w)"
    and "w \<noteq> v \<Longrightarrow> v_auth_address (validator_at (store t) w) = v_auth_address (validator_at (store s) w)"
    by (simp_all add: validator_at_def)
qed

lemma sum_update:
  fixes f g :: "'a::finite \<Rightarrow> nat"
  assumes "\<And>b. b \<noteq> a \<Longrightarrow> g b = f b"
  shows "(\<Sum>b \<in> UNIV. g b) + f a = (\<Sum>b \<in> UNIV. f b) + g a"
proof -
  have "(\<Sum>b \<in> UNIV - {a}. g b) = (\<Sum>b \<in> UNIV - {a}. f b)" using assms by (intro sum.cong) auto
  then show ?thesis
    using sum.remove [of UNIV a g] sum.remove [of UNIV a f] by simp
qed

text \<open>An operation on one pair keeps the books if it moves the same amount on both sides.\<close>

lemma books_account:
  assumes b: "books s D V" and t: "touches F s t" "F \<subseteq> account_cells v a" and ok: "backend_ok t"
    and auth: "v_auth_address (validator_at (store t) v) = v_auth_address (validator_at (store s) v)"
    and timed: "timed (epoch_at (store s)) (in_boundary_at (store s)) (delegator_at (store t) (v, a))"
    and sum: "unat (v_stake (validator_at (store t) v)) + stake_sum (delegator_at (store s) (v, a))
      = unat (v_stake (validator_at (store s) v)) + stake_sum (delegator_at (store t) (v, a))"
    and null: "v_auth_address (validator_at (store s) v) = 0 \<Longrightarrow>
      stake_sum (delegator_at (store t) (v, a)) = 0 \<and> d_rewards (delegator_at (store t) (v, a)) = 0"
    and links: "links t D' V'"
    and member: "\<And>w b. b \<in> set (D' w) \<longleftrightarrow>
      (if w = v \<and> b = a then stake_sum (delegator_at (store t) (v, a)) \<noteq> 0 else b \<in> set (D w))"
  shows "books t D' V'"
proof -
  note f = account_frame [OF t]
  have bs: "accounts_ok (store s) D" "registry_ok (store s)" using b by (simp_all add: books_def)
  have auth: "v_auth_address (validator_at (store t) w) = v_auth_address (validator_at (store s) w)" for w
    using auth f(8) by (cases "w = v") auto
  have "unat (v_stake (validator_at (store t) w)) = (\<Sum>b \<in> UNIV. stake_sum (delegator_at (store t) (w, b)))" for w
  proof (cases "w = v")
    case True
    have "unat (v_stake (validator_at (store s) v)) = (\<Sum>b \<in> UNIV. stake_sum (delegator_at (store s) (v, b)))"
      using bs(1) by (simp add: accounts_ok_def)
    with sum sum_update [of a "\<lambda>b. stake_sum (delegator_at (store t) (v, b))"
        "\<lambda>b. stake_sum (delegator_at (store s) (v, b))"]
    show ?thesis using True f(6) by simp
  next
    case False
    then show ?thesis using bs(1) f(6,7) by (simp add: accounts_ok_def)
  qed
  moreover have "timed (epoch_at (store t)) (in_boundary_at (store t)) (delegator_at (store t) (w, b))" for w b
    using bs(1) timed f(2,3,6) by (cases "(w, b) = (v, a)") (auto simp: accounts_ok_def)
  moreover have "b \<in> set (D' w) \<longleftrightarrow> stake_sum (delegator_at (store t) (w, b)) \<noteq> 0" for w b
    using bs(1) member [of b w] f(6) [of "(w, b)"] by (auto simp: accounts_ok_def)
  ultimately have "accounts_ok (store t) D'" by (simp add: accounts_ok_def)
  moreover have "registry_ok (store t)"
    unfolding registry_ok_def auth f(4,5)
  proof (intro conjI allI impI)
    fix w b assume w: "v_auth_address (validator_at (store s) w) = 0"
    show "stake_sum (delegator_at (store t) (w, b)) = 0" "d_rewards (delegator_at (store t) (w, b)) = 0"
      using w null bs(2) f(6) [of "(w, b)"] by (cases "(w, b) = (v, a)"; auto simp: registry_ok_def)+
  qed (use bs(2) in \<open>auto simp: registry_ok_def\<close>)
  ultimately show ?thesis using ok links by (simp add: books_def)
qed

text \<open>An operation that touches none of the cells the books are about.\<close>

lemma books_elsewhere:
  assumes b: "books s D V" and t: "touches F s t" and ok: "backend_ok t"
    and F: "F \<subseteq> account_cells v a" "F \<inter> (delegator_cells (v, a) \<union> {CValidator v 0, CValidator v 6} \<union> all_node_cells) = {}"
  shows "books t D V"
proof (rule books_account [OF b t F(1) ok])
  have d: "delegator_at (store t) (v, a) = delegator_at (store s) (v, a)"
    by (rule touches_views(2) [OF t]) (use F(2) in auto)
  have v: "store t (key_of (CValidator v j)) = store s (key_of (CValidator v j))" if "j = 0 \<or> j = 6" for j
    using that F(2) by (intro touches_cell [OF t]) auto
  show "v_auth_address (validator_at (store t) v) = v_auth_address (validator_at (store s) v)"
    by (simp add: validator_at_def v)
  show "unat (v_stake (validator_at (store t) v)) + stake_sum (delegator_at (store s) (v, a))
      = unat (v_stake (validator_at (store s) v)) + stake_sum (delegator_at (store t) (v, a))"
    by (simp add: validator_at_def v d)
  show "links t D V" using b F(2) links_touches [OF t, of D V] by (auto simp: books_def)
  show "timed (epoch_at (store s)) (in_boundary_at (store s)) (delegator_at (store t) (v, a))"
    using b by (simp add: books_def accounts_ok_def d)
  show "v_auth_address (validator_at (store s) v) = 0 \<Longrightarrow>
      stake_sum (delegator_at (store t) (v, a)) = 0 \<and> d_rewards (delegator_at (store t) (v, a)) = 0"
    using b by (simp add: books_def registry_ok_def d)
  show "b \<in> set (D w) \<longleftrightarrow>
      (if w = v \<and> b = a then stake_sum (delegator_at (store t) (v, a)) \<noteq> 0 else b \<in> set (D w))" for w b
    using b by (simp add: books_def accounts_ok_def d)
qed


section \<open>The operations keep the books\<close>

text \<open>A position without stake earns nothing.\<close>

lemma settle_no_stake:
  assumes "stake_sum d = 0"
  shows "p_rewards (settle now val x (position_of d)) = unat (d_rewards d)"
proof -
  have "p_active (settle_pending now val p ps) = p_active p \<and> p_rewards (settle_pending now val p ps) = p_rewards p"
    if "p_active p = 0" "\<forall>(e, x) \<in> set ps. x = 0" for p ps
    using that
    by (induction now val p ps rule: settle_pending.induct) (auto simp: accrue_at_def reward_of_def)
  from this [of "position_of d" "pending_of d"] assms show ?thesis
    by (auto simp: settle_def Let_def position_of_def pending_of_def stake_sum_def)
qed

lemma pull_books:
  assumes b: "books s D V" and small: "epoch_at (store s) + 2 < 2 ^ 64"
    and run: "pull_delegator_up_to_date v a s = (Inr d, t)"
  shows "books t D V" and "delegator_at (store t) (v, a) = d"
    and "v_auth_address (validator_at (store s) v) = 0 \<Longrightarrow> d_rewards d = 0"
proof -
  have ok: "backend_ok s" and bs: "accounts_ok (store s) D" "registry_ok (store s)" and l: "links s D V"
    using b by (simp_all add: books_def)
  have timed: "timed (epoch_at (store s)) (in_boundary_at (store s)) (delegator_at (store s) (v, a))"
    using bs(1) by (simp add: accounts_ok_def)
  then have wf: "delegator_wf (delegator_at (store s) (v, a))" by (simp add: timed_def)
  note eff = pull_effect [OF ok run wf epoch_step [OF small]] and lv = pull_leaves [OF ok run]
  have T: "touches (pull_cells v a) s t" by (rule preservesD [OF pull_touches run]) simp
  show d: "delegator_at (store t) (v, a) = d" by (rule eff(7))
  have null: "stake_sum d = 0 \<and> d_rewards d = 0" if "v_auth_address (validator_at (store s) v) = 0"
  proof -
    have "stake_sum (delegator_at (store s) (v, a)) = 0" "d_rewards (delegator_at (store s) (v, a)) = 0"
      using that bs(2) by (auto simp: registry_ok_def)
    then show ?thesis
      using settle_no_stake [of "delegator_at (store s) (v, a)"] arg_cong [OF eff(1), of p_rewards] eff(2)
      by (simp add: position_of_def unat_eq_zero)
  qed
  then show "v_auth_address (validator_at (store s) v) = 0 \<Longrightarrow> d_rewards d = 0" by blast
  show "books t D V"
  proof (rule books_account [OF b T _ lv(12)])
    show "pull_cells v a \<subseteq> account_cells v a"
      by (auto simp: pull_cells_def acc_cells_def account_cells_def region_cells)
    show "timed (epoch_at (store s)) (in_boundary_at (store s)) (delegator_at (store t) (v, a))"
      using pull_epochs(3) [OF ok run timed small] by (simp add: d)
    show "b \<in> set (D w) \<longleftrightarrow>
        (if w = v \<and> b = a then stake_sum (delegator_at (store t) (v, a)) \<noteq> 0 else b \<in> set (D w))" for w b
      using bs(1) by (simp add: accounts_ok_def d eff(2))
  qed (use l null in \<open>simp_all add: lv d eff(2)\<close>)
qed

lemma delegate_cells_le: "delegate_cells v a \<subseteq> account_cells v a"
  by (auto simp: delegate_cells_def pull_cells_def acc_cells_def region_cells valset_cells_def
      all_node_cells_def account_cells_def)

lemma internal_delegate_books:
  assumes b: "books s D V" and small: "epoch_at (store s) + 2 < 2 ^ 64" and x: "x \<noteq> 0"
    and v: "v_auth_address (validator_at (store s) v) \<noteq> 0"
    and run: "internal_delegate A v a x s = (Inr (), t)"
  shows "books t (D(v := insert_once a (D v))) (V(a := insert_once v (V a)))"
proof -
  have ok: "backend_ok s" and bs: "accounts_ok (store s) D" and l: "links s D V"
    using b by (simp_all add: books_def)
  have timed: "timed (epoch_at (store s)) (in_boundary_at (store s)) (delegator_at (store s) (v, a))"
    using bs(1) by (simp add: accounts_ok_def)
  note e = internal_delegate_effect [OF ok run timed small]
  have T: "touches (delegate_cells v a) s t" by (rule preservesD [OF internal_delegate_frames(2) run]) simp
  have x: "unat x \<noteq> 0" using x by (simp add: unat_eq_zero)
  have okt: "backend_ok t"
    using same_env_backend [OF preservesD [OF env.host_internal_delegate run]] ok by simp
  show ?thesis
    by (rule books_account [OF b T delegate_cells_le okt e(7) e(2) _ _ e(6) [OF l]])
      (use v x e(3,4) in \<open>auto simp: insert_once_def\<close>)
qed

text \<open>Clearing rewards that were paid out or compounded.\<close>

lemma clear_rewards_books:
  assumes b: "books s D V" and d: "delegator_at (store s) (v, a) = d"
    and t: "store t = put_delegator (v, a) (d\<lparr>d_rewards := r\<rparr>) (store s)" "backend_ok t"
    and r: "v_auth_address (validator_at (store s) v) = 0 \<Longrightarrow> r = 0"
  shows "books t D V"
proof (rule books_account [OF b _ _ t(2)])
  show T: "touches (delegator_cells (v, a)) s t"
    by (auto simp: touches_def t(1) put_delegator_def region_cells)
  show "delegator_cells (v, a) \<subseteq> account_cells v a" by (auto simp: account_cells_def region_cells)
  have dt: "delegator_at (store t) (v, a) = d\<lparr>d_rewards := r\<rparr>" by (simp add: t cell_simps)
  have s: "stake_sum (e\<lparr>d_rewards := y\<rparr>) = stake_sum e" for e y by (simp add: stake_sum_def)
  show "links t D V"
    using b links_touches [OF T, of D V] by (auto simp: books_def region_cells all_node_cells_def)
  show "timed (epoch_at (store s)) (in_boundary_at (store s)) (delegator_at (store t) (v, a))"
    using b d by (auto simp: dt books_def accounts_ok_def timed_def delegator_wf_def)
  show "v_auth_address (validator_at (store s) v) = 0 \<Longrightarrow>
      stake_sum (delegator_at (store t) (v, a)) = 0 \<and> d_rewards (delegator_at (store t) (v, a)) = 0"
    using b d r by (auto simp: dt s books_def registry_ok_def)
  show "b \<in> set (D w) \<longleftrightarrow>
      (if w = v \<and> b = a then stake_sum (delegator_at (store t) (v, a)) \<noteq> 0 else b \<in> set (D w))" for w b
    using b d by (auto simp: dt s books_def accounts_ok_def)
qed (simp_all add: t cell_simps d stake_sum_def)

lemma timed_after_unstake: "timed e b d \<Longrightarrow> timed e b (after_unstake d x)"
  by (auto simp: timed_def delegator_wf_def after_unstake_def)

lemma stake_after_unstake:
  "x \<le> d_stake d \<Longrightarrow> stake_sum (after_unstake d x) + unat x = stake_sum d"
  by (auto simp: after_unstake_def stake_sum_def unat_minus_le word_le_nat_alt)

lemma exists_stake: "delegator_exists d \<longleftrightarrow> stake_sum d \<noteq> 0"
  by (auto simp: delegator_exists_def stake_sum_def unat_eq_zero)

lemma undelegate_books:
  assumes b: "books s D V" and d: "delegator_at (store s) (v, a) = d"
    and v: "v_auth_address (validator_at (store s) v) \<noteq> 0"
    and run: "undelegate_amount A v a w x acc d s = (Inr (), t)"
  shows "\<exists>D' V'. books t D' V'"
proof -
  have ok: "backend_ok s" and bs: "accounts_ok (store s) D" and l: "links s D V"
    using b by (simp_all add: books_def)
  note e = undelegate_amount_effect [OF ok run]
  let ?F = "{CValidator v 0, CValidator v 6} \<union> withdrawal_cells (v, a, w) \<union> acc_cells v
     \<union> delegator_cells (v, a) \<union> all_node_cells"
  have T: "touches ?F s t" by (rule preservesD [OF undelegate_amount_frames run]) simp
  have F: "?F \<subseteq> account_cells v a"
    by (auto simp: account_cells_def region_cells acc_cells_def all_node_cells_def)
  have okt: "backend_ok t"
    using same_env_backend [OF preservesD [OF env.host_undelegate_amount run]] ok by simp
  define gone where "gone \<longleftrightarrow> \<not> delegator_exists (after_unstake d x)"
  let ?D = "if gone then D(v := remove1 a (D v)) else D" and ?V = "if gone then V(a := remove1 v (V a)) else V"
  have lt: "links t ?D ?V" using e(8) [OF l] by (auto simp: gone_def split: if_splits)
  have old: "b \<in> set (D v') \<longleftrightarrow> stake_sum (delegator_at (store s) (v', b)) \<noteq> 0" for v' b
    using bs by (simp add: accounts_ok_def)
  have dist: "distinct (D v)"
    using l delegators.holds_distinct by (auto simp: links_def delegator_list_def)
  have "books t ?D ?V"
  proof (rule books_account [OF b T F okt e(9) _ _ _ lt])
    show "timed (epoch_at (store s)) (in_boundary_at (store s)) (delegator_at (store t) (v, a))"
      using bs d by (auto simp: e(3) accounts_ok_def intro!: timed_after_unstake)
    show "unat (v_stake (validator_at (store t) v)) + stake_sum (delegator_at (store s) (v, a))
        = unat (v_stake (validator_at (store s) v)) + stake_sum (delegator_at (store t) (v, a))"
      using e(2) stake_after_unstake [OF e(1)]
      by (simp add: e(3,5) d unat_minus_le word_le_nat_alt)
    show "b \<in> set (?D w') \<longleftrightarrow>
        (if w' = v \<and> b = a then stake_sum (delegator_at (store t) (v, a)) \<noteq> 0 else b \<in> set (D w'))" for w' b
      using old dist d stake_after_unstake [OF e(1)]
      by (auto simp: e(3) gone_def exists_stake)
  qed (use v in simp)
  then show ?thesis by blast
qed

text \<open>Registration: the next id is fresh, so nobody holds anything there.\<close>

lemma registered_books:
  assumes b: "books s D V" and new: "new = u64_at (store s) CLastValId + 1" "new \<noteq> 0" and auth: "auth \<noteq> 0"
    and t: "store t = registered_at new auth ba (add_validator_record auth c secp bls) (store s)"
    and wf: "validator_wf (add_validator_record auth c secp bls)" and ok: "backend_ok t"
  shows "books t D V"
proof -
  have bs: "accounts_ok (store s) D" "registry_ok (store s)" and l: "links s D V"
    using b by (simp_all add: books_def)
  have next_id: "u64_at (store s) CLastValId < new"
    using new unatSuc [of "u64_at (store s) CLastValId"] by (simp add: word_less_nat_alt add.commute)
  then have fresh: "v_auth_address (validator_at (store s) new) = 0"
    using bs(2) by (auto simp: registry_ok_def)
  then have none: "stake_sum (delegator_at (store s) (new, a)) = 0" for a
    using bs(2) by (auto simp: registry_ok_def)
  then have "unat (v_stake (validator_at (store s) new)) = 0"
    using bs(1) by (simp add: accounts_ok_def)
  then have zero: "v_stake (validator_at (store s) new) = 0" by (simp only: unat_eq_zero)
  have v: "validator_at (store t) w = (if w = new then add_validator_record auth c secp bls
      else validator_at (store s) w)" for w
    using wf by (simp add: t registered_views)
  have d: "delegator_at (store t) k = delegator_at (store s) k" for k by (simp add: t registered_views)
  have e: "epoch_at (store t) = epoch_at (store s)" "in_boundary_at (store t) = in_boundary_at (store s)"
    "u64_at (store t) CLastValId = new"
    "u64_at (store t) (CValIdSecp a) = (if a = auth then new else u64_at (store s) (CValIdSecp a))" for a
    by (simp_all add: t registered_views)
  have "accounts_ok (store t) D"
    using bs(1) zero none by (auto simp: accounts_ok_def d e v add_validator_record_def)
  moreover have "registry_ok (store t)"
    using bs(2) next_id auth fresh none
    by (auto simp: registry_ok_def d e v add_validator_record_def)
  moreover have "links t D V"
    using l links_nodes [of t s D V] by (simp add: t registered_views)
  ultimately show ?thesis using ok by (simp add: books_def)
qed

lemma add_validator_books:
  assumes b: "books s D V" and small: "epoch_at (store s) + 2 < 2 ^ 64"
    and dec: "dec_addValidator A (drop 4 input) = Inr (payload, y, z)"
    and run: "handle_add_validator A input gas c x s = (Inr r, t)"
  shows "\<exists>D' V'. books t D' V'"
proof -
  have ok: "backend_ok s" using b by (simp add: books_def)
  define auth where "auth = (from_be_bytes (take 20 (drop 81 payload)) :: address)"
  define new where "new = u64_at (store s) CLastValId + 1"
  define ba where "ba = (from_be_bytes (take 20 (take 48 (drop 33 payload))) :: address)"
  define rec where "rec = add_validator_record auth (from_be_bytes (take 32 (drop 133 payload)))
      (take 33 payload) (take 48 (drop 33 payload))"
  note inv = add_validator_Inr [OF ok dec run, folded auth_def new_def, folded ba_def, folded rec_def]
  then obtain l where i: "internal_delegate A new auth x
      (s\<lparr>store := registered_at new auth ba rec (store s), logs := l\<rparr>) = (Inr (), t)" by blast
  let ?s1 = "s\<lparr>store := registered_at new auth ba rec (store s), logs := l\<rparr>"
  have ok1: "backend_ok ?s1" using ok by simp
  obtain s5 s6 where "linked_list_insert new auth s5 = (Inr (), s6)"
    by (rule internal_delegate_Inr [OF ok1 i]) blast
  then have nz: "new \<noteq> 0" "auth \<noteq> 0" using linked_list_insert_valid by blast+
  have "165 \<le> length payload" using inv by blast
  then have wf: "validator_wf rec" by (simp add: rec_def validator_wf_def add_validator_record_def)
  have "MIN_AUTH_ADDRESS_STAKE \<le> x" using inv by blast
  then have x: "x \<noteq> 0" by (auto simp: word_le_nat_alt unat_constants)
  have b1: "books ?s1 D V"
    by (rule registered_books [OF b new_def nz _ wf [unfolded rec_def] ok1]) (simp add: rec_def)
  have v1: "validator_at (store ?s1) new = rec" by (simp add: registered_views wf)
  have "epoch_at (store ?s1) = epoch_at (store s)" by (simp add: registered_views)
  with internal_delegate_books [OF b1 _ x _ i] small nz(2) v1 show ?thesis
    by (auto simp: rec_def add_validator_record_def)
qed

text \<open>The system calls. The books depend on these cells and on the time.\<close>

definition book_cells :: "cell_id set" where
  "book_cells = {CLastValId} \<union> range CValIdSecp \<union> {CValidator w j | w j. j = 0 \<or> j = 6}
     \<union> (\<Union>k. delegator_cells k) \<union> all_node_cells"

lemma books_time:
  assumes b: "books s D V" and cell: "\<And>c. c \<in> book_cells \<Longrightarrow> store t (key_of c) = store s (key_of c)"
    and time: "\<And>d. timed (epoch_at (store s)) (in_boundary_at (store s)) d \<Longrightarrow>
      timed (epoch_at (store t)) (in_boundary_at (store t)) d"
    and ok: "backend_ok t"
  shows "books t D V"
proof -
  have d: "delegator_at (store t) k = delegator_at (store s) k" for k
    by (rule delegator.get_local, rule cell) (unfold book_cells_def, blast)
  have n: "node_at (store t) k = node_at (store s) k" for k
    by (rule node.get_local) (cases k, auto intro!: cell simp: book_cells_def region_cells all_node_cells_def)
  have v: "v_stake (validator_at (store t) w) = v_stake (validator_at (store s) w)"
    "v_auth_address (validator_at (store t) w) = v_auth_address (validator_at (store s) w)" for w
    using cell [of "CValidator w 0"] cell [of "CValidator w 6"]
    by (simp_all add: validator_at_def book_cells_def)
  have u: "u64_at (store t) CLastValId = u64_at (store s) CLastValId"
    "u64_at (store t) (CValIdSecp a) = u64_at (store s) (CValIdSecp a)" for a
    using cell by (simp_all add: u64_at_def book_cells_def)
  have "links t D V" using b links_nodes [OF n] by (simp add: books_def)
  moreover have "accounts_ok (store t) D"
    using b time by (auto simp: books_def accounts_ok_def d v)
  moreover have "registry_ok (store t)"
    using b by (simp add: books_def registry_ok_def d v u)
  ultimately show ?thesis using ok by (simp add: books_def)
qed

lemma reward_books:
  assumes b: "books s D V" and dec: "dec_syscallReward A (drop 4 input) = Inr author"
    and run: "handle_syscall_reward A input gas c x s = (Inr r, t)" and ok: "backend_ok t"
  shows "books t D V"
proof -
  have oks: "backend_ok s" and bs: "accounts_ok (store s) D" "registry_ok (store s)" and l: "links s D V"
    using b by (simp_all add: books_def)
  define v where "v = u64_at (store s) (CValIdSecp author)"
  define auth where "auth = v_auth_address (validator_at (store s) v)"
  define act where "act = store s (key_of (if in_boundary_at (store s) then CSnapshotView v 0
      else CConsensusView v 0))"
  obtain com u y where nz: "act \<noteq> 0" "v \<noteq> 0"
    and d: "distribute_reward v act com y s = (Inr (), u)" and st: "store t = put_u64 CProposer v (store u)"
    using syscall_reward_Inr [OF oks dec run, folded v_def, folded act_def] by blast
  obtain acc where su: "store u = ((put_delegator (v, auth) ((delegator_at (store s) (v, auth))\<lparr>d_rewards :=
           d_rewards (delegator_at (store s) (v, auth)) + com\<rparr>) (store s))
           (key_of (CValidator v 7) := v_unclaimed_rewards (validator_at (store s) v) + y))
           (key_of (CValidator v 1) := v_acc (validator_at (store s) v) + acc)"
    using distribute_reward_Inr [OF oks d nz(1), folded auth_def] by blast
  have reg: "v_auth_address (validator_at (store s) v) \<noteq> 0"
    using bs(2) nz(2) by (auto simp: registry_ok_def v_def)
  have T: "touches (reward_cells v auth) s t"
    by (auto simp: touches_def st su reward_cells_def put_u64_def put_delegator_def region_cells)
  have F: "reward_cells v auth \<subseteq> account_cells v auth"
    by (auto simp: reward_cells_def account_cells_def region_cells)
  have dt: "delegator_at (store t) (v, auth) = (delegator_at (store s) (v, auth))\<lparr>d_rewards :=
      d_rewards (delegator_at (store s) (v, auth)) + com\<rparr>"
    by (simp add: st su cell_simps)
  have sum: "stake_sum (delegator_at (store t) (v, auth)) = stake_sum (delegator_at (store s) (v, auth))"
    by (simp add: dt stake_sum_def)
  show ?thesis
  proof (rule books_account [OF b T F ok])
    show "timed (epoch_at (store s)) (in_boundary_at (store s)) (delegator_at (store t) (v, auth))"
      using bs(1) by (simp add: dt accounts_ok_def timed_def delegator_wf_def)
    show "links t D V"
      using l links_touches [OF T, of D V] by (auto simp: reward_cells_def region_cells all_node_cells_def)
    show "b \<in> set (D w) \<longleftrightarrow> (if w = v \<and> b = auth then stake_sum (delegator_at (store t) (v, auth)) \<noteq> 0
        else b \<in> set (D w))" for w b
      using bs(1) by (simp add: sum accounts_ok_def)
  qed (use reg in \<open>simp_all add: st su cell_simps stake_sum_def\<close>)
qed

lemma epoch_change_books:
  assumes b: "books s D V" and dec: "dec_syscallOnEpochChange A (drop 4 input) = Inr e"
    and run: "handle_syscall_on_epoch_change A input gas c s = (Inr r, t)" and ok: "backend_ok t"
  shows "books t D V"
proof -
  have oks: "backend_ok s" using b by (simp add: books_def)
  have c: "c = SYSTEM_ADDRESS" and gas: "GAS_SYSCALL_ON_EPOCH_CHANGE \<le> gas" and e: "u64_at (store s) CEpoch < e"
    using run dec oks
    by (auto simp: handle_syscall_on_epoch_change_def bindc_Inr require_Inr not_less key_folds not_le)
  from epoch_change_ok [OF oks dec gas e] run c obtain st: "store t = epoch_change_store e (store s)"
    by (auto simp: not_less)
  show ?thesis
  proof (rule books_time [OF b _ _ ok])
    show "store t (key_of c) = store s (key_of c)" if "c \<in> book_cells" for c
      using that unfolding st epoch_change_store_def put_u64_def
      by (auto simp: book_cells_def region_cells all_node_cells_def intro!: refresh_all_other)
    have "epoch_at (store t) = unat e" "epoch_at (store s) < unat e"
      using e by (simp_all add: st epoch_change_store_def cell_simps epoch_at_def word_less_nat_alt)
    then show "timed (epoch_at (store s)) (in_boundary_at (store s)) d \<Longrightarrow>
        timed (epoch_at (store t)) (in_boundary_at (store t)) d" for d
      by (simp add: timed_later)
  qed
qed

lemma snapshot_books:
  assumes b: "books s D V" and run: "handle_syscall_snapshot A input gas c s = (Inr r, t)"
    and ok: "backend_ok t"
  shows "books t D V"
proof -
  have oks: "backend_ok s" using b by (simp add: books_def)
  have c: "c = SYSTEM_ADDRESS" and gas: "GAS_SYSCALL_SNAPSHOT \<le> gas" and nb: "\<not> in_boundary_at (store s)"
    using run oks
    by (auto simp: handle_syscall_snapshot_def bindc_Inr [of "require b e" for b e] require_Inr
        bindc_Inr [of read_in_boundary] not_less)
  obtain st where run': "handle_syscall_snapshot A input gas SYSTEM_ADDRESS s
      = (Inr (GAS_SYSCALL_SNAPSHOT, []), s\<lparr>store := st\<rparr>)"
    and c': "\<And>c. c \<notin> valset_cells \<Longrightarrow> st (key_of c) = snapshot_store (store s) (key_of c)"
    by (rule snapshot_obtains_sets [OF oks gas nb]) blast
  have st: "store t = st" using run' run c by auto
  note st = st c'
  have cell: "store t (key_of c) = store s (key_of c)"
    if "c \<notin> valset_cells" "c \<noteq> CInBoundary" "\<And>i. c \<noteq> CConsensus i" "\<And>v k. c \<noteq> CConsensusView v k"
      "\<And>i. c \<noteq> CSnapshot i" "\<And>v k. c \<noteq> CSnapshotView v k" for c
    using that by (simp add: st snapshot_store_def rotate_consensus_views(5) [OF length_chosen(1)]
        rotate_snapshot_views(5))
  show ?thesis
  proof (rule books_time [OF b _ _ ok])
    show "store t (key_of c) = store s (key_of c)" if "c \<in> book_cells" for c
      using that by (intro cell) (auto simp: book_cells_def valset_cells_def region_cells all_node_cells_def)
    have "u64_at (store t) CEpoch = u64_at (store s) CEpoch"
      unfolding u64_at_def by (subst cell) (auto simp: valset_cells_def)
    then show "timed (epoch_at (store s)) (in_boundary_at (store s)) d \<Longrightarrow>
        timed (epoch_at (store t)) (in_boundary_at (store t)) d" for d
      using nb by (auto simp: timed_def epoch_at_def)
  qed
qed

section \<open>Every call keeps the books\<close>

lemma change_commission_books:
  assumes "books s D V" and "handle_change_commission A input gas c s = (Inr r, t)" and "backend_ok t"
  shows "books t D V"
proof -
  obtain v y where dec: "dec_changeCommission A (drop 4 input) = Inr (v, y)"
    using handlers_decoded(1) [OF assms(2)] by auto
  have "backend_ok s" using assms(1) by (simp add: books_def)
  from change_commission_Inr [OF this dec assms(2)] have "touches {CValidator v 2} s t"
    by (auto simp: touches_def)
  from books_elsewhere [OF assms(1) this assms(3), of v c] show ?thesis
    by (auto simp: account_cells_def region_cells all_node_cells_def)
qed

lemma external_reward_books:
  assumes "books s D V" and "handle_external_reward A input gas c x s = (Inr r, t)" and "backend_ok t"
  shows "books t D V"
proof -
  obtain v where dec: "dec_externalReward A (drop 4 input) = Inr v"
    using handlers_decoded(3) [OF assms(2)] by auto
  have "backend_ok s" using assms(1) by (simp add: books_def)
  from external_reward_Inr [OF this dec assms(2)] have "touches {CValidator v 1, CValidator v 7} s t"
    by (auto simp: touches_def)
  from books_elsewhere [OF assms(1) this assms(3), of v c] show ?thesis
    by (auto simp: account_cells_def region_cells all_node_cells_def)
qed

lemma withdraw_books:
  assumes "books s D V" and "handle_withdraw A input gas c s = (Inr r, t)" and "backend_ok t"
  shows "books t D V"
proof -
  obtain v w where dec: "dec_withdraw A (drop 4 input) = Inr (v, w)"
    using handlers_decoded(6) [OF assms(2)] by auto
  let ?F = "withdrawal_cells (v, c, w) \<union> acc_cells v \<union> {CValidator v 7}"
  have ok: "backend_ok s" using assms(1) by (simp add: books_def)
  have "preserves (touches ?F) (handle_withdraw A input gas c)" if "dec_withdraw A (drop 4 input) = Inr (v, w)"
    unfolding handle_withdraw_def Let_def decode_call_def that sum.case bindc_ret split_def fst_conv snd_conv
    by (intro pres_all frame_intros; auto)
  with dec assms(2) have "touches ?F s t" by (auto dest: preservesD)
  from books_elsewhere [OF assms(1) this assms(3), of v c] show ?thesis
    by (auto simp: account_cells_def region_cells all_node_cells_def acc_cells_def)
qed

lemma claim_rewards_books:
  assumes b: "books s D V" and small: "epoch_at (store s) + 2 < 2 ^ 64"
    and run: "handle_claim_rewards A input gas c s = (Inr r, t)" and ok: "backend_ok t"
  shows "books t D V"
proof -
  obtain v where dec: "dec_claimRewards A (drop 4 input) = Inr v"
    using handlers_decoded(2) [OF run] by auto
  have oks: "backend_ok s" using b by (simp add: books_def)
  from claim_rewards_Inr [OF oks dec run]
  obtain d s1 where 1: "pull_delegator_up_to_date v c s = (Inr d, s1)"
    and st: "store t = put_delegator (v, c) (d\<lparr>d_rewards := 0\<rparr>) (store s1)" by blast
  note p = pull_books [OF b small 1]
  show ?thesis by (rule clear_rewards_books [OF p(1,2) st ok]) simp
qed

lemma get_delegator_books:
  assumes b: "books s D V" and small: "epoch_at (store s) + 2 < 2 ^ 64"
    and run: "handle_get_delegator_write A input gas s = (Inr r, t)"
  shows "books t D V"
proof -
  obtain v a where dec: "dec_getDelegator A (drop 4 input) = Inr (v, a)"
    using handlers_decoded(9) [OF run] by auto
  then obtain d where "pull_delegator_up_to_date v a s = (Inr d, t)"
    using run by (auto simp: handle_get_delegator_write_def bindc_Inr require_Inr decode_call_def)
  from pull_books(1) [OF b small this] show ?thesis .
qed

lemma delegate_books:
  assumes b: "books s D V" and small: "epoch_at (store s) + 2 < 2 ^ 64"
    and run: "handle_delegate A input gas c x s = (Inr r, t)"
  shows "\<exists>D' V'. books t D' V'"
proof -
  obtain v where dec: "dec_delegate A (drop 4 input) = Inr v"
    using handlers_decoded(4) [OF run] by auto
  have oks: "backend_ok s" using b by (simp add: books_def)
  from delegate_Inr [OF oks dec run] internal_delegate_books [OF b small] b show ?thesis
    by (cases "x = 0") (fastforce simp: validator_exists_def)+
qed

lemma undelegate_handler_books:
  assumes b: "books s D V" and small: "epoch_at (store s) + 2 < 2 ^ 64"
    and run: "handle_undelegate A input gas c s = (Inr r, t)"
  shows "\<exists>D' V'. books t D' V'"
proof -
  obtain v x w where dec: "dec_undelegate A (drop 4 input) = Inr (v, x, w)"
    using handlers_decoded(5) [OF run] by auto
  have oks: "backend_ok s" using b by (simp add: books_def)
  note inv = undelegate_Inr [OF oks dec run]
  show ?thesis
  proof (cases "x = 0")
    case True
    then show ?thesis using inv b by auto
  next
    case False
    then obtain d s1 where v: "validator_exists (validator_at (store s) v)"
      and 1: "pull_delegator_up_to_date v c s = (Inr d, s1)"
      and 2: "undelegate_amount A v c w (dust_amount (d_stake d) x) (d_acc d) d s1 = (Inr (), t)"
      using inv by auto
    note p = pull_books [OF b small 1]
    have "v_auth_address (validator_at (store s1) v) \<noteq> 0"
      using v pull_leaves(3) [OF oks 1] by (simp add: validator_exists_def)
    from undelegate_books [OF p(1,2) this 2] show ?thesis .
  qed
qed

lemma compound_books:
  assumes b: "books s D V" and small: "epoch_at (store s) + 2 < 2 ^ 64"
    and run: "handle_compound A input gas c s = (Inr r, t)"
  shows "\<exists>D' V'. books t D' V'"
proof -
  obtain v where dec: "dec_compound A (drop 4 input) = Inr v"
    using handlers_decoded(7) [OF run] by auto
  have oks: "backend_ok s" using b by (simp add: books_def)
  obtain d s1 where 1: "pull_delegator_up_to_date v c s = (Inr d, s1)"
    and zero: "d_rewards d = 0 \<longrightarrow> t = s1"
    and pos: "d_rewards d \<noteq> 0 \<longrightarrow> (\<exists>l. internal_delegate A v c (d_rewards d)
      (s1\<lparr>store := put_delegator (v, c) (d\<lparr>d_rewards := 0\<rparr>) (store s1), logs := l\<rparr>) = (Inr (), t))"
    by (rule compound_Inr [OF oks dec run])
  note p = pull_books [OF b small 1] and lv = pull_leaves [OF oks 1]
  show ?thesis
  proof (cases "d_rewards d = 0")
    case True
    then show ?thesis using zero p(1) by blast
  next
    case False
    then obtain l where i: "internal_delegate A v c (d_rewards d)
      (s1\<lparr>store := put_delegator (v, c) (d\<lparr>d_rewards := 0\<rparr>) (store s1), logs := l\<rparr>) = (Inr (), t)"
      using pos by blast
    let ?s2 = "s1\<lparr>store := put_delegator (v, c) (d\<lparr>d_rewards := 0\<rparr>) (store s1), logs := l\<rparr>"
    have b2: "books ?s2 D V"
      by (rule clear_rewards_books [OF p(1,2), where r = 0]) (simp_all add: lv(12))
    have "v_auth_address (validator_at (store ?s2) v) \<noteq> 0"
      using False p(3) lv(3) by (auto simp: cell_simps)
    moreover have "epoch_at (store ?s2) + 2 < 2 ^ 64"
      using small lv(7) by (simp add: epoch_at_def cell_simps)
    ultimately show ?thesis using internal_delegate_books [OF b2 _ False _ i] by blast
  qed
qed

lemma handler_books:
  assumes b: "books s D V" and small: "epoch_at (store s) + 2 < 2 ^ 64"
    and m: "write_handler A sel input gas c x = Some m" and run: "m s = (Inr r, t)"
  shows "\<exists>D' V'. books t D' V'"
proof -
  have "backend_ok s" using b by (simp add: books_def)
  then have ok: "backend_ok t"
    using same_env_backend [OF preservesD [OF env.host_write_handler [OF m] run]] by simp
  obtain g out where r: "r = (g, out)" by (cases r)
  from m run show ?thesis
  proof (cases rule: write_handler_runs)
    case delegate
    then show ?thesis using delegate_books [OF b small] by blast
  next
    case add_validator
    from handlers_decoded(8) [OF add_validator(2)] add_validator_books [OF b small _ add_validator(2)]
    show ?thesis by auto
  next
    case external_reward
    then show ?thesis using external_reward_books [OF b _ ok] by blast
  next
    case change_commission
    then show ?thesis using change_commission_books [OF b _ ok] by blast
  next
    case claim_rewards
    then show ?thesis using claim_rewards_books [OF b small _ ok] by blast
  next
    case undelegate
    then show ?thesis using undelegate_handler_books [OF b small] by blast
  next
    case withdraw
    then show ?thesis using withdraw_books [OF b _ ok] by blast
  next
    case compound
    then show ?thesis using compound_books [OF b small] by blast
  next
    case reward
    from handlers_decoded(10) [OF reward(2)] reward_books [OF b _ reward(2) ok] show ?thesis by auto
  next
    case snapshot
    then show ?thesis using snapshot_books [OF b _ ok] by blast
  next
    case epoch_change
    from handlers_decoded(11) [OF epoch_change(3)] epoch_change_books [OF b _ epoch_change(3) ok]
    show ?thesis by auto
  next
    case get_delegator
    then show ?thesis using get_delegator_books [OF b small] by blast
  qed
qed

lemma write_books:
  assumes b: "books s D V" and small: "epoch_at (store s) + 2 < 2 ^ 64"
    and run: "run_staking_write A G input gas c x s = (r, t)" and ok: "ir_result r = Return"
  shows "\<exists>D' V'. books t D' V'"
proof -
  obtain sel m g out where m: "write_handler A sel input gas c x = Some m" and "m s = (Inr (g, out), t)"
    using run ok
    by (auto simp: run_staking_write_def fallback_result_def result_of_def
        split: option.splits sum.splits prod.splits if_splits)
  from handler_books [OF b small this] show ?thesis .
qed

section \<open>Reachable states\<close>

lemma precompile_step:
  assumes run: "run_staking_precompile A G shared inputs s = (Some r, t)"
  shows "t = s \<or> (\<exists>input gas c x. run_staking_write A G input gas c x s = (r, t))"
proof -
  define input where "input = input_bytes_of shared (ci_input inputs)"
  let ?read = "run_staking_with_reader sload A G input (ci_gas_limit inputs) (ci_call_value inputs) s"
  have "snd ?read = s" by (rule journal.quiet_run)
  then show ?thesis
    using run
    by (cases ?read; cases "run_staking_write A G input (ci_gas_limit inputs) (ci_caller inputs)
        (ci_call_value inputs) s") (auto simp: precompile_split Let_def input_def [symmetric] split: if_splits)
qed

text \<open>The states of the staking account. Genesis is empty; the rest of the chain changes balances,
  logs and what the backend does with transfers, but not this account's storage; a call through
  the precompile entry point is a step when it returns, otherwise the frame is rolled back.\<close>

inductive reachable :: "abi \<Rightarrow> gas_meter \<Rightarrow> host \<Rightarrow> bool" for A G where
  genesis: "backend_ok s \<Longrightarrow> store s = (\<lambda>_. 0) \<Longrightarrow> reachable A G s"
| world: "reachable A G s \<Longrightarrow> backend_ok t \<Longrightarrow> store t = store s \<Longrightarrow> reachable A G t"
| call: "reachable A G s \<Longrightarrow> epoch_at (store s) + 2 < 2 ^ 64 \<Longrightarrow>
    run_staking_precompile A G shared inputs s = (Some r, t) \<Longrightarrow> ir_result r = Return \<Longrightarrow>
    reachable A G t"

lemma genesis_books:
  assumes "backend_ok s" and "store s = (\<lambda>_. 0)"
  shows "books s (\<lambda>_. []) (\<lambda>_. [])"
proof -
  have "delegator_at (\<lambda>_. 0) k = Delegator_default" for k
    by (cases k) (simp add: delegator_at_def Delegator_default_def)
  moreover have "validator_at (\<lambda>_. 0) v = validator_at (store (host_of [])) v" for v by simp
  moreover have "links s (\<lambda>_. []) (\<lambda>_. [])"
    using links_touches [of "{}" "host_of []" s] links_empty assms(2) by (auto simp: touches_def)
  ultimately show ?thesis
    using assms
    by (auto simp: books_def accounts_ok_def registry_ok_def timed_def delegator_wf_def Delegator_default_def
        stake_sum_def validator_at_def u64_at_def)
qed

lemma reachable_books: "reachable A G s \<Longrightarrow> \<exists>D V. books s D V"
proof (induction rule: reachable.induct)
  case (genesis s)
  then show ?case using genesis_books by blast
next
  case (world s t)
  then obtain D V where "books s D V" by blast
  then have "books t D V" by (rule books_time) (simp_all add: world.hyps epoch_at_def)
  then show ?case by blast
next
  case (call s shared inputs r t)
  then obtain D V where b: "books s D V" by blast
  from precompile_step [OF call.hyps(3)] show ?case
  proof (elim disjE exE)
    show ?thesis if "t = s" using b that by blast
    show ?thesis if "run_staking_write A G input gas c x s = (r, t)" for input gas c x
      by (rule write_books [OF b call.hyps(2) that call.hyps(4)])
  qed
qed

section \<open>Properties\<close>

text \<open>C1: in every reachable state of the contract the books balance: the two families of linked
  lists are well-formed, the stake recorded for a validator is the sum of the active and pending
  stakes of the delegators on its list, and its list holds exactly the delegators with stake.\<close>

theorem books_balance:
  assumes "reachable A G s"
  shows "\<exists>D V. links s D V \<and>
    (\<forall>v. unat (v_stake (validator_at (store s) v))
       = (\<Sum>a \<leftarrow> D v. stake_sum (delegator_at (store s) (v, a)))) \<and>
    (\<forall>v a. a \<in> set (D v) \<longleftrightarrow> delegator_exists (delegator_at (store s) (v, a)))"
proof -
  obtain D V where b: "books s D V" using reachable_books [OF assms] by blast
  then have l: "links s D V" and acc: "accounts_ok (store s) D" by (simp_all add: books_def)
  have "(\<Sum>a \<leftarrow> D v. stake_sum (delegator_at (store s) (v, a)))
      = (\<Sum>a \<in> UNIV. stake_sum (delegator_at (store s) (v, a)))" for v
  proof -
    have "distinct (D v)" using l delegators.holds_distinct by (auto simp: links_def delegator_list_def)
    then have "(\<Sum>a \<leftarrow> D v. stake_sum (delegator_at (store s) (v, a)))
        = (\<Sum>a \<in> set (D v). stake_sum (delegator_at (store s) (v, a)))"
      by (rule sum_list_distinct_conv_sum_set)
    also have "\<dots> = (\<Sum>a \<in> UNIV. stake_sum (delegator_at (store s) (v, a)))"
      using acc by (intro sum.mono_neutral_left) (auto simp: accounts_ok_def)
    finally show ?thesis .
  qed
  then show ?thesis using l acc by (auto simp: accounts_ok_def exists_stake)
qed

text \<open>C13: in every reachable state each delegator record is well formed in time: an empty track
  holds no stake, the tracks are ordered, and nothing is scheduled later than the next epoch, or
  the one after it during the delay period.\<close>

theorem records_well_formed:
  assumes "reachable A G s"
  shows "timed (epoch_at (store s)) (in_boundary_at (store s)) (delegator_at (store s) (v, a))"
  using reachable_books [OF assms] by (auto simp: books_def accounts_ok_def)


text \<open>C22: in every reachable state a client that follows the pages of getDelegators gets an answer
  after finitely many calls: a list without repetitions of exactly the delegators that have stake
  with the validator.\<close>

theorem paging_lists_stakers:
  assumes "reachable A G s"
  shows "\<exists>n xs. follow_pages n (\<lambda>p. traverse_delegators_for_validator v p LINKED_LIST_PAGINATION) 0 s = Some xs \<and>
    distinct xs \<and> set xs = {a. delegator_exists (delegator_at (store s) (v, a))}"
proof -
  obtain D V where b: "books s D V" using reachable_books [OF assms] by blast
  then have ok: "backend_ok s" and l: "delegator_list s v (D v)" and acc: "accounts_ok (store s) D"
    by (simp_all add: books_def links_def)
  have "set (D v) = {a. delegator_exists (delegator_at (store s) (v, a))}"
    using acc by (auto simp: accounts_ok_def exists_stake)
  moreover have "length (D v) div 50 < length (D v) div 50 + 1" by simp
  note delegators_pages [OF ok l this]
  ultimately show ?thesis by blast
qed

text \<open>Genesis, then addValidator for auth address 9: the first call of every witness.\<close>

definition register_inputs :: call_inputs where
  "register_inputs = \<lparr>ci_bytecode_address = STAKING_ADDRESS, ci_scheme = CallScheme_Call,
     ci_is_static = False, ci_gas_limit = GAS_ADD_VALIDATOR,
     ci_input = InputBytes (SEL_addValidator @ example_payload), ci_caller = 8, ci_call_value = 10 ^ 23\<rparr>"

lemma registered_example:
  obtains s where "reachable word_abi plain_meter s" and "u64_at (store s) CLastValId = 1"
    and "v_stake (validator_at (store s) 1) = 10 ^ 23"
proof -
  let ?i = "SEL_addValidator @ example_payload"
  let ?s = "host_of []"
  have d: "delegator_at (\<lambda>_. 0) k = Delegator_default" for k
    by (cases k) (simp add: delegator_at_def Delegator_default_def)
  have u: "u64_at (\<lambda>_. 0) c = 0" for c by (simp add: u64_at_def)
  obtain t where t: "handle_add_validator word_abi ?i GAS_ADD_VALIDATOR 8 (10 ^ 23) ?s
      = (Inr (GAS_ADD_VALIDATOR, enc_u64 word_abi 1), t)"
    using add_first_validator_run [of ?s] d u by auto
  have sel: "selector_of ?i = Some SEL_addValidator"
    by (simp add: selector_of_def)
  have ne: "SEL_addValidator \<noteq> SEL_delegate" by (simp add: selector_defs)
  have "run_staking_write word_abi plain_meter ?i GAS_ADD_VALIDATOR 8 (10 ^ 23) ?s
      = (result_of word_abi plain_meter GAS_ADD_VALIDATOR (Inr (GAS_ADD_VALIDATOR, enc_u64 word_abi 1)), t)"
    using ne t by (simp add: run_staking_write_def sel write_handler_def)
  then have run: "run_staking_precompile word_abi plain_meter Map.empty register_inputs ?s
      = (Some (result_of word_abi plain_meter GAS_ADD_VALIDATOR (Inr (GAS_ADD_VALIDATOR, enc_u64 word_abi 1))), t)"
    by (simp add: precompile_split register_inputs_def input_bytes_of_def sel is_write_selector_def)
  have "reachable word_abi plain_meter ?s" by (rule reachable.genesis) simp_all
  from reachable.call [OF this _ run] have "reachable word_abi plain_meter t"
    by (simp add: result_of_def plain_meter_def epoch_at_def u)
  moreover have "u64_at (store t) CLastValId = 1" "v_stake (validator_at (store t) 1) = 10 ^ 23"
    using add_validator_state(3,8) [of ?s word_abi ?i example_payload, OF _ _ t]
    by (simp_all add: u d timed_def delegator_wf_def Delegator_default_def example_payload_fields epoch_at_def)
  ultimately show thesis by (rule that)
qed

theorem books_balance_witness:
  "\<exists>s D. reachable word_abi plain_meter s \<and> (\<Sum>a \<leftarrow> D. stake_sum (delegator_at (store s) (1, a))) = 10 ^ 23"
proof -
  obtain s where s: "reachable word_abi plain_meter s" and x: "v_stake (validator_at (store s) 1) = 10 ^ 23"
    by (rule registered_example)
  obtain D :: "u64 \<Rightarrow> address list" where "\<forall>v. unat (v_stake (validator_at (store s) v))
      = (\<Sum>a \<leftarrow> D v. stake_sum (delegator_at (store s) (v, a)))"
    using books_balance [OF s] by blast
  from spec [OF this, of 1] s x show ?thesis by (auto intro!: exI [of _ s] exI [of _ "D 1"])
qed

theorem records_well_formed_witness:
  "\<exists>s. reachable word_abi plain_meter s \<and> u64_at (store s) CLastValId = 1 \<and>
     timed (epoch_at (store s)) (in_boundary_at (store s)) (delegator_at (store s) (1, 9))"
  using registered_example records_well_formed by metis


theorem paging_lists_stakers_witness:
  "\<exists>s xs n. reachable word_abi plain_meter s \<and> u64_at (store s) CLastValId = 1 \<and>
     follow_pages n (\<lambda>p. traverse_delegators_for_validator 1 p LINKED_LIST_PAGINATION) 0 s = Some xs"
  using registered_example paging_lists_stakers [of word_abi plain_meter _ 1] by metis
end
