(* ===== verification/Calls.thy ===== *)
theory Calls
  imports Books
begin

text \<open>
  What the precompile charges and what it refuses before it does anything: the gas of every
  outcome, the calls rejected at the door, who may make the system calls, and what a call of
  each class can change at most.
\<close>

section \<open>The price list\<close>

definition gas_table :: "(selector \<times> u64) list" where
  "gas_table = [(SEL_getEpoch, GAS_GET_EPOCH), (SEL_getProposerValId, GAS_GET_PROPOSER_VAL_ID),
     (SEL_getValidator, GAS_GET_VALIDATOR), (SEL_getDelegator, GAS_GET_DELEGATOR),
     (SEL_getWithdrawalRequest, GAS_GET_WITHDRAWAL_REQUEST),
     (SEL_getConsensusValidatorSet, GAS_GET_CONSENSUS_VALIDATOR_SET),
     (SEL_getSnapshotValidatorSet, GAS_GET_CONSENSUS_VALIDATOR_SET),
     (SEL_getExecutionValidatorSet, GAS_GET_CONSENSUS_VALIDATOR_SET),
     (SEL_getDelegations, GAS_GET_DELEGATIONS), (SEL_getDelegators, GAS_GET_DELEGATORS),
     (SEL_delegate, GAS_DELEGATE), (SEL_undelegate, GAS_UNDELEGATE), (SEL_withdraw, GAS_WITHDRAW),
     (SEL_compound, GAS_COMPOUND), (SEL_claimRewards, GAS_CLAIM_REWARDS),
     (SEL_addValidator, GAS_ADD_VALIDATOR), (SEL_changeCommission, GAS_CHANGE_COMMISSION),
     (SEL_externalReward, GAS_EXTERNAL_REWARD), (SEL_syscallReward, GAS_SYSCALL_REWARD),
     (SEL_syscallSnapshot, GAS_SYSCALL_SNAPSHOT),
     (SEL_syscallOnEpochChange, GAS_SYSCALL_ON_EPOCH_CHANGE)]"

definition method_gas :: "selector \<Rightarrow> u64 option" where
  "method_gas sel = map_of gas_table sel"

lemma method_gas_simps [simp]:
  "method_gas SEL_getEpoch = Some GAS_GET_EPOCH"
  "method_gas SEL_getProposerValId = Some GAS_GET_PROPOSER_VAL_ID"
  "method_gas SEL_getValidator = Some GAS_GET_VALIDATOR"
  "method_gas SEL_getDelegator = Some GAS_GET_DELEGATOR"
  "method_gas SEL_getWithdrawalRequest = Some GAS_GET_WITHDRAWAL_REQUEST"
  "method_gas SEL_getConsensusValidatorSet = Some GAS_GET_CONSENSUS_VALIDATOR_SET"
  "method_gas SEL_getSnapshotValidatorSet = Some GAS_GET_CONSENSUS_VALIDATOR_SET"
  "method_gas SEL_getExecutionValidatorSet = Some GAS_GET_CONSENSUS_VALIDATOR_SET"
  "method_gas SEL_getDelegations = Some GAS_GET_DELEGATIONS"
  "method_gas SEL_getDelegators = Some GAS_GET_DELEGATORS"
  "method_gas SEL_delegate = Some GAS_DELEGATE" "method_gas SEL_undelegate = Some GAS_UNDELEGATE"
  "method_gas SEL_withdraw = Some GAS_WITHDRAW" "method_gas SEL_compound = Some GAS_COMPOUND"
  "method_gas SEL_claimRewards = Some GAS_CLAIM_REWARDS"
  "method_gas SEL_addValidator = Some GAS_ADD_VALIDATOR"
  "method_gas SEL_changeCommission = Some GAS_CHANGE_COMMISSION"
  "method_gas SEL_externalReward = Some GAS_EXTERNAL_REWARD"
  "method_gas SEL_syscallReward = Some GAS_SYSCALL_REWARD"
  "method_gas SEL_syscallSnapshot = Some GAS_SYSCALL_SNAPSHOT"
  "method_gas SEL_syscallOnEpochChange = Some GAS_SYSCALL_ON_EPOCH_CHANGE"
  by (simp_all add: method_gas_def gas_table_def selector_defs)

text \<open>The one handler behind a selector, whichever module has it.\<close>

definition staking_handler ::
    "abi \<Rightarrow> selector \<Rightarrow> bytes \<Rightarrow> u64 \<Rightarrow> address \<Rightarrow> u256 \<Rightarrow> (u64 \<times> bytes) action option" where
  "staking_handler A sel input gas c x =
     (if is_write_selector sel then write_handler A sel input gas c x
      else read_handler_reader sload A sel input gas x)"

lemma if_None: "(if b then Some y else z) = None \<longleftrightarrow> \<not> b \<and> z = None"
  by simp

lemma staking_handler_None: "staking_handler A sel input gas c x = None \<longleftrightarrow> method_gas sel = None"
  unfolding staking_handler_def is_write_selector_def write_handler_def read_handler_reader_def Let_def
    method_gas_def map_of_eq_None_iff gas_table_def if_None if_split [of "\<lambda>y. y = None"]
  by (simp only: list.map list.set fst_conv insert_iff empty_iff image_insert image_empty) blast

section \<open>Charges\<close>

text \<open>\<open>ends_with g m\<close>: when \<open>m\<close> succeeds it reports the gas \<open>g\<close>.\<close>

definition ends_with :: "u64 \<Rightarrow> ('s, u64 \<times> bytes) comp \<Rightarrow> bool" where
  "ends_with g m \<longleftrightarrow> (\<forall>s r t. m s = (Inr r, t) \<longrightarrow> fst r = g)"

lemma ends_intros:
  "ends_with g (ret (g, out))" "ends_with g (throw e)"
  "(\<And>y. ends_with g (f y)) \<Longrightarrow> ends_with g (bindc m f)"
  "(b \<Longrightarrow> ends_with g m1) \<Longrightarrow> (\<not> b \<Longrightarrow> ends_with g m2) \<Longrightarrow> ends_with g (if b then m1 else m2)"
  "(\<And>y z. p = (y, z) \<Longrightarrow> ends_with g (h y z)) \<Longrightarrow> ends_with g (case p of (y, z) \<Rightarrow> h y z)"
  by (simp_all add: ends_with_def bindc_Inr split: prod.splits) blast?

text \<open>\<open>priced g gas m\<close>: below \<open>g\<close> the handler stops before anything else, above it a success
  reports exactly \<open>g\<close>.\<close>

definition priced :: "u64 \<Rightarrow> u64 \<Rightarrow> ('s, u64 \<times> bytes) comp \<Rightarrow> bool" where
  "priced g gas m \<longleftrightarrow> ends_with g m \<and> (gas < g \<longrightarrow> (\<forall>s. m s = (Inl OutOfGas, s)))"

lemma priced_intro: "ends_with g m \<Longrightarrow> priced g gas (seqc (require (\<not> gas < g) OutOfGas) m)"
  by (auto simp: priced_def require_def bindc_apply intro: ends_intros)

lemmas write_handler_defs = handle_change_commission_def handle_claim_rewards_def
  handle_external_reward_def handle_delegate_def handle_undelegate_def handle_withdraw_def
  handle_compound_def handle_add_validator_def handle_get_delegator_write_def
  handle_syscall_reward_def handle_syscall_snapshot_def handle_syscall_on_epoch_change_def

lemma write_handlers_priced:
  "priced GAS_CHANGE_COMMISSION gas (handle_change_commission A input gas c)"
  "priced GAS_CLAIM_REWARDS gas (handle_claim_rewards A input gas c)"
  "priced GAS_EXTERNAL_REWARD gas (handle_external_reward A input gas c x)"
  "priced GAS_DELEGATE gas (handle_delegate A input gas c x)"
  "priced GAS_UNDELEGATE gas (handle_undelegate A input gas c)"
  "priced GAS_WITHDRAW gas (handle_withdraw A input gas c)"
  "priced GAS_COMPOUND gas (handle_compound A input gas c)"
  "priced GAS_ADD_VALIDATOR gas (handle_add_validator A input gas c x)"
  "priced GAS_GET_DELEGATOR gas (handle_get_delegator_write A input gas)"
  "priced GAS_SYSCALL_REWARD gas (handle_syscall_reward A input gas c x)"
  "priced GAS_SYSCALL_SNAPSHOT gas (handle_syscall_snapshot A input gas c)"
  "priced GAS_SYSCALL_ON_EPOCH_CHANGE gas (handle_syscall_on_epoch_change A input gas c)"
  unfolding write_handler_defs Let_def by (intro priced_intro ends_intros)+

lemma read_handlers_priced:
  "priced GAS_GET_EPOCH gas (handle_get_epoch_reader rd A input gas)"
  "priced GAS_GET_PROPOSER_VAL_ID gas (handle_get_proposer_val_id_reader rd A gas)"
  "priced GAS_GET_VALIDATOR gas (handle_get_validator_reader rd A input gas)"
  "priced GAS_GET_DELEGATOR gas (handle_get_delegator_reader rd A input gas)"
  "priced GAS_GET_WITHDRAWAL_REQUEST gas (handle_get_withdrawal_request_reader rd A input gas)"
  "priced GAS_GET_CONSENSUS_VALIDATOR_SET gas (handle_get_validator_set_reader rd A input gas base)"
  "priced GAS_GET_DELEGATIONS gas (handle_get_delegations_reader rd A input gas)"
  "priced GAS_GET_DELEGATORS gas (handle_get_delegators_reader rd A input gas)"
  unfolding handle_get_epoch_reader_def handle_get_proposer_val_id_reader_def
    handle_get_validator_reader_def handle_get_delegator_reader_def
    handle_get_withdrawal_request_reader_def handle_get_validator_set_reader_def
    handle_get_delegations_reader_def handle_get_delegators_reader_def Let_def
  by (intro priced_intro ends_intros)+

text \<open>The methods that take a value: the payable ones, and syscallReward, which reads it.\<close>

definition takes_value :: "selector \<Rightarrow> bool" where
  "takes_value sel \<longleftrightarrow> is_payable_selector sel \<or> sel = SEL_syscallReward"

lemma takes_value_simps [simp]:
  "takes_value SEL_delegate" "takes_value SEL_addValidator" "takes_value SEL_externalReward"
  "takes_value SEL_syscallReward" "\<not> takes_value SEL_changeCommission" "\<not> takes_value SEL_claimRewards"
  "\<not> takes_value SEL_undelegate" "\<not> takes_value SEL_withdraw" "\<not> takes_value SEL_compound"
  "\<not> takes_value SEL_syscallSnapshot" "\<not> takes_value SEL_syscallOnEpochChange"
  "\<not> takes_value SEL_getDelegator" "\<not> takes_value SEL_getEpoch" "\<not> takes_value SEL_getProposerValId"
  "\<not> takes_value SEL_getValidator" "\<not> takes_value SEL_getWithdrawalRequest"
  "\<not> takes_value SEL_getConsensusValidatorSet" "\<not> takes_value SEL_getSnapshotValidatorSet"
  "\<not> takes_value SEL_getExecutionValidatorSet" "\<not> takes_value SEL_getDelegations"
  "\<not> takes_value SEL_getDelegators"
  by (simp_all add: takes_value_def is_payable_selector_def selector_defs)

definition guarded_handler :: "selector \<Rightarrow> u64 \<Rightarrow> u256 \<Rightarrow> (u64 \<times> bytes) action \<Rightarrow> bool" where
  "guarded_handler sel gas x m \<longleftrightarrow> (\<exists>g m'. method_gas sel = Some g \<and> priced g gas m' \<and>
     m = (if takes_value sel then m' else seqc (function_not_payable x) m'))"

lemma guarded_intros:
  "method_gas sel = Some g \<Longrightarrow> takes_value sel \<Longrightarrow> priced g gas m \<Longrightarrow> guarded_handler sel gas x m"
  "method_gas sel = Some g \<Longrightarrow> \<not> takes_value sel \<Longrightarrow> priced g gas m \<Longrightarrow>
     guarded_handler sel gas x (seqc (function_not_payable x) m)"
  "method_gas sel = Some g \<Longrightarrow> \<not> takes_value sel \<Longrightarrow> priced g gas m \<Longrightarrow>
     guarded_handler sel gas x (seqc (function_not_payable_read x) m)"
  by (auto simp: guarded_handler_def function_not_payable_read_def function_not_payable_def)

lemma guarded:
  "staking_handler A sel input gas c x = Some m \<Longrightarrow> guarded_handler sel gas x m"
  unfolding staking_handler_def write_handler_def read_handler_reader_def Let_def
  by (auto split: if_splits)
    (rule guarded_intros, rule method_gas_simps, rule takes_value_simps,
      rule write_handlers_priced read_handlers_priced)+

section \<open>The outcome of a plain call\<close>

definition plain_call :: "call_inputs \<Rightarrow> bool" where
  "plain_call inputs \<longleftrightarrow> ci_bytecode_address inputs = STAKING_ADDRESS \<and>
     ci_scheme inputs = CallScheme_Call \<and> \<not> ci_is_static inputs"

definition method_of :: "(nat \<times> nat \<Rightarrow> bytes option) \<Rightarrow> call_inputs \<Rightarrow> selector option" where
  "method_of shared inputs = (case selector_of (input_bytes_of shared (ci_input inputs)) of
     None \<Rightarrow> None | Some sel \<Rightarrow> if method_gas sel = None then None else Some sel)"

lemma plain_call_unknown:
  assumes "plain_call inputs" and "method_of shared inputs = None"
  shows "run_staking_precompile A G shared inputs s = (Some (fallback_result G (ci_gas_limit inputs)), s)"
proof -
  let ?input = "input_bytes_of shared (ci_input inputs)"
  have none: "selector_of ?input = Some sel \<Longrightarrow> staking_handler A sel ?input (ci_gas_limit inputs)
      (ci_caller inputs) (ci_call_value inputs) = None" for sel
    using assms(2) by (auto simp: method_of_def staking_handler_None split: if_splits)
  show ?thesis
    using assms(1) none
    by (cases "selector_of ?input")
      (auto simp: precompile_split plain_call_def run_staking_with_reader_def run_staking_write_def
        staking_handler_def fallbacks_agree Let_def)
qed

lemma plain_call_known:
  assumes "plain_call inputs" and "method_of shared inputs = Some sel"
  obtains m where "staking_handler A sel (input_bytes_of shared (ci_input inputs)) (ci_gas_limit inputs)
      (ci_caller inputs) (ci_call_value inputs) = Some m"
    and "guarded_handler sel (ci_gas_limit inputs) (ci_call_value inputs) m"
    and "run_staking_precompile A G shared inputs s =
      (case m s of (r, t) \<Rightarrow> (Some (result_of A G (ci_gas_limit inputs) r), t))"
proof -
  let ?input = "input_bytes_of shared (ci_input inputs)"
  let ?h = "staking_handler A sel ?input (ci_gas_limit inputs) (ci_caller inputs) (ci_call_value inputs)"
  have sel: "selector_of ?input = Some sel" and known: "method_gas sel \<noteq> None"
    using assms(2) by (auto simp: method_of_def split: option.splits if_splits)
  from known obtain m where m: "?h = Some m"
    using staking_handler_None by (metis not_None_eq)
  have "run_staking_precompile A G shared inputs s =
      (case m s of (r, t) \<Rightarrow> (Some (result_of A G (ci_gas_limit inputs) r), t))"
    using assms(1) sel m
    by (auto simp: precompile_split plain_call_def run_staking_with_reader_def run_staking_write_def
        staking_handler_def Let_def split: prod.splits)
  then show thesis by (rule that [OF m guarded [OF m]])
qed

lemma not_plain_call:
  assumes "\<not> plain_call inputs" and "run_staking_precompile A G shared inputs s = (Some r, t)"
  shows "t = s" and "ir_result r = Revert" and "ir_gas_limit r = ci_gas_limit inputs"
    and "ir_gas_remaining r = ci_gas_limit inputs"
  using assms by (auto simp: precompile_split plain_call_def split: if_splits)

lemma result_gas:
  assumes "meter_ok G"
  shows "ir_gas_limit (result_of A G gas r) = gas"
    and "ir_result (result_of A G gas r) = Return \<longleftrightarrow> (\<exists>g out. r = Inr (g, out) \<and> g \<le> gas)"
    and "g \<le> gas \<Longrightarrow> ir_gas_remaining (result_of A G gas (Inr (g, out))) = gas - g"
    and "ir_gas_remaining (result_of A G gas (Inl e)) = 0"
  using assms by (auto simp: result_of_def meter_ok_def split: sum.splits)

section \<open>Properties\<close>


text \<open>A plain call of no known method, or with less than four bytes of input, reverts with the
  text "method not supported" and consumes all its gas; below the fallback price it runs out of
  gas. Nothing changes.\<close>

theorem unknown_method_rejected:
  assumes "meter_ok G" and "plain_call inputs" and "method_of shared inputs = None"
  shows "run_staking_precompile A G shared inputs s =
    (Some (if ci_gas_limit inputs < GAS_FALLBACK
           then \<lparr>ir_result = PrecompileOOG, ir_gas_limit = ci_gas_limit inputs,
                 ir_gas_remaining = ci_gas_limit inputs, ir_output = []\<rparr>
           else \<lparr>ir_result = Revert, ir_gas_limit = ci_gas_limit inputs, ir_gas_remaining = 0,
                 ir_output = method_not_supported\<rparr>), s)"
  using plain_call_unknown [OF assms(2,3)] assms(1) by (simp add: fallback_result_def meter_ok_def)

text \<open>C38: a method that takes no value called with one reverts, and a call given less than the price
  of its method runs out of gas; both before the handler does anything, so that the state is
  untouched, and at the price of all the gas.\<close>

theorem rejected_at_the_door:
  assumes "meter_ok G" and "plain_call inputs" and "method_of shared inputs = Some sel"
    and "method_gas sel = Some g"
    and "if takes_value sel then ci_gas_limit inputs < g
         else ci_call_value inputs \<noteq> 0 \<or> ci_gas_limit inputs < g"
  shows "\<exists>r. run_staking_precompile A G shared inputs s = (Some r, s) \<and> ir_gas_remaining r = 0 \<and>
    ir_result r = (if \<not> takes_value sel \<and> ci_call_value inputs \<noteq> 0
      then Revert else PrecompileOOG)"
proof -
  from plain_call_known [OF assms(2,3), of A G s]
  obtain m where h: "guarded_handler sel (ci_gas_limit inputs) (ci_call_value inputs) m"
    and run: "run_staking_precompile A G shared inputs s =
        (case m s of (r, t) \<Rightarrow> (Some (result_of A G (ci_gas_limit inputs) r), t))"
    by metis
  have "m s = (Inl (if \<not> takes_value sel \<and> ci_call_value inputs \<noteq> 0 then Other ''value non-zero''
      else OutOfGas), s)"
    using h assms(4,5)
    by (auto simp: guarded_handler_def priced_def function_not_payable_def bindc_apply split: if_splits)
  then show ?thesis
    using assms(1) by (auto simp: run result_of_def meter_ok_def)
qed

section \<open>What a call can change\<close>

lemma snapshot_balances [frame_intros]:
  "preserves same_balances (snapshot_clear_old n)" "preserves same_balances (snapshot_copy_consensus n)"
  "preserves same_balances (snapshot_clear_consensus n)" "preserves same_balances (snapshot_candidates n)"
  "preserves same_balances (snapshot_removals n)" "preserves same_balances (snapshot_write_consensus c)"
  unfolding snapshot_clear_old_def snapshot_copy_consensus_def snapshot_clear_consensus_def
    snapshot_candidates_def snapshot_removals_def read_flags_def snapshot_write_consensus_def Let_def
  by (intro pres_all frame_intros | simp split: prod.splits)+

lemma snapshot_compact_balances [frame_intros]: "preserves same_balances (snapshot_compact is n)"
proof (induction "is" n rule: snapshot_compact.induct)
  case (1 n)
  show ?case unfolding snapshot_compact.simps by (intro pres_all)
next
  case (2 i "is" n)
  show ?case unfolding snapshot_compact.simps Let_def by (intro pres_all frame_intros 2 refl)
qed

lemma epoch_change_balances [frame_intros]: "preserves same_balances (epoch_change_validators n e e')"
  unfolding epoch_change_validators_def epoch_change_accumulator_def Let_def
  by (intro pres_all frame_intros)+

lemma undelegate_amount_balances [frame_intros]:
  "preserves same_balances (undelegate_amount A v a w x acc d)"
  unfolding undelegate_amount_def Let_def by (intro pres_all frame_intros)

lemma handlers_balances:
  "preserves same_balances (handle_change_commission A input gas c)"
  "preserves same_balances (handle_external_reward A input gas c x)"
  "preserves same_balances (handle_delegate A input gas c x)"
  "preserves same_balances (handle_undelegate A input gas c)"
  "preserves same_balances (handle_compound A input gas c)"
  "preserves same_balances (handle_add_validator A input gas c x)"
  "preserves same_balances (handle_get_delegator_write A input gas)"
  "preserves same_balances (handle_syscall_reward A input gas c x)"
  "preserves same_balances (handle_syscall_snapshot A input gas c)"
  "preserves same_balances (handle_syscall_on_epoch_change A input gas c)"
  "preserves same_balances (function_not_payable x :: (host, unit) comp)"
  unfolding write_handler_defs function_not_payable_def emit_claim_rewards_def Let_def
  by (intro pres_all frame_intros)+

text \<open>The cells of the epoch clock, the proposer and the consensus and snapshot sets.\<close>

definition system_cells :: "cell_id set" where
  "system_cells = {CEpoch, CInBoundary, CProposer} \<union> range CConsensus \<union> range CSnapshot
     \<union> range (case_prod CConsensusView) \<union> range (case_prod CSnapshotView)"

lemma user_cells:
  "pull_cells v a \<subseteq> - system_cells" "delegate_cells v a \<subseteq> - system_cells"
  "delegator_cells k \<subseteq> - system_cells" "withdrawal_cells k3 \<subseteq> - system_cells" "acc_cells v \<subseteq> - system_cells"
  "all_node_cells \<subseteq> - system_cells" "validator_cells v \<subseteq> - system_cells" "CValidator v j \<in> - system_cells"
  "CLastValId \<in> - system_cells" "CValIdSecp b \<in> - system_cells" "CValIdBls b \<in> - system_cells"
  by (auto simp: system_cells_def pull_cells_def delegate_cells_def acc_cells_def region_cells
      valset_cells_def all_node_cells_def)

lemma user_handlers_touch:
  "preserves (touches (- system_cells)) (handle_change_commission A input gas c)"
  "preserves (touches (- system_cells)) (handle_claim_rewards A input gas c)"
  "preserves (touches (- system_cells)) (handle_external_reward A input gas c x)"
  "preserves (touches (- system_cells)) (handle_delegate A input gas c x)"
  "preserves (touches (- system_cells)) (handle_undelegate A input gas c)"
  "preserves (touches (- system_cells)) (handle_withdraw A input gas c)"
  "preserves (touches (- system_cells)) (handle_compound A input gas c)"
  "preserves (touches (- system_cells)) (handle_add_validator A input gas c x)"
  "preserves (touches (- system_cells)) (handle_get_delegator_write A input gas)"
  "preserves (touches (- system_cells)) (function_not_payable y :: (host, unit) comp)"
  unfolding write_handler_defs function_not_payable_def emit_claim_rewards_def Let_def
  by (intro pres_all frame_intros user_cells; auto simp: user_cells key_folds simp del: Compl_iff)+

lemma handler_steps:
  assumes "staking_handler A sel input gas c x = Some m" and "m s = (r, t)"
  shows "sel \<noteq> SEL_withdraw \<Longrightarrow> sel \<noteq> SEL_claimRewards \<Longrightarrow> balances t = balances s"
    and "\<not> is_syscall_selector sel \<Longrightarrow> touches (- system_cells) s t"
proof -
  have quiet: "t = s" if "\<not> is_write_selector sel"
    using assms that journal.quiet_read_handler [of A sel input gas x m]
    by (auto simp: staking_handler_def dest: preservesD)
  have "preserves same_balances m" if "is_write_selector sel" "sel \<noteq> SEL_withdraw" "sel \<noteq> SEL_claimRewards"
    using assms(1) that
    by (auto simp: staking_handler_def write_handler_def split: if_splits
        intro!: money.pres_bindc handlers_balances)
  then show "sel \<noteq> SEL_withdraw \<Longrightarrow> sel \<noteq> SEL_claimRewards \<Longrightarrow> balances t = balances s"
    using quiet assms(2) by (cases "is_write_selector sel") (auto dest: preservesD simp: same_balances_def)
  have "preserves (touches (- system_cells)) m" if "is_write_selector sel" "\<not> is_syscall_selector sel"
    using assms(1) that
    by (auto simp: staking_handler_def write_handler_def is_syscall_selector_def split: if_splits
        intro!: frame.pres_bindc user_handlers_touch)
  then show "\<not> is_syscall_selector sel \<Longrightarrow> touches (- system_cells) s t"
    using quiet assms(2) frame.step_refl by (cases "is_write_selector sel") (auto dest: preservesD)
qed

lemma syscall_door:
  assumes "c \<noteq> SYSTEM_ADDRESS" and "is_syscall_selector sel"
    and "staking_handler A sel input gas c x = Some m"
  shows "\<exists>e. m s = (Inl e, s)"
proof -
  have calls: "write_handler A SEL_syscallReward input gas c x = Some (handle_syscall_reward A input gas c x)"
    "write_handler A SEL_syscallSnapshot input gas c x =
       Some (seqc (function_not_payable x) (handle_syscall_snapshot A input gas c))"
    "write_handler A SEL_syscallOnEpochChange input gas c x =
       Some (seqc (function_not_payable x) (handle_syscall_on_epoch_change A input gas c))"
    by (simp_all add: write_handler_def selector_defs)
  have "write_handler A sel input gas c x = Some m"
    using assms(2,3) by (auto simp: staking_handler_def is_write_selector_def is_syscall_selector_def)
  with assms(1,2) calls show ?thesis
    by (auto simp: is_syscall_selector_def require_def bindc_apply handle_syscall_reward_def
        handle_syscall_snapshot_def handle_syscall_on_epoch_change_def function_not_payable_def)
qed

text \<open>only the system address can make a system call: from anybody else syscallReward,
  syscallSnapshot and syscallOnEpochChange fail, at the price of all the gas and with the state
  untouched.\<close>

theorem syscalls_need_system_address:
  assumes "meter_ok G" and "plain_call inputs" and "method_of shared inputs = Some sel"
    and "is_syscall_selector sel" and "ci_caller inputs \<noteq> SYSTEM_ADDRESS"
  shows "\<exists>r. run_staking_precompile A G shared inputs s = (Some r, s) \<and> ir_result r \<noteq> Return \<and>
    ir_gas_remaining r = 0"
proof -
  from plain_call_known [OF assms(2,3), of A G s] obtain m where
    m: "staking_handler A sel (input_bytes_of shared (ci_input inputs)) (ci_gas_limit inputs)
      (ci_caller inputs) (ci_call_value inputs) = Some m"
    and run: "run_staking_precompile A G shared inputs s =
        (case m s of (r, t) \<Rightarrow> (Some (result_of A G (ci_gas_limit inputs) r), t))"
    by metis
  obtain e where "m s = (Inl e, s)" using syscall_door [OF assms(5,4) m] by blast
  then show ?thesis using result_gas [OF assms(1)] by (simp add: run)
qed


text \<open>Every selector has exactly one class: the 21 selectors are different, a method has a price
  exactly if one of the two modules handles it, no selector is handled by both, the payable methods
  and the system calls are write methods and no method is both.\<close>

theorem selector_classes:
  "distinct (map fst gas_table) \<and>
   (method_gas sel = None \<longleftrightarrow> staking_handler A sel input gas c x = None) \<and>
   (is_write_selector sel \<longleftrightarrow> write_handler A sel input gas c x \<noteq> None) \<and>
   (is_payable_selector sel \<longrightarrow> is_write_selector sel) \<and>
   (is_syscall_selector sel \<longrightarrow> is_write_selector sel \<and> \<not> is_payable_selector sel)"
proof -
  have "is_write_selector sel \<longleftrightarrow> write_handler A sel input gas c x \<noteq> None"
    unfolding write_handler_def if_None is_write_selector_def by blast
  moreover have "distinct (map fst gas_table)" by (simp add: gas_table_def selector_defs)
  moreover have "is_syscall_selector sel \<Longrightarrow> \<not> is_payable_selector sel"
    by (auto simp: is_syscall_selector_def is_payable_selector_def) (simp_all add: selector_defs)
  ultimately show ?thesis
    by (auto simp: staking_handler_None is_write_selector_def is_payable_selector_def is_syscall_selector_def)
qed

section \<open>Witnesses\<close>

definition example_call :: "bytes \<Rightarrow> u64 \<Rightarrow> address \<Rightarrow> u256 \<Rightarrow> call_inputs" where
  "example_call input gas caller value = \<lparr>ci_bytecode_address = STAKING_ADDRESS,
     ci_scheme = CallScheme_Call, ci_is_static = False, ci_gas_limit = gas, ci_input = InputBytes input,
     ci_caller = caller, ci_call_value = value\<rparr>"

lemma example_call_simps [simp]:
  "plain_call (example_call input gas caller value)"
  "ci_gas_limit (example_call input gas caller value) = gas"
  "ci_caller (example_call input gas caller value) = caller"
  "ci_call_value (example_call input gas caller value) = value"
  "method_of shared (example_call input gas caller value) = (case selector_of input of
     None \<Rightarrow> None | Some sel \<Rightarrow> if method_gas sel = None then None else Some sel)"
  by (simp_all add: example_call_def plain_call_def method_of_def input_bytes_of_def)

lemma selector_of_call [simp]: "length sel = 4 \<Longrightarrow> selector_of (sel @ rest) = Some sel"
  "length sel = 4 \<Longrightarrow> selector_of sel = Some sel"
  by (simp_all add: selector_of_def)

lemma plain_meter_ok [simp]: "meter_ok plain_meter"
  by (simp add: meter_ok_def plain_meter_def)

lemma get_epoch_example:
  "run_staking_precompile word_abi plain_meter Map.empty (example_call SEL_getEpoch 500 8 0) delegate_example
     = (Some \<lparr>ir_result = Return, ir_gas_limit = 500, ir_gas_remaining = 300,
             ir_output = word_data 5\<rparr>, delegate_example)"
proof -
  have "length SEL_getEpoch = 4" "\<not> is_write_selector SEL_getEpoch"
    by (simp_all add: selector_defs is_write_selector_def)
  then show ?thesis
    using journal.reads_epoch_info [of delegate_example]
    by (simp add: precompile_split example_call_def input_bytes_of_def run_staking_with_reader_def
        read_handler_reader_def function_not_payable_read_def bindc_apply handle_get_epoch_reader_def
        require_def GAS_GET_EPOCH_def result_of_def plain_meter_def word_abi_def)
qed


theorem unknown_method_rejected_witness:
  "fst (run_staking_precompile word_abi plain_meter Map.empty (example_call [1, 2, 3] 40000 8 7) delegate_example)
   = Some \<lparr>ir_result = Revert, ir_gas_limit = 40000, ir_gas_remaining = 0, ir_output = method_not_supported\<rparr>"
  using unknown_method_rejected [of plain_meter "example_call [1, 2, 3] 40000 8 7" Map.empty word_abi delegate_example]
  by (simp add: selector_of_def GAS_FALLBACK_def)

theorem rejected_at_the_door_witness:
  "\<exists>r. run_staking_precompile word_abi plain_meter Map.empty (example_call SEL_withdraw 500000 8 7)
      delegate_example = (Some r, delegate_example) \<and> ir_result r = Revert"
  using rejected_at_the_door [of plain_meter "example_call SEL_withdraw 500000 8 7" Map.empty SEL_withdraw
      GAS_WITHDRAW word_abi delegate_example]
  by auto

theorem syscalls_need_system_address_witness:
  "\<exists>r. run_staking_precompile word_abi plain_meter Map.empty
      (example_call SEL_syscallSnapshot GAS_SYSCALL_SNAPSHOT (SYSTEM_ADDRESS + 1) 0) delegate_example
      = (Some r, delegate_example) \<and> ir_result r \<noteq> Return"
  using syscalls_need_system_address [of plain_meter "example_call SEL_syscallSnapshot
      GAS_SYSCALL_SNAPSHOT (SYSTEM_ADDRESS + 1) 0" Map.empty SEL_syscallSnapshot word_abi delegate_example]
  by (auto simp: is_syscall_selector_def)


theorem selector_classes_witness:
  "is_write_selector SEL_delegate \<and> is_write_selector SEL_syscallReward \<and> \<not> is_payable_selector SEL_syscallReward"
  using selector_classes [of SEL_delegate word_abi "[]" 0 0 0] selector_classes [of SEL_syscallReward word_abi "[]" 0 0 0]
  by (auto simp: is_payable_selector_def is_syscall_selector_def)
end
