(* ===== verification/Lifecycle.thy ===== *)
theory Lifecycle
  imports Calls
begin

text \<open>
  The block lifecycle helpers of \<open>api/block.rs\<close>: the call data of the three system calls and
  the functions that make them, alone or, at an epoch boundary, one after the other.

  The encoders are generated by the sol! macro and the system call is revm's; both are
  parameters. A system call is documented to call the contract with the data, without value,
  and to keep the changes of the call exactly when it returns.
\<close>

section \<open>Call data\<close>

record call_encoder =
  enc_syscallRewardCall :: "address \<Rightarrow> bytes"
  enc_syscallSnapshotCall :: bytes
  enc_syscallOnEpochChangeCall :: "u64 \<Rightarrow> bytes"

text \<open>The generated coders agree: the encoding starts with the selector, takes one word per
  argument, and the decoder, which does not look behind the arguments, gives them back.\<close>

definition encoder_ok :: "abi \<Rightarrow> call_encoder \<Rightarrow> bool" where
  "encoder_ok A E \<longleftrightarrow>
     (\<forall>a. length (enc_syscallRewardCall E a) = 36 \<and> take 4 (enc_syscallRewardCall E a) = SEL_syscallReward \<and>
        (\<forall>rest. dec_syscallReward A (drop 4 (enc_syscallRewardCall E a) @ rest) = Inr a)) \<and>
     enc_syscallSnapshotCall E = SEL_syscallSnapshot \<and>
     (\<forall>e. take 4 (enc_syscallOnEpochChangeCall E e) = SEL_syscallOnEpochChange \<and>
        4 \<le> length (enc_syscallOnEpochChangeCall E e) \<and>
        dec_syscallOnEpochChange A (drop 4 (enc_syscallOnEpochChangeCall E e)) = Inr e)"

definition syscall_reward_calldata :: "call_encoder \<Rightarrow> address \<Rightarrow> u256 \<Rightarrow> bytes" where
  "syscall_reward_calldata E block_author block_reward =
     (let data = enc_syscallRewardCall E block_author;
          data = data @ to_be_bytes 32 block_reward
      in data)"

definition syscall_snapshot_calldata :: "call_encoder \<Rightarrow> bytes" where
  "syscall_snapshot_calldata E = enc_syscallSnapshotCall E"

definition syscall_on_epoch_change_calldata :: "call_encoder \<Rightarrow> u64 \<Rightarrow> bytes" where
  "syscall_on_epoch_change_calldata E new_epoch = enc_syscallOnEpochChangeCall E new_epoch"

section \<open>System calls\<close>

text \<open>\<open>system_call_one_with_caller\<close>: caller, contract, data.\<close>

type_synonym 'e system_call = "address \<Rightarrow> address \<Rightarrow> bytes \<Rightarrow> host \<Rightarrow> ('e + interpreter_result) \<times> host"

definition system_inputs :: "u64 \<Rightarrow> address \<Rightarrow> bytes \<Rightarrow> call_inputs" where
  "system_inputs gas caller data = \<lparr>ci_bytecode_address = STAKING_ADDRESS,
     ci_scheme = CallScheme_Call, ci_is_static = False, ci_gas_limit = gas,
     ci_input = InputBytes data, ci_caller = caller, ci_call_value = 0\<rparr>"

definition system_call_ok ::
    "abi \<Rightarrow> gas_meter \<Rightarrow> (nat \<times> nat \<Rightarrow> bytes option) \<Rightarrow> u64 \<Rightarrow> 'e system_call \<Rightarrow> bool" where
  "system_call_ok A G shared gas sc \<longleftrightarrow>
     (\<forall>caller data s ir t.
        run_staking_precompile A G shared (system_inputs gas caller data) s = (Some ir, t) \<longrightarrow>
        sc caller STAKING_ADDRESS data s = (Inr ir, if ir_result ir = Return then t else s))"

definition apply_syscall_reward ::
    "call_encoder \<Rightarrow> 'e system_call \<Rightarrow> address \<Rightarrow> u256 \<Rightarrow> host \<Rightarrow> ('e + interpreter_result) \<times> host" where
  "apply_syscall_reward E sc block_author block_reward =
     (let data = syscall_reward_calldata E block_author block_reward in
      sc SYSTEM_ADDRESS STAKING_ADDRESS data)"

definition apply_syscall_snapshot ::
    "call_encoder \<Rightarrow> 'e system_call \<Rightarrow> host \<Rightarrow> ('e + interpreter_result) \<times> host" where
  "apply_syscall_snapshot E sc =
     (let data = syscall_snapshot_calldata E in sc SYSTEM_ADDRESS STAKING_ADDRESS data)"

definition apply_syscall_on_epoch_change ::
    "call_encoder \<Rightarrow> 'e system_call \<Rightarrow> u64 \<Rightarrow> host \<Rightarrow> ('e + interpreter_result) \<times> host" where
  "apply_syscall_on_epoch_change E sc new_epoch =
     (let data = syscall_on_epoch_change_calldata E new_epoch in
      sc SYSTEM_ADDRESS STAKING_ADDRESS data)"

text \<open>Both calls are made, whatever the first one answers; only an error of the EVM itself
  returns early.\<close>

definition apply_epoch_boundary ::
    "call_encoder \<Rightarrow> 'e system_call \<Rightarrow> u64 \<Rightarrow> host \<Rightarrow>
     ('e + interpreter_result \<times> interpreter_result) \<times> host" where
  "apply_epoch_boundary E sc new_epoch s =
     (case apply_syscall_snapshot E sc s of
        (Inl e, s) \<Rightarrow> (Inl e, s)
      | (Inr snapshot_result, s) \<Rightarrow>
          (case apply_syscall_on_epoch_change E sc new_epoch s of
             (Inl e, s) \<Rightarrow> (Inl e, s)
           | (Inr epoch_change_result, s) \<Rightarrow> (Inr (snapshot_result, epoch_change_result), s)))"

section \<open>Running the handlers\<close>

lemma system_handler_run:
  assumes sel: "selector_of data = Some sel" and w: "is_write_selector sel"
    and h: "write_handler A sel data gas caller 0 = Some m"
    and r: "m s = (Inr (g, []), t)" and G: "meter_ok G" and gas: "g \<le> gas"
    and sc: "system_call_ok A G shared gas sc"
  obtains ir where "sc caller STAKING_ADDRESS data s = (Inr ir, t)" and "ir_result ir = Return"
    and "ir_gas_remaining ir = gas - g"
proof -
  let ?ir = "result_of A G gas (Inr (g, []))"
  have "run_staking_write A G data gas caller 0 s = (?ir, t)"
    by (simp add: run_staking_write_def sel h r)
  then have "run_staking_precompile A G shared (system_inputs gas caller data) s = (Some ?ir, t)"
    by (simp add: precompile_split system_inputs_def input_bytes_of_def sel w)
  then have "sc caller STAKING_ADDRESS data s = (Inr ?ir, if ir_result ?ir = Return then t else s)"
    using sc unfolding system_call_ok_def by blast
  moreover have "ir_result ?ir = Return" "ir_gas_remaining ?ir = gas - g"
    using G gas by (simp_all add: result_of_def meter_ok_def)
  ultimately show thesis using that by simp
qed

lemma system_selectors:
  "write_handler A SEL_syscallReward data gas c x = Some (handle_syscall_reward A data gas c x)"
  "write_handler A SEL_syscallSnapshot data gas c x =
     Some (seqc (function_not_payable x) (handle_syscall_snapshot A data gas c))"
  "write_handler A SEL_syscallOnEpochChange data gas c x =
     Some (seqc (function_not_payable x) (handle_syscall_on_epoch_change A data gas c))"
  "is_write_selector SEL_syscallReward" "is_write_selector SEL_syscallSnapshot"
  "is_write_selector SEL_syscallOnEpochChange"
  by (simp_all add: write_handler_def is_write_selector_def selector_defs)

lemma selector_of_take: "4 \<le> length data \<Longrightarrow> selector_of data = Some (take 4 data)"
  by (simp add: selector_of_def)

lemma snapshot_call:
  assumes E: "encoder_ok A E" and sc: "system_call_ok A G shared gas sc" and G: "meter_ok G"
    and gas: "GAS_SYSCALL_SNAPSHOT \<le> gas" and ok: "backend_ok s"
    and nb: "\<not> in_boundary_at (store s)"
  obtains ir st where "apply_syscall_snapshot E sc s = (Inr ir, s\<lparr>store := st\<rparr>)"
    and "ir_result ir = Return"
    and "\<And>c. c \<notin> valset_cells \<Longrightarrow> st (key_of c) = snapshot_store (store s) (key_of c)"
proof -
  let ?d = "syscall_snapshot_calldata E"
  have d: "?d = SEL_syscallSnapshot" using E by (simp add: syscall_snapshot_calldata_def encoder_ok_def)
  have sel: "selector_of ?d = Some SEL_syscallSnapshot" by (simp add: d selector_of_def)
  obtain st where run: "handle_syscall_snapshot A ?d gas SYSTEM_ADDRESS s
      = (Inr (GAS_SYSCALL_SNAPSHOT, []), s\<lparr>store := st\<rparr>)"
    and st: "\<And>c. c \<notin> valset_cells \<Longrightarrow> st (key_of c) = snapshot_store (store s) (key_of c)"
    using snapshot_obtains_sets [OF ok gas nb] by blast
  then have "seqc (function_not_payable 0) (handle_syscall_snapshot A ?d gas SYSTEM_ADDRESS) s
      = (Inr (GAS_SYSCALL_SNAPSHOT, []), s\<lparr>store := st\<rparr>)"
    by (simp add: past_value)
  from system_handler_run [OF sel system_selectors(5) system_selectors(2) this G gas sc]
  obtain ir where "sc SYSTEM_ADDRESS STAKING_ADDRESS ?d s = (Inr ir, s\<lparr>store := st\<rparr>)"
    and "ir_result ir = Return" by blast
  then show thesis using st by (intro that [of ir st]) (simp_all add: apply_syscall_snapshot_def)
qed

lemma epoch_change_call:
  assumes E: "encoder_ok A E" and sc: "system_call_ok A G shared gas sc" and G: "meter_ok G"
    and gas: "GAS_SYSCALL_ON_EPOCH_CHANGE \<le> gas" and ok: "backend_ok s"
    and e: "u64_at (store s) CEpoch < e"
  obtains ir t where "apply_syscall_on_epoch_change E sc e s = (Inr ir, t)"
    and "ir_result ir = Return" and "store t = epoch_change_store e (store s)"
    and "balances t = balances s" and "backend_ok t"
proof -
  let ?d = "syscall_on_epoch_change_calldata E e"
  have d: "take 4 ?d = SEL_syscallOnEpochChange" "4 \<le> length ?d"
    "dec_syscallOnEpochChange A (drop 4 ?d) = Inr e"
    using E by (simp_all add: syscall_on_epoch_change_calldata_def encoder_ok_def)
  have sel: "selector_of ?d = Some SEL_syscallOnEpochChange" using d by (simp add: selector_of_take)
  obtain l where run: "handle_syscall_on_epoch_change A ?d gas SYSTEM_ADDRESS s
      = (Inr (GAS_SYSCALL_ON_EPOCH_CHANGE, []),
         s\<lparr>store := epoch_change_store e (store s), logs := logs s @ [l]\<rparr>)" (is "_ = (_, ?t)")
    using epoch_change_ok [OF ok d(3) gas e] by blast
  then have "seqc (function_not_payable 0) (handle_syscall_on_epoch_change A ?d gas SYSTEM_ADDRESS) s
      = (Inr (GAS_SYSCALL_ON_EPOCH_CHANGE, []), ?t)"
    by (simp add: past_value)
  from system_handler_run [OF sel system_selectors(6) system_selectors(3) this G gas sc]
  obtain ir where "sc SYSTEM_ADDRESS STAKING_ADDRESS ?d s = (Inr ir, ?t)"
    and "ir_result ir = Return" by blast
  then show thesis
    using ok by (intro that [of ir ?t]) (simp_all add: apply_syscall_on_epoch_change_def backend_ok_def)
qed

lemma epoch_change_store_views:
  "u64_at (epoch_change_store e st) CEpoch = e"
  "\<not> in_boundary_at (epoch_change_store e st)"
  "array_at (epoch_change_store e st) CSnapshot = array_at st CSnapshot"
  "array_at (epoch_change_store e st) CConsensus = array_at st CConsensus"
  "validator_at (epoch_change_store e st) v = validator_at st v"
proof -
  have same: "epoch_change_store e st (key_of c) = st (key_of c)"
    if "c \<notin> {CEpoch, CInBoundary}" "\<And>d w k. c \<noteq> CAccumulator d w k" for c
    using that unfolding epoch_change_store_def put_u64_def
    by (auto simp: cell_simps intro!: refresh_all_other)
  show "u64_at (epoch_change_store e st) CEpoch = e" "\<not> in_boundary_at (epoch_change_store e st)"
    by (simp_all add: epoch_change_store_def cell_simps in_boundary_at_def)
  show "array_at (epoch_change_store e st) CSnapshot = array_at st CSnapshot"
    "array_at (epoch_change_store e st) CConsensus = array_at st CConsensus"
    "validator_at (epoch_change_store e st) v = validator_at st v"
    by (simp_all add: array_at_def u64_at_def validator_at_def keys_at_def same)
qed

lemma epoch_change_store_accumulator:
  "accumulator_at (epoch_change_store e st) (d, v) = accumulator_at (refresh_all e (e + 1) (array_at st CSnapshot) st) (d, v)"
  by (simp add: epoch_change_store_def cell_simps)

lemma snapshot_keeps:
  assumes "\<And>c. c \<notin> valset_cells \<Longrightarrow> st (key_of c) = snapshot_store st0 (key_of c)"
  shows "accumulator_at st k = accumulator_at st0 k" and "u64_at st CEpoch = u64_at st0 CEpoch"
proof -
  have same: "st (key_of c) = st0 (key_of c)"
    if "c = CEpoch \<or> (\<exists>d v k. c = CAccumulator d v k)" for c
  proof -
    have "c \<notin> valset_cells" using that by (auto simp: valset_cells_def)
    then show ?thesis
      using that by (auto simp: assms snapshot_store_def
          rotate_consensus_views(5) [OF length_chosen(1)] rotate_snapshot_views(5))
  qed
  show "accumulator_at st k = accumulator_at st0 k" "u64_at st CEpoch = u64_at st0 CEpoch"
    by (cases k, simp add: accumulator_at_def same) (simp add: u64_at_def same)
qed

lemma epoch_boundary_run:
  assumes E: "encoder_ok A E" and sc: "system_call_ok A G shared gas sc" and G: "meter_ok G"
    and gas: "GAS_SYSCALL_SNAPSHOT \<le> gas" and ok: "backend_ok s"
    and nb: "\<not> in_boundary_at (store s)" and e: "u64_at (store s) CEpoch < e"
  obtains r1 r2 st t where "apply_epoch_boundary E sc e s = (Inr (r1, r2), t)"
    and "ir_result r1 = Return" and "ir_result r2 = Return"
    and "\<And>c. c \<notin> valset_cells \<Longrightarrow> st (key_of c) = snapshot_store (store s) (key_of c)"
    and "store t = epoch_change_store e st" and "balances t = balances s" and "backend_ok t"
proof -
  obtain r1 st where a: "apply_syscall_snapshot E sc s = (Inr r1, s\<lparr>store := st\<rparr>)"
    and r1: "ir_result r1 = Return"
    and st: "\<And>c. c \<notin> valset_cells \<Longrightarrow> st (key_of c) = snapshot_store (store s) (key_of c)"
    by (rule snapshot_call [OF E sc G gas ok nb]) blast
  have gas': "GAS_SYSCALL_ON_EPOCH_CHANGE \<le> gas"
    using gas by (rule order_trans [rotated])
      (simp add: GAS_SYSCALL_ON_EPOCH_CHANGE_def GAS_SYSCALL_SNAPSHOT_def)
  have ok': "backend_ok (s\<lparr>store := st\<rparr>)" using ok by (simp add: backend_ok_def)
  have "u64_at st CEpoch < e" using e by (simp add: snapshot_keeps(2) [OF st])
  then have e': "u64_at (store (s\<lparr>store := st\<rparr>)) CEpoch < e" by simp
  obtain r2 t where "apply_syscall_on_epoch_change E sc e (s\<lparr>store := st\<rparr>) = (Inr r2, t)"
    and "ir_result r2 = Return" and "store t = epoch_change_store e st" and "balances t = balances s"
    and "backend_ok t"
    using epoch_change_call [OF E sc G gas' ok' e'] by auto
  with a r1 st show thesis by (intro that [of r1 r2 t st]) (simp_all add: apply_epoch_boundary_def)
qed

section \<open>Properties\<close>

text \<open>C16: The epoch boundary, made outside the delay period for a later epoch with gas for the
  snapshot: both system calls return; afterwards the new epoch has begun and the delay period is
  over, the snapshot set is the old consensus set, the consensus set is the election of the
  execution set, and the accumulators of the new epoch and the next that are in use hold, for
  each validator of the old consensus set, its current accumulator. No money moves.\<close>

theorem epoch_boundary_effect:
  assumes "encoder_ok A E" and "system_call_ok A G shared gas sc" and "meter_ok G"
    and "GAS_SYSCALL_SNAPSHOT \<le> gas" and "backend_ok s"
    and "\<not> in_boundary_at (store s)" and "u64_at (store s) CEpoch < e"
  shows "\<exists>r1 r2 t. apply_epoch_boundary E sc e s = (Inr (r1, r2), t)
    \<and> ir_result r1 = Return \<and> ir_result r2 = Return
    \<and> u64_at (store t) CEpoch = e \<and> \<not> in_boundary_at (store t)
    \<and> array_at (store t) CSnapshot = array_at (store s) CConsensus
    \<and> array_at (store t) CConsensus =
        election (store s) (filter (standing (store s)) (array_at (store s) CExecution))
    \<and> (\<forall>v. validator_at (store t) v = validator_at (store s) v)
    \<and> (\<forall>d v. accumulator_at (store t) (d, v) = (accumulator_at (store s) (d, v))\<lparr>acc_value :=
          if v \<in> set (array_at (store s) CConsensus) \<and> d \<in> {e, e + 1}
             \<and> 0 < acc_refcount (accumulator_at (store s) (d, v))
          then v_acc (validator_at (store s) v) else acc_value (accumulator_at (store s) (d, v))\<rparr>)
    \<and> balances t = balances s"
proof -
  obtain r1 r2 st t where run: "apply_epoch_boundary E sc e s = (Inr (r1, r2), t)"
    and ret: "ir_result r1 = Return" "ir_result r2 = Return"
    and st: "\<And>c. c \<notin> valset_cells \<Longrightarrow> st (key_of c) = snapshot_store (store s) (key_of c)"
    and t: "store t = epoch_change_store e st" "balances t = balances s"
    by (rule epoch_boundary_run [OF assms]) blast
  note sets = snapshot_sets [OF st] and views = epoch_change_store_views
  have acc: "accumulator_at (store t) (d, v) = (accumulator_at (store s) (d, v))\<lparr>acc_value :=
          if v \<in> set (array_at (store s) CConsensus) \<and> d \<in> {e, e + 1}
             \<and> 0 < acc_refcount (accumulator_at (store s) (d, v))
          then v_acc (validator_at (store s) v) else acc_value (accumulator_at (store s) (d, v))\<rparr>" for d v
    by (rule RefCountedAccumulator.equality)
      (auto simp: t epoch_change_store_accumulator refresh_all_value refresh_all_refcount
        snapshot_keeps(1) [OF st] sets)
  show ?thesis
    using run ret acc by (intro exI conjI) (assumption | simp add: t views sets)+
qed

text \<open>C34: The call data of the block reward carries author and amount: it is dispatched to
  syscallReward, whose decoder gives back the author, and the handler reads exactly the amount
  from the extension, whatever value the call itself carries.\<close>

theorem reward_calldata_roundtrip:
  assumes "encoder_ok A E"
  shows "selector_of (syscall_reward_calldata E author amount) = Some SEL_syscallReward
    \<and> length (syscall_reward_calldata E author amount) = 68
    \<and> dec_syscallReward A (drop 4 (syscall_reward_calldata E author amount)) = Inr author
    \<and> from_be_bytes (take 32 (drop 36 (syscall_reward_calldata E author amount))) = amount
    \<and> handle_syscall_reward A (syscall_reward_calldata E author amount) gas caller x
      = handle_syscall_reward A (syscall_reward_calldata E author amount) gas caller y"
proof -
  have l: "length (enc_syscallRewardCall E author) = 36"
    and s: "take 4 (enc_syscallRewardCall E author) = SEL_syscallReward"
    and d: "dec_syscallReward A (drop 4 (enc_syscallRewardCall E author) @ rest) = Inr author" for rest
    using assms by (simp_all add: encoder_ok_def)
  show ?thesis
    by (simp add: syscall_reward_calldata_def selector_of_def l s d from_to_be_bytes
        handle_syscall_reward_def)
qed

section \<open>Reachability\<close>

text \<open>The boundary is made of two calls of the precompile, so it stays within the reachable
  states.\<close>

lemma system_call_reachable:
  assumes "reachable A G s" and "epoch_at (store s) + 2 < 2 ^ 64" and "system_call_ok A G shared gas sc"
    and "sc caller STAKING_ADDRESS data s = (Inr ir, t)"
  shows "reachable A G t"
proof -
  obtain ir' t' where run: "run_staking_precompile A G shared (system_inputs gas caller data) s = (Some ir', t')"
    by (cases "run_staking_precompile A G shared (system_inputs gas caller data) s")
      (auto simp: precompile_split system_inputs_def Let_def map_prod_def split: if_splits prod.splits)
  then have "sc caller STAKING_ADDRESS data s = (Inr ir', if ir_result ir' = Return then t' else s)"
    using assms(3) unfolding system_call_ok_def by blast
  with assms(4) have "t = (if ir_result ir' = Return then t' else s)" by (auto split: if_splits)
  then show ?thesis using reachable.call [OF assms(1,2) run] assms(1) by simp
qed

section \<open>Witnesses\<close>

definition word_encoder :: call_encoder where
  "word_encoder = \<lparr>enc_syscallRewardCall = (\<lambda>a. call_data SEL_syscallReward [ucast a]),
     enc_syscallSnapshotCall = SEL_syscallSnapshot,
     enc_syscallOnEpochChangeCall = (\<lambda>e. call_data SEL_syscallOnEpochChange [ucast e])\<rparr>"

definition plain_system_call :: "unit system_call" where
  "plain_system_call caller contract data s =
     (case run_staking_precompile word_abi plain_meter Map.empty (system_inputs 30000000 caller data) s of
        (Some ir, t) \<Rightarrow> (Inr ir, if ir_result ir = Return then t else s)
      | (None, t) \<Rightarrow> (Inl (), s))"

lemma ucast_address: "ucast (ucast (a :: address) :: u256) = a"
  by (rule bit_word_eqI) (auto simp: bit_ucast_iff dest: bit_imp_le_length)

lemma word_encoder_ok: "encoder_ok word_abi word_encoder"
  by (simp add: encoder_ok_def word_encoder_def call_data_def arg_word_def ucast_address)

lemma plain_system_call_ok: "system_call_ok word_abi plain_meter Map.empty 30000000 plain_system_call"
  by (simp add: system_call_ok_def plain_system_call_def)

theorem epoch_boundary_effect_witness:
  "\<exists>r t. apply_epoch_boundary word_encoder plain_system_call 9 snapshot_example = (Inr r, t)
     \<and> u64_at (store t) CEpoch = 9 \<and> array_at (store t) CSnapshot = [3]"
proof -
  have "u64_at (store snapshot_example) CEpoch < 9"
    by (simp add: snapshot_example_def u64_at_def)
  moreover have "GAS_SYSCALL_SNAPSHOT \<le> 30000000" by (simp add: GAS_SYSCALL_SNAPSHOT_def)
  moreover have "meter_ok plain_meter" by (simp add: meter_ok_def plain_meter_def)
  ultimately show ?thesis
    using epoch_boundary_effect [OF word_encoder_ok plain_system_call_ok, of snapshot_example 9]
    by auto
qed

theorem reward_calldata_roundtrip_witness:
  "from_be_bytes (take 32 (drop 36 (syscall_reward_calldata word_encoder 5 (10 ^ 18)))) = (10 ^ 18 :: u256)"
  using reward_calldata_roundtrip [OF word_encoder_ok, of 5 "10 ^ 18"] by blast

end
