(* ===== verification/Config.thy ===== *)
theory Config
  imports StakingTypes
begin

text \<open>
  What a transaction runs under: the hardforks of \<open>spec.rs\<close>, the chain context of
  \<open>chain.rs\<close> and the configuration of \<open>cfg.rs\<close>. revm's CfgEnv appears by the fields that
  \<open>cfg.rs\<close> reads.
\<close>

section \<open>Hardforks (spec.rs)\<close>

datatype MonadSpecId = MonadEight | MonadNine | MonadNext

text \<open>The variants of revm's SpecId that \<open>into_eth_spec\<close> produces.\<close>

datatype SpecId = PRAGUE | OSAKA

text \<open>The discriminants of the \<open>repr(u8)\<close> enum.\<close>

fun spec_discriminant :: "MonadSpecId \<Rightarrow> u8" where
  "spec_discriminant MonadEight = 100"
| "spec_discriminant MonadNine = 101"
| "spec_discriminant MonadNext = 102"

definition MonadSpecId_default :: MonadSpecId where
  "MonadSpecId_default = MonadNine"

fun into_eth_spec :: "MonadSpecId \<Rightarrow> SpecId" where
  "into_eth_spec MonadEight = PRAGUE"
| "into_eth_spec MonadNine = OSAKA"
| "into_eth_spec MonadNext = OSAKA"

definition is_enabled_in :: "MonadSpecId \<Rightarrow> MonadSpecId \<Rightarrow> bool" where
  "is_enabled_in spec other \<longleftrightarrow> spec_discriminant spec \<le> spec_discriminant other"

definition MONAD_EIGHT :: string where "MONAD_EIGHT = ''MonadEight''"
definition MONAD_NINE :: string where "MONAD_NINE = ''MonadNine''"
definition MONAD_NEXT :: string where "MONAD_NEXT = ''MonadNext''"

datatype unknown_hardfork = UnknownHardfork

definition spec_from_str :: "string \<Rightarrow> unknown_hardfork + MonadSpecId" where
  "spec_from_str s =
     (if s = MONAD_EIGHT then Inr MonadEight
      else if s = MONAD_NINE then Inr MonadNine
      else if s = MONAD_NEXT then Inr MonadNext
      else Inl UnknownHardfork)"

fun spec_name :: "MonadSpecId \<Rightarrow> string" where
  "spec_name MonadEight = MONAD_EIGHT"
| "spec_name MonadNine = MONAD_NINE"
| "spec_name MonadNext = MONAD_NEXT"

text \<open>The derived order compares the discriminants, so that it is the activation order.\<close>

instantiation MonadSpecId :: linorder
begin

definition less_eq_MonadSpecId :: "MonadSpecId \<Rightarrow> MonadSpecId \<Rightarrow> bool" where
  "less_eq_MonadSpecId a b \<longleftrightarrow> spec_discriminant a \<le> spec_discriminant b"

definition less_MonadSpecId :: "MonadSpecId \<Rightarrow> MonadSpecId \<Rightarrow> bool" where
  "less_MonadSpecId a b \<longleftrightarrow> spec_discriminant a < spec_discriminant b"

lemma spec_discriminant_inj: "spec_discriminant a = spec_discriminant b \<longleftrightarrow> a = b"
  by (cases a; cases b) simp_all

instance
  by standard
    (auto simp: less_eq_MonadSpecId_def less_MonadSpecId_def spec_discriminant_inj [symmetric])

end

text \<open>A hardfork is enabled from its activation on.\<close>

lemma enabled_iff_le [simp]: "is_enabled_in a b \<longleftrightarrow> a \<le> b"
  by (simp add: is_enabled_in_def less_eq_MonadSpecId_def)

lemma spec_le_simps [simp]:
  "MonadEight \<le> b" "MonadNine \<le> b \<longleftrightarrow> b \<noteq> MonadEight" "MonadNext \<le> b \<longleftrightarrow> b = MonadNext"
  by (cases b; simp add: less_eq_MonadSpecId_def)+

lemmas spec_name_defs = MONAD_EIGHT_def MONAD_NINE_def MONAD_NEXT_def

text \<open>A hardfork's name parses back to the hardfork, and a text parses exactly when it is
  the name of the hardfork it parses to.\<close>

theorem spec_names_roundtrip:
  "spec_from_str (spec_name spec) = Inr spec \<and>
   (spec_from_str s = Inr spec \<longleftrightarrow> s = spec_name spec)"
  by (cases spec) (auto simp: spec_from_str_def spec_name_defs)

section \<open>Chain context (chain.rs)\<close>

definition default_max_reserve_balance :: u256 where
  "default_max_reserve_balance = from_limbs 10000000000000000000 0 0 0"

record MonadChainContext =
  parent_senders_and_authorities :: "address set"
  grandparent_senders_and_authorities :: "address set"
  current_block_senders :: "address list"
  current_block_authorities :: "address list list"
  current_tx_index :: nat
  max_reserve_balance :: u256

definition MonadChainContext_default :: MonadChainContext where
  "MonadChainContext_default =
     \<lparr>parent_senders_and_authorities = {}, grandparent_senders_and_authorities = {},
      current_block_senders = [], current_block_authorities = [], current_tx_index = 0,
      max_reserve_balance = default_max_reserve_balance\<rparr>"

definition max_reserve_balance_of :: "MonadChainContext \<Rightarrow> address \<Rightarrow> u256" where
  "max_reserve_balance_of chain a = max_reserve_balance chain"

text \<open>Each of the two loops returns false at the first hit.\<close>

definition sender_can_dip :: "MonadChainContext \<Rightarrow> address \<Rightarrow> bool \<Rightarrow> bool" where
  "sender_can_dip chain sender sender_is_delegated =
     (if sender_is_delegated then False
      else if sender \<in> grandparent_senders_and_authorities chain
           \<or> sender \<in> parent_senders_and_authorities chain then False
      else if list_ex (\<lambda>(index, block_sender). index < current_tx_index chain \<and> block_sender = sender)
                (enumerate 0 (current_block_senders chain)) then False
      else if list_ex (\<lambda>(index, authorities). index \<le> current_tx_index chain
                          \<and> sender \<in> set authorities)
                (enumerate 0 (current_block_authorities chain)) then False
      else True)"

lemma list_ex_enumerate_below:
  "list_ex (\<lambda>(i, x). i < n \<and> P x) (enumerate 0 xs) \<longleftrightarrow> (\<exists>x \<in> set (take n xs). P x)"
  unfolding list_ex_iff in_set_conv_nth
  by (fastforce simp: in_set_enumerate_eq in_set_conv_nth nth_enumerate_eq)

lemma sender_can_dip_iff:
  "sender_can_dip chain sender delegated \<longleftrightarrow>
     \<not> delegated
     \<and> sender \<notin> grandparent_senders_and_authorities chain \<union> parent_senders_and_authorities chain
         \<union> set (take (current_tx_index chain) (current_block_senders chain))
         \<union> (\<Union>auths \<in> set (take (Suc (current_tx_index chain)) (current_block_authorities chain)).
              set auths)"
  using list_ex_enumerate_below [of "current_tx_index chain" "\<lambda>x. x = sender"]
    list_ex_enumerate_below [of "Suc (current_tx_index chain)" "\<lambda>xs. sender \<in> set xs"]
  by (auto simp: sender_can_dip_def less_Suc_eq_le)

section \<open>Configuration (cfg.rs)\<close>

definition MONAD_TX_GAS_LIMIT_CAP :: u64 where "MONAD_TX_GAS_LIMIT_CAP = 30000000"
definition MONAD_MEMORY_LIMIT :: u64 where "MONAD_MEMORY_LIMIT = 8 * 1024 * 1024"
definition MONAD_MAX_CODE_SIZE :: u64 where "MONAD_MAX_CODE_SIZE = 0x20000"
definition MONAD_MAX_INITCODE_SIZE :: u64 where
  "MONAD_MAX_INITCODE_SIZE = MONAD_MAX_CODE_SIZE * 2"

text \<open>The fields of CfgEnv that \<open>cfg.rs\<close> reads. \<open>cfg_memory_limit\<close> and the fields from
  \<open>cfg_eip3541_disabled\<close> to \<open>cfg_fee_charge_disabled\<close> are what revm's own implementation of Cfg
  answers, and \<open>cfg_gas_params\<close> is its gas table.\<close>

record 'g cfg_env =
  cfg_chain_id :: u64
  cfg_spec :: MonadSpecId
  cfg_tx_gas_limit_cap :: "u64 option"
  cfg_limit_contract_code_size :: "u64 option"
  cfg_limit_contract_initcode_size :: "u64 option"
  cfg_memory_limit :: u64
  cfg_tx_chain_id_check :: bool
  cfg_max_blobs_per_tx :: "u64 option"
  cfg_disable_nonce_check :: bool
  cfg_eip3541_disabled :: bool
  cfg_eip3607_disabled :: bool
  cfg_eip7623_disabled :: bool
  cfg_balance_check_disabled :: bool
  cfg_block_gas_limit_disabled :: bool
  cfg_base_fee_check_disabled :: bool
  cfg_priority_fee_check_disabled :: bool
  cfg_fee_charge_disabled :: bool
  cfg_gas_params :: 'g

definition saturating_mul :: "'a::len word \<Rightarrow> 'a word \<Rightarrow> 'a word" where
  "saturating_mul a b = (if unat a * unat b < 2 ^ LENGTH('a) then a * b else - 1)"

text \<open>\<open>CfgEnv::new_with_spec_and_gas_params\<close> is revm's; it is documented to take the hardfork and the
  gas table as given and to set no limit of its own.\<close>

type_synonym 'g new_cfg = "MonadSpecId \<Rightarrow> 'g \<Rightarrow> 'g cfg_env"

definition new_cfg_ok :: "'g new_cfg \<Rightarrow> bool" where
  "new_cfg_ok N \<longleftrightarrow> (\<forall>spec g. cfg_spec (N spec g) = spec \<and> cfg_gas_params (N spec g) = g
     \<and> cfg_tx_gas_limit_cap (N spec g) = None \<and> cfg_limit_contract_code_size (N spec g) = None
     \<and> cfg_limit_contract_initcode_size (N spec g) = None)"

definition cfg_new :: "'g new_cfg \<Rightarrow> (MonadSpecId \<Rightarrow> 'g) \<Rightarrow> 'g cfg_env" where
  "cfg_new N monad_gas_params =
     (let spec = MonadSpecId_default in N spec (monad_gas_params spec))"

definition cfg_new_with_spec :: "'g new_cfg \<Rightarrow> (MonadSpecId \<Rightarrow> 'g) \<Rightarrow> MonadSpecId \<Rightarrow> 'g cfg_env" where
  "cfg_new_with_spec N monad_gas_params spec = N spec (monad_gas_params spec)"

definition cfg_default :: "'g new_cfg \<Rightarrow> (MonadSpecId \<Rightarrow> 'g) \<Rightarrow> 'g cfg_env" where
  "cfg_default N monad_gas_params = cfg_new N monad_gas_params"

definition with_chain_id :: "u64 \<Rightarrow> 'g cfg_env \<Rightarrow> 'g cfg_env" where
  "with_chain_id chain_id cfg = cfg\<lparr>cfg_chain_id := chain_id\<rparr>"

text \<open>The conversion from CfgEnv: the gas table is replaced by Monad's.\<close>

definition from_cfg_env :: "(MonadSpecId \<Rightarrow> 'g) \<Rightarrow> 'g cfg_env \<Rightarrow> 'g cfg_env" where
  "from_cfg_env monad_gas_params cfg = cfg\<lparr>cfg_gas_params := monad_gas_params (cfg_spec cfg)\<rparr>"

definition tx_gas_limit_cap :: "'g cfg_env \<Rightarrow> u64" where
  "tx_gas_limit_cap cfg =
     (case cfg_tx_gas_limit_cap cfg of Some x \<Rightarrow> x | None \<Rightarrow> MONAD_TX_GAS_LIMIT_CAP)"

definition max_code_size :: "'g cfg_env \<Rightarrow> u64" where
  "max_code_size cfg =
     (case cfg_limit_contract_code_size cfg of Some x \<Rightarrow> x | None \<Rightarrow> MONAD_MAX_CODE_SIZE)"

definition max_initcode_size :: "'g cfg_env \<Rightarrow> u64" where
  "max_initcode_size cfg =
     (case cfg_limit_contract_initcode_size cfg of
        Some x \<Rightarrow> x
      | None \<Rightarrow> (case map_option (\<lambda>size. saturating_mul size 2) (cfg_limit_contract_code_size cfg) of
           Some x \<Rightarrow> x
         | None \<Rightarrow> MONAD_MAX_INITCODE_SIZE))"

definition memory_limit :: "'g cfg_env \<Rightarrow> u64" where
  "memory_limit cfg =
     (if is_enabled_in MonadNine (cfg_spec cfg) then MONAD_MEMORY_LIMIT else cfg_memory_limit cfg)"

text \<open>The getters of the trait Cfg that pass a field or revm's answer on.\<close>

definition chain_id_of :: "'g cfg_env \<Rightarrow> u64" where "chain_id_of cfg = cfg_chain_id cfg"
definition spec_of :: "'g cfg_env \<Rightarrow> MonadSpecId" where "spec_of cfg = cfg_spec cfg"
definition tx_chain_id_check :: "'g cfg_env \<Rightarrow> bool" where
  "tx_chain_id_check cfg = cfg_tx_chain_id_check cfg"
definition max_blobs_per_tx :: "'g cfg_env \<Rightarrow> u64 option" where
  "max_blobs_per_tx cfg = cfg_max_blobs_per_tx cfg"
definition is_eip3541_disabled :: "'g cfg_env \<Rightarrow> bool" where
  "is_eip3541_disabled cfg = cfg_eip3541_disabled cfg"
definition is_eip3607_disabled :: "'g cfg_env \<Rightarrow> bool" where
  "is_eip3607_disabled cfg = cfg_eip3607_disabled cfg"
definition is_eip7623_disabled :: "'g cfg_env \<Rightarrow> bool" where
  "is_eip7623_disabled cfg = cfg_eip7623_disabled cfg"
definition is_balance_check_disabled :: "'g cfg_env \<Rightarrow> bool" where
  "is_balance_check_disabled cfg = cfg_balance_check_disabled cfg"
definition is_block_gas_limit_disabled :: "'g cfg_env \<Rightarrow> bool" where
  "is_block_gas_limit_disabled cfg = cfg_block_gas_limit_disabled cfg"
definition is_nonce_check_disabled :: "'g cfg_env \<Rightarrow> bool" where
  "is_nonce_check_disabled cfg = cfg_disable_nonce_check cfg"
definition is_base_fee_check_disabled :: "'g cfg_env \<Rightarrow> bool" where
  "is_base_fee_check_disabled cfg = cfg_base_fee_check_disabled cfg"
definition is_priority_fee_check_disabled :: "'g cfg_env \<Rightarrow> bool" where
  "is_priority_fee_check_disabled cfg = cfg_priority_fee_check_disabled cfg"
definition is_fee_charge_disabled :: "'g cfg_env \<Rightarrow> bool" where
  "is_fee_charge_disabled cfg = cfg_fee_charge_disabled cfg"
definition gas_params_of :: "'g cfg_env \<Rightarrow> 'g" where "gas_params_of cfg = cfg_gas_params cfg"

lemma unat_saturating_mul:
  "unat (saturating_mul a b :: 'a::len word) = min (unat a * unat b) (2 ^ LENGTH('a) - 1)"
  by (auto simp: saturating_mul_def unat_times_lt unsigned_minus_1_eq_mask mask_eq_exp_minus_1)

text \<open>Unless a limit of its own is configured, init code may be twice as long as code, up to
  the largest machine word.\<close>

lemma max_initcode_size_double:
  assumes "cfg_limit_contract_initcode_size cfg = None"
  shows "unat (max_initcode_size cfg) = min (2 * unat (max_code_size cfg)) (2 ^ 64 - 1)"
  using assms
  by (auto simp: max_initcode_size_def max_code_size_def unat_saturating_mul
      MONAD_MAX_INITCODE_SIZE_def MONAD_MAX_CODE_SIZE_def split: option.splits)

text \<open>A configuration made here has Monad's limits; the memory limit depends on the hardfork.\<close>

lemma new_cfg_limits:
  assumes "new_cfg_ok N"
  shows "cfg_spec (cfg_new_with_spec N g spec) = spec"
    and "gas_params_of (cfg_new_with_spec N g spec) = g spec"
    and "tx_gas_limit_cap (cfg_new_with_spec N g spec) = 30000000"
    and "max_code_size (cfg_new_with_spec N g spec) = 0x20000"
    and "max_initcode_size (cfg_new_with_spec N g spec) = 0x40000"
    and "spec \<noteq> MonadEight \<Longrightarrow> memory_limit (cfg_new_with_spec N g spec) = 8 * 1024 * 1024"
    and "cfg_new N g = cfg_new_with_spec N g MonadNine"
  using assms
  by (simp_all add: new_cfg_ok_def cfg_new_with_spec_def gas_params_of_def tx_gas_limit_cap_def
      max_code_size_def max_initcode_size_def memory_limit_def MONAD_TX_GAS_LIMIT_CAP_def
      MONAD_MAX_CODE_SIZE_def MONAD_MAX_INITCODE_SIZE_def MONAD_MEMORY_LIMIT_def cfg_new_def
      MonadSpecId_default_def)

end
