(* ===== verification/Reserve.thy ===== *)
theory Reserve
  imports Config Reader
begin

text \<open>
  The reserve-balance tracker of \<open>reserve_balance/tracker.rs\<close> and the precompile of
  \<open>reserve_balance/mod.rs\<close> that reports it.

  revm's Account appears by the fields this repository reads: the current and the original
  info, each with balance, code hash and optional code, and the two status flags. EvmState
  is a map from addresses to accounts. Bytecode appears by the two observations the code
  makes: its original bytes and whether it is an EIP-7702 delegation.
\<close>

section \<open>Accounts\<close>

record bytecode =
  original_bytes :: bytes
  is_eip7702 :: bool

record account_info =
  ai_balance :: u256
  ai_code_hash :: u256
  ai_code :: "bytecode option"

record account =
  acc_info :: account_info
  acc_original_info :: account_info
  acc_selfdestructed :: bool
  acc_created_locally :: bool

type_synonym evm_state = "address \<Rightarrow> account option"

text \<open>The hash of the empty byte string, a constant of revm's primitives.\<close>

definition KECCAK_EMPTY :: u256 where
  "KECCAK_EMPTY = 0xc5d2460186f7233c927e7db2dcc703c0e500b653ca82273b7bfad8045d85a470"

section \<open>The tracker (tracker.rs)\<close>

record ReserveBalanceTracker =
  tracking_enabled :: bool
  t_chain :: MonadChainContext
  use_recent_code_hash :: bool
  t_sender :: address
  sender_gas_fees :: u256
  t_sender_can_dip :: bool
  allow_init_selfdestruct_exemption :: bool
  violation_thresholds :: "address \<Rightarrow> u256 option option"
  failed :: "address set"

record ReserveBalanceInit =
  i_chain :: MonadChainContext
  i_spec :: MonadSpecId
  i_sender :: address
  i_effective_gas_price :: u128
  i_gas_limit :: u64
  i_sender_is_delegated :: bool
  i_sender_account :: "account option"

definition tracker_default :: ReserveBalanceTracker where
  "tracker_default =
     \<lparr>tracking_enabled = False, t_chain = MonadChainContext_default, use_recent_code_hash = False,
      t_sender = 0, sender_gas_fees = 0, t_sender_can_dip = False,
      allow_init_selfdestruct_exemption = False, violation_thresholds = Map.empty, failed = {}\<rparr>"

definition has_violation :: "ReserveBalanceTracker \<Rightarrow> bool" where
  "has_violation trk \<longleftrightarrow> failed trk \<noteq> {}"

definition clear_tracker :: "ReserveBalanceTracker \<Rightarrow> ReserveBalanceTracker" where
  "clear_tracker trk = tracker_default"

definition is_smart_contract_code :: "bytecode \<Rightarrow> bool" where
  "is_smart_contract_code code \<longleftrightarrow> original_bytes code \<noteq> [] \<and> \<not> is_eip7702 code"

definition pretx_reserve :: "ReserveBalanceTracker \<Rightarrow> address \<Rightarrow> account \<Rightarrow> u256" where
  "pretx_reserve trk a acc =
     min (max_reserve_balance_of (t_chain trk) a) (ai_balance (acc_original_info acc))"

definition is_subject_account :: "ReserveBalanceTracker \<Rightarrow> account \<Rightarrow> address \<Rightarrow> bool" where
  "is_subject_account trk acc a =
     (if a = STAKING_ADDRESS then False
      else let effective_code_hash =
             (if use_recent_code_hash trk then ai_code_hash (acc_info acc)
              else ai_code_hash (acc_original_info acc)) in
      if effective_code_hash = 0 \<or> effective_code_hash = KECCAK_EMPTY then True
      else (case (case ai_code (acc_info acc) of
                    Some code \<Rightarrow> Some code
                  | None \<Rightarrow> ai_code (acc_original_info acc)) of
              Some code \<Rightarrow> is_eip7702 code
            | None \<Rightarrow> False))"

text \<open>None stands for a reserve smaller than the fees: the sender fails at any balance.\<close>

definition compute_violation_threshold ::
    "ReserveBalanceTracker \<Rightarrow> account \<Rightarrow> address \<Rightarrow> u256 option" where
  "compute_violation_threshold trk acc a =
     (if \<not> is_subject_account trk acc a then Some 0
      else let reserve = pretx_reserve trk a acc in
        if a = t_sender trk
        then if t_sender_can_dip trk then Some 0
             else checked_sub reserve (sender_gas_fees trk)
        else Some reserve)"

definition update_loaded_account ::
    "account option \<Rightarrow> address \<Rightarrow> ReserveBalanceTracker \<Rightarrow> ReserveBalanceTracker" where
  "update_loaded_account acc_opt a trk =
     (if \<not> tracking_enabled trk then trk
      else case acc_opt of
        None \<Rightarrow> trk\<lparr>failed := failed trk - {a},
                   violation_thresholds := (violation_thresholds trk)(a := None)\<rparr>
      | Some acc \<Rightarrow>
          if allow_init_selfdestruct_exemption trk \<and> acc_selfdestructed acc
             \<and> acc_created_locally acc
          then trk\<lparr>failed := failed trk - {a},
                   violation_thresholds := (violation_thresholds trk)(a \<mapsto> Some 0)\<rparr>
          else
            let (threshold, trk) =
              (case violation_thresholds trk a of
                 Some threshold \<Rightarrow> (threshold, trk)
               | None \<Rightarrow>
                   let threshold = compute_violation_threshold trk acc a in
                   (threshold, trk\<lparr>violation_thresholds := (violation_thresholds trk)(a \<mapsto> threshold)\<rparr>))
            in
            (case threshold of
               None \<Rightarrow> trk\<lparr>failed := insert a (failed trk)\<rparr>
             | Some t \<Rightarrow>
                 if t = 0 \<or> t \<le> ai_balance (acc_info acc)
                 then trk\<lparr>failed := failed trk - {a}\<rparr>
                 else trk\<lparr>failed := insert a (failed trk)\<rparr>))"

definition init_tracker :: "ReserveBalanceInit \<Rightarrow> ReserveBalanceTracker \<Rightarrow> ReserveBalanceTracker" where
  "init_tracker i trk =
     (let trk = clear_tracker trk;
          trk = trk\<lparr>tracking_enabled := True\<rparr>;
          trk = trk\<lparr>t_chain := i_chain i\<rparr>;
          trk = trk\<lparr>use_recent_code_hash := is_enabled_in MonadEight (i_spec i)\<rparr>;
          trk = trk\<lparr>t_sender := i_sender i\<rparr>;
          trk = trk\<lparr>allow_init_selfdestruct_exemption := is_enabled_in MonadNine (i_spec i)\<rparr>;
          trk = trk\<lparr>sender_gas_fees := ucast (i_effective_gas_price i) * ucast (i_gas_limit i)\<rparr>;
          trk = trk\<lparr>t_sender_can_dip :=
                      sender_can_dip (i_chain i) (t_sender trk) (i_sender_is_delegated i)\<rparr>
      in update_loaded_account (i_sender_account i) (t_sender trk) trk)"

definition on_debit ::
    "account option \<Rightarrow> address \<Rightarrow> ReserveBalanceTracker \<Rightarrow> ReserveBalanceTracker" where
  "on_debit acc_opt a trk = update_loaded_account acc_opt a trk"

definition on_credit ::
    "account option \<Rightarrow> address \<Rightarrow> ReserveBalanceTracker \<Rightarrow> ReserveBalanceTracker" where
  "on_credit acc_opt a trk =
     (if a \<in> failed trk then update_loaded_account acc_opt a trk else trk)"

definition on_set_code ::
    "account option \<Rightarrow> address \<Rightarrow> bytecode \<Rightarrow> ReserveBalanceTracker \<Rightarrow> ReserveBalanceTracker" where
  "on_set_code acc_opt a code trk =
     (if \<not> tracking_enabled trk \<or> \<not> use_recent_code_hash trk then trk
      else if is_smart_contract_code code
      then trk\<lparr>violation_thresholds := (violation_thresholds trk)(a \<mapsto> Some 0),
               failed := failed trk - {a}\<rparr>
      else let trk = trk\<lparr>violation_thresholds := (violation_thresholds trk)(a := None)\<rparr> in
           update_loaded_account acc_opt a trk)"

definition recompute_reverted ::
    "evm_state \<Rightarrow> address \<Rightarrow> ReserveBalanceTracker \<Rightarrow> ReserveBalanceTracker" where
  "recompute_reverted st a trk =
     (let trk = trk\<lparr>violation_thresholds := (violation_thresholds trk)(a := None)\<rparr> in
      update_loaded_account (st a) a trk)"

definition on_checkpoint_revert ::
    "address list \<Rightarrow> evm_state \<Rightarrow> ReserveBalanceTracker \<Rightarrow> ReserveBalanceTracker" where
  "on_checkpoint_revert reverted_addresses st trk =
     (if \<not> tracking_enabled trk then trk
      else fold (recompute_reverted st) reverted_addresses trk)"

section \<open>What the tracker stands for\<close>

text \<open>The rule the tracker enforces, stated on the account alone. An account is subject to it
  unless it is the staking contract or a contract; an account created and destroyed in the
  transaction is exempt. Its reserve is its balance before the transaction, capped. The
  sender pays the gas out of the reserve, and may go below it if it may dip.\<close>

definition exempt :: "ReserveBalanceTracker \<Rightarrow> account \<Rightarrow> bool" where
  "exempt trk acc \<longleftrightarrow> allow_init_selfdestruct_exemption trk \<and> acc_selfdestructed acc
     \<and> acc_created_locally acc"

definition reserve :: "ReserveBalanceTracker \<Rightarrow> account \<Rightarrow> nat" where
  "reserve trk acc =
     min (unat (max_reserve_balance (t_chain trk))) (unat (ai_balance (acc_original_info acc)))"

definition dips :: "ReserveBalanceTracker \<Rightarrow> address \<Rightarrow> account \<Rightarrow> bool" where
  "dips trk a acc \<longleftrightarrow>
     is_subject_account trk acc a \<and> \<not> exempt trk acc \<and>
     (if a = t_sender trk
      then \<not> t_sender_can_dip trk \<and>
           (reserve trk acc < unat (sender_gas_fees trk)
            \<or> unat (ai_balance (acc_info acc)) + unat (sender_gas_fees trk) < reserve trk acc)
      else unat (ai_balance (acc_info acc)) < reserve trk acc)"

definition below :: "u256 option \<Rightarrow> u256 \<Rightarrow> bool" where
  "below thr b \<longleftrightarrow> (case thr of None \<Rightarrow> True | Some t \<Rightarrow> t \<noteq> 0 \<and> b < t)"

lemma unat_min: "unat (min a b :: 'a::len word) = min (unat a) (unat b)"
  by (simp add: min_def word_le_nat_alt)

lemma dips_threshold:
  "dips trk a acc \<longleftrightarrow> \<not> exempt trk acc
     \<and> below (compute_violation_threshold trk acc a) (ai_balance (acc_info acc))"
proof -
  have r: "unat (pretx_reserve trk b acc) = reserve trk acc" for b
    by (simp add: pretx_reserve_def reserve_def max_reserve_balance_of_def unat_min)
  have le: "sender_gas_fees trk \<le> pretx_reserve trk b acc
      \<longleftrightarrow> unat (sender_gas_fees trk) \<le> reserve trk acc" for b
    by (simp add: word_le_nat_alt r)
  have eq: "pretx_reserve trk b acc = sender_gas_fees trk
      \<Longrightarrow> reserve trk acc = unat (sender_gas_fees trk)" for b
    by (metis r)
  have nz: "x \<noteq> 0 \<longleftrightarrow> 0 < unat x" for x :: u256
    by (simp add: unat_gt_0)
  show ?thesis
    by (auto simp: dips_def below_def compute_violation_threshold_def Let_def checked_sub_def
        le nz word_less_nat_alt r unat_sub word_le_nat_alt dest!: eq split: if_splits option.splits)
qed

named_theorems rule_simps "the rule of a tracker does not depend on what it has recorded"

lemma rule_unchanged [simp, rule_simps]:
  "compute_violation_threshold (trk\<lparr>violation_thresholds := th\<rparr>) = compute_violation_threshold trk"
  "compute_violation_threshold (trk\<lparr>failed := f\<rparr>) = compute_violation_threshold trk"
  "exempt (trk\<lparr>violation_thresholds := th\<rparr>) = exempt trk"
  "exempt (trk\<lparr>failed := f\<rparr>) = exempt trk"
  "dips (trk\<lparr>violation_thresholds := th\<rparr>) = dips trk"
  "dips (trk\<lparr>failed := f\<rparr>) = dips trk"
  by (simp_all add: fun_eq_iff compute_violation_threshold_def is_subject_account_def
      pretx_reserve_def exempt_def dips_def reserve_def Let_def cong: if_cong)

text \<open>The hooks keep the rule; what they record is read off the account.\<close>

definition same_rule :: "ReserveBalanceTracker \<Rightarrow> ReserveBalanceTracker \<Rightarrow> bool" where
  "same_rule trk trk' \<longleftrightarrow>
     trk' = trk\<lparr>violation_thresholds := violation_thresholds trk', failed := failed trk'\<rparr>"

lemma same_rule_refl [simp]: "same_rule trk trk"
  by (simp add: same_rule_def)

lemma same_rule_trans: "same_rule a b \<Longrightarrow> same_rule b c \<Longrightarrow> same_rule a c"
  unfolding same_rule_def by (metis ReserveBalanceTracker.update_convs(8,9) ReserveBalanceTracker.surjective)

lemma same_ruleD:
  assumes "same_rule trk trk'"
  shows "dips trk' = dips trk" and "exempt trk' = exempt trk"
    and "compute_violation_threshold trk' = compute_violation_threshold trk"
    and "tracking_enabled trk' = tracking_enabled trk"
    and "use_recent_code_hash trk' = use_recent_code_hash trk"
    and "t_sender trk' = t_sender trk"
proof -
  have "trk' = trk\<lparr>violation_thresholds := violation_thresholds trk', failed := failed trk'\<rparr>"
    using assms by (simp add: same_rule_def)
  then obtain th f where t: "trk' = trk\<lparr>violation_thresholds := th, failed := f\<rparr>" by blast
  show "dips trk' = dips trk" "exempt trk' = exempt trk"
    "compute_violation_threshold trk' = compute_violation_threshold trk"
    "tracking_enabled trk' = tracking_enabled trk"
    "use_recent_code_hash trk' = use_recent_code_hash trk" "t_sender trk' = t_sender trk"
    by (simp_all add: t)
qed

lemma update_same_rule: "same_rule trk (update_loaded_account acc a trk)"
  by (simp add: update_loaded_account_def same_rule_def Let_def split: option.splits)

text \<open>A recorded threshold is the one the rule gives, or the zero of an exempt account.\<close>

definition cached :: "ReserveBalanceTracker \<Rightarrow> address \<Rightarrow> account \<Rightarrow> u256 option \<Rightarrow> bool" where
  "cached trk a acc thr \<longleftrightarrow>
     thr = compute_violation_threshold trk acc a \<or> exempt trk acc \<and> thr = Some 0"

definition tracked_at :: "ReserveBalanceTracker \<Rightarrow> evm_state \<Rightarrow> address \<Rightarrow> bool" where
  "tracked_at trk st a \<longleftrightarrow>
     (a \<in> failed trk \<longleftrightarrow> (\<exists>acc. st a = Some acc \<and> dips trk a acc)) \<and>
     (\<forall>thr. violation_thresholds trk a = Some thr \<longrightarrow>
        (\<exists>acc. st a = Some acc \<and> cached trk a acc thr))"

lemma update_other:
  assumes "b \<noteq> a"
  shows "b \<in> failed (update_loaded_account acc a trk) \<longleftrightarrow> b \<in> failed trk"
    and "violation_thresholds (update_loaded_account acc a trk) b = violation_thresholds trk b"
  using assms by (simp_all add: update_loaded_account_def Let_def split: option.splits)

lemma tracked_at_cong:
  assumes "same_rule trk trk'" and "b \<in> failed trk' \<longleftrightarrow> b \<in> failed trk"
    and "violation_thresholds trk' b = violation_thresholds trk b" and "st' b = st b"
  shows "tracked_at trk' st' b \<longleftrightarrow> tracked_at trk st b"
  using same_ruleD [OF assms(1)] assms(2-4) by (simp add: tracked_at_def cached_def)

text \<open>Recomputing an address establishes its entry, unless a stale threshold was recorded.\<close>

lemma update_counts:
  assumes on: "tracking_enabled trk" and nex: "\<not> exempt trk acc"
    and old: "violation_thresholds trk a = None \<or>
      violation_thresholds trk a = Some (compute_violation_threshold trk acc a)"
  shows "update_loaded_account (Some acc) a trk =
    trk\<lparr>violation_thresholds := (violation_thresholds trk)(a \<mapsto> compute_violation_threshold trk acc a),
        failed := (if below (compute_violation_threshold trk acc a) (ai_balance (acc_info acc))
                   then insert a (failed trk) else failed trk - {a})\<rparr>"
proof -
  define c where "c = compute_violation_threshold trk acc a"
  have e: "\<not> (allow_init_selfdestruct_exemption trk \<and> acc_selfdestructed acc \<and> acc_created_locally acc)"
    using nex by (simp add: exempt_def)
  have "update_loaded_account (Some acc) a trk =
      (let trk = trk\<lparr>violation_thresholds := (violation_thresholds trk)(a \<mapsto> c)\<rparr> in
       case c of None \<Rightarrow> trk\<lparr>failed := insert a (failed trk)\<rparr>
       | Some t \<Rightarrow> if t = 0 \<or> t \<le> ai_balance (acc_info acc)
           then trk\<lparr>failed := failed trk - {a}\<rparr> else trk\<lparr>failed := insert a (failed trk)\<rparr>)"
    using old [folded c_def]
  proof
    assume n: "violation_thresholds trk a = None"
    show ?thesis by (simp add: update_loaded_account_def on e n Let_def c_def)
  next
    assume s: "violation_thresholds trk a = Some c"
    then have "(violation_thresholds trk)(a \<mapsto> c) = violation_thresholds trk" by (rule fun_upd_idem)
    then have "trk\<lparr>violation_thresholds := (violation_thresholds trk)(a \<mapsto> c)\<rparr> = trk" by simp
    then show ?thesis by (simp add: update_loaded_account_def on e s)
  qed
  then show ?thesis
    unfolding c_def [symmetric] by (cases c) (simp_all add: Let_def below_def not_le [symmetric])
qed

lemma update_tracks:
  assumes on: "tracking_enabled trk"
    and thr: "\<And>thr acc. violation_thresholds trk a = Some thr \<Longrightarrow> st a = Some acc \<Longrightarrow> cached trk a acc thr"
  shows "tracked_at (update_loaded_account (st a) a trk) st a"
proof (cases "st a")
  case None
  then show ?thesis using on by (simp add: update_loaded_account_def tracked_at_def)
next
  case (Some acc)
  show ?thesis
  proof (cases "exempt trk acc")
    case True
    then have e: "allow_init_selfdestruct_exemption trk \<and> acc_selfdestructed acc \<and> acc_created_locally acc"
      by (simp add: exempt_def)
    show ?thesis using on Some True
      by (simp add: update_loaded_account_def e tracked_at_def dips_threshold cached_def)
  next
    case False
    have "violation_thresholds trk a = None \<or>
        violation_thresholds trk a = Some (compute_violation_threshold trk acc a)"
      using thr [OF _ Some] False by (cases "violation_thresholds trk a") (auto simp: cached_def)
    note u = update_counts [OF on False this]
    show ?thesis
      unfolding Some u tracked_at_def cached_def using False by (simp add: Some dips_threshold)
  qed
qed

section \<open>The hooks\<close>

text \<open>What may happen to an account between two calls of the hooks, as far as the rule is
  concerned: the threshold stays, and an exemption is not lost.\<close>

definition steady :: "ReserveBalanceTracker \<Rightarrow> address \<Rightarrow> account \<Rightarrow> account \<Rightarrow> bool" where
  "steady trk a acc acc' \<longleftrightarrow>
     compute_violation_threshold trk acc' a = compute_violation_threshold trk acc a
     \<and> (exempt trk acc \<longrightarrow> exempt trk acc')"

lemma hooks_same_rule:
  "same_rule trk (on_debit acc a trk)" "same_rule trk (on_credit acc a trk)"
  "same_rule trk (on_set_code acc a code trk)"
proof -
  show "same_rule trk (on_debit acc a trk)" "same_rule trk (on_credit acc a trk)"
    by (simp_all add: on_debit_def on_credit_def update_same_rule)
  have "same_rule trk (trk\<lparr>violation_thresholds := th\<rparr>)" for th
    by (simp add: same_rule_def)
  then show "same_rule trk (on_set_code acc a code trk)"
    by (auto simp: on_set_code_def Let_def intro: same_rule_trans update_same_rule)
      (simp add: same_rule_def)
qed

lemma hooks_other:
  assumes "b \<noteq> a"
  shows "b \<in> failed (on_debit acc a trk) \<longleftrightarrow> b \<in> failed trk"
    and "violation_thresholds (on_debit acc a trk) b = violation_thresholds trk b"
    and "b \<in> failed (on_credit acc a trk) \<longleftrightarrow> b \<in> failed trk"
    and "violation_thresholds (on_credit acc a trk) b = violation_thresholds trk b"
    and "b \<in> failed (on_set_code acc a code trk) \<longleftrightarrow> b \<in> failed trk"
    and "violation_thresholds (on_set_code acc a code trk) b = violation_thresholds trk b"
  using assms by (simp_all add: on_debit_def on_credit_def on_set_code_def update_other Let_def)

text \<open>A hook at one address leaves the entries of the others as they are.\<close>

lemma hooks_tracked_other:
  assumes "b \<noteq> a" and "st' b = st b"
  shows "tracked_at (on_debit acc a trk) st' b \<longleftrightarrow> tracked_at trk st b"
    and "tracked_at (on_credit acc a trk) st' b \<longleftrightarrow> tracked_at trk st b"
    and "tracked_at (on_set_code acc a code trk) st' b \<longleftrightarrow> tracked_at trk st b"
  using assms by (simp_all add: tracked_at_cong hooks_same_rule hooks_other)

lemma cached_steady:
  "cached trk a acc thr \<Longrightarrow> steady trk a acc acc' \<Longrightarrow> cached trk a acc' thr"
  by (auto simp: cached_def steady_def)

lemma on_debit_tracks:
  assumes "tracking_enabled trk" and "tracked_at trk st a"
    and "st a = Some acc" and "st' a = Some acc'" and "steady trk a acc acc'"
  shows "tracked_at (on_debit (st' a) a trk) st' a"
  unfolding on_debit_def
  by (rule update_tracks) (use assms in \<open>auto simp: tracked_at_def intro: cached_steady\<close>)

lemma on_credit_tracks:
  assumes on: "tracking_enabled trk" and tr: "tracked_at trk st a"
    and acc: "st a = Some acc" "st' a = Some acc'" and s: "steady trk a acc acc'"
    and more: "ai_balance (acc_info acc) \<le> ai_balance (acc_info acc')"
  shows "tracked_at (on_credit (st' a) a trk) st' a"
proof (cases "a \<in> failed trk")
  case True
  then show ?thesis using on_debit_tracks [where st = st and st' = st' and a = a, OF on tr acc s] by (simp add: on_credit_def on_debit_def)
next
  case False
  then have "\<not> dips trk a acc" using tr acc by (simp add: tracked_at_def)
  then have "\<not> dips trk a acc'" using s more
    by (auto simp: dips_threshold steady_def below_def split: option.splits)
  then show ?thesis using False tr acc s
    by (auto simp: on_credit_def tracked_at_def intro: cached_steady)
qed

text \<open>An account as the database gives it: nothing has happened to it yet.\<close>

definition fresh :: "account \<Rightarrow> bool" where
  "fresh acc \<longleftrightarrow> acc_info acc = acc_original_info acc \<and> \<not> acc_selfdestructed acc
     \<and> \<not> acc_created_locally acc"

lemma full_balance_no_dip:
  assumes "a \<noteq> t_sender trk"
    and "ai_balance (acc_original_info acc) \<le> ai_balance (acc_info acc)"
  shows "\<not> dips trk a acc"
  using assms by (auto simp: dips_def reserve_def word_le_nat_alt)

lemma load_tracks:
  assumes "tracked_at trk st a" and "st a = None" and "st' a = Some acc" and "fresh acc"
    and "a \<noteq> t_sender trk"
  shows "tracked_at trk st' a"
  using assms full_balance_no_dip [of a trk acc] by (auto simp: tracked_at_def fresh_def)

text \<open>New code. The hash given for contract code is the code's, so neither zero nor the hash
  of the empty string.\<close>

lemma on_set_code_tracks:
  assumes on: "tracking_enabled trk" and recent: "use_recent_code_hash trk"
    and acc: "st a = Some acc"
    and code: "ai_code (acc_info acc) = Some code" "ai_code_hash (acc_info acc) = hash"
    and hash: "is_smart_contract_code code \<Longrightarrow> hash \<noteq> 0 \<and> hash \<noteq> KECCAK_EMPTY"
  shows "tracked_at (on_set_code (st a) a code trk) st a"
proof (cases "is_smart_contract_code code")
  case True
  then have "\<not> is_subject_account trk acc a"
    using recent code hash by (auto simp: is_subject_account_def is_smart_contract_code_def Let_def)
  then show ?thesis using True on recent acc
    by (auto simp: on_set_code_def tracked_at_def dips_def cached_def compute_violation_threshold_def)
next
  case False
  then show ?thesis using on recent
    by (auto simp: on_set_code_def Let_def intro!: update_tracks)
qed

text \<open>A revert recomputes the addresses it names from scratch.\<close>

lemma recompute_same_rule: "same_rule trk (recompute_reverted st a trk)"
  unfolding recompute_reverted_def Let_def
  by (rule same_rule_trans [OF _ update_same_rule]) (simp add: same_rule_def)

lemma recompute_tracks:
  assumes "tracking_enabled trk"
  shows "tracked_at (recompute_reverted st a trk) st a"
  unfolding recompute_reverted_def Let_def by (rule update_tracks) (use assms in simp_all)

lemma recompute_other:
  assumes "b \<noteq> a"
  shows "tracked_at (recompute_reverted st a trk) st b \<longleftrightarrow> tracked_at trk st b"
  by (rule tracked_at_cong [OF recompute_same_rule])
    (use assms in \<open>simp_all add: recompute_reverted_def update_other\<close>)

lemma fold_recompute:
  assumes "tracking_enabled trk"
  shows "same_rule trk (fold (recompute_reverted st) xs trk)
     \<and> (b \<in> set xs \<or> tracked_at trk st b
          \<longrightarrow> tracked_at (fold (recompute_reverted st) xs trk) st b)"
  using assms
proof (induction xs arbitrary: trk)
  case Nil
  then show ?case by simp
next
  case (Cons x xs)
  let ?trk = "recompute_reverted st x trk"
  have on: "tracking_enabled ?trk"
    using same_ruleD(4) [OF recompute_same_rule] Cons.prems by simp
  have "b \<in> set (x # xs) \<or> tracked_at trk st b \<Longrightarrow> b \<in> set xs \<or> tracked_at ?trk st b"
    using recompute_tracks [OF Cons.prems, of st x] recompute_other [of b x st trk] by auto
  with Cons.IH [OF on] show ?case
    using same_rule_trans [OF recompute_same_rule] by auto
qed

lemma on_checkpoint_revert_same_rule: "same_rule trk (on_checkpoint_revert xs st trk)"
  using fold_recompute by (simp add: on_checkpoint_revert_def)

lemma on_checkpoint_revert_tracks:
  assumes "tracking_enabled trk" and "b \<in> set xs \<or> tracked_at trk st b"
  shows "tracked_at (on_checkpoint_revert xs st trk) st b"
  using fold_recompute [OF assms(1), where st = st and xs = xs and b = b] assms
  by (simp add: on_checkpoint_revert_def)

text \<open>The start of a transaction: the sender's account is loaded, and nobody else has less than
  before the transaction.\<close>

definition rule_of :: "ReserveBalanceInit \<Rightarrow> ReserveBalanceTracker" where
  "rule_of i = tracker_default\<lparr>tracking_enabled := True, t_chain := i_chain i,
     use_recent_code_hash := True, t_sender := i_sender i,
     sender_gas_fees := ucast (i_effective_gas_price i) * ucast (i_gas_limit i),
     t_sender_can_dip := sender_can_dip (i_chain i) (i_sender i) (i_sender_is_delegated i),
     allow_init_selfdestruct_exemption := (i_spec i \<noteq> MonadEight)\<rparr>"

lemma init_tracker_eq:
  "init_tracker i trk = update_loaded_account (i_sender_account i) (i_sender i) (rule_of i)"
  by (simp add: init_tracker_def clear_tracker_def rule_of_def Let_def tracker_default_def)

lemma init_tracker_tracks:
  assumes snd: "st (i_sender i) = Some acc" "i_sender_account i = Some acc"
    and rest: "\<And>a x. a \<noteq> i_sender i \<Longrightarrow> st a = Some x
      \<Longrightarrow> ai_balance (acc_original_info x) \<le> ai_balance (acc_info x)"
  shows "tracked_at (init_tracker i trk) st a"
proof -
  have e: "init_tracker i trk = update_loaded_account (st (i_sender i)) (i_sender i) (rule_of i)"
    by (simp add: init_tracker_eq snd)
  have empty: "violation_thresholds (rule_of i) = Map.empty" "failed (rule_of i) = {}"
    "tracking_enabled (rule_of i)" "t_sender (rule_of i) = i_sender i"
    by (simp_all add: rule_of_def tracker_default_def)
  show ?thesis
  proof (cases "a = i_sender i")
    case True
    show ?thesis unfolding e True by (rule update_tracks) (simp_all add: empty)
  next
    case False
    then have "tracked_at (rule_of i) st a"
      using rest full_balance_no_dip [of a "rule_of i"] by (auto simp: tracked_at_def empty)
    then show ?thesis unfolding e using False
      by (subst tracked_at_cong [OF update_same_rule]) (simp_all add: update_other)
  qed
qed

section \<open>The precompile (mod.rs)\<close>

definition RESERVE_BALANCE_ADDRESS :: address where "RESERVE_BALANCE_ADDRESS = 0x1001"
definition DIPPED_INTO_RESERVE_SELECTOR :: selector where
  "DIPPED_INTO_RESERVE_SELECTOR = [0x3a, 0x61, 0x58, 0x4e]"
definition DIPPED_INTO_RESERVE_GAS :: u64 where "DIPPED_INTO_RESERVE_GAS = 100"

datatype ReserveBalanceError = MethodNotSupported | ValueNonZero | InvalidInput

text \<open>The texts, in the Display instance and in the conversion to a precompile error.\<close>

fun reserve_error_text :: "ReserveBalanceError \<Rightarrow> string" where
  "reserve_error_text MethodNotSupported = ''method not supported''"
| "reserve_error_text ValueNonZero = ''value is nonzero''"
| "reserve_error_text InvalidInput = ''input is invalid''"

fun into_precompile_error :: "ReserveBalanceError \<Rightarrow> precompile_error" where
  "into_precompile_error MethodNotSupported = Other ''method not supported''"
| "into_precompile_error ValueNonZero = Other ''value is nonzero''"
| "into_precompile_error InvalidInput = Other ''input is invalid''"

definition as_bytes :: "string \<Rightarrow> bytes" where
  "as_bytes s = map (\<lambda>c. of_nat (of_char c)) s"

definition success_result :: "gas_meter \<Rightarrow> u64 \<Rightarrow> u64 \<Rightarrow> bool \<Rightarrow> interpreter_result" where
  "success_result G gas_limit gas_used value =
     \<lparr>ir_result = Return, ir_gas_limit = gas_limit,
      ir_gas_remaining = snd (G gas_limit gas_used),
      ir_output = (replicate 32 0)[31 := (if value then 1 else 0)]\<rparr>"

definition revert_result :: "gas_meter \<Rightarrow> u64 \<Rightarrow> bytes \<Rightarrow> interpreter_result" where
  "revert_result G gas_limit output =
     \<lparr>ir_result = Revert, ir_gas_limit = gas_limit,
      ir_gas_remaining = snd (G gas_limit gas_limit), ir_output = output\<rparr>"

definition revert_error_result :: "gas_meter \<Rightarrow> u64 \<Rightarrow> ReserveBalanceError \<Rightarrow> interpreter_result" where
  "revert_error_result G gas_limit error =
     revert_result G gas_limit (as_bytes (reserve_error_text error))"

definition oog_result :: "gas_meter \<Rightarrow> u64 \<Rightarrow> interpreter_result" where
  "oog_result G gas_limit =
     \<lparr>ir_result = PrecompileOOG, ir_gas_limit = gas_limit,
      ir_gas_remaining = snd (G gas_limit gas_limit), ir_output = []\<rparr>"

definition run_reserve_balance_precompile ::
    "gas_meter \<Rightarrow> (nat \<times> nat \<Rightarrow> bytes option) \<Rightarrow> MonadSpecId \<Rightarrow> ReserveBalanceTracker \<Rightarrow>
     call_inputs \<Rightarrow> interpreter_result option" where
  "run_reserve_balance_precompile G shared spec trk inputs =
     (if ci_bytecode_address inputs \<noteq> RESERVE_BALANCE_ADDRESS \<or> \<not> is_enabled_in MonadNine spec
      then None
      else if ci_scheme inputs \<noteq> CallScheme_Call \<or> ci_is_static inputs
      then Some (revert_result G (ci_gas_limit inputs) [])
      else if ci_gas_limit inputs < DIPPED_INTO_RESERVE_GAS
      then Some (oog_result G (ci_gas_limit inputs))
      else
        let input = input_bytes_of shared (ci_input inputs) in
        (if selector_of input \<noteq> Some DIPPED_INTO_RESERVE_SELECTOR
         then Some (revert_error_result G (ci_gas_limit inputs) MethodNotSupported)
         else if ci_call_value inputs \<noteq> 0
         then Some (revert_error_result G (ci_gas_limit inputs) ValueNonZero)
         else if 4 < length input
         then Some (revert_error_result G (ci_gas_limit inputs) InvalidInput)
         else Some (success_result G (ci_gas_limit inputs) DIPPED_INTO_RESERVE_GAS
                      (has_violation trk))))"

lemma reserve_error_texts_agree: "into_precompile_error e = Other (reserve_error_text e)"
  by (cases e) simp_all

lemma be_nat_bool_word: "be_nat ((replicate 32 0)[31 := (if b then 1 else 0)]) = (if b then 1 else 0)"
proof -
  have "(replicate 32 0)[31 := (if b then 1 else 0)] = replicate 31 0 @ [(if b then 1 else 0 :: u8)]"
    by (simp add: numeral_eq_Suc)
  then show ?thesis by (simp only: be_nat_snoc be_nat_replicate_0) simp
qed

text \<open>A call of the method itself: made with CALL, with enough gas, no value and nothing behind
  the selector.\<close>

definition reserve_query :: "(nat \<times> nat \<Rightarrow> bytes option) \<Rightarrow> call_inputs \<Rightarrow> bool" where
  "reserve_query shared inputs \<longleftrightarrow>
     ci_scheme inputs = CallScheme_Call \<and> \<not> ci_is_static inputs
     \<and> DIPPED_INTO_RESERVE_GAS \<le> ci_gas_limit inputs \<and> ci_call_value inputs = 0
     \<and> input_bytes_of shared (ci_input inputs) = DIPPED_INTO_RESERVE_SELECTOR"

text \<open>Every call to the address gets an answer; exactly the calls of the method return, at the
  price of the method, and all others consume their gas.\<close>

lemma selector_of_exact:
  "length sel = 4 \<Longrightarrow> selector_of input = Some sel \<and> \<not> 4 < length input \<longleftrightarrow> input = sel"
  by (auto simp: selector_of_def)

lemma reserve_call_outcome:
  assumes "meter_ok G" and "ci_bytecode_address inputs = RESERVE_BALANCE_ADDRESS"
    and "spec \<noteq> MonadEight"
  shows "\<exists>ir. run_reserve_balance_precompile G shared spec trk inputs = Some ir
     \<and> ir_gas_limit ir = ci_gas_limit inputs
     \<and> (ir_result ir = Return \<longleftrightarrow> reserve_query shared inputs)
     \<and> (if reserve_query shared inputs
        then ir_gas_remaining ir = ci_gas_limit inputs - DIPPED_INTO_RESERVE_GAS
             \<and> length (ir_output ir) = 32
             \<and> be_nat (ir_output ir) = (if has_violation trk then 1 else 0)
        else ir_gas_remaining ir = 0)
     \<and> (ir_result ir = PrecompileOOG \<longleftrightarrow>
          ci_scheme inputs = CallScheme_Call \<and> \<not> ci_is_static inputs
          \<and> ci_gas_limit inputs < DIPPED_INTO_RESERVE_GAS)"
proof -
  have sel: "selector_of input = Some DIPPED_INTO_RESERVE_SELECTOR \<and> \<not> 4 < length input
      \<longleftrightarrow> input = DIPPED_INTO_RESERVE_SELECTOR" for input
    by (rule selector_of_exact) (simp add: DIPPED_INTO_RESERVE_SELECTOR_def)
  have q: "reserve_query shared inputs \<longleftrightarrow>
      ci_scheme inputs = CallScheme_Call \<and> \<not> ci_is_static inputs
      \<and> \<not> ci_gas_limit inputs < DIPPED_INTO_RESERVE_GAS \<and> ci_call_value inputs = 0
      \<and> selector_of (input_bytes_of shared (ci_input inputs)) = Some DIPPED_INTO_RESERVE_SELECTOR
      \<and> \<not> 4 < length (input_bytes_of shared (ci_input inputs))"
    unfolding reserve_query_def sel [symmetric] by (auto simp: not_less)
  show ?thesis
    unfolding q using assms
    by (auto simp: run_reserve_balance_precompile_def Let_def revert_result_def oog_result_def
        revert_error_result_def success_result_def meter_ok_def not_less be_nat_bool_word)
qed

end
