(* ===== verification/JournalOps.thy ===== *)
theory JournalOps
  imports Reserve
begin

text \<open>
  The journal wrapper of \<open>journal.rs\<close>: every operation of revm's Journal is passed on, and
  those that move balances, change code or undo changes also tell the reserve-balance
  tracker. revm's Journal is a parameter, a record of its operations over a state \<open>'j\<close>, and so
  is the database behind it. Values of revm's that are only handed through (errors, loads,
  results) have the type \<open>'x\<close>. What is relied on is stated in \<open>Journal\<close>.
\<close>

section \<open>Journal entries\<close>

text \<open>JournalEntry, without the fields that the code elides.\<close>

datatype journal_entry =
    AccountWarmed address
  | AccountTouched address
  | BalanceChange address
  | NonceChange address
  | NonceBump address
  | AccountCreated address
  | StorageChanged address
  | StorageWarmed address
  | TransientStorageChange address
  | CodeChange address
  | BalanceTransfer address address
  | AccountDestroyed address address

fun reverted_addresses_from_entry :: "journal_entry \<Rightarrow> address list" where
  "reverted_addresses_from_entry (AccountWarmed a) = [a]"
| "reverted_addresses_from_entry (AccountTouched a) = [a]"
| "reverted_addresses_from_entry (BalanceChange a) = [a]"
| "reverted_addresses_from_entry (NonceChange a) = [a]"
| "reverted_addresses_from_entry (NonceBump a) = [a]"
| "reverted_addresses_from_entry (AccountCreated a) = [a]"
| "reverted_addresses_from_entry (StorageChanged a) = [a]"
| "reverted_addresses_from_entry (StorageWarmed a) = [a]"
| "reverted_addresses_from_entry (TransientStorageChange a) = [a]"
| "reverted_addresses_from_entry (CodeChange a) = [a]"
| "reverted_addresses_from_entry (BalanceTransfer frm recipient) = [frm, recipient]"
| "reverted_addresses_from_entry (AccountDestroyed a target) = [a, target]"

section \<open>The journal wrapped\<close>

record journal_checkpoint =
  log_i :: nat
  journal_i :: nat

text \<open>StateLoad: the value, and whether it had to be loaded.\<close>

record state_load =
  sl_data :: u256
  sl_is_cold :: bool

record ('j, 'x) journal_ops =
  jo_state :: "'j \<Rightarrow> evm_state"
  jo_entries :: "'j \<Rightarrow> journal_entry list"
  jo_transfer :: "address \<Rightarrow> address \<Rightarrow> u256 \<Rightarrow> 'j \<Rightarrow> ('x + 'x option) \<times> 'j"
  jo_transfer_loaded :: "address \<Rightarrow> address \<Rightarrow> u256 \<Rightarrow> 'j \<Rightarrow> 'x option \<times> 'j"
  jo_selfdestruct :: "address \<Rightarrow> address \<Rightarrow> bool \<Rightarrow> 'j \<Rightarrow> ('x + 'x) \<times> 'j"
  jo_balance_incr :: "address \<Rightarrow> u256 \<Rightarrow> 'j \<Rightarrow> ('x + unit) \<times> 'j"
  jo_set_code_with_hash :: "address \<Rightarrow> bytecode \<Rightarrow> u256 \<Rightarrow> 'j \<Rightarrow> 'j"
  jo_create_account_checkpoint ::
    "address \<Rightarrow> address \<Rightarrow> u256 \<Rightarrow> SpecId \<Rightarrow> 'j \<Rightarrow> ('x + journal_checkpoint) \<times> 'j"
  jo_checkpoint :: "'j \<Rightarrow> journal_checkpoint \<times> 'j"
  jo_checkpoint_commit :: "'j \<Rightarrow> 'j"
  jo_checkpoint_revert :: "journal_checkpoint \<Rightarrow> 'j \<Rightarrow> 'j"
  jo_commit_tx :: "'j \<Rightarrow> 'j"
  jo_discard_tx :: "'j \<Rightarrow> 'j"
  jo_finalize :: "'j \<Rightarrow> evm_state \<times> 'j"
  jo_sload :: "address \<Rightarrow> u256 \<Rightarrow> 'j \<Rightarrow> ('x + state_load) \<times> 'j"
  jo_sstore :: "address \<Rightarrow> u256 \<Rightarrow> u256 \<Rightarrow> 'j \<Rightarrow> ('x + 'x) \<times> 'j"
  jo_load_account :: "address \<Rightarrow> 'j \<Rightarrow> ('x + account) \<times> 'j"
  jo_touch_account :: "address \<Rightarrow> 'j \<Rightarrow> 'j"
  jo_tload :: "address \<Rightarrow> u256 \<Rightarrow> 'j \<Rightarrow> u256 \<times> 'j"
  jo_tstore :: "address \<Rightarrow> u256 \<Rightarrow> u256 \<Rightarrow> 'j \<Rightarrow> 'j"
  jo_log :: "log_entry \<Rightarrow> 'j \<Rightarrow> 'j"
  jo_take_logs :: "'j \<Rightarrow> log_entry list \<times> 'j"
  jo_logs :: "'j \<Rightarrow> log_entry list"
  jo_warm_access_list :: "(address \<Rightarrow> u256 set option) \<Rightarrow> 'j \<Rightarrow> 'j"
  jo_warm_coinbase_account :: "address \<Rightarrow> 'j \<Rightarrow> 'j"
  jo_warm_precompiles :: "address set \<Rightarrow> 'j \<Rightarrow> 'j"
  jo_precompile_addresses :: "'j \<Rightarrow> address set"
  jo_set_spec_id :: "SpecId \<Rightarrow> 'j \<Rightarrow> 'j"
  jo_caller_accounting_journal_entry :: "address \<Rightarrow> u256 \<Rightarrow> bool \<Rightarrow> 'j \<Rightarrow> 'j"
  jo_nonce_bump_journal_entry :: "address \<Rightarrow> 'j \<Rightarrow> 'j"
  jo_load_account_mut_skip_cold_load :: "address \<Rightarrow> bool \<Rightarrow> 'j \<Rightarrow> ('x + 'x) \<times> 'j"
  jo_load_account_mut_optional_code :: "address \<Rightarrow> bool \<Rightarrow> 'j \<Rightarrow> ('x + 'x) \<times> 'j"
  jo_load_account_with_code :: "address \<Rightarrow> 'j \<Rightarrow> ('x + account) \<times> 'j"
  jo_load_account_delegated :: "address \<Rightarrow> 'j \<Rightarrow> ('x + 'x) \<times> 'j"
  jo_depth :: "'j \<Rightarrow> nat"
  jo_sload_skip_cold_load :: "address \<Rightarrow> u256 \<Rightarrow> bool \<Rightarrow> 'j \<Rightarrow> ('x + state_load) \<times> 'j"
  jo_sstore_skip_cold_load :: "address \<Rightarrow> u256 \<Rightarrow> u256 \<Rightarrow> bool \<Rightarrow> 'j \<Rightarrow> ('x + 'x) \<times> 'j"
  jo_load_account_info_skip_cold_load :: "address \<Rightarrow> bool \<Rightarrow> bool \<Rightarrow> 'j \<Rightarrow> ('x + 'x) \<times> 'j"

text \<open>The database behind revm's Journal: how a journal is made from one, and how it is read,
  changed and taken out again.\<close>

record ('d, 'j) journal_db =
  jd_new :: "'d \<Rightarrow> 'j"
  jd_db :: "'j \<Rightarrow> 'd"
  jd_update :: "('d \<Rightarrow> 'd) \<Rightarrow> 'j \<Rightarrow> 'j"

record 'j MonadJournal =
  mj_inner :: 'j
  mj_tracker :: ReserveBalanceTracker

definition mj_state :: "('j, 'x) journal_ops \<Rightarrow> 'j MonadJournal \<Rightarrow> evm_state" where
  "mj_state I j = jo_state I (mj_inner j)"

definition new_with_inner :: "'j \<Rightarrow> ReserveBalanceTracker \<Rightarrow> 'j MonadJournal" where
  "new_with_inner inner trk = \<lparr>mj_inner = inner, mj_tracker = trk\<rparr>"

definition mj_new :: "('d, 'j) journal_db \<Rightarrow> 'd \<Rightarrow> 'j MonadJournal" where
  "mj_new D database = \<lparr>mj_inner = jd_new D database, mj_tracker = tracker_default\<rparr>"

definition into_database :: "('d, 'j) journal_db \<Rightarrow> 'j MonadJournal \<Rightarrow> 'd" where
  "into_database D j = jd_db D (mj_inner j)"

definition mj_db :: "('d, 'j) journal_db \<Rightarrow> 'j MonadJournal \<Rightarrow> 'd" where
  "mj_db D j = jd_db D (mj_inner j)"

text \<open>A mutable reference is the update made through it.\<close>

definition mj_db_mut :: "('d, 'j) journal_db \<Rightarrow> ('d \<Rightarrow> 'd) \<Rightarrow> 'j MonadJournal \<Rightarrow> 'j MonadJournal" where
  "mj_db_mut D f j = j\<lparr>mj_inner := jd_update D f (mj_inner j)\<rparr>"

definition reserve_balance :: "'j MonadJournal \<Rightarrow> ReserveBalanceTracker" where
  "reserve_balance j = mj_tracker j"

definition reserve_balance_mut ::
    "(ReserveBalanceTracker \<Rightarrow> ReserveBalanceTracker) \<Rightarrow> 'j MonadJournal \<Rightarrow> 'j MonadJournal" where
  "reserve_balance_mut f j = j\<lparr>mj_tracker := f (mj_tracker j)\<rparr>"

definition mj_journal :: "('j, 'x) journal_ops \<Rightarrow> 'j MonadJournal \<Rightarrow> journal_entry list" where
  "mj_journal I j = jo_entries I (mj_inner j)"

definition on_transfer ::
    "('j, 'x) journal_ops \<Rightarrow> address \<Rightarrow> address \<Rightarrow> 'j MonadJournal \<Rightarrow> 'j MonadJournal" where
  "on_transfer I frm recipient j =
     (let st = mj_state I j;
          trk = on_debit (st frm) frm (mj_tracker j);
          trk = on_credit (st recipient) recipient trk
      in j\<lparr>mj_tracker := trk\<rparr>)"

text \<open>\<open>journal.get(i..)\<close> is the tail from \<open>i\<close>, or nothing when \<open>i\<close> is out of bounds.\<close>

definition reverted_addresses :: "journal_entry list \<Rightarrow> nat \<Rightarrow> address list" where
  "reverted_addresses js i =
     (if i \<le> length js then concat (map reverted_addresses_from_entry (drop i js)) else [])"

definition mj_on_checkpoint_revert ::
    "('j, 'x) journal_ops \<Rightarrow> journal_checkpoint \<Rightarrow> 'j MonadJournal \<Rightarrow> 'j MonadJournal" where
  "mj_on_checkpoint_revert I checkpoint j =
     (let addresses = reverted_addresses (jo_entries I (mj_inner j)) (journal_i checkpoint);
          inner = jo_checkpoint_revert I checkpoint (mj_inner j)
      in j\<lparr>mj_inner := inner,
           mj_tracker := on_checkpoint_revert addresses (jo_state I inner) (mj_tracker j)\<rparr>)"

section \<open>The operations of JournalTr\<close>

definition mj_sload ::
    "('j, 'x) journal_ops \<Rightarrow> address \<Rightarrow> u256 \<Rightarrow> 'j MonadJournal \<Rightarrow>
     ('x + state_load) \<times> 'j MonadJournal" where
  "mj_sload I a key j =
     (case jo_sload I a key (mj_inner j) of (r, inner) \<Rightarrow> (r, j\<lparr>mj_inner := inner\<rparr>))"

definition mj_sstore ::
    "('j, 'x) journal_ops \<Rightarrow> address \<Rightarrow> u256 \<Rightarrow> u256 \<Rightarrow> 'j MonadJournal \<Rightarrow> ('x + 'x) \<times> 'j MonadJournal" where
  "mj_sstore I a key value j =
     (case jo_sstore I a key value (mj_inner j) of (r, inner) \<Rightarrow> (r, j\<lparr>mj_inner := inner\<rparr>))"

definition mj_load_account ::
    "('j, 'x) journal_ops \<Rightarrow> address \<Rightarrow> 'j MonadJournal \<Rightarrow>
     ('x + account) \<times> 'j MonadJournal" where
  "mj_load_account I a j =
     (case jo_load_account I a (mj_inner j) of (r, inner) \<Rightarrow> (r, j\<lparr>mj_inner := inner\<rparr>))"

definition mj_touch_account ::
    "('j, 'x) journal_ops \<Rightarrow> address \<Rightarrow> 'j MonadJournal \<Rightarrow> 'j MonadJournal" where
  "mj_touch_account I a j = j\<lparr>mj_inner := jo_touch_account I a (mj_inner j)\<rparr>"

definition mj_selfdestruct ::
    "('j, 'x) journal_ops \<Rightarrow> address \<Rightarrow> address \<Rightarrow> bool \<Rightarrow> 'j MonadJournal \<Rightarrow>
     ('x + 'x) \<times> 'j MonadJournal" where
  "mj_selfdestruct I a target skip_cold_load j =
     (case jo_selfdestruct I a target skip_cold_load (mj_inner j) of
        (Inl e, inner) \<Rightarrow> (Inl e, j\<lparr>mj_inner := inner\<rparr>)
      | (Inr result, inner) \<Rightarrow> (Inr result, on_transfer I a target (j\<lparr>mj_inner := inner\<rparr>)))"

definition mj_transfer ::
    "('j, 'x) journal_ops \<Rightarrow> address \<Rightarrow> address \<Rightarrow> u256 \<Rightarrow> 'j MonadJournal \<Rightarrow>
     ('x + 'x option) \<times> 'j MonadJournal" where
  "mj_transfer I frm recipient amount j =
     (case jo_transfer I frm recipient amount (mj_inner j) of
        (Inl e, inner) \<Rightarrow> (Inl e, j\<lparr>mj_inner := inner\<rparr>)
      | (Inr (Some e), inner) \<Rightarrow> (Inr (Some e), j\<lparr>mj_inner := inner\<rparr>)
      | (Inr None, inner) \<Rightarrow> (Inr None, on_transfer I frm recipient (j\<lparr>mj_inner := inner\<rparr>)))"

definition mj_transfer_loaded ::
    "('j, 'x) journal_ops \<Rightarrow> address \<Rightarrow> address \<Rightarrow> u256 \<Rightarrow> 'j MonadJournal \<Rightarrow>
     'x option \<times> 'j MonadJournal" where
  "mj_transfer_loaded I frm recipient amount j =
     (case jo_transfer_loaded I frm recipient amount (mj_inner j) of
        (Some e, inner) \<Rightarrow> (Some e, j\<lparr>mj_inner := inner\<rparr>)
      | (None, inner) \<Rightarrow> (None, on_transfer I frm recipient (j\<lparr>mj_inner := inner\<rparr>)))"

definition mj_balance_incr ::
    "('j, 'x) journal_ops \<Rightarrow> address \<Rightarrow> u256 \<Rightarrow> 'j MonadJournal \<Rightarrow> ('x + unit) \<times> 'j MonadJournal" where
  "mj_balance_incr I a balance j =
     (case jo_balance_incr I a balance (mj_inner j) of
        (Inl e, inner) \<Rightarrow> (Inl e, j\<lparr>mj_inner := inner\<rparr>)
      | (Inr u, inner) \<Rightarrow>
          (Inr u, j\<lparr>mj_inner := inner,
                     mj_tracker := on_credit (jo_state I inner a) a (mj_tracker j)\<rparr>))"

definition mj_set_code_with_hash ::
    "('j, 'x) journal_ops \<Rightarrow> address \<Rightarrow> bytecode \<Rightarrow> u256 \<Rightarrow> 'j MonadJournal \<Rightarrow> 'j MonadJournal" where
  "mj_set_code_with_hash I a code hash j =
     (let inner = jo_set_code_with_hash I a code hash (mj_inner j) in
      j\<lparr>mj_inner := inner,
        mj_tracker := on_set_code (jo_state I inner a) a code (mj_tracker j)\<rparr>)"

definition mj_create_account_checkpoint ::
    "('j, 'x) journal_ops \<Rightarrow> address \<Rightarrow> address \<Rightarrow> u256 \<Rightarrow> SpecId \<Rightarrow> 'j MonadJournal \<Rightarrow>
     ('x + journal_checkpoint) \<times> 'j MonadJournal" where
  "mj_create_account_checkpoint I caller a balance spec j =
     (case jo_create_account_checkpoint I caller a balance spec (mj_inner j) of
        (Inl e, inner) \<Rightarrow> (Inl e, j\<lparr>mj_inner := inner\<rparr>)
      | (Inr checkpoint, inner) \<Rightarrow>
          (Inr checkpoint, on_transfer I caller a (j\<lparr>mj_inner := inner\<rparr>)))"

definition mj_checkpoint ::
    "('j, 'x) journal_ops \<Rightarrow> 'j MonadJournal \<Rightarrow> journal_checkpoint \<times> 'j MonadJournal" where
  "mj_checkpoint I j =
     (case jo_checkpoint I (mj_inner j) of (c, inner) \<Rightarrow> (c, j\<lparr>mj_inner := inner\<rparr>))"

definition mj_checkpoint_commit :: "('j, 'x) journal_ops \<Rightarrow> 'j MonadJournal \<Rightarrow> 'j MonadJournal" where
  "mj_checkpoint_commit I j = j\<lparr>mj_inner := jo_checkpoint_commit I (mj_inner j)\<rparr>"

definition mj_checkpoint_revert ::
    "('j, 'x) journal_ops \<Rightarrow> journal_checkpoint \<Rightarrow> 'j MonadJournal \<Rightarrow> 'j MonadJournal" where
  "mj_checkpoint_revert I checkpoint j = mj_on_checkpoint_revert I checkpoint j"

definition mj_commit_tx :: "('j, 'x) journal_ops \<Rightarrow> 'j MonadJournal \<Rightarrow> 'j MonadJournal" where
  "mj_commit_tx I j =
     j\<lparr>mj_inner := jo_commit_tx I (mj_inner j), mj_tracker := clear_tracker (mj_tracker j)\<rparr>"

definition mj_discard_tx :: "('j, 'x) journal_ops \<Rightarrow> 'j MonadJournal \<Rightarrow> 'j MonadJournal" where
  "mj_discard_tx I j =
     j\<lparr>mj_inner := jo_discard_tx I (mj_inner j), mj_tracker := clear_tracker (mj_tracker j)\<rparr>"

definition mj_finalize :: "('j, 'x) journal_ops \<Rightarrow> 'j MonadJournal \<Rightarrow> evm_state \<times> 'j MonadJournal" where
  "mj_finalize I j =
     (let j = j\<lparr>mj_tracker := clear_tracker (mj_tracker j)\<rparr> in
      case jo_finalize I (mj_inner j) of (st, inner) \<Rightarrow> (st, j\<lparr>mj_inner := inner\<rparr>))"

section \<open>The operations that are only passed on\<close>

text \<open>Transient storage, logs, warming, the hardfork, and the ways to load an account or a slot. The
  handle on an account that the \<open>mut\<close> loads return is a value of revm's.\<close>

definition mj_tload ::
    "('j, 'x) journal_ops \<Rightarrow> address \<Rightarrow> u256 \<Rightarrow> 'j MonadJournal \<Rightarrow>
     u256 \<times> 'j MonadJournal" where
  "mj_tload I a key j =
     (case jo_tload I a key (mj_inner j) of (r, inner) \<Rightarrow> (r, j\<lparr>mj_inner := inner\<rparr>))"

definition mj_tstore ::
    "('j, 'x) journal_ops \<Rightarrow> address \<Rightarrow> u256 \<Rightarrow> u256 \<Rightarrow> 'j MonadJournal \<Rightarrow>
     'j MonadJournal" where
  "mj_tstore I a key value j =
     j\<lparr>mj_inner := jo_tstore I a key value (mj_inner j)\<rparr>"

definition mj_log ::
    "('j, 'x) journal_ops \<Rightarrow> log_entry \<Rightarrow> 'j MonadJournal \<Rightarrow>
     'j MonadJournal" where
  "mj_log I entry j =
     j\<lparr>mj_inner := jo_log I entry (mj_inner j)\<rparr>"

definition mj_take_logs ::
    "('j, 'x) journal_ops \<Rightarrow> 'j MonadJournal \<Rightarrow>
     log_entry list \<times> 'j MonadJournal" where
  "mj_take_logs I j =
     (case jo_take_logs I (mj_inner j) of (r, inner) \<Rightarrow> (r, j\<lparr>mj_inner := inner\<rparr>))"

definition mj_logs :: "('j, 'x) journal_ops \<Rightarrow> 'j MonadJournal \<Rightarrow> log_entry list" where
  "mj_logs I j = jo_logs I (mj_inner j)"

definition mj_warm_access_list ::
    "('j, 'x) journal_ops \<Rightarrow> (address \<Rightarrow> u256 set option) \<Rightarrow> 'j MonadJournal \<Rightarrow>
     'j MonadJournal" where
  "mj_warm_access_list I access_list j =
     j\<lparr>mj_inner := jo_warm_access_list I access_list (mj_inner j)\<rparr>"

definition mj_warm_coinbase_account ::
    "('j, 'x) journal_ops \<Rightarrow> address \<Rightarrow> 'j MonadJournal \<Rightarrow>
     'j MonadJournal" where
  "mj_warm_coinbase_account I a j =
     j\<lparr>mj_inner := jo_warm_coinbase_account I a (mj_inner j)\<rparr>"

definition mj_warm_precompiles ::
    "('j, 'x) journal_ops \<Rightarrow> address set \<Rightarrow> 'j MonadJournal \<Rightarrow>
     'j MonadJournal" where
  "mj_warm_precompiles I addresses j =
     j\<lparr>mj_inner := jo_warm_precompiles I addresses (mj_inner j)\<rparr>"

definition mj_precompile_addresses :: "('j, 'x) journal_ops \<Rightarrow> 'j MonadJournal \<Rightarrow> address set" where
  "mj_precompile_addresses I j = jo_precompile_addresses I (mj_inner j)"

definition mj_set_spec_id ::
    "('j, 'x) journal_ops \<Rightarrow> SpecId \<Rightarrow> 'j MonadJournal \<Rightarrow>
     'j MonadJournal" where
  "mj_set_spec_id I spec j =
     j\<lparr>mj_inner := jo_set_spec_id I spec (mj_inner j)\<rparr>"

definition mj_caller_accounting_journal_entry ::
    "('j, 'x) journal_ops \<Rightarrow> address \<Rightarrow> u256 \<Rightarrow> bool \<Rightarrow> 'j MonadJournal \<Rightarrow>
     'j MonadJournal" where
  "mj_caller_accounting_journal_entry I a old_balance bump_nonce j =
     j\<lparr>mj_inner := jo_caller_accounting_journal_entry I a old_balance bump_nonce (mj_inner j)\<rparr>"

definition mj_nonce_bump_journal_entry ::
    "('j, 'x) journal_ops \<Rightarrow> address \<Rightarrow> 'j MonadJournal \<Rightarrow>
     'j MonadJournal" where
  "mj_nonce_bump_journal_entry I a j =
     j\<lparr>mj_inner := jo_nonce_bump_journal_entry I a (mj_inner j)\<rparr>"

definition mj_load_account_mut_skip_cold_load ::
    "('j, 'x) journal_ops \<Rightarrow> address \<Rightarrow> bool \<Rightarrow> 'j MonadJournal \<Rightarrow>
     ('x + 'x) \<times> 'j MonadJournal" where
  "mj_load_account_mut_skip_cold_load I a skip_cold_load j =
     (case jo_load_account_mut_skip_cold_load I a skip_cold_load (mj_inner j) of
        (r, inner) \<Rightarrow> (r, j\<lparr>mj_inner := inner\<rparr>))"

definition mj_load_account_mut_optional_code ::
    "('j, 'x) journal_ops \<Rightarrow> address \<Rightarrow> bool \<Rightarrow> 'j MonadJournal \<Rightarrow>
     ('x + 'x) \<times> 'j MonadJournal" where
  "mj_load_account_mut_optional_code I a load_code j =
     (case jo_load_account_mut_optional_code I a load_code (mj_inner j) of
        (r, inner) \<Rightarrow> (r, j\<lparr>mj_inner := inner\<rparr>))"

definition mj_load_account_with_code ::
    "('j, 'x) journal_ops \<Rightarrow> address \<Rightarrow> 'j MonadJournal \<Rightarrow>
     ('x + account) \<times> 'j MonadJournal" where
  "mj_load_account_with_code I a j =
     (case jo_load_account_with_code I a (mj_inner j) of (r, inner) \<Rightarrow> (r, j\<lparr>mj_inner := inner\<rparr>))"

definition mj_load_account_delegated ::
    "('j, 'x) journal_ops \<Rightarrow> address \<Rightarrow> 'j MonadJournal \<Rightarrow>
     ('x + 'x) \<times> 'j MonadJournal" where
  "mj_load_account_delegated I a j =
     (case jo_load_account_delegated I a (mj_inner j) of (r, inner) \<Rightarrow> (r, j\<lparr>mj_inner := inner\<rparr>))"

definition mj_depth :: "('j, 'x) journal_ops \<Rightarrow> 'j MonadJournal \<Rightarrow> nat" where
  "mj_depth I j = jo_depth I (mj_inner j)"

definition mj_sload_skip_cold_load ::
    "('j, 'x) journal_ops \<Rightarrow> address \<Rightarrow> u256 \<Rightarrow> bool \<Rightarrow> 'j MonadJournal \<Rightarrow>
     ('x + state_load) \<times> 'j MonadJournal" where
  "mj_sload_skip_cold_load I a key skip_cold_load j =
     (case jo_sload_skip_cold_load I a key skip_cold_load (mj_inner j) of
        (r, inner) \<Rightarrow> (r, j\<lparr>mj_inner := inner\<rparr>))"

definition mj_sstore_skip_cold_load ::
    "('j, 'x) journal_ops \<Rightarrow> address \<Rightarrow> u256 \<Rightarrow> u256 \<Rightarrow> bool \<Rightarrow> 'j MonadJournal \<Rightarrow>
     ('x + 'x) \<times> 'j MonadJournal" where
  "mj_sstore_skip_cold_load I a key value skip_cold_load j =
     (case jo_sstore_skip_cold_load I a key value skip_cold_load (mj_inner j) of
        (r, inner) \<Rightarrow> (r, j\<lparr>mj_inner := inner\<rparr>))"

definition mj_load_account_info_skip_cold_load ::
    "('j, 'x) journal_ops \<Rightarrow> address \<Rightarrow> bool \<Rightarrow> bool \<Rightarrow> 'j MonadJournal \<Rightarrow>
     ('x + 'x) \<times> 'j MonadJournal" where
  "mj_load_account_info_skip_cold_load I a load_code skip_cold_load j =
     (case jo_load_account_info_skip_cold_load I a load_code skip_cold_load (mj_inner j) of
        (r, inner) \<Rightarrow> (r, j\<lparr>mj_inner := inner\<rparr>))"

end
