(* ===== verification/Journal.thy ===== *)
theory Journal
  imports JournalOps
begin

text \<open>
  What the journal wrapper keeps: the laws of revm's Journal that are relied on, operation by
  operation (\<open>journal_ok\<close>), the invariant that the tracker agrees with the accounts (\<open>tracks\<close>),
  and the runs of a transaction through the wrapper.
\<close>

section \<open>What is relied on\<close>

text \<open>An operation may load accounts: what was loaded stays as it is, what is new is fresh.\<close>

definition loads :: "evm_state \<Rightarrow> evm_state \<Rightarrow> bool" where
  "loads st st' \<longleftrightarrow>
     (\<forall>a. st' a = st a \<or> st a = None \<and> (\<exists>acc. st' a = Some acc \<and> fresh acc))"

text \<open>The account that pays may lose balance and may be marked as destroyed; the account that
  receives does not lose balance. An account that is created has no code, so its hash is the
  empty one.\<close>

definition debited :: "account \<Rightarrow> account \<Rightarrow> bool" where
  "debited acc acc' \<longleftrightarrow>
     (\<exists>b d. acc' = acc\<lparr>acc_info := (acc_info acc)\<lparr>ai_balance := b\<rparr>,
                      acc_selfdestructed := acc_selfdestructed acc \<or> d\<rparr>)"

definition credited :: "account \<Rightarrow> account \<Rightarrow> bool" where
  "credited acc acc' \<longleftrightarrow>
     (\<exists>b code c. ai_balance (acc_info acc) \<le> b
        \<and> (code = ai_code (acc_info acc)
           \<or> ai_code_hash (acc_info acc) = KECCAK_EMPTY \<or> ai_code_hash (acc_info acc) = 0)
        \<and> acc' = acc\<lparr>acc_info := (acc_info acc)\<lparr>ai_balance := b, ai_code := code\<rparr>,
                     acc_created_locally := acc_created_locally acc \<or> c\<rparr>)"

definition moves :: "address \<Rightarrow> address \<Rightarrow> evm_state \<Rightarrow> evm_state \<Rightarrow> bool" where
  "moves frm recipient st st' \<longleftrightarrow>
     (\<exists>st1 f t f' t'. loads st st1 \<and> st1 frm = Some f \<and> st1 recipient = Some t
        \<and> debited f f' \<and> credited t t'
        \<and> st' = (st1(recipient \<mapsto> t'))(frm \<mapsto> f'))"

definition credits :: "address \<Rightarrow> evm_state \<Rightarrow> evm_state \<Rightarrow> bool" where
  "credits a st st' \<longleftrightarrow>
     (\<exists>st1 t t'. loads st st1 \<and> st1 a = Some t \<and> credited t t' \<and> st' = st1(a \<mapsto> t'))"

definition sets_code :: "address \<Rightarrow> bytecode \<Rightarrow> u256 \<Rightarrow> evm_state \<Rightarrow> evm_state \<Rightarrow> bool" where
  "sets_code a code hash st st' \<longleftrightarrow>
     (\<forall>acc. st a = Some acc \<longrightarrow>
        st' = st(a \<mapsto> acc\<lparr>acc_info := (acc_info acc)\<lparr>ai_code_hash := hash, ai_code := Some code\<rparr>\<rparr>))"

definition undoes :: "address list \<Rightarrow> evm_state \<Rightarrow> evm_state \<Rightarrow> bool" where
  "undoes addresses st st' \<longleftrightarrow>
     (\<forall>a. (a \<notin> set addresses \<longrightarrow> st' a = st a) \<and> (st a \<noteq> None \<longrightarrow> st' a \<noteq> None))"

text \<open>The documented behaviour of revm's Journal, operation by operation: which accounts each
  of them touches, and how. A failed operation may have loaded accounts.\<close>

definition transfer_law :: "('j, 'x) journal_ops \<Rightarrow> bool" where
  "transfer_law I \<longleftrightarrow> (\<forall>f t x j r j'. jo_transfer I f t x j = (r, j') \<longrightarrow>
     (if r = Inr None then moves f t (jo_state I j) (jo_state I j')
      else loads (jo_state I j) (jo_state I j')))"

definition transfer_loaded_law :: "('j, 'x) journal_ops \<Rightarrow> bool" where
  "transfer_loaded_law I \<longleftrightarrow> (\<forall>f t x j r j'. jo_transfer_loaded I f t x j = (r, j') \<longrightarrow>
     (if r = None then moves f t (jo_state I j) (jo_state I j')
      else loads (jo_state I j) (jo_state I j')))"

definition selfdestruct_law :: "('j, 'x) journal_ops \<Rightarrow> bool" where
  "selfdestruct_law I \<longleftrightarrow> (\<forall>a t b j r j'. jo_selfdestruct I a t b j = (r, j') \<longrightarrow>
     (if isl r then loads (jo_state I j) (jo_state I j')
      else moves a t (jo_state I j) (jo_state I j')))"

definition balance_incr_law :: "('j, 'x) journal_ops \<Rightarrow> bool" where
  "balance_incr_law I \<longleftrightarrow> (\<forall>a x j r j'. jo_balance_incr I a x j = (r, j') \<longrightarrow>
     (if isl r then loads (jo_state I j) (jo_state I j')
      else credits a (jo_state I j) (jo_state I j')))"

definition set_code_law :: "('j, 'x) journal_ops \<Rightarrow> bool" where
  "set_code_law I \<longleftrightarrow> (\<forall>a code hash j.
     sets_code a code hash (jo_state I j) (jo_state I (jo_set_code_with_hash I a code hash j)))"

definition create_law :: "('j, 'x) journal_ops \<Rightarrow> bool" where
  "create_law I \<longleftrightarrow> (\<forall>c a x spec j r j'. jo_create_account_checkpoint I c a x spec j = (r, j') \<longrightarrow>
     (if isl r then loads (jo_state I j) (jo_state I j')
      else moves c a (jo_state I j) (jo_state I j')))"

text \<open>A checkpoint and its commit leave the accounts alone; a revert touches only addresses
  that the entries it drops name, and unloads no account.\<close>

definition checkpoint_law :: "('j, 'x) journal_ops \<Rightarrow> bool" where
  "checkpoint_law I \<longleftrightarrow>
     (\<forall>j. jo_state I (snd (jo_checkpoint I j)) = jo_state I j) \<and>
     (\<forall>j. jo_state I (jo_checkpoint_commit I j) = jo_state I j) \<and>
     (\<forall>c j. undoes (reverted_addresses (jo_entries I j) (journal_i c)) (jo_state I j)
        (jo_state I (jo_checkpoint_revert I c j)))"

definition access_law :: "('j, 'x) journal_ops \<Rightarrow> bool" where
  "access_law I \<longleftrightarrow>
     (\<forall>a key j. loads (jo_state I j) (jo_state I (snd (jo_sload I a key j)))) \<and>
     (\<forall>a key v j. loads (jo_state I j) (jo_state I (snd (jo_sstore I a key v j)))) \<and>
     (\<forall>a j. loads (jo_state I j) (jo_state I (snd (jo_load_account I a j)))) \<and>
     (\<forall>a j. loads (jo_state I j) (jo_state I (jo_touch_account I a j)))"

text \<open>The remaining operations move no money and change no code: the loads may load an account,
  all others leave the accounts alone.\<close>

definition load_law :: "('j, 'x) journal_ops \<Rightarrow> bool" where
  "load_law I \<longleftrightarrow> (\<forall>j a key v b c.
     loads (jo_state I j) (jo_state I (snd (jo_load_account_mut_skip_cold_load I a b j))) \<and>
     loads (jo_state I j) (jo_state I (snd (jo_load_account_mut_optional_code I a b j))) \<and>
     loads (jo_state I j) (jo_state I (snd (jo_load_account_with_code I a j))) \<and>
     loads (jo_state I j) (jo_state I (snd (jo_load_account_delegated I a j))) \<and>
     loads (jo_state I j) (jo_state I (snd (jo_sload_skip_cold_load I a key b j))) \<and>
     loads (jo_state I j) (jo_state I (snd (jo_sstore_skip_cold_load I a key v b j))) \<and>
     loads (jo_state I j) (jo_state I (snd (jo_load_account_info_skip_cold_load I a b c j))))"

definition quiet_law :: "('j, 'x) journal_ops \<Rightarrow> bool" where
  "quiet_law I \<longleftrightarrow> (\<forall>j a key v b l xs ps sp.
     jo_state I (snd (jo_tload I a key j)) = jo_state I j \<and>
     jo_state I (jo_tstore I a key v j) = jo_state I j \<and>
     jo_state I (jo_log I l j) = jo_state I j \<and>
     jo_state I (snd (jo_take_logs I j)) = jo_state I j \<and>
     jo_state I (jo_warm_access_list I xs j) = jo_state I j \<and>
     jo_state I (jo_warm_coinbase_account I a j) = jo_state I j \<and>
     jo_state I (jo_warm_precompiles I ps j) = jo_state I j \<and>
     jo_state I (jo_set_spec_id I sp j) = jo_state I j \<and>
     jo_state I (jo_caller_accounting_journal_entry I a v b j) = jo_state I j \<and>
     jo_state I (jo_nonce_bump_journal_entry I a j) = jo_state I j)"

text \<open>A loaded account is in the state as it is returned.\<close>

definition loaded_law :: "('j, 'x) journal_ops \<Rightarrow> bool" where
  "loaded_law I \<longleftrightarrow> (\<forall>a j acc j'.
     jo_load_account_with_code I a j = (Inr acc, j') \<longrightarrow> jo_state I j' a = Some acc)"

definition journal_ok :: "('j, 'x) journal_ops \<Rightarrow> bool" where
  "journal_ok I \<longleftrightarrow> transfer_law I \<and> transfer_loaded_law I \<and> selfdestruct_law I
     \<and> balance_incr_law I \<and> set_code_law I \<and> create_law I \<and> checkpoint_law I \<and> access_law I
     \<and> load_law I \<and> quiet_law I \<and> loaded_law I"

section \<open>The tracker is right\<close>

definition tracks :: "ReserveBalanceInit \<Rightarrow> evm_state \<Rightarrow> ReserveBalanceTracker \<Rightarrow> bool" where
  "tracks i st trk \<longleftrightarrow>
     same_rule (rule_of i) trk \<and> st (i_sender i) \<noteq> None \<and> (\<forall>a. tracked_at trk st a)"

lemma tracks_rule:
  assumes "tracks i st trk"
  shows "tracking_enabled trk" and "use_recent_code_hash trk" and "t_sender trk = i_sender i"
    and "dips trk = dips (rule_of i)" and "tracked_at trk st a" and "st (i_sender i) \<noteq> None"
proof -
  have r: "same_rule (rule_of i) trk" using assms by (simp add: tracks_def)
  show "tracking_enabled trk" "use_recent_code_hash trk" "t_sender trk = i_sender i"
    "dips trk = dips (rule_of i)"
    using same_ruleD [OF r] by (simp_all add: rule_of_def)
  show "tracked_at trk st a" "st (i_sender i) \<noteq> None" using assms by (simp_all add: tracks_def)
qed

lemma tracksI:
  assumes "tracks i st trk" and "same_rule trk trk'" and "st' (i_sender i) \<noteq> None"
    and "\<And>a. tracked_at trk' st' a"
  shows "tracks i st' trk'"
  using assms same_rule_trans by (auto simp: tracks_def)

lemma loadsD:
  assumes "loads st st'"
  obtains "st' a = st a" | acc where "st a = None" "st' a = Some acc" "fresh acc"
  using assms unfolding loads_def by blast

lemma tracks_loads:
  assumes t: "tracks i st trk" and l: "loads st st'"
  shows "tracks i st' trk"
proof (rule tracksI [OF t same_rule_refl])
  show "st' (i_sender i) \<noteq> None"
    using tracks_rule(6) [OF t] l by (cases rule: loadsD [OF l, of "i_sender i"]) auto
  fix a
  show "tracked_at trk st' a"
  proof (cases rule: loadsD [OF l, of a])
    case 1
    then show ?thesis
      using tracked_at_cong [OF same_rule_refl, of a trk st' st] tracks_rule(5) [OF t] by simp
  next
    case (2 acc)
    then have "a \<noteq> t_sender trk" using tracks_rule(3,6) [OF t] by auto
    with 2 show ?thesis using load_tracks tracks_rule(5) [OF t] by blast
  qed
qed

lemma subject_same_code:
  assumes "ai_code_hash (acc_info acc') = ai_code_hash (acc_info acc)"
    and "ai_code (acc_info acc') = ai_code (acc_info acc)"
    and "acc_original_info acc' = acc_original_info acc"
  shows "is_subject_account trk acc' a = is_subject_account trk acc a"
  unfolding is_subject_account_def assms ..

lemma subject_no_code:
  assumes "use_recent_code_hash trk"
    and "ai_code_hash (acc_info acc) = KECCAK_EMPTY \<or> ai_code_hash (acc_info acc) = 0"
  shows "is_subject_account trk acc a \<longleftrightarrow> a \<noteq> STAKING_ADDRESS"
  using assms by (auto simp: is_subject_account_def)

lemma threshold_same_subject:
  assumes "is_subject_account trk acc' a = is_subject_account trk acc a"
    and "acc_original_info acc' = acc_original_info acc"
  shows "compute_violation_threshold trk acc' a = compute_violation_threshold trk acc a"
  unfolding compute_violation_threshold_def pretx_reserve_def assms ..

lemma debited_steady:
  assumes "debited acc acc'"
  shows "steady trk a acc acc'"
proof -
  obtain b d where e: "acc' = acc\<lparr>acc_info := (acc_info acc)\<lparr>ai_balance := b\<rparr>,
      acc_selfdestructed := acc_selfdestructed acc \<or> d\<rparr>"
    using assms unfolding debited_def by blast
  have "is_subject_account trk acc' a = is_subject_account trk acc a"
    by (rule subject_same_code) (simp_all add: e)
  then show ?thesis
    unfolding steady_def by (auto simp: e exempt_def intro!: threshold_same_subject)
qed

lemma credited_steady:
  assumes recent: "use_recent_code_hash trk" and c: "credited acc acc'"
  shows "steady trk a acc acc'"
    and "ai_balance (acc_info acc) \<le> ai_balance (acc_info acc')"
proof -
  obtain b code c where e: "acc' = acc\<lparr>acc_info := (acc_info acc)\<lparr>ai_balance := b, ai_code := code\<rparr>,
      acc_created_locally := acc_created_locally acc \<or> c\<rparr>"
    and b: "ai_balance (acc_info acc) \<le> b"
    and code: "code = ai_code (acc_info acc)
      \<or> ai_code_hash (acc_info acc) = KECCAK_EMPTY \<or> ai_code_hash (acc_info acc) = 0"
    using c unfolding credited_def by blast
  have "is_subject_account trk acc' a = is_subject_account trk acc a"
    using code
  proof
    assume "code = ai_code (acc_info acc)"
    then show ?thesis by (intro subject_same_code) (simp_all add: e)
  next
    assume n: "ai_code_hash (acc_info acc) = KECCAK_EMPTY \<or> ai_code_hash (acc_info acc) = 0"
    then have "ai_code_hash (acc_info acc') = KECCAK_EMPTY \<or> ai_code_hash (acc_info acc') = 0"
      by (simp add: e)
    with n show ?thesis using subject_no_code [OF recent] by blast
  qed
  then show "steady trk a acc acc'"
    unfolding steady_def by (auto simp: e exempt_def intro!: threshold_same_subject)
  show "ai_balance (acc_info acc) \<le> ai_balance (acc_info acc')" using b by (simp add: e)
qed

lemma tracks_debit:
  assumes t: "tracks i st trk" and a: "st a = Some acc" and d: "debited acc acc'"
  shows "tracks i (st(a \<mapsto> acc')) (on_debit (Some acc') a trk)"
proof (rule tracksI [OF t hooks_same_rule(1)])
  show "(st(a \<mapsto> acc')) (i_sender i) \<noteq> None" using tracks_rule(6) [OF t] by simp
  fix b
  show "tracked_at (on_debit (Some acc') a trk) (st(a \<mapsto> acc')) b"
  proof (cases "b = a")
    case True
    have "tracked_at (on_debit ((st(a \<mapsto> acc')) a) a trk) (st(a \<mapsto> acc')) a"
      by (rule on_debit_tracks [where st = st and acc = acc])
        (use a debited_steady [OF d] in \<open>simp_all add: tracks_rule [OF t]\<close>)
    with True show ?thesis by simp
  next
    case False
    then show ?thesis using tracks_rule(5) [OF t] by (simp add: hooks_tracked_other [where st = st])
  qed
qed

lemma tracks_credit:
  assumes t: "tracks i st trk" and a: "st a = Some acc" and c: "credited acc acc'"
  shows "tracks i (st(a \<mapsto> acc')) (on_credit (Some acc') a trk)"
proof (rule tracksI [OF t hooks_same_rule(2)])
  show "(st(a \<mapsto> acc')) (i_sender i) \<noteq> None" using tracks_rule(6) [OF t] by simp
  fix b
  show "tracked_at (on_credit (Some acc') a trk) (st(a \<mapsto> acc')) b"
  proof (cases "b = a")
    case True
    have s: "steady trk a acc acc'" and m: "ai_balance (acc_info acc) \<le> ai_balance (acc_info acc')"
      using credited_steady [OF tracks_rule(2) [OF t] c] by blast+
    have "tracked_at (on_credit ((st(a \<mapsto> acc')) a) a trk) (st(a \<mapsto> acc')) a"
      by (rule on_credit_tracks [OF tracks_rule(1) [OF t] tracks_rule(5) [OF t] a _ s m]) simp
    with True show ?thesis by simp
  next
    case False
    then show ?thesis using tracks_rule(5) [OF t] by (simp add: hooks_tracked_other [where st = st])
  qed
qed

lemma credited_refl: "credited acc acc"
  unfolding credited_def
  by (rule exI [of _ "ai_balance (acc_info acc)"], rule exI [of _ "ai_code (acc_info acc)"],
      rule exI [of _ False]) simp

text \<open>The notification after a move restores the invariant, also for a move to oneself.\<close>

lemma tracks_moves:
  assumes t: "tracks i st (mj_tracker j)" and m: "moves f r st (mj_state I j)"
  shows "tracks i (mj_state I j) (mj_tracker (on_transfer I f r j))"
proof -
  obtain st1 af ar af' ar' where l: "loads st st1" and f: "st1 f = Some af" and r: "st1 r = Some ar"
    and d: "debited af af'" and c: "credited ar ar'"
    and s: "mj_state I j = (st1(r \<mapsto> ar'))(f \<mapsto> af')"
    using m unfolding moves_def by blast
  have t1: "tracks i (st1(f \<mapsto> af')) (on_debit (Some af') f (mj_tracker j))"
    using tracks_loads [OF t l] f d by (rule tracks_debit)
  show ?thesis
  proof (cases "f = r")
    case True
    have "tracks i ((st1(f \<mapsto> af'))(f \<mapsto> af'))
        (on_credit (Some af') f (on_debit (Some af') f (mj_tracker j)))"
      by (rule tracks_credit [OF t1 _ credited_refl]) simp
    with True show ?thesis by (simp add: on_transfer_def s Let_def)
  next
    case False
    have "tracks i ((st1(f \<mapsto> af'))(r \<mapsto> ar'))
        (on_credit (Some ar') r (on_debit (Some af') f (mj_tracker j)))"
      by (rule tracks_credit [OF t1 _ c]) (use False r in simp)
    with False show ?thesis by (simp add: on_transfer_def s Let_def fun_upd_twist)
  qed
qed

lemma tracks_credits:
  assumes t: "tracks i st trk" and c: "credits a st st'"
  shows "tracks i st' (on_credit (st' a) a trk)"
proof -
  obtain st1 x x' where "loads st st1" "st1 a = Some x" "credited x x'" "st' = st1(a \<mapsto> x')"
    using c unfolding credits_def by blast
  with tracks_credit [OF tracks_loads [OF t]] show ?thesis by simp
qed

lemma tracks_sets_code:
  assumes t: "tracks i st trk" and c: "sets_code a code hash st st'" and a: "st a = Some acc"
    and hash: "is_smart_contract_code code \<Longrightarrow> hash \<noteq> 0 \<and> hash \<noteq> KECCAK_EMPTY"
  shows "tracks i st' (on_set_code (st' a) a code trk)"
proof (rule tracksI [OF t hooks_same_rule(3)])
  let ?acc = "acc\<lparr>acc_info := (acc_info acc)\<lparr>ai_code_hash := hash, ai_code := Some code\<rparr>\<rparr>"
  have s: "st' = st(a \<mapsto> ?acc)" using c a by (simp add: sets_code_def)
  show "st' (i_sender i) \<noteq> None" using tracks_rule(6) [OF t] by (simp add: s)
  fix b
  show "tracked_at (on_set_code (st' a) a code trk) st' b"
  proof (cases "b = a")
    case True
    show ?thesis unfolding True
      by (rule on_set_code_tracks [where acc = ?acc and hash = hash])
        (use hash in \<open>simp_all add: s tracks_rule [OF t]\<close>)
  next
    case False
    then show ?thesis
      using tracks_rule(5) [OF t] by (simp add: hooks_tracked_other [where st = st] s)
  qed
qed

lemma tracks_undoes:
  assumes t: "tracks i st trk" and u: "undoes addresses st st'"
  shows "tracks i st' (on_checkpoint_revert addresses st' trk)"
proof (rule tracksI [OF t on_checkpoint_revert_same_rule])
  show "st' (i_sender i) \<noteq> None" using tracks_rule(6) [OF t] u by (auto simp: undoes_def)
  fix b
  have "b \<in> set addresses \<or> tracked_at trk st' b"
    using u tracks_rule(5) [OF t] tracked_at_cong [OF same_rule_refl, of b trk st' st]
    by (auto simp: undoes_def)
  then show "tracked_at (on_checkpoint_revert addresses st' trk) st' b"
    using tracks_rule(1) [OF t] by (rule on_checkpoint_revert_tracks [rotated])
qed

section \<open>Transactions\<close>

text \<open>The start of a transaction, as pre_execution of the handler reaches it: the sender's
  account is loaded and handed to the tracker; the gas has been charged to the sender only.\<close>

definition at_start :: "ReserveBalanceInit \<Rightarrow> evm_state \<Rightarrow> bool" where
  "at_start i st \<longleftrightarrow> st (i_sender i) \<noteq> None \<and> i_sender_account i = st (i_sender i)
     \<and> (\<forall>a acc. a \<noteq> i_sender i \<longrightarrow> st a = Some acc \<longrightarrow>
          ai_balance (acc_original_info acc) \<le> ai_balance (acc_info acc))"

text \<open>The operations that are only passed on, as steps, and a step through the wrapper: one
  operation, whatever it answers. Code is set with its own hash, on an account that is loaded.\<close>

inductive passes_on :: "('j, 'x) journal_ops \<Rightarrow> 'j MonadJournal \<Rightarrow> 'j MonadJournal \<Rightarrow> bool" for I j where
  Sload: "passes_on I j (snd (mj_sload I a key j))"
| Sstore: "passes_on I j (snd (mj_sstore I a key v j))"
| Load_account: "passes_on I j (snd (mj_load_account I a j))"
| Touch: "passes_on I j (mj_touch_account I a j)"
| Tload: "passes_on I j (snd (mj_tload I a key j))"
| Tstore: "passes_on I j (mj_tstore I a key v j)"
| Log: "passes_on I j (mj_log I l j)"
| Take_logs: "passes_on I j (snd (mj_take_logs I j))"
| Warm_access_list: "passes_on I j (mj_warm_access_list I xs j)"
| Warm_coinbase: "passes_on I j (mj_warm_coinbase_account I a j)"
| Warm_precompiles: "passes_on I j (mj_warm_precompiles I ps j)"
| Set_spec_id: "passes_on I j (mj_set_spec_id I sp j)"
| Caller_accounting: "passes_on I j (mj_caller_accounting_journal_entry I a v b j)"
| Nonce_bump: "passes_on I j (mj_nonce_bump_journal_entry I a j)"
| Load_mut: "passes_on I j (snd (mj_load_account_mut_skip_cold_load I a b j))"
| Load_mut_code: "passes_on I j (snd (mj_load_account_mut_optional_code I a b j))"
| Load_code: "passes_on I j (snd (mj_load_account_with_code I a j))"
| Load_delegated: "passes_on I j (snd (mj_load_account_delegated I a j))"
| Sload_skip: "passes_on I j (snd (mj_sload_skip_cold_load I a key b j))"
| Sstore_skip: "passes_on I j (snd (mj_sstore_skip_cold_load I a key v b j))"
| Load_info: "passes_on I j (snd (mj_load_account_info_skip_cold_load I a b c j))"

inductive mj_step :: "('j, 'x) journal_ops \<Rightarrow> 'j MonadJournal \<Rightarrow> 'j MonadJournal \<Rightarrow> bool" for I j where
  Transfer: "mj_step I j (snd (mj_transfer I f r x j))"
| Transfer_loaded: "mj_step I j (snd (mj_transfer_loaded I f r x j))"
| Selfdestruct: "mj_step I j (snd (mj_selfdestruct I a r b j))"
| Balance_incr: "mj_step I j (snd (mj_balance_incr I a x j))"
| Set_code: "mj_state I j a \<noteq> None \<Longrightarrow>
    (is_smart_contract_code code \<Longrightarrow> hash \<noteq> 0 \<and> hash \<noteq> KECCAK_EMPTY) \<Longrightarrow>
    mj_step I j (mj_set_code_with_hash I a code hash j)"
| Create: "mj_step I j (snd (mj_create_account_checkpoint I c a x spec j))"
| Checkpoint: "mj_step I j (snd (mj_checkpoint I j))"
| Commit: "mj_step I j (mj_checkpoint_commit I j)"
| Undo: "mj_step I j (mj_checkpoint_revert I cp j)"
| Pass: "passes_on I j j' \<Longrightarrow> mj_step I j j'"

text \<open>A run of a transaction: any sequence of operations through the wrapper.\<close>

inductive tx_run ::
    "('j, 'x) journal_ops \<Rightarrow> ReserveBalanceInit \<Rightarrow> 'j MonadJournal \<Rightarrow> bool" for I i where
  Start: "at_start i (mj_state I j) \<Longrightarrow> tx_run I i (j\<lparr>mj_tracker := init_tracker i (mj_tracker j)\<rparr>)"
| Step: "tx_run I i j \<Longrightarrow> mj_step I j j' \<Longrightarrow> tx_run I i j'"

lemma tx_run_steps: "(mj_step I)\<^sup>*\<^sup>* j j' \<Longrightarrow> tx_run I i j \<Longrightarrow> tx_run I i j'"
  by (induction rule: rtranclp_induct) (auto intro: tx_run.Step)

definition mj_tracks :: "('j, 'x) journal_ops \<Rightarrow> ReserveBalanceInit \<Rightarrow> 'j MonadJournal \<Rightarrow> bool" where
  "mj_tracks I i j \<longleftrightarrow> tracks i (mj_state I j) (mj_tracker j)"

named_theorems tracked_steps "steps of the wrapper keep the tracker right"

lemma step_loads [tracked_steps]:
  assumes "mj_tracks I i j" and "loads (jo_state I (mj_inner j)) (jo_state I inner)"
  shows "mj_tracks I i (j\<lparr>mj_inner := inner\<rparr>)"
  using tracks_loads assms by (simp add: mj_tracks_def mj_state_def)

lemma step_moves [tracked_steps]:
  assumes "mj_tracks I i j" and "moves f r (jo_state I (mj_inner j)) (jo_state I inner)"
  shows "mj_tracks I i (on_transfer I f r (j\<lparr>mj_inner := inner\<rparr>))"
  using tracks_moves [of i "mj_state I j" "j\<lparr>mj_inner := inner\<rparr>" f r I] assms
  by (simp add: mj_tracks_def mj_state_def on_transfer_def Let_def)

lemma step_transfers [tracked_steps]:
  assumes t: "mj_tracks I i j"
  shows "transfer_law I \<Longrightarrow> mj_tracks I i (snd (mj_transfer I f r x j))"
    and "transfer_loaded_law I \<Longrightarrow> mj_tracks I i (snd (mj_transfer_loaded I f r x j))"
    and "selfdestruct_law I \<Longrightarrow> mj_tracks I i (snd (mj_selfdestruct I f r b j))"
    and "create_law I \<Longrightarrow> mj_tracks I i (snd (mj_create_account_checkpoint I f r x spec j))"
  by (auto simp: mj_transfer_def mj_transfer_loaded_def mj_selfdestruct_def
      mj_create_account_checkpoint_def transfer_law_def transfer_loaded_law_def selfdestruct_law_def
      create_law_def split: prod.splits sum.splits option.splits
      intro!: step_loads [OF t] step_moves [OF t])

lemma step_balance_incr [tracked_steps]:
  assumes t: "mj_tracks I i j" and law: "balance_incr_law I"
  shows "mj_tracks I i (snd (mj_balance_incr I a x j))"
proof -
  obtain r inner where e: "jo_balance_incr I a x (mj_inner j) = (r, inner)" by fastforce
  show ?thesis
  proof (cases r)
    case (Inl y)
    then have "loads (jo_state I (mj_inner j)) (jo_state I inner)"
      using law e by (auto simp: balance_incr_law_def)
    then show ?thesis using step_loads [OF t] e Inl by (simp add: mj_balance_incr_def)
  next
    case (Inr y)
    then have "credits a (jo_state I (mj_inner j)) (jo_state I inner)"
      using law e by (auto simp: balance_incr_law_def)
    with tracks_credits show ?thesis
      using t e Inr by (simp add: mj_balance_incr_def mj_tracks_def mj_state_def)
  qed
qed

lemma step_set_code [tracked_steps]:
  assumes "mj_tracks I i j" and "set_code_law I" and "mj_state I j a \<noteq> None"
    and "is_smart_contract_code code \<Longrightarrow> hash \<noteq> 0 \<and> hash \<noteq> KECCAK_EMPTY"
  shows "mj_tracks I i (mj_set_code_with_hash I a code hash j)"
proof -
  have "sets_code a code hash (mj_state I j) (jo_state I (jo_set_code_with_hash I a code hash (mj_inner j)))"
    using assms(2) by (simp add: set_code_law_def mj_state_def)
  with assms show ?thesis
    by (auto simp: mj_set_code_with_hash_def mj_tracks_def mj_state_def Let_def
        intro: tracks_sets_code)
qed

lemma step_checkpoints [tracked_steps]:
  assumes t: "mj_tracks I i j" and law: "checkpoint_law I"
  shows "mj_tracks I i (snd (mj_checkpoint I j))"
    and "mj_tracks I i (mj_checkpoint_commit I j)"
    and "mj_tracks I i (mj_checkpoint_revert I cp j)"
proof -
  show "mj_tracks I i (snd (mj_checkpoint I j))" "mj_tracks I i (mj_checkpoint_commit I j)"
    using t law
    by (auto simp: mj_checkpoint_def mj_checkpoint_commit_def mj_tracks_def mj_state_def
        checkpoint_law_def split: prod.splits) (metis snd_conv)+
  have "undoes (reverted_addresses (jo_entries I (mj_inner j)) (journal_i cp)) (mj_state I j)
      (jo_state I (jo_checkpoint_revert I cp (mj_inner j)))"
    using law by (simp add: checkpoint_law_def mj_state_def)
  with t show "mj_tracks I i (mj_checkpoint_revert I cp j)"
    by (simp add: mj_checkpoint_revert_def mj_on_checkpoint_revert_def mj_tracks_def mj_state_def
        Let_def tracks_undoes)
qed

lemmas passed_on_defs = mj_sload_def mj_sstore_def mj_load_account_def mj_touch_account_def
  mj_tload_def mj_tstore_def mj_log_def mj_take_logs_def mj_warm_access_list_def
  mj_warm_coinbase_account_def mj_warm_precompiles_def mj_set_spec_id_def
  mj_caller_accounting_journal_entry_def mj_nonce_bump_journal_entry_def
  mj_load_account_mut_skip_cold_load_def mj_load_account_mut_optional_code_def
  mj_load_account_with_code_def mj_load_account_delegated_def mj_sload_skip_cold_load_def
  mj_sstore_skip_cold_load_def mj_load_account_info_skip_cold_load_def

text \<open>What is only passed on leaves the tracker as it is, and at most loads accounts.\<close>

lemma passes_on_inner: "passes_on I j j' \<Longrightarrow> j' = j\<lparr>mj_inner := mj_inner j'\<rparr>"
  by (induction rule: passes_on.induct) (simp_all add: passed_on_defs split: prod.splits)

lemma loads_refl: "loads st st"
  by (simp add: loads_def)

lemma passes_on_loads:
  assumes "passes_on I j j'" and "access_law I" and "load_law I" and "quiet_law I"
  shows "loads (mj_state I j) (mj_state I j')"
  using assms unfolding access_law_def load_law_def quiet_law_def
  by (induction rule: passes_on.induct)
    (simp_all add: passed_on_defs mj_state_def loads_refl split_beta)

lemma step_passes_on [tracked_steps]:
  assumes t: "mj_tracks I i j" and p: "passes_on I j j'"
    and "access_law I" "load_law I" "quiet_law I"
  shows "mj_tracks I i j'"
proof -
  have "mj_tracks I i (j\<lparr>mj_inner := mj_inner j'\<rparr>)"
    using step_loads [OF t] passes_on_loads [OF p] assms(3-5) by (simp add: mj_state_def)
  then show ?thesis using passes_on_inner [OF p] by simp
qed

lemma step_tracks:
  assumes "mj_step I j j'" and "mj_tracks I i j" and "journal_ok I"
  shows "mj_tracks I i j'"
  using assms
  by (induction rule: mj_step.induct) (auto simp: journal_ok_def intro: tracked_steps)

lemma tx_run_tracks:
  assumes "tx_run I i j" and "journal_ok I"
  shows "mj_tracks I i j"
  using assms
proof (induction rule: tx_run.induct)
  case (Start j)
  then have s: "at_start i (mj_state I j)" by simp
  then obtain acc where "mj_state I j (i_sender i) = Some acc" "i_sender_account i = Some acc"
    by (auto simp: at_start_def)
  then have "tracked_at (init_tracker i (mj_tracker j)) (mj_state I j) a" for a
    using s by (intro init_tracker_tracks [where acc = acc]) (auto simp: at_start_def)
  then show ?case
    using s by (simp add: mj_tracks_def tracks_def mj_state_def init_tracker_eq update_same_rule
        at_start_def)
next
  case (Step j j')
  then show ?case by (blast intro: step_tracks)
qed

lemma violation_iff_dip:
  assumes "tx_run I i j" and "journal_ok I"
  shows "has_violation (mj_tracker j)
    \<longleftrightarrow> (\<exists>a acc. mj_state I j a = Some acc \<and> dips (rule_of i) a acc)"
proof -
  have "tracks i (mj_state I j) (mj_tracker j)"
    using tx_run_tracks [OF assms] by (simp add: mj_tracks_def)
  from tracks_rule(4,5) [OF this] show ?thesis
    by (auto simp: has_violation_def tracked_at_def)
qed

section \<open>Properties\<close>


text \<open>C31: Every call to the address of the reserve-balance precompile is answered from MonadNine
  on: only the method itself, called with CALL, without value and without further input,
  returns; a plain call with too little gas runs out of gas; everything else reverts and
  consumes its gas.\<close>

theorem reserve_call_answers:
  assumes "meter_ok G" and "ci_bytecode_address inputs = RESERVE_BALANCE_ADDRESS"
    and "spec \<noteq> MonadEight"
  shows "\<exists>ir. run_reserve_balance_precompile G shared spec trk inputs = Some ir
     \<and> (ir_result ir = Return \<longleftrightarrow> reserve_query shared inputs)
     \<and> (ir_result ir = PrecompileOOG \<longleftrightarrow>
          ci_scheme inputs = CallScheme_Call \<and> \<not> ci_is_static inputs
          \<and> ci_gas_limit inputs < DIPPED_INTO_RESERVE_GAS)
     \<and> (if ir_result ir = Return
        then ir_gas_remaining ir = ci_gas_limit inputs - DIPPED_INTO_RESERVE_GAS
             \<and> be_nat (ir_output ir) = (if has_violation trk then 1 else 0)
        else ir_gas_remaining ir = 0)"
proof -
  obtain ir where "run_reserve_balance_precompile G shared spec trk inputs = Some ir"
    and ret: "ir_result ir = Return \<longleftrightarrow> reserve_query shared inputs"
    and "ir_result ir = PrecompileOOG \<longleftrightarrow>
          ci_scheme inputs = CallScheme_Call \<and> \<not> ci_is_static inputs
          \<and> ci_gas_limit inputs < DIPPED_INTO_RESERVE_GAS"
    and "if reserve_query shared inputs
        then ir_gas_remaining ir = ci_gas_limit inputs - DIPPED_INTO_RESERVE_GAS
             \<and> length (ir_output ir) = 32
             \<and> be_nat (ir_output ir) = (if has_violation trk then 1 else 0)
        else ir_gas_remaining ir = 0"
    using reserve_call_outcome [OF assms, of shared trk] by blast
  then show ?thesis
    by (intro exI [of _ ir]) (simp split: if_splits del: not_less)
qed

text \<open>A sender may dip into the reserve exactly when it is not delegated, did not send or
  authorise in the two previous blocks, has sent no earlier transaction of this block and is
  not an authority of one up to and including this transaction.\<close>

theorem sender_can_dip_exactly:
  "sender_can_dip ctx sender delegated \<longleftrightarrow>
     \<not> delegated
     \<and> sender \<notin> grandparent_senders_and_authorities ctx \<union> parent_senders_and_authorities ctx
         \<union> set (take (current_tx_index ctx) (current_block_senders ctx))
         \<union> (\<Union>auths \<in> set (take (Suc (current_tx_index ctx)) (current_block_authorities ctx)).
              set auths)"
  by (rule sender_can_dip_iff)

section \<open>A journal for the witnesses\<close>

text \<open>A small journal that keeps the accounts, the storage and the logs and, with each entry, the
  accounts and the storage before it.\<close>

type_synonym pj_storage = "address \<Rightarrow> u256 \<Rightarrow> u256"

record plain_journal =
  pj_accounts :: evm_state
  pj_slots :: pj_storage
  pj_logs :: "log_entry list"
  pj_entries :: "(journal_entry \<times> evm_state \<times> pj_storage) list"

definition pj_push :: "journal_entry \<Rightarrow> plain_journal \<Rightarrow> plain_journal" where
  "pj_push e j = j\<lparr>pj_entries := pj_entries j @ [(e, pj_accounts j, pj_slots j)]\<rparr>"

definition pj_load :: "address \<Rightarrow> evm_state \<Rightarrow> evm_state" where
  "pj_load a st = (case st a of Some _ \<Rightarrow> st
     | None \<Rightarrow> st(a \<mapsto> \<lparr>acc_info = \<lparr>ai_balance = 0, ai_code_hash = KECCAK_EMPTY, ai_code = None\<rparr>,
         acc_original_info = \<lparr>ai_balance = 0, ai_code_hash = KECCAK_EMPTY, ai_code = None\<rparr>,
         acc_selfdestructed = False, acc_created_locally = False\<rparr>))"

definition pj_move :: "address \<Rightarrow> address \<Rightarrow> u256 \<Rightarrow> plain_journal \<Rightarrow> plain_journal option" where
  "pj_move f r x j =
     (let st = pj_load r (pj_load f (pj_accounts j)) in
      case (st f, st r) of
        (Some af, Some ar) \<Rightarrow>
          if f = r \<or> ai_balance (acc_info af) < x
             \<or> unat (ai_balance (acc_info ar)) + unat x \<ge> 2 ^ 256 then None
          else Some ((pj_push (BalanceTransfer f r) j)\<lparr>pj_accounts := (st(r \<mapsto> ar\<lparr>acc_info := (acc_info ar)\<lparr>ai_balance :=
                         ai_balance (acc_info ar) + x\<rparr>\<rparr>))(f \<mapsto> af\<lparr>acc_info :=
                         (acc_info af)\<lparr>ai_balance := ai_balance (acc_info af) - x\<rparr>\<rparr>)\<rparr>)
      | _ \<Rightarrow> None)"

definition pj_incr :: "address \<Rightarrow> u256 \<Rightarrow> plain_journal \<Rightarrow> (string + unit) \<times> plain_journal" where
  "pj_incr a x j =
     (let st = pj_load a (pj_accounts j) in
      case st a of
        None \<Rightarrow> (Inl ''no account'', j)
      | Some acc \<Rightarrow>
          if unat (ai_balance (acc_info acc)) + unat x \<ge> 2 ^ 256 then (Inl ''overflow'', j)
          else (Inr (), (pj_push (BalanceChange a) j)\<lparr>pj_accounts := st(a \<mapsto> acc\<lparr>acc_info :=
                 (acc_info acc)\<lparr>ai_balance := ai_balance (acc_info acc) + x\<rparr>\<rparr>)\<rparr>))"

definition pj_revert :: "journal_checkpoint \<Rightarrow> plain_journal \<Rightarrow> plain_journal" where
  "pj_revert c j =
     (case drop (journal_i c) (pj_entries j) of
        [] \<Rightarrow> j\<lparr>pj_logs := take (log_i c) (pj_logs j)\<rparr>
      | (e, st, slots) # js \<Rightarrow>
          (let addresses = reverted_addresses (map fst (pj_entries j)) (journal_i c) in
           \<lparr>pj_accounts = (\<lambda>a. if List.member addresses a \<and> st a \<noteq> None then st a else pj_accounts j a),
            pj_slots = slots, pj_logs = take (log_i c) (pj_logs j),
            pj_entries = take (journal_i c) (pj_entries j)\<rparr>))"

definition pj_sload :: "address \<Rightarrow> u256 \<Rightarrow> plain_journal \<Rightarrow> (string + state_load) \<times> plain_journal" where
  "pj_sload a key j = (Inr \<lparr>sl_data = pj_slots j a key, sl_is_cold = False\<rparr>, j)"

definition pj_sstore :: "address \<Rightarrow> u256 \<Rightarrow> u256 \<Rightarrow> plain_journal \<Rightarrow> plain_journal" where
  "pj_sstore a key v j =
     (pj_push (StorageChanged a) j)\<lparr>pj_slots := (pj_slots j)(a := (pj_slots j a)(key := v))\<rparr>"

definition pj_load_account :: "address \<Rightarrow> plain_journal \<Rightarrow> (string + account) \<times> plain_journal" where
  "pj_load_account a j =
     (let j = j\<lparr>pj_accounts := pj_load a (pj_accounts j)\<rparr> in
      (case pj_accounts j a of Some acc \<Rightarrow> Inr acc | None \<Rightarrow> Inl ''no account'', j))"

definition plain_ops :: "(plain_journal, string) journal_ops" where
  "plain_ops = \<lparr>jo_state = pj_accounts, jo_entries = (\<lambda>j. map fst (pj_entries j)),
     jo_transfer = (\<lambda>f r x j. case pj_move f r x j of
        None \<Rightarrow> (Inr (Some ''refused''), j) | Some j' \<Rightarrow> (Inr None, j')),
     jo_transfer_loaded = (\<lambda>f r x j. case pj_move f r x j of
        None \<Rightarrow> (Some ''refused'', j) | Some j' \<Rightarrow> (None, j')),
     jo_selfdestruct = (\<lambda>a t b j. (Inl ''refused'', j)),
     jo_balance_incr = pj_incr,
     jo_set_code_with_hash = (\<lambda>a code hash j. case pj_accounts j a of None \<Rightarrow> j
        | Some acc \<Rightarrow> j\<lparr>pj_accounts := (pj_accounts j)(a \<mapsto> acc\<lparr>acc_info :=
             (acc_info acc)\<lparr>ai_code_hash := hash, ai_code := Some code\<rparr>\<rparr>)\<rparr>),
     jo_create_account_checkpoint = (\<lambda>c a x spec j. (Inl ''refused'', j)),
     jo_checkpoint = (\<lambda>j. (\<lparr>log_i = length (pj_logs j), journal_i = length (pj_entries j)\<rparr>, j)),
     jo_checkpoint_commit = (\<lambda>j. j),
     jo_checkpoint_revert = pj_revert,
     jo_commit_tx = (\<lambda>j. j\<lparr>pj_entries := []\<rparr>),
     jo_discard_tx = (\<lambda>j. j\<lparr>pj_entries := []\<rparr>),
     jo_finalize = (\<lambda>j. (pj_accounts j,
        j\<lparr>pj_accounts := Map.empty, pj_logs := [], pj_entries := []\<rparr>)),
     jo_sload = pj_sload,
     jo_sstore = (\<lambda>a key v j. (Inr ''stored'', pj_sstore a key v j)),
     jo_load_account = pj_load_account,
     jo_touch_account = (\<lambda>a j. pj_push (AccountTouched a) j),
     jo_tload = (\<lambda>a key j. (0, j)), jo_tstore = (\<lambda>a key v j. j),
     jo_log = (\<lambda>l j. j\<lparr>pj_logs := pj_logs j @ [l]\<rparr>),
     jo_take_logs = (\<lambda>j. (pj_logs j, j\<lparr>pj_logs := []\<rparr>)), jo_logs = pj_logs,
     jo_warm_access_list = (\<lambda>xs j. j), jo_warm_coinbase_account = (\<lambda>a j. j),
     jo_warm_precompiles = (\<lambda>as j. j), jo_precompile_addresses = (\<lambda>j. {}),
     jo_set_spec_id = (\<lambda>spec j. j),
     jo_caller_accounting_journal_entry = (\<lambda>a old bump j. pj_push (BalanceChange a) j),
     jo_nonce_bump_journal_entry = (\<lambda>a j. pj_push (NonceBump a) j),
     jo_load_account_mut_skip_cold_load = (\<lambda>a b j. (Inr ''handle'', snd (pj_load_account a j))),
     jo_load_account_mut_optional_code = (\<lambda>a b j. (Inr ''handle'', snd (pj_load_account a j))),
     jo_load_account_with_code = pj_load_account,
     jo_load_account_delegated = (\<lambda>a j. (Inr ''load'', snd (pj_load_account a j))),
     jo_depth = (\<lambda>j. 0),
     jo_sload_skip_cold_load = (\<lambda>a key b j. pj_sload a key j),
     jo_sstore_skip_cold_load = (\<lambda>a key v b j. (Inr ''stored'', pj_sstore a key v j)),
     jo_load_account_info_skip_cold_load =
       (\<lambda>a b c j. (Inr ''info'', snd (pj_load_account a j)))\<rparr>"

lemma loads_pj_load: "loads st st1 \<Longrightarrow> loads st (pj_load a st1)"
  by (auto simp: loads_def pj_load_def fresh_def split: option.splits) (metis option.distinct(1))

lemma credited_more:
  assumes "unat (ai_balance (acc_info acc)) + unat x < 2 ^ 256"
  shows "credited acc (acc\<lparr>acc_info := (acc_info acc)\<lparr>ai_balance := ai_balance (acc_info acc) + x\<rparr>\<rparr>)"
proof -
  have "ai_balance (acc_info acc) \<le> ai_balance (acc_info acc) + x"
    using assms by (simp add: word_le_nat_alt unat_plus_lt)
  then show ?thesis
    unfolding credited_def
    by (intro exI [of _ "ai_balance (acc_info acc) + x"] exI [of _ "ai_code (acc_info acc)"]
        exI [of _ False]) simp
qed

lemma pj_incr_credits:
  assumes "pj_incr a x j = (r, j')"
  shows "if isl r then j' = j else credits a (pj_accounts j) (pj_accounts j')"
proof -
  define st where "st = pj_load a (pj_accounts j)"
  have "loads (pj_accounts j) st" by (simp add: st_def loads_pj_load loads_refl)
  then show ?thesis
    using assms credited_more unfolding pj_incr_def st_def [symmetric] credits_def
    by (fastforce simp: Let_def not_le split: option.splits if_splits)
qed

lemma pj_move_moves:
  assumes "pj_move f r x j = Some j'"
  shows "moves f r (pj_accounts j) (pj_accounts j')"
proof -
  define st where "st = pj_load r (pj_load f (pj_accounts j))"
  have l: "loads (pj_accounts j) st" by (simp add: st_def loads_pj_load loads_refl)
  obtain af ar where f: "st f = Some af" and r: "st r = Some ar" and ne: "f \<noteq> r"
    and b: "unat (ai_balance (acc_info ar)) + unat x < 2 ^ 256"
    and j': "j' = (pj_push (BalanceTransfer f r) j)\<lparr>pj_accounts := (st(r \<mapsto> ar\<lparr>acc_info :=
               (acc_info ar)\<lparr>ai_balance := ai_balance (acc_info ar) + x\<rparr>\<rparr>))(f \<mapsto> af\<lparr>acc_info :=
               (acc_info af)\<lparr>ai_balance := ai_balance (acc_info af) - x\<rparr>\<rparr>)\<rparr>"
    using assms by (auto simp: pj_move_def st_def [symmetric] Let_def not_le
        split: option.splits if_splits)
  have "debited af (af\<lparr>acc_info := (acc_info af)\<lparr>ai_balance := ai_balance (acc_info af) - x\<rparr>\<rparr>)"
    unfolding debited_def by (intro exI [of _ "ai_balance (acc_info af) - x"] exI [of _ False]) simp
  moreover have "credited ar (ar\<lparr>acc_info := (acc_info ar)\<lparr>ai_balance :=
      ai_balance (acc_info ar) + x\<rparr>\<rparr>)"
    using b by (rule credited_more)
  ultimately show ?thesis
    unfolding moves_def using l f r j' by (intro exI conjI) (assumption | simp)+
qed

lemma plain_ops_ok: "journal_ok plain_ops"
proof -
  have u: "undoes (reverted_addresses (map fst (pj_entries j)) (journal_i c)) (pj_accounts j)
      (pj_accounts (pj_revert c j))" for c j
    by (auto simp: pj_revert_def undoes_def Let_def split: list.splits)
  have "balance_incr_law plain_ops"
    unfolding balance_incr_law_def
  proof (intro allI impI)
    fix a x j r j'
    assume "jo_balance_incr plain_ops a x j = (r, j')"
    then have "pj_incr a x j = (r, j')" by (simp add: plain_ops_def)
    from pj_incr_credits [OF this]
    show "if isl r then loads (jo_state plain_ops j) (jo_state plain_ops j')
      else credits a (jo_state plain_ops j) (jo_state plain_ops j')"
      by (auto simp: plain_ops_def loads_refl)
  qed
  then show ?thesis
    by (auto simp: journal_ok_def plain_ops_def transfer_law_def transfer_loaded_law_def
        selfdestruct_law_def set_code_law_def create_law_def checkpoint_law_def
        access_law_def load_law_def quiet_law_def loaded_law_def sets_code_def pj_move_moves
        loads_refl loads_pj_load u pj_sload_def pj_sstore_def pj_push_def pj_load_account_def
        split: option.splits if_splits)
qed

section \<open>Witnesses\<close>

text \<open>Account 5 holds 1000; the sender 7 cannot dip and pays no fees. After a transfer of 1 from
  account 5 to account 9 the query answers 1.\<close>

definition wit_account :: "u256 \<Rightarrow> account" where
  "wit_account b = \<lparr>acc_info = \<lparr>ai_balance = b, ai_code_hash = KECCAK_EMPTY, ai_code = None\<rparr>,
     acc_original_info = \<lparr>ai_balance = b, ai_code_hash = KECCAK_EMPTY, ai_code = None\<rparr>,
     acc_selfdestructed = False, acc_created_locally = False\<rparr>"

definition wit_init :: ReserveBalanceInit where
  "wit_init = \<lparr>i_chain = MonadChainContext_default, i_spec = MonadNine, i_sender = 7,
     i_effective_gas_price = 0, i_gas_limit = 21000, i_sender_is_delegated = True,
     i_sender_account = Some (wit_account 500)\<rparr>"

definition wit_start :: "plain_journal MonadJournal" where
  "wit_start = \<lparr>mj_inner = \<lparr>pj_accounts = [7 \<mapsto> wit_account 500, 5 \<mapsto> wit_account 1000],
     pj_slots = (\<lambda>_ _. 0), pj_logs = [], pj_entries = []\<rparr>, mj_tracker = tracker_default\<rparr>"

definition wit_inputs :: call_inputs where
  "wit_inputs = \<lparr>ci_bytecode_address = RESERVE_BALANCE_ADDRESS, ci_scheme = CallScheme_Call,
     ci_is_static = False, ci_gas_limit = 1000, ci_input = InputBytes [0x3a, 0x61, 0x58, 0x4e],
     ci_caller = 7, ci_call_value = 0\<rparr>"

lemmas wit_defs = wit_account_def wit_init_def wit_start_def wit_inputs_def

definition wit_moved :: "plain_journal MonadJournal" where
  "wit_moved = snd (mj_transfer plain_ops 5 9 1
     (wit_start\<lparr>mj_tracker := init_tracker wit_init (mj_tracker wit_start)\<rparr>))"

lemma wit_run: "tx_run plain_ops wit_init wit_moved"
  unfolding wit_moved_def
  by (rule tx_run.Step [OF tx_run.Start mj_step.Transfer])
    (auto simp: at_start_def mj_state_def plain_ops_def wit_defs)

lemma wit_state:
  "mj_state plain_ops wit_moved 5
     = Some (wit_account 1000\<lparr>acc_info := (acc_info (wit_account 1000))\<lparr>ai_balance := 999\<rparr>\<rparr>)"
  by (simp add: wit_moved_def mj_transfer_def plain_ops_def pj_move_def pj_load_def wit_defs
      mj_state_def on_transfer_def Let_def)

lemma meter_ok_plain: "meter_ok plain_meter"
  by (simp add: meter_ok_def plain_meter_def)


theorem reserve_call_answers_witness:
  "\<exists>ir. run_reserve_balance_precompile plain_meter (\<lambda>_. None) MonadNine tracker_default
       (wit_inputs\<lparr>ci_call_value := 1\<rparr>) = Some ir \<and> ir_result ir \<noteq> Return \<and> ir_gas_remaining ir = 0"
proof -
  have "\<not> reserve_query (\<lambda>_. None) (wit_inputs\<lparr>ci_call_value := 1\<rparr>)"
    by (simp add: reserve_query_def)
  then show ?thesis
    using reserve_call_answers [OF meter_ok_plain, of "wit_inputs\<lparr>ci_call_value := 1\<rparr>" MonadNine
        "\<lambda>_. None" tracker_default]
    by (auto simp: wit_inputs_def)
qed

end
