(* ===== verification/TxHandler.thy ===== *)
theory TxHandler
  imports Journal
begin

text \<open>
  The transaction handler of \<open>handler.rs\<close>: what is validated, how execution starts, and how the
  gas is settled. The steps of revm's MainnetHandler and its validation are parameters in the
  record \<open>mainnet\<close>; the journal is the wrapper of \<open>Journal\<close>.
\<close>

section \<open>Transactions and the mainnet handler\<close>

text \<open>revm's TransactionType: the two types that are treated specially, and the others.\<close>

datatype transaction_type = Eip4844 | Eip7702 | OtherType

text \<open>\<open>tx_effective_gas_price\<close> is the transaction's own function of the base fee; an
  authorization is given by the authority it recovers to, if any.\<close>

record transaction =
  tx_type :: transaction_type
  tx_caller :: address
  tx_gas_limit :: u64
  tx_effective_gas_price :: "u128 \<Rightarrow> u128"
  tx_authorities :: "address option list"

record block_env =
  b_basefee :: u64
  b_beneficiary :: address

datatype 'x tx_error = Eip4844NotSupported | TxStr string | Mainnet 'x

record ('j, 'x) mainnet =
  mn_validate_tx_env :: "SpecId \<Rightarrow> transaction \<Rightarrow> 'x + unit"
  mn_validate_and_deduct_caller :: "'j MonadJournal \<Rightarrow> ('x + unit) \<times> 'j MonadJournal"
  mn_load_accounts :: "'j MonadJournal \<Rightarrow> ('x + unit) \<times> 'j MonadJournal"
  mn_apply_eip7702_auth_list :: "'j MonadJournal \<Rightarrow> ('x + u64) \<times> 'j MonadJournal"
  mn_london_enabled_in :: "SpecId \<Rightarrow> bool"

section \<open>Model\<close>

definition validate_env :: "('j, 'x) mainnet \<Rightarrow> MonadSpecId \<Rightarrow> transaction \<Rightarrow> 'x tx_error + unit" where
  "validate_env M spec tx =
     (if tx_type tx = Eip4844 then Inl Eip4844NotSupported
      else if tx_type tx = Eip7702
              \<and> list_ex (\<lambda>authority. authority = Some SYSTEM_ADDRESS) (tx_authorities tx)
      then Inl (TxStr ''system transaction sender is authority'')
      else (case mn_validate_tx_env M (into_eth_spec spec) tx of
              Inl e \<Rightarrow> Inl (Mainnet e)
            | Inr u \<Rightarrow> Inr u))"

definition is_delegated :: "account \<Rightarrow> bool" where
  "is_delegated acc \<longleftrightarrow> (case ai_code (acc_info acc) of Some code \<Rightarrow> is_eip7702 code | None \<Rightarrow> False)"

definition init_of ::
    "MonadChainContext \<Rightarrow> MonadSpecId \<Rightarrow> block_env \<Rightarrow> transaction \<Rightarrow> account \<Rightarrow> ReserveBalanceInit" where
  "init_of ctx spec b tx sender_account =
     \<lparr>i_chain = ctx, i_spec = spec, i_sender = tx_caller tx,
      i_effective_gas_price = tx_effective_gas_price tx (ucast (b_basefee b)),
      i_gas_limit = tx_gas_limit tx, i_sender_is_delegated = is_delegated sender_account,
      i_sender_account = Some sender_account\<rparr>"

definition pre_execution ::
    "('j, 'x) journal_ops \<Rightarrow> ('j, 'x) mainnet \<Rightarrow> MonadChainContext \<Rightarrow> MonadSpecId \<Rightarrow> block_env \<Rightarrow>
     transaction \<Rightarrow> 'j MonadJournal \<Rightarrow> ('x + u64) \<times> 'j MonadJournal" where
  "pre_execution I M ctx spec b tx j =
     (case mn_validate_and_deduct_caller M j of
        (Inl e, j) \<Rightarrow> (Inl e, j)
      | (Inr _, j) \<Rightarrow>
     (case mn_load_accounts M j of
        (Inl e, j) \<Rightarrow> (Inl e, j)
      | (Inr _, j) \<Rightarrow>
     (case mn_apply_eip7702_auth_list M j of
        (Inl e, j) \<Rightarrow> (Inl e, j)
      | (Inr gas, j) \<Rightarrow>
     (case mj_load_account_with_code I (tx_caller tx) j of
        (Inl e, j) \<Rightarrow> (Inl e, j)
      | (Inr sender_account, j) \<Rightarrow>
          (Inr gas,
           reserve_balance_mut (init_tracker (init_of ctx spec b tx sender_account)) j)))))"

text \<open>The settlement of the gas: the refund counter is zeroed, the caller is not reimbursed, and
  the beneficiary is paid for the whole gas limit.\<close>

record frame_gas =
  fg_limit :: u64
  fg_remaining :: u64
  fg_refunded :: int

definition refund :: "frame_gas \<Rightarrow> int \<Rightarrow> frame_gas" where
  "refund gas eip7702_refund = gas\<lparr>fg_refunded := 0\<rparr>"

definition reimburse_caller :: "frame_gas \<Rightarrow> 'j MonadJournal \<Rightarrow> ('x + unit) \<times> 'j MonadJournal" where
  "reimburse_caller gas j = (Inr (), j)"

definition reward_beneficiary ::
    "('j, 'x) journal_ops \<Rightarrow> ('j, 'x) mainnet \<Rightarrow> MonadSpecId \<Rightarrow> block_env \<Rightarrow> transaction \<Rightarrow>
     'j MonadJournal \<Rightarrow> ('x + unit) \<times> 'j MonadJournal" where
  "reward_beneficiary I M spec b tx j =
     (let gas_limit = tx_gas_limit tx;
          basefee = ucast (b_basefee b) :: u128;
          effective_gas_price = tx_effective_gas_price tx basefee;
          coinbase_gas_price =
            (if mn_london_enabled_in M (into_eth_spec spec)
             then saturating_sub effective_gas_price basefee else effective_gas_price);
          reward = coinbase_gas_price * ucast gas_limit;
          beneficiary = b_beneficiary b
      in mj_balance_incr I beneficiary (ucast reward) j)"

section \<open>Properties\<close>


lemma loaded_account:
  assumes "journal_ok I" and "mj_load_account_with_code I a j = (Inr acc, j')"
  shows "mj_state I j' a = Some acc"
  using assms
  by (auto simp: mj_load_account_with_code_def mj_state_def journal_ok_def loaded_law_def
      split: prod.splits)

lemma pre_execution_Inr:
  assumes "pre_execution I M ctx spec b tx j = (Inr gas, j')"
  obtains j0 j1 acc where "mj_load_account_with_code I (tx_caller tx) j0 = (Inr acc, j1)"
    and "j' = j1\<lparr>mj_tracker := init_tracker (init_of ctx spec b tx acc) (mj_tracker j1)\<rparr>"
  using assms that by (auto simp: pre_execution_def reserve_balance_mut_def split: prod.splits sum.splits)

text \<open>What the sender owes in gas is the exact product.\<close>

lemma unat_fee_product:
  "unat (ucast (p :: u128) * ucast (g :: u64) :: u256) = unat p * unat g"
proof -
  have p: "unat p < 2 ^ 128" and g: "unat g < 2 ^ 64" using unat_lt2p [of p] unat_lt2p [of g] by simp_all
  then have "unat (ucast p :: u256) = unat p" "unat (ucast g :: u256) = unat g"
    by (simp_all add: unsigned_ucast_eq take_bit_nat_eq_self_iff)
  moreover have "unat p * unat g < 2 ^ 128 * 2 ^ 64" using p g by (intro mult_strict_mono') simp_all
  ultimately show ?thesis by (simp add: unat_times_lt)
qed

lemma rule_of_init_of:
  "t_sender (rule_of (init_of ctx spec b tx acc)) = tx_caller tx"
  "unat (sender_gas_fees (rule_of (init_of ctx spec b tx acc))) =
     unat (tx_effective_gas_price tx (ucast (b_basefee b))) * unat (tx_gas_limit tx)"
  "t_sender_can_dip (rule_of (init_of ctx spec b tx acc)) =
     sender_can_dip ctx (tx_caller tx) (is_delegated acc)"
  by (simp_all add: rule_of_def init_of_def tracker_default_def unat_fee_product)

text \<open>A run of the transaction begins where pre_execution ends.\<close>

lemma pre_execution_starts:
  assumes "journal_ok I" and "pre_execution I M ctx spec b tx j = (Inr gas, j')"
    and "\<And>a acc. a \<noteq> tx_caller tx \<Longrightarrow> mj_state I j' a = Some acc \<Longrightarrow>
      ai_balance (acc_original_info acc) \<le> ai_balance (acc_info acc)"
  shows "\<exists>acc. mj_state I j' (tx_caller tx) = Some acc \<and> tx_run I (init_of ctx spec b tx acc) j'"
proof -
  obtain j0 j1 acc where l: "mj_load_account_with_code I (tx_caller tx) j0 = (Inr acc, j1)"
    and j': "j' = j1\<lparr>mj_tracker := init_tracker (init_of ctx spec b tx acc) (mj_tracker j1)\<rparr>"
    using assms(2) by (rule pre_execution_Inr)
  have st: "mj_state I j' = mj_state I j1" by (simp add: j' mj_state_def)
  have acc: "mj_state I j1 (tx_caller tx) = Some acc"
    using assms(1) l by (rule loaded_account)
  have "at_start (init_of ctx spec b tx acc) (mj_state I j1)"
    using assms(3) acc by (auto simp: at_start_def init_of_def st)
  then have "tx_run I (init_of ctx spec b tx acc) j'" unfolding j' by (rule tx_run.Start)
  then show ?thesis using acc st by simp
qed

text \<open>When execution starts, the tracker is initialised for this transaction, with the fees
  the exact product of the effective price and the gas limit, and it is right from the first
  instruction on: a run of the transaction begins here, and a violation is recorded exactly when
  a loaded account is below its reserve. It is enough that nobody but the sender has less than
  before the transaction.\<close>

theorem execution_starts_tracked:
  assumes "journal_ok I" and "pre_execution I M ctx spec b tx j = (Inr gas, j')"
    and "\<And>a acc. a \<noteq> tx_caller tx \<Longrightarrow> mj_state I j' a = Some acc \<Longrightarrow>
      ai_balance (acc_original_info acc) \<le> ai_balance (acc_info acc)"
  shows "\<exists>acc. mj_state I j' (tx_caller tx) = Some acc
    \<and> tx_run I (init_of ctx spec b tx acc) j'
    \<and> unat (sender_gas_fees (rule_of (init_of ctx spec b tx acc))) =
        unat (tx_effective_gas_price tx (ucast (b_basefee b))) * unat (tx_gas_limit tx)
    \<and> (has_violation (mj_tracker j') \<longleftrightarrow>
        (\<exists>a x. mj_state I j' a = Some x \<and> dips (rule_of (init_of ctx spec b tx acc)) a x))"
proof -
  obtain acc where "mj_state I j' (tx_caller tx) = Some acc"
    and run: "tx_run I (init_of ctx spec b tx acc) j'"
    using pre_execution_starts [OF assms(1,2)] assms(3) by blast
  then show ?thesis
    using rule_of_init_of(2) violation_iff_dip [OF run assms(1)] by (intro exI [of _ acc]) simp
qed


text \<open>A blob transaction and an EIP-7702 transaction that names the system address as an
  authority never pass validation, and nothing else is refused that the mainnet validation
  accepts.\<close>

theorem validation_refuses:
  "validate_env M spec tx = Inr u \<longleftrightarrow>
     tx_type tx \<noteq> Eip4844
     \<and> \<not> (tx_type tx = Eip7702 \<and> Some SYSTEM_ADDRESS \<in> set (tx_authorities tx))
     \<and> mn_validate_tx_env M (into_eth_spec spec) tx = Inr u"
  by (auto simp: validate_env_def list_ex_iff split: sum.splits)

section \<open>Witnesses\<close>

definition plain_mainnet :: "(plain_journal, string) mainnet" where
  "plain_mainnet = \<lparr>mn_validate_tx_env = (\<lambda>_ _. Inr ()),
     mn_validate_and_deduct_caller = (\<lambda>j. (Inr (), j)), mn_load_accounts = (\<lambda>j. (Inr (), j)),
     mn_apply_eip7702_auth_list = (\<lambda>j. (Inr 0, j)),
     mn_london_enabled_in = (\<lambda>_. True)\<rparr>"

definition wit_tx :: transaction where
  "wit_tx = \<lparr>tx_type = OtherType, tx_caller = 7, tx_gas_limit = 21000,
     tx_effective_gas_price = (\<lambda>basefee. basefee + 5), tx_authorities = []\<rparr>"

definition wit_block :: block_env where
  "wit_block = \<lparr>b_basefee = 100, b_beneficiary = 3\<rparr>"

theorem execution_starts_tracked_witness:
  "\<exists>j'. pre_execution plain_ops plain_mainnet MonadChainContext_default MonadNine wit_block wit_tx wit_start
      = (Inr 0, j') \<and> (\<exists>i. tx_run plain_ops i j' \<and> unat (sender_gas_fees (rule_of i)) = 2205000)"
proof -
  obtain j' where p: "pre_execution plain_ops plain_mainnet MonadChainContext_default MonadNine wit_block wit_tx
      wit_start = (Inr 0, j')"
    and s: "mj_state plain_ops j' = [7 \<mapsto> wit_account 500, 5 \<mapsto> wit_account 1000]"
    by (simp add: pre_execution_def plain_mainnet_def wit_start_def wit_tx_def mj_state_def plain_ops_def
        mj_load_account_with_code_def pj_load_account_def pj_load_def reserve_balance_mut_def)
  have "ai_balance (acc_original_info acc) \<le> ai_balance (acc_info acc)"
    if "mj_state plain_ops j' a = Some acc" for a acc
    using that by (auto simp: s wit_account_def split: if_splits)
  then have "\<exists>i. tx_run plain_ops i j' \<and> unat (sender_gas_fees (rule_of i)) = 2205000"
    using execution_starts_tracked [OF plain_ops_ok p]
    by (auto simp: wit_tx_def wit_block_def)
  with p show ?thesis by blast
qed


end
