(* ===== verification/Precompiles.thy ===== *)
theory Precompiles
  imports Journal
begin

text \<open>
  The precompiles of \<open>precompiles.rs\<close>: the repriced and the added run functions, the table
  that is laid over Ethereum's, and the provider that tries the staking precompile, the
  reserve-balance precompile and the table in this order.

  The cryptography and revm's own precompiles are parameters, collected in the record
  \<open>foreign\<close>; the modelled code decides what is charged, what is refused and what is handed
  to them.
\<close>

section \<open>Parameters\<close>

record precompile_output =
  po_gas_used :: u64
  po_bytes :: bytes

type_synonym precompile_result = "precompile_error + precompile_output"
type_synonym precompile_fn = "bytes \<Rightarrow> u64 \<Rightarrow> precompile_result"
type_synonym precompile_table = "address \<Rightarrow> precompile_fn option"

record foreign =
  f_right_pad_128 :: "bytes \<Rightarrow> bytes"
  f_secp256k1_ecrecover :: "bytes \<Rightarrow> u8 \<Rightarrow> bytes \<Rightarrow> bytes option"
  f_bn254_run_add :: "bytes \<Rightarrow> u64 \<Rightarrow> u64 \<Rightarrow> precompile_result"
  f_bn254_run_mul :: "bytes \<Rightarrow> u64 \<Rightarrow> u64 \<Rightarrow> precompile_result"
  f_bn254_run_pair :: "bytes \<Rightarrow> u64 \<Rightarrow> u64 \<Rightarrow> u64 \<Rightarrow> precompile_result"
  f_blake2_compress :: "u32 \<Rightarrow> u64 list \<Rightarrow> u64 list \<Rightarrow> u64 \<times> u64 \<Rightarrow> bool \<Rightarrow> u64 list"
  f_kzg_to_versioned_hash :: "bytes \<Rightarrow> bytes"
  f_verify_kzg_proof :: "bytes \<Rightarrow> bytes \<Rightarrow> bytes \<Rightarrow> bytes \<Rightarrow> precompile_error + unit"
  f_kzg_return_value :: bytes
  f_mldsa_verify :: "bytes \<Rightarrow> bytes"
  f_blake3_hash :: "bytes \<Rightarrow> bytes"
  f_p256verify :: precompile_fn
  f_eth_precompiles :: "SpecId \<Rightarrow> precompile_table"
  f_eth_run :: "precompile_table \<Rightarrow> call_inputs \<Rightarrow> interpreter_result option"

text \<open>The documented behaviour relied on: right_pad pads with zeros or cuts to 128 bytes, and
  EthPrecompiles answers exactly the calls to addresses in its table.\<close>

definition foreign_ok :: "foreign \<Rightarrow> bool" where
  "foreign_ok F \<longleftrightarrow>
     (\<forall>bs. f_right_pad_128 F bs = take 128 (bs @ replicate 128 0)) \<and>
     (\<forall>T inputs. f_eth_run F T inputs = None \<longleftrightarrow> T (ci_bytecode_address inputs) = None)"

section \<open>Gas constants\<close>

definition MONAD_ECRECOVER_GAS :: u64 where "MONAD_ECRECOVER_GAS = 6000"
definition MONAD_EC_ADD_GAS :: u64 where "MONAD_EC_ADD_GAS = 300"
definition MONAD_EC_MUL_GAS :: u64 where "MONAD_EC_MUL_GAS = 30000"
definition MONAD_EC_PAIRING_BASE_GAS :: u64 where "MONAD_EC_PAIRING_BASE_GAS = 225000"
definition MONAD_EC_PAIRING_PER_POINT_GAS :: u64 where "MONAD_EC_PAIRING_PER_POINT_GAS = 170000"
definition MONAD_BLAKE2F_ROUND_GAS :: u64 where "MONAD_BLAKE2F_ROUND_GAS = 2"
definition MONAD_POINT_EVALUATION_GAS :: u64 where "MONAD_POINT_EVALUATION_GAS = 200000"
definition SUWAPPU_MLDSA65_VERIFY_GAS :: u64 where "SUWAPPU_MLDSA65_VERIFY_GAS = 12000"
definition SUWAPPU_BLAKE3_BASE_GAS :: u64 where "SUWAPPU_BLAKE3_BASE_GAS = 30"
definition SUWAPPU_BLAKE3_WORD_GAS :: u64 where "SUWAPPU_BLAKE3_WORD_GAS = 6"

lemmas precompile_gas_defs = MONAD_ECRECOVER_GAS_def MONAD_EC_ADD_GAS_def MONAD_EC_MUL_GAS_def
  MONAD_EC_PAIRING_BASE_GAS_def MONAD_EC_PAIRING_PER_POINT_GAS_def MONAD_BLAKE2F_ROUND_GAS_def
  MONAD_POINT_EVALUATION_GAS_def SUWAPPU_MLDSA65_VERIFY_GAS_def SUWAPPU_BLAKE3_BASE_GAS_def
  SUWAPPU_BLAKE3_WORD_GAS_def

section \<open>Bytes\<close>

text \<open>\<open>bs[a..b]\<close>.\<close>

definition bytes_between :: "nat \<Rightarrow> nat \<Rightarrow> bytes \<Rightarrow> bytes" where
  "bytes_between a b bs = take (b - a) (drop a bs)"

definition from_le_bytes :: "bytes \<Rightarrow> 'a::len word" where
  "from_le_bytes bs = from_be_bytes (rev bs)"

definition to_le_bytes :: "nat \<Rightarrow> 'a::len word \<Rightarrow> bytes" where
  "to_le_bytes n w = rev (to_be_bytes n w)"

text \<open>chunks_exact: full chunks only.\<close>

function chunks_exact :: "nat \<Rightarrow> 'a list \<Rightarrow> 'a list list" where
  "chunks_exact n xs =
     (if n = 0 \<or> length xs < n then [] else take n xs # chunks_exact n (drop n xs))"
  by pat_completeness auto

termination chunks_exact
  by (relation "measure (\<lambda>(n, xs). length xs)") auto

declare chunks_exact.simps [simp del]

text \<open>u64::div_ceil.\<close>

definition div_ceil :: "u64 \<Rightarrow> u64 \<Rightarrow> u64" where
  "div_ceil a b = (if 0 < a mod b then a div b + 1 else a div b)"

lemma length_bytes_between: "b \<le> length bs \<Longrightarrow> length (bytes_between a b bs) = b - a"
  by (simp add: bytes_between_def)

lemma length_chunks_exact: "0 < n \<Longrightarrow> length (chunks_exact n xs) = length xs div n"
proof (induction n xs rule: chunks_exact.induct)
  case (1 n xs)
  show ?case
  proof (cases "length xs < n")
    case True
    with 1 show ?thesis by (simp add: chunks_exact.simps [of n xs])
  next
    case False
    with 1 have "length (chunks_exact n (drop n xs)) = (length xs - n) div n" by simp
    moreover have "length xs div n = Suc ((length xs - n) div n)"
      using False 1(2) by (simp add: le_div_geq)
    ultimately show ?thesis using False 1(2) by (simp add: chunks_exact.simps [of n xs])
  qed
qed

lemma from_to_le_bytes:
  "LENGTH('a) \<le> 8 * n \<Longrightarrow> from_le_bytes (to_le_bytes n w) = (w :: 'a::len word)"
  by (simp add: from_le_bytes_def to_le_bytes_def from_to_be_bytes)

section \<open>Run functions\<close>

definition output_of :: "u64 \<Rightarrow> bytes \<Rightarrow> precompile_result" where
  "output_of gas bs = Inr \<lparr>po_gas_used = gas, po_bytes = bs\<rparr>"

definition monad_ecrecover_run :: "foreign \<Rightarrow> precompile_fn" where
  "monad_ecrecover_run F input gas_limit =
     (if gas_limit < MONAD_ECRECOVER_GAS then Inl OutOfGas
      else let input = f_right_pad_128 F input in
        if \<not> (list_all (\<lambda>b. b = 0) (bytes_between 32 63 input)
              \<and> (input ! 63 = 27 \<or> input ! 63 = 28))
        then output_of MONAD_ECRECOVER_GAS []
        else let msg = bytes_between 0 32 input;
                 recid = input ! 63 - 27;
                 sig = bytes_between 64 128 input;
                 out = (case f_secp256k1_ecrecover F sig recid msg of Some o' \<Rightarrow> o' | None \<Rightarrow> [])
             in output_of MONAD_ECRECOVER_GAS out)"

definition monad_ec_add_run :: "foreign \<Rightarrow> precompile_fn" where
  "monad_ec_add_run F input gas_limit = f_bn254_run_add F input MONAD_EC_ADD_GAS gas_limit"

definition monad_ec_mul_run :: "foreign \<Rightarrow> precompile_fn" where
  "monad_ec_mul_run F input gas_limit = f_bn254_run_mul F input MONAD_EC_MUL_GAS gas_limit"

definition monad_ec_pairing_run :: "foreign \<Rightarrow> precompile_fn" where
  "monad_ec_pairing_run F input gas_limit =
     f_bn254_run_pair F input MONAD_EC_PAIRING_PER_POINT_GAS MONAD_EC_PAIRING_BASE_GAS gas_limit"

definition monad_blake2f_run :: "foreign \<Rightarrow> precompile_fn" where
  "monad_blake2f_run F input gas_limit =
     (if length input \<noteq> 213 then Inl Blake2WrongLength
      else let rounds = (from_be_bytes (take 4 input) :: u32);
               gas_used = ucast rounds * MONAD_BLAKE2F_ROUND_GAS in
        if gas_limit < gas_used then Inl OutOfGas
        else case (if input ! 212 = 0 then Some False
                   else if input ! 212 = 1 then Some True else None) of
          None \<Rightarrow> Inl Blake2WrongFinalIndicatorFlag
        | Some f \<Rightarrow>
            let h = map from_le_bytes (chunks_exact 8 (bytes_between 4 68 input));
                m = map from_le_bytes (chunks_exact 8 (bytes_between 68 196 input));
                t_0 = from_le_bytes (bytes_between 196 204 input);
                t_1 = from_le_bytes (bytes_between 204 212 input);
                h = f_blake2_compress F rounds h m (t_0, t_1) f
            in output_of gas_used (concat (map (to_le_bytes 8) h)))"

definition monad_point_evaluation_run :: "foreign \<Rightarrow> precompile_fn" where
  "monad_point_evaluation_run F input gas_limit =
     (if gas_limit < MONAD_POINT_EVALUATION_GAS then Inl OutOfGas
      else if length input \<noteq> 192 then Inl BlobInvalidInputLength
      else let versioned_hash = take 32 input;
               commitment = bytes_between 96 144 input in
        if f_kzg_to_versioned_hash F commitment \<noteq> versioned_hash then Inl BlobMismatchedVersion
        else let z = bytes_between 32 64 input;
                 y = bytes_between 64 96 input;
                 proof' = bytes_between 144 192 input in
          (case f_verify_kzg_proof F z y commitment proof' of
             Inl e \<Rightarrow> Inl e
           | Inr _ \<Rightarrow> output_of MONAD_POINT_EVALUATION_GAS (f_kzg_return_value F)))"

definition suwappu_mldsa65_verify_run :: "foreign \<Rightarrow> precompile_fn" where
  "suwappu_mldsa65_verify_run F input gas_limit =
     (if gas_limit < SUWAPPU_MLDSA65_VERIFY_GAS then Inl OutOfGas
      else output_of SUWAPPU_MLDSA65_VERIFY_GAS (f_mldsa_verify F input))"

definition suwappu_blake3_run :: "foreign \<Rightarrow> precompile_fn" where
  "suwappu_blake3_run F input gas_limit =
     (let words = div_ceil (of_nat (length input)) 32;
          gas_used = SUWAPPU_BLAKE3_BASE_GAS + SUWAPPU_BLAKE3_WORD_GAS * words in
      if gas_limit < gas_used then Inl OutOfGas
      else output_of gas_used (f_blake3_hash F input))"

section \<open>The table and the provider\<close>

type_synonym precompile = "address \<times> precompile_fn"

definition MONAD_ECRECOVER :: "foreign \<Rightarrow> precompile" where
  "MONAD_ECRECOVER F = (1, monad_ecrecover_run F)"
definition MONAD_EC_ADD :: "foreign \<Rightarrow> precompile" where
  "MONAD_EC_ADD F = (6, monad_ec_add_run F)"
definition MONAD_EC_MUL :: "foreign \<Rightarrow> precompile" where
  "MONAD_EC_MUL F = (7, monad_ec_mul_run F)"
definition MONAD_EC_PAIRING :: "foreign \<Rightarrow> precompile" where
  "MONAD_EC_PAIRING F = (8, monad_ec_pairing_run F)"
definition MONAD_BLAKE2F :: "foreign \<Rightarrow> precompile" where
  "MONAD_BLAKE2F F = (9, monad_blake2f_run F)"
definition MONAD_POINT_EVALUATION :: "foreign \<Rightarrow> precompile" where
  "MONAD_POINT_EVALUATION F = (0x0A, monad_point_evaluation_run F)"

text \<open>Precompiles::extend: a later entry for an address replaces an earlier one.\<close>

definition extend_table :: "precompile list \<Rightarrow> precompile_table \<Rightarrow> precompile_table" where
  "extend_table ps T = fold (\<lambda>(a, f) T. T(a \<mapsto> f)) ps T"

record MonadPrecompiles =
  mp_inner :: precompile_table
  mp_spec :: MonadSpecId

definition new_with_spec :: "foreign \<Rightarrow> MonadSpecId \<Rightarrow> MonadPrecompiles" where
  "new_with_spec F spec =
     (let precompiles = f_eth_precompiles F (into_eth_spec spec);
          precompiles = extend_table
            [MONAD_ECRECOVER F, MONAD_EC_ADD F, MONAD_EC_MUL F, MONAD_EC_PAIRING F,
             MONAD_BLAKE2F F, MONAD_POINT_EVALUATION F] precompiles;
          precompiles = extend_table [(0x0100, f_p256verify F)] precompiles;
          precompiles = extend_table [(0x0101, suwappu_mldsa65_verify_run F)] precompiles;
          precompiles = extend_table [(0x0102, suwappu_blake3_run F)] precompiles
      in \<lparr>mp_inner = precompiles, mp_spec = spec\<rparr>)"

definition set_spec :: "foreign \<Rightarrow> MonadSpecId \<Rightarrow> MonadPrecompiles \<Rightarrow> bool \<times> MonadPrecompiles" where
  "set_spec F spec mp =
     (if spec = mp_spec mp then (False, mp) else (True, new_with_spec F spec))"

text \<open>The context a precompile runs in: the hardfork, the tracker and the host storage.\<close>

definition run_precompile ::
    "abi \<Rightarrow> gas_meter \<Rightarrow> (nat \<times> nat \<Rightarrow> bytes option) \<Rightarrow> foreign \<Rightarrow> MonadSpecId \<Rightarrow>
     ReserveBalanceTracker \<Rightarrow> MonadPrecompiles \<Rightarrow> call_inputs \<Rightarrow> host \<Rightarrow>
     interpreter_result option \<times> host" where
  "run_precompile A G shared F spec trk mp inputs s =
     (case run_staking_precompile A G shared inputs s of
        (Some result, s') \<Rightarrow> (Some result, s')
      | (None, s') \<Rightarrow>
          (case run_reserve_balance_precompile G shared spec trk inputs of
             Some result \<Rightarrow> (Some result, s')
           | None \<Rightarrow> (f_eth_run F (mp_inner mp) inputs, s')))"

definition warm_addresses :: "address list \<Rightarrow> MonadPrecompiles \<Rightarrow> address list" where
  "warm_addresses inner_warm mp =
     (let addresses = [STAKING_ADDRESS];
          addresses = (if is_enabled_in MonadNine (mp_spec mp)
                       then addresses @ [RESERVE_BALANCE_ADDRESS] else addresses)
      in addresses @ inner_warm)"

definition contains :: "MonadPrecompiles \<Rightarrow> address \<Rightarrow> bool" where
  "contains mp a \<longleftrightarrow>
     a = STAKING_ADDRESS
     \<or> is_enabled_in MonadNine (mp_spec mp) \<and> a = RESERVE_BALANCE_ADDRESS
     \<or> mp_inner mp a \<noteq> None"

section \<open>Prices\<close>

lemma output_of_Inr [simp]:
  "output_of g bs = Inr out \<longleftrightarrow> out = \<lparr>po_gas_used = g, po_bytes = bs\<rparr>"
  "output_of g bs \<noteq> Inl e"
  by (auto simp: output_of_def)

lemma ceil_32:
  fixes q r :: nat
  assumes "r < 32"
  shows "(q * 32 + r + 31) div 32 = (if 0 < r then q + 1 else q)"
proof (rule div_nat_eqI)
  show "32 * (if 0 < r then q + 1 else q) \<le> q * 32 + r + 31"
    and "q * 32 + r + 31 < 32 * Suc (if 0 < r then q + 1 else q)"
    using assms by simp_all
qed

lemma ceil_32_div: "(n + 31) div 32 = (if 0 < n mod 32 then n div 32 + 1 else n div 32 :: nat)"
  using ceil_32 [of "n mod 32" "n div 32"] by simp

lemma unat_div_ceil_32: "unat (div_ceil a 32) = (unat a + 31) div 32"
proof -
  have q: "unat (a div 32) = unat a div 32" and r: "unat (a mod 32) = unat a mod 32"
    by (simp_all add: unat_div unat_mod)
  have l: "unat a < 2 ^ 64" using unat_lt2p [of a] by simp
  show ?thesis
  proof (cases "0 < a mod 32")
    case True
    then have p: "0 < unat a mod 32" by (simp add: word_less_nat_alt r)
    have "unat (a div 32 + 1) = unat a div 32 + 1"
      using l by (subst unat_plus_lt) (auto simp: q)
    with True ceil_32_div [of "unat a"] p show ?thesis by (simp add: div_ceil_def)
  next
    case False
    then have "unat a mod 32 = 0" by (simp add: word_less_nat_alt r)
    from False ceil_32_div [of "unat a"] this show ?thesis by (simp add: div_ceil_def q)
  qed
qed

lemma blake3_gas:
  assumes "length input < 2 ^ 60"
  shows "unat (SUWAPPU_BLAKE3_BASE_GAS + SUWAPPU_BLAKE3_WORD_GAS * div_ceil (of_nat (length input)) 32)
     = 30 + 6 * ((length input + 31) div 32)"
proof -
  have n: "unat (of_nat (length input) :: u64) = length input"
    using assms by (simp add: unat_of_nat)
  have w: "unat (div_ceil (of_nat (length input)) 32) = (length input + 31) div 32"
    by (simp add: unat_div_ceil_32 n)
  have "6 * ((length input + 31) div 32) < 2 ^ 63" using assms by simp
  then show ?thesis
    by (simp add: SUWAPPU_BLAKE3_BASE_GAS_def SUWAPPU_BLAKE3_WORD_GAS_def unat_plus_lt unat_times_lt w)
qed

lemma blake2f_gas:
  "unat (ucast (rounds :: u32) * MONAD_BLAKE2F_ROUND_GAS :: u64) = 2 * unat rounds"
proof -
  have l: "unat rounds < 2 ^ 32" using unat_lt2p [of rounds] by simp
  moreover have "unat (ucast rounds :: u64) = unat rounds"
    using l by (simp add: unsigned_ucast_eq take_bit_nat_eq_self_iff)
  ultimately show ?thesis by (simp add: MONAD_BLAKE2F_ROUND_GAS_def unat_times_lt)
qed

text \<open>\<open>priced f ok price\<close>: with less gas than the price the function runs out of gas; otherwise
  what it returns is charged at exactly the price. \<open>ok\<close> says which inputs reach the price
  check.\<close>

definition priced_run :: "precompile_fn \<Rightarrow> (bytes \<Rightarrow> bool) \<Rightarrow> (bytes \<Rightarrow> nat) \<Rightarrow> bool" where
  "priced_run f ok price \<longleftrightarrow>
     (\<forall>input gas_limit.
        (ok input \<and> unat gas_limit < price input \<longrightarrow> f input gas_limit = Inl OutOfGas) \<and>
        (\<forall>out. f input gas_limit = Inr out \<longrightarrow>
           unat (po_gas_used out) = price input \<and> price input \<le> unat gas_limit))"

lemma ecrecover_priced: "priced_run (monad_ecrecover_run F) (\<lambda>_. True) (\<lambda>_. 6000)"
  by (auto simp: priced_run_def monad_ecrecover_run_def Let_def MONAD_ECRECOVER_GAS_def
      word_less_nat_alt split: if_splits)

lemma point_evaluation_priced: "priced_run (monad_point_evaluation_run F) (\<lambda>_. True) (\<lambda>_. 200000)"
  by (auto simp: priced_run_def monad_point_evaluation_run_def Let_def MONAD_POINT_EVALUATION_GAS_def
      word_less_nat_alt split: if_splits sum.splits)

lemma mldsa_priced: "priced_run (suwappu_mldsa65_verify_run F) (\<lambda>_. True) (\<lambda>_. 12000)"
  by (auto simp: priced_run_def suwappu_mldsa65_verify_run_def SUWAPPU_MLDSA65_VERIFY_GAS_def
      word_less_nat_alt split: if_splits)

lemma blake2f_priced:
  "priced_run (monad_blake2f_run F) (\<lambda>input. length input = 213) (\<lambda>input. 2 * be_nat (take 4 input))"
proof -
  have r: "unat (from_be_bytes (take 4 input) :: u32) = be_nat (take 4 input)" for input
    by (rule unat_from_be_bytes) simp
  show ?thesis
    by (auto simp: priced_run_def monad_blake2f_run_def Let_def word_less_nat_alt blake2f_gas r
        split: if_splits option.splits)
qed

lemma blake3_priced:
  "length input < 2 ^ 60 \<Longrightarrow>
     (unat gas_limit < 30 + 6 * ((length input + 31) div 32) \<longleftrightarrow>
        suwappu_blake3_run F input gas_limit = Inl OutOfGas) \<and>
     (\<forall>out. suwappu_blake3_run F input gas_limit = Inr out \<longrightarrow>
        unat (po_gas_used out) = 30 + 6 * ((length input + 31) div 32)
        \<and> po_bytes out = f_blake3_hash F input)"
  by (auto simp: suwappu_blake3_run_def Let_def word_less_nat_alt blake3_gas split: if_splits)

section \<open>The blake2f input\<close>

text \<open>Which inputs are accepted, and what the compression function is given: eight and sixteen
  little-endian words, the offset counters and the final flag.\<close>

definition le_words :: "nat \<Rightarrow> bytes \<Rightarrow> u64 list" where
  "le_words n bs = map (\<lambda>i. from_le_bytes (take 8 (drop (8 * i) bs))) [0..<n]"

lemma chunks_exact_8: "length bs = 8 * n \<Longrightarrow> map from_le_bytes (chunks_exact 8 bs) = le_words n bs"
proof (induction n arbitrary: bs)
  case 0
  then show ?case by (subst chunks_exact.simps) (simp add: le_words_def)
next
  case (Suc n)
  have "le_words (Suc n) bs = from_le_bytes (take 8 bs) # le_words n (drop 8 bs)"
    by (simp add: le_words_def upt_conv_Cons map_Suc_upt [symmetric] del: upt_Suc)
      (simp add: add.commute)
  moreover have "length (drop 8 bs) = 8 * n" using Suc.prems by simp
  ultimately show ?case using Suc by (simp add: chunks_exact.simps [of 8 bs])
qed

lemma length_le_blocks: "length (concat (map (to_le_bytes 8) h)) = 8 * length (h :: u64 list)"
  by (induction h) (simp_all add: to_le_bytes_def)

lemma blake2f_accepts:
  assumes l: "length input = 213" and f: "input ! 212 = of_bool f"
    and g: "2 * be_nat (take 4 input) \<le> unat gas_limit"
  shows "monad_blake2f_run F input gas_limit =
     Inr \<lparr>po_gas_used = 2 * ucast (from_be_bytes (take 4 input) :: u32),
          po_bytes = concat (map (to_le_bytes 8) (f_blake2_compress F (from_be_bytes (take 4 input))
            (le_words 8 (drop 4 input)) (le_words 16 (drop 68 input))
            (from_le_bytes (take 8 (drop 196 input)), from_le_bytes (take 8 (drop 204 input))) f))\<rparr>"
proof -
  have r: "unat (from_be_bytes (take 4 input) :: u32) = be_nat (take 4 input)"
    by (rule unat_from_be_bytes) simp
  have t: "le_words n (take (8 * n) bs) = le_words n bs" for n bs
    by (auto simp: le_words_def drop_take min_def)
  have h: "map from_le_bytes (chunks_exact 8 (bytes_between 4 68 input)) = le_words 8 (drop 4 input)"
    using t [of 8 "drop 4 input"] by (simp add: bytes_between_def chunks_exact_8 l)
  have m: "map from_le_bytes (chunks_exact 8 (bytes_between 68 196 input)) = le_words 16 (drop 68 input)"
    using t [of 16 "drop 68 input"] by (simp add: bytes_between_def chunks_exact_8 l)
  have g': "\<not> gas_limit < ucast (from_be_bytes (take 4 input) :: u32) * MONAD_BLAKE2F_ROUND_GAS"
    using g by (simp add: word_less_nat_alt blake2f_gas r not_less)
  have b: "bytes_between 196 204 input = take 8 (drop 196 input)"
    "bytes_between 204 212 input = take 8 (drop 204 input)"
    by (simp_all add: bytes_between_def)
  show ?thesis
    using f g' by (cases f)
      (simp_all add: monad_blake2f_run_def l Let_def output_of_def h m b MONAD_BLAKE2F_ROUND_GAS_def
        mult.commute [of _ 2])
qed

section \<open>The provider\<close>

lemma new_with_spec_table:
  "mp_spec (new_with_spec F spec) = spec"
  "mp_inner (new_with_spec F spec) =
     (f_eth_precompiles F (into_eth_spec spec))
       (1 \<mapsto> monad_ecrecover_run F, 6 \<mapsto> monad_ec_add_run F, 7 \<mapsto> monad_ec_mul_run F,
        8 \<mapsto> monad_ec_pairing_run F, 9 \<mapsto> monad_blake2f_run F,
        0x0A \<mapsto> monad_point_evaluation_run F, 0x0100 \<mapsto> f_p256verify F,
        0x0101 \<mapsto> suwappu_mldsa65_verify_run F, 0x0102 \<mapsto> suwappu_blake3_run F)"
  by (simp_all add: new_with_spec_def Let_def extend_table_def MONAD_ECRECOVER_def MONAD_EC_ADD_def
      MONAD_EC_MUL_def MONAD_EC_PAIRING_def MONAD_BLAKE2F_def MONAD_POINT_EVALUATION_def)

lemma set_spec_follows:
  "mp_spec (snd (set_spec F spec mp)) = spec" "fst (set_spec F spec mp) \<longleftrightarrow> spec \<noteq> mp_spec mp"
  by (simp_all add: set_spec_def new_with_spec_table)

lemma staking_run_elsewhere:
  "ci_bytecode_address inputs \<noteq> STAKING_ADDRESS \<Longrightarrow> run_staking_precompile A G shared inputs s = (None, s)"
  by (simp add: run_staking_precompile_def)

lemma staking_run_here:
  "ci_bytecode_address inputs = STAKING_ADDRESS \<Longrightarrow>
     \<exists>ir s'. run_staking_precompile A G shared inputs s = (Some ir, s')"
  by (auto simp: run_staking_precompile_def Let_def split: option.splits prod.splits)

lemma reserve_run_none:
  "run_reserve_balance_precompile G shared spec trk inputs = None
     \<longleftrightarrow> \<not> (is_enabled_in MonadNine spec \<and> ci_bytecode_address inputs = RESERVE_BALANCE_ADDRESS)"
  by (auto simp: run_reserve_balance_precompile_def Let_def)

lemma run_precompile_cases:
  assumes "foreign_ok F" and "mp_spec mp = spec"
  shows "fst (run_precompile A G shared F spec trk mp inputs s) \<noteq> None
    \<longleftrightarrow> contains mp (ci_bytecode_address inputs)"
    and "ci_bytecode_address inputs = STAKING_ADDRESS \<Longrightarrow>
      run_precompile A G shared F spec trk mp inputs s = run_staking_precompile A G shared inputs s"
    and "ci_bytecode_address inputs \<noteq> STAKING_ADDRESS \<Longrightarrow>
      snd (run_precompile A G shared F spec trk mp inputs s) = s"
proof -
  show here: "run_precompile A G shared F spec trk mp inputs s = run_staking_precompile A G shared inputs s"
    if "ci_bytecode_address inputs = STAKING_ADDRESS"
    using staking_run_here [OF that, of A G shared s] by (auto simp: run_precompile_def)
  have else': "run_precompile A G shared F spec trk mp inputs s =
      (case run_reserve_balance_precompile G shared spec trk inputs of
         Some result \<Rightarrow> (Some result, s) | None \<Rightarrow> (f_eth_run F (mp_inner mp) inputs, s))"
    if "ci_bytecode_address inputs \<noteq> STAKING_ADDRESS"
    by (simp add: run_precompile_def staking_run_elsewhere [OF that])
  then show "snd (run_precompile A G shared F spec trk mp inputs s) = s"
    if "ci_bytecode_address inputs \<noteq> STAKING_ADDRESS"
    using that by (simp split: option.splits)
  show "fst (run_precompile A G shared F spec trk mp inputs s) \<noteq> None
      \<longleftrightarrow> contains mp (ci_bytecode_address inputs)"
  proof (cases "ci_bytecode_address inputs = STAKING_ADDRESS")
    case True
    then show ?thesis using here staking_run_here [OF True, of A G shared s]
      by (auto simp: contains_def)
  next
    case False
    have "f_eth_run F (mp_inner mp) inputs = None \<longleftrightarrow> mp_inner mp (ci_bytecode_address inputs) = None"
      using assms(1) by (simp add: foreign_ok_def)
    with False reserve_run_none [of G shared spec trk inputs] assms(2) show ?thesis
      unfolding else' [OF False] contains_def by (auto split: option.splits)
  qed
qed



text \<open>A blake2f input of the right length, with a final flag of 0 or 1 and enough gas, is
  handed to the compression function as its rounds, eight state words, sixteen message words
  and two counters, all little-endian, and the eight words that come back are written out the
  same way.\<close>

theorem blake2f_parses:
  assumes "length input = 213" and "input ! 212 = of_bool f"
    and "2 * be_nat (take 4 input) \<le> unat gas_limit"
  shows "monad_blake2f_run F input gas_limit =
     Inr \<lparr>po_gas_used = 2 * ucast (from_be_bytes (take 4 input) :: u32),
          po_bytes = concat (map (to_le_bytes 8) (f_blake2_compress F (from_be_bytes (take 4 input))
            (le_words 8 (drop 4 input)) (le_words 16 (drop 68 input))
            (from_le_bytes (take 8 (drop 196 input)), from_le_bytes (take 8 (drop 204 input))) f))\<rparr>"
  using assms by (rule blake2f_accepts)

section \<open>Witnesses\<close>

definition sample_foreign :: foreign where
  "sample_foreign = \<lparr>f_right_pad_128 = (\<lambda>bs. take 128 (bs @ replicate 128 0)),
     f_secp256k1_ecrecover = (\<lambda>_ _ _. None),
     f_bn254_run_add = (\<lambda>_ gas limit. if limit < gas then Inl OutOfGas else output_of gas []),
     f_bn254_run_mul = (\<lambda>_ gas limit. if limit < gas then Inl OutOfGas else output_of gas []),
     f_bn254_run_pair = (\<lambda>_ _ gas limit. if limit < gas then Inl OutOfGas else output_of gas []),
     f_blake2_compress = (\<lambda>_ h _ _ _. h),
     f_kzg_to_versioned_hash = (\<lambda>bs. take 32 bs),
     f_verify_kzg_proof = (\<lambda>_ _ _ _. Inl BlobVerifyKzgProofFailed),
     f_kzg_return_value = replicate 64 0, f_mldsa_verify = (\<lambda>_. replicate 32 0),
     f_blake3_hash = (\<lambda>_. replicate 32 0), f_p256verify = (\<lambda>_ _. Inl OutOfGas),
     f_eth_precompiles = (\<lambda>_. [2 \<mapsto> (\<lambda>_ _. Inl OutOfGas)]),
     f_eth_run = (\<lambda>T inputs. case T (ci_bytecode_address inputs) of None \<Rightarrow> None
        | Some f \<Rightarrow> Some \<lparr>ir_result = Revert, ir_gas_limit = ci_gas_limit inputs,
            ir_gas_remaining = 0, ir_output = []\<rparr>)\<rparr>"

lemma sample_foreign_ok: "foreign_ok sample_foreign"
  by (auto simp: foreign_ok_def sample_foreign_def split: option.splits)



theorem blake2f_parses_witness:
  "\<exists>out. monad_blake2f_run sample_foreign (replicate 212 0 @ [1]) 0 = Inr out"
proof -
  have "be_nat (take 4 (replicate 212 0 @ [1 :: u8])) = 0" by simp
  then show ?thesis
    using blake2f_parses [of "replicate 212 0 @ [1]" True 0 sample_foreign]
    by (auto simp: nth_append)
qed

end
