(* ===== verification/Backend.thy ===== *)
theory Backend
  imports Precompiles Calls
begin

text \<open>
  The staking contract on the journal: \<open>ContextTrStorage\<close> of \<open>staking/mod.rs\<close>, which answers the
  traits StorageReader and StakingStorage with the journal of the context. The staking theories
  run on the backend of \<open>Host\<close>; here each of the four operations over the journal is shown to be
  that of \<open>Host\<close> on a view of the journal, so that a staking call is a run of journal operations
  and the reserve-balance tracker is right behind it.
\<close>

section \<open>ContextTrStorage\<close>

text \<open>\<open>debug\<close> is the Debug text of revm's errors.\<close>

definition ctx_sload ::
    "('j, 'x) journal_ops \<Rightarrow> ('x \<Rightarrow> string) \<Rightarrow> u256 \<Rightarrow> ('j MonadJournal, u256) comp" where
  "ctx_sload I debug key = (\<lambda>j. case mj_sload I STAKING_ADDRESS key j of
       (Inr r, j) \<Rightarrow> (Inr (sl_data r), j)
     | (Inl e, j) \<Rightarrow> (Inl (Other (''Storage read failed: '' @ debug e)), j))"

definition ctx_sstore ::
    "('j, 'x) journal_ops \<Rightarrow> ('x \<Rightarrow> string) \<Rightarrow> u256 \<Rightarrow> u256 \<Rightarrow> ('j MonadJournal, unit) comp" where
  "ctx_sstore I debug key value = (\<lambda>j. case mj_sstore I STAKING_ADDRESS key value j of
       (Inr _, j) \<Rightarrow> (Inr (), j)
     | (Inl e, j) \<Rightarrow> (Inl (Other (''Storage write failed: '' @ debug e)), j))"

definition ctx_transfer ::
    "('j, 'x) journal_ops \<Rightarrow> ('x \<Rightarrow> string) \<Rightarrow> address \<Rightarrow> address \<Rightarrow> u256 \<Rightarrow>
     ('j MonadJournal, unit) comp" where
  "ctx_transfer I debug frm recipient amount = (\<lambda>j.
     if amount = 0 then (Inr (), j)
     else (case mj_transfer I frm recipient amount j of
         (Inr None, j) \<Rightarrow> (Inr (), j)
       | (Inr (Some e), j) \<Rightarrow> (Inl (Other (''Transfer failed: '' @ debug e)), j)
       | (Inl e, j) \<Rightarrow> (Inl (Other (''Transfer error: '' @ debug e)), j)))"

definition ctx_emit_log :: "('j, 'x) journal_ops \<Rightarrow> log_entry \<Rightarrow> ('j MonadJournal, unit) comp" where
  "ctx_emit_log I l = (\<lambda>j. (Inr (), mj_log I l j))"

section \<open>A backend that implements another\<close>

text \<open>\<open>vw\<close> is what a state stands for. Each operation over the states answers as the operation of
  \<open>Host\<close> and leads to a state that stands for its result.\<close>

definition implements :: "('s \<Rightarrow> host) \<Rightarrow> 'a action \<Rightarrow> ('s, 'a) comp \<Rightarrow> bool" where
  "implements vw m m' \<longleftrightarrow> (\<forall>s r s'. m' s = (r, s') \<longrightarrow> m (vw s) = (r, vw s'))"

locale staking_storage =
  fixes vw :: "'s \<Rightarrow> host"
    and ld :: "u256 \<Rightarrow> ('s, u256) comp"
    and st :: "u256 \<Rightarrow> u256 \<Rightarrow> ('s, unit) comp"
    and tr :: "address \<Rightarrow> address \<Rightarrow> u256 \<Rightarrow> ('s, unit) comp"
    and lg :: "log_entry \<Rightarrow> ('s, unit) comp"
  assumes impl_sload: "implements vw (sload k) (ld k)"
    and impl_sstore: "implements vw (sstore k v) (st k v)"
    and impl_transfer: "implements vw (transfer a b x) (tr a b x)"
    and impl_emit_log: "implements vw (emit_log l) (lg l)"
begin

text \<open>Whatever the operations keep is kept along the calls of a computation on the backend, and the
  computation ends in a state that stands for its result.\<close>

lemma follow_step:
  assumes "host_step (vw s) t" and "P s"
    and "\<And>k s. P s \<Longrightarrow> P (snd (ld k s))" and "\<And>k v s. P s \<Longrightarrow> P (snd (st k v s))"
    and "\<And>a b x s. P s \<Longrightarrow> P (snd (tr a b x s))" and "\<And>l s. P s \<Longrightarrow> P (snd (lg l s))"
  shows "\<exists>s'. vw s' = t \<and> P s'"
proof -
  have go: "\<exists>s'. vw s' = t \<and> P s'"
    if "implements vw m m'" and "P (snd (m' s))" and "t = snd (m (vw s))" for m :: "'b action" and m'
    using that by (intro exI [of _ "snd (m' s)"]) (simp add: implements_def prod_eq_iff)
  from assms(1) show ?thesis
  proof (cases rule: host_step.cases)
    case (Sload k)
    then show ?thesis by (rule go [OF impl_sload assms(3) [OF assms(2)]])
  next
    case (Sstore k v)
    then show ?thesis by (rule go [OF impl_sstore assms(4) [OF assms(2)]])
  next
    case (Transfer a b x)
    then show ?thesis by (rule go [OF impl_transfer assms(5) [OF assms(2)]])
  next
    case (Emit_log l)
    then show ?thesis by (rule go [OF impl_emit_log assms(6) [OF assms(2)]])
  qed
qed

lemma follow:
  assumes "host_steps (vw s) t" and "P s"
    and "\<And>k s. P s \<Longrightarrow> P (snd (ld k s))" and "\<And>k v s. P s \<Longrightarrow> P (snd (st k v s))"
    and "\<And>a b x s. P s \<Longrightarrow> P (snd (tr a b x s))" and "\<And>l s. P s \<Longrightarrow> P (snd (lg l s))"
  shows "\<exists>s'. vw s' = t \<and> P s'"
  using assms(1)
proof (induction rule: rtranclp_induct)
  case base
  then show ?case using assms(2) by blast
next
  case (step t u)
  then obtain s' where "vw s' = t" "P s'" by blast
  then show ?case using step.hyps(2) follow_step [of s' u P] assms(3-6) by blast
qed

end

text \<open>The backend of \<open>Host\<close> implements itself.\<close>

interpretation itself: staking_storage "\<lambda>s. s" sload sstore transfer emit_log
  by unfold_locales (simp_all add: implements_def)

section \<open>The view of a journal\<close>

text \<open>What of the journal the staking contract sees: its storage and the balances, and what the
  database answers. \<open>sv_transfer\<close> is what a transfer does to the balances.\<close>

record 'j storage_view =
  sv_slot :: "'j \<Rightarrow> u256 \<Rightarrow> u256"
  sv_balance :: "'j \<Rightarrow> address \<Rightarrow> u256"
  sv_load_fault :: "u256 \<Rightarrow> string option"
  sv_store_fault :: "u256 \<Rightarrow> string option"
  sv_transfer :: "address \<Rightarrow> address \<Rightarrow> u256 \<Rightarrow> (address \<Rightarrow> u256) \<Rightarrow> journal_transfer"

definition inner_view :: "('j, 'x) journal_ops \<Rightarrow> 'j storage_view \<Rightarrow> 'j \<Rightarrow> host" where
  "inner_view I V j = \<lparr>store = sv_slot V j, balances = sv_balance V j, logs = jo_logs I j,
     load_fault = sv_load_fault V, store_fault = sv_store_fault V, xfer = sv_transfer V\<rparr>"

definition host_of :: "('j, 'x) journal_ops \<Rightarrow> 'j storage_view \<Rightarrow> 'j MonadJournal \<Rightarrow> host" where
  "host_of I V j = inner_view I V (mj_inner j)"

text \<open>The documented behaviour of revm's Journal for an account's storage, transfers and logs: a
  load answers the slot and changes nothing, a store sets it, both unless the database fails; a
  transfer changes balances only; a log is appended.\<close>

definition sload_view_law :: "('j, 'x) journal_ops \<Rightarrow> ('x \<Rightarrow> string) \<Rightarrow> 'j storage_view \<Rightarrow> bool" where
  "sload_view_law I debug V \<longleftrightarrow> (\<forall>key j r j'. jo_sload I STAKING_ADDRESS key j = (r, j') \<longrightarrow>
     inner_view I V j' = inner_view I V j \<and>
     (case r of Inr l \<Rightarrow> sv_load_fault V key = None \<and> sl_data l = sv_slot V j key
      | Inl e \<Rightarrow> sv_load_fault V key = Some (debug e)))"

definition sstore_view_law :: "('j, 'x) journal_ops \<Rightarrow> ('x \<Rightarrow> string) \<Rightarrow> 'j storage_view \<Rightarrow> bool" where
  "sstore_view_law I debug V \<longleftrightarrow> (\<forall>key v j r j'. jo_sstore I STAKING_ADDRESS key v j = (r, j') \<longrightarrow>
     (case r of
        Inr _ \<Rightarrow> sv_store_fault V key = None \<and>
          inner_view I V j' = (inner_view I V j)\<lparr>store := (sv_slot V j)(key := v)\<rparr>
      | Inl e \<Rightarrow> sv_store_fault V key = Some (debug e) \<and> inner_view I V j' = inner_view I V j))"

definition transfer_view_law :: "('j, 'x) journal_ops \<Rightarrow> ('x \<Rightarrow> string) \<Rightarrow> 'j storage_view \<Rightarrow> bool" where
  "transfer_view_law I debug V \<longleftrightarrow> (\<forall>f t x j r j'. jo_transfer I f t x j = (r, j') \<longrightarrow>
     (case r of
        Inr None \<Rightarrow> sv_transfer V f t x (sv_balance V j) = TransferOk (sv_balance V j') \<and>
          inner_view I V j' = (inner_view I V j)\<lparr>balances := sv_balance V j'\<rparr>
      | Inr (Some e) \<Rightarrow> sv_transfer V f t x (sv_balance V j) = TransferRefused (debug e) \<and>
          inner_view I V j' = inner_view I V j
      | Inl e \<Rightarrow> sv_transfer V f t x (sv_balance V j) = TransferDbError (debug e) \<and>
          inner_view I V j' = inner_view I V j))"

definition log_view_law :: "('j, 'x) journal_ops \<Rightarrow> 'j storage_view \<Rightarrow> bool" where
  "log_view_law I V \<longleftrightarrow> (\<forall>l j.
     inner_view I V (jo_log I l j) = (inner_view I V j)\<lparr>logs := jo_logs I j @ [l]\<rparr>)"

definition view_ok :: "('j, 'x) journal_ops \<Rightarrow> ('x \<Rightarrow> string) \<Rightarrow> 'j storage_view \<Rightarrow> bool" where
  "view_ok I debug V \<longleftrightarrow> sload_view_law I debug V \<and> sstore_view_law I debug V
     \<and> transfer_view_law I debug V \<and> log_view_law I V"

lemma view_fields [simp]:
  "store (inner_view I V j) = sv_slot V j" "balances (inner_view I V j) = sv_balance V j"
  "logs (inner_view I V j) = jo_logs I j" "load_fault (inner_view I V j) = sv_load_fault V"
  "store_fault (inner_view I V j) = sv_store_fault V" "xfer (inner_view I V j) = sv_transfer V"
  by (simp_all add: inner_view_def)

text \<open>The tracker is no part of the view.\<close>

lemma host_of_simps [simp]:
  "host_of I V (j\<lparr>mj_inner := inner\<rparr>) = inner_view I V inner"
  "mj_inner (on_transfer I f t j) = mj_inner j"
  by (simp_all add: host_of_def on_transfer_def Let_def)

lemma ctx_sload_implements:
  assumes "sload_view_law I debug V"
  shows "implements (host_of I V) (sload k) (ctx_sload I debug k)"
  unfolding implements_def
proof (intro allI impI)
  fix j r j'
  assume run: "ctx_sload I debug k j = (r, j')"
  obtain q inner where q: "jo_sload I STAKING_ADDRESS k (mj_inner j) = (q, inner)" by fastforce
  then show "sload k (host_of I V j) = (r, host_of I V j')"
    using run assms unfolding sload_view_law_def
    by (cases q) (fastforce simp: ctx_sload_def mj_sload_def sload_def host_of_def)+
qed

lemma ctx_sstore_implements:
  assumes "sstore_view_law I debug V"
  shows "implements (host_of I V) (sstore k v) (ctx_sstore I debug k v)"
  unfolding implements_def
proof (intro allI impI)
  fix j r j'
  assume run: "ctx_sstore I debug k v j = (r, j')"
  obtain q inner where q: "jo_sstore I STAKING_ADDRESS k v (mj_inner j) = (q, inner)" by fastforce
  then show "sstore k v (host_of I V j) = (r, host_of I V j')"
    using run assms unfolding sstore_view_law_def
    by (cases q) (fastforce simp: ctx_sstore_def mj_sstore_def sstore_def host_of_def)+
qed

lemma ctx_transfer_implements:
  assumes "transfer_view_law I debug V"
  shows "implements (host_of I V) (transfer a b x) (ctx_transfer I debug a b x)"
  unfolding implements_def
proof (intro allI impI)
  fix j r j'
  assume run: "ctx_transfer I debug a b x j = (r, j')"
  obtain q inner where q: "jo_transfer I a b x (mj_inner j) = (q, inner)" by fastforce
  note law = assms [unfolded transfer_view_law_def, rule_format, OF q]
  show "transfer a b x (host_of I V j) = (r, host_of I V j')"
  proof (cases "x = 0")
    case True
    then show ?thesis using run by (simp add: ctx_transfer_def transfer_def)
  next
    case False
    then show ?thesis
      using run law q
      by (auto simp: ctx_transfer_def mj_transfer_def transfer_def host_of_def
          split: sum.splits option.splits)
  qed
qed

lemma ctx_emit_log_implements:
  assumes "log_view_law I V"
  shows "implements (host_of I V) (emit_log l) (ctx_emit_log I l)"
  using assms by (simp add: implements_def ctx_emit_log_def mj_log_def emit_log_def log_view_law_def
      host_of_def)

text \<open>The contract of a journal that shows such a view gives that of the backend.\<close>

locale journal_view =
  fixes I :: "('j, 'x) journal_ops" and debug :: "'x \<Rightarrow> string" and V :: "'j storage_view"
  assumes journal: "journal_ok I" and view: "view_ok I debug V"
begin

text \<open>Each of the four operations is a step through the wrapper, or does nothing.\<close>

lemma ctx_steps:
  "(mj_step I)\<^sup>*\<^sup>* j (snd (ctx_sload I debug k j))"
  "(mj_step I)\<^sup>*\<^sup>* j (snd (ctx_sstore I debug k v j))"
  "(mj_step I)\<^sup>*\<^sup>* j (snd (ctx_transfer I debug a b x j))"
  "(mj_step I)\<^sup>*\<^sup>* j (snd (ctx_emit_log I l j))"
proof -
  have "snd (ctx_sload I debug k j) = snd (mj_sload I STAKING_ADDRESS k j)"
    by (simp add: ctx_sload_def split: prod.splits sum.splits)
  then show "(mj_step I)\<^sup>*\<^sup>* j (snd (ctx_sload I debug k j))"
    by (metis mj_step.Pass passes_on.Sload r_into_rtranclp)
  have "snd (ctx_sstore I debug k v j) = snd (mj_sstore I STAKING_ADDRESS k v j)"
    by (simp add: ctx_sstore_def split: prod.splits sum.splits)
  then show "(mj_step I)\<^sup>*\<^sup>* j (snd (ctx_sstore I debug k v j))"
    by (metis mj_step.Pass passes_on.Sstore r_into_rtranclp)
  have "x \<noteq> 0 \<Longrightarrow> snd (ctx_transfer I debug a b x j) = snd (mj_transfer I a b x j)"
    and "x = 0 \<Longrightarrow> snd (ctx_transfer I debug a b x j) = j"
    by (simp_all add: ctx_transfer_def split: prod.splits sum.splits option.splits)
  then show "(mj_step I)\<^sup>*\<^sup>* j (snd (ctx_transfer I debug a b x j))"
    by (metis mj_step.Transfer r_into_rtranclp rtranclp.rtrancl_refl)
  show "(mj_step I)\<^sup>*\<^sup>* j (snd (ctx_emit_log I l j))"
    by (simp add: ctx_emit_log_def mj_step.Pass passes_on.Log r_into_rtranclp)
qed

end

sublocale journal_view \<subseteq> staking_storage "host_of I V" "ctx_sload I debug" "ctx_sstore I debug"
    "ctx_transfer I debug" "ctx_emit_log I"
  using view
  by unfold_locales
    (simp_all add: view_ok_def ctx_sload_implements ctx_sstore_implements ctx_transfer_implements
      ctx_emit_log_implements)

context journal_view
begin

lemma follow_journal:
  assumes "host_steps (host_of I V j) t"
  shows "\<exists>j'. host_of I V j' = t \<and> (mj_step I)\<^sup>*\<^sup>* j j'"
  by (rule follow [OF assms]) (blast intro: ctx_steps rtranclp_trans)+

end

text \<open>A staking call, whatever it answers, changes the backend by its four operations only.\<close>

lemma staking_host_steps:
  assumes "run_staking_precompile A G shared inputs s = (r, t)"
  shows "host_steps s t"
proof -
  have reads: "host_steps s t"
    if "read_handler A sel input gas x = Some m" "m s = (q, t)" for sel input gas x m q
    using that journal.quiet_read_handler [of A sel input gas x m]
    by (auto simp: copy_eqs dest: preservesD)
  have writes: "host_steps s t"
    if "write_handler A sel input gas c x = Some m" "m s = (q, t)" for sel input gas c x m q
    using steps.host_write_handler [OF that(1)] that(2) by (rule preservesD)
  show ?thesis
    using assms
    by (auto simp: run_staking_precompile_def run_staking_write_def Let_def
        split: if_splits option.splits prod.splits dest: reads writes)
qed

lemma provider_host_steps:
  assumes "run_precompile A G shared F spec trk mp inputs s = (r, t)"
  shows "host_steps s t"
  using assms by (auto simp: run_precompile_def split: prod.splits option.splits dest: staking_host_steps)

section \<open>Properties\<close>


section \<open>Witnesses\<close>

definition plain_view :: "plain_journal storage_view" where
  "plain_view = \<lparr>sv_slot = (\<lambda>j. pj_slots j STAKING_ADDRESS),
     sv_balance = (\<lambda>j a. case pj_accounts j a of Some acc \<Rightarrow> ai_balance (acc_info acc) | None \<Rightarrow> 0),
     sv_load_fault = (\<lambda>_. None), sv_store_fault = (\<lambda>_. None),
     sv_transfer = (\<lambda>f t x b. if f = t \<or> b f < x \<or> unat (b t) + unat x \<ge> 2 ^ 256
        then TransferRefused ''refused'' else TransferOk (b(t := b t + x, f := b f - x)))\<rparr>"

lemma plain_transfer_law: "transfer_view_law plain_ops (\<lambda>e. e) plain_view"
  by (auto simp: transfer_view_law_def plain_ops_def plain_view_def inner_view_def pj_move_def
      pj_load_def pj_push_def Let_def fun_eq_iff split: option.splits if_splits)

interpretation plain: journal_view plain_ops "\<lambda>e. e" plain_view
proof unfold_locales
  show "journal_ok plain_ops" by (rule plain_ops_ok)
  show "view_ok plain_ops (\<lambda>e. e) plain_view"
    using plain_transfer_law
    by (auto simp: view_ok_def sload_view_law_def sstore_view_law_def log_view_law_def plain_ops_def
        plain_view_def inner_view_def pj_sload_def pj_sstore_def pj_push_def)
qed

text \<open>A journal with the storage of \<open>delegate_example\<close>, and a call of delegate.\<close>

definition staking_start :: "plain_journal MonadJournal" where
  "staking_start = \<lparr>mj_inner = \<lparr>pj_accounts = [7 \<mapsto> wit_account 500, 5 \<mapsto> wit_account 1000],
     pj_slots = (\<lambda>_. store delegate_example), pj_logs = [], pj_entries = []\<rparr>,
     mj_tracker = init_tracker wit_init tracker_default\<rparr>"

lemma staking_start_run: "tx_run plain_ops wit_init staking_start"
proof -
  let ?j = "staking_start\<lparr>mj_tracker := tracker_default\<rparr>"
  have "at_start wit_init (mj_state plain_ops ?j)"
    by (auto simp: at_start_def staking_start_def mj_state_def plain_ops_def wit_defs)
  then have "tx_run plain_ops wit_init (?j\<lparr>mj_tracker := init_tracker wit_init (mj_tracker ?j)\<rparr>)"
    by (rule tx_run.Start)
  then show ?thesis by (simp add: staking_start_def)
qed


end
