(* ===== verification/Memory.thy ===== *)
theory Memory
  imports Dispatch
begin

text \<open>
  The linear memory cost model of MIP-3 (\<open>memory/mod.rs\<close>): an expansion to n words costs
  n / 2 in total, and the memory grows in whole words.

  revm's Gas, MemoryGas and SharedMemory are parameters, collected in the record \<open>vm\<close>; their
  documented behaviour is \<open>vm_ok\<close>. The feature memory_limit is on, as it is by default. The
  word size of the machine is 64 bits.
\<close>

section \<open>Parameters\<close>

type_synonym usize = "64 word"

record mem_gas =
  words_num :: usize
  expansion_cost :: u64

text \<open>SharedMemory: the bytes of the current frame, and its operations. An operation that reads
  or writes behind the end panics, which is None here.\<close>

record 'm memory_ops =
  mo_bytes :: "'m \<Rightarrow> bytes"
  mo_limit_reached :: "usize \<Rightarrow> usize \<Rightarrow> 'm \<Rightarrow> bool"
  mo_resize :: "usize \<Rightarrow> 'm \<Rightarrow> 'm"
  mo_slice_len :: "usize \<Rightarrow> usize \<Rightarrow> 'm \<Rightarrow> bytes option"
  mo_set :: "usize \<Rightarrow> bytes \<Rightarrow> 'm \<Rightarrow> 'm option"
  mo_copy :: "usize \<Rightarrow> usize \<Rightarrow> usize \<Rightarrow> 'm \<Rightarrow> 'm option"
  mo_set_data :: "usize \<Rightarrow> usize \<Rightarrow> usize \<Rightarrow> bytes \<Rightarrow> 'm \<Rightarrow> 'm option"
  mo_set_data_from_global :: "usize \<Rightarrow> usize \<Rightarrow> usize \<Rightarrow> nat \<times> nat \<Rightarrow> 'm \<Rightarrow> 'm option"
  mo_local_memory_offset :: "'m \<Rightarrow> usize"

record 'm vm =
  vm_meter :: gas_meter
  vm_set_words_num :: "usize \<Rightarrow> u64 \<Rightarrow> mem_gas \<Rightarrow> u64 option \<times> mem_gas"
  vm_num_words :: "usize \<Rightarrow> usize"
  vm_mem :: "'m memory_ops"

text \<open>\<open>write_at i bs xs\<close> overwrites \<open>xs\<close> with \<open>bs\<close> from position \<open>i\<close>.\<close>

definition write_at :: "nat \<Rightarrow> bytes \<Rightarrow> bytes \<Rightarrow> bytes" where
  "write_at i bs xs = take i xs @ bs @ drop (i + length bs) xs"

text \<open>The data a copy opcode writes: from the offset on, with zeros behind the end.\<close>

definition padded :: "nat \<Rightarrow> nat \<Rightarrow> bytes \<Rightarrow> bytes" where
  "padded i n bs = take n (drop i bs @ replicate n 0)"

text \<open>The frame's place in the shared buffer, and with it the limit, do not move.\<close>

definition same_place :: "'m memory_ops \<Rightarrow> 'm \<Rightarrow> 'm \<Rightarrow> bool" where
  "same_place M m m' \<longleftrightarrow> mo_local_memory_offset M m' = mo_local_memory_offset M m \<and>
     (\<forall>i n. mo_limit_reached M i n m' = mo_limit_reached M i n m)"

text \<open>The outcome of an operation that writes \<open>bs\<close> at \<open>i\<close>.\<close>

definition writes_at :: "'m memory_ops \<Rightarrow> usize \<Rightarrow> bytes \<Rightarrow> 'm \<Rightarrow> 'm option \<Rightarrow> bool" where
  "writes_at M i bs m r \<longleftrightarrow> (\<exists>m'. r = Some m' \<and> same_place M m m'
     \<and> mo_bytes M m' = write_at (unat i) bs (mo_bytes M m))"

definition memory_ok :: "'m memory_ops \<Rightarrow> bool" where
  "memory_ok M \<longleftrightarrow>
     (\<forall>n m. mo_bytes M (mo_resize M n m)
        = take (unat n) (mo_bytes M m) @ replicate (unat n - length (mo_bytes M m)) 0
        \<and> same_place M m (mo_resize M n m)) \<and>
     (\<forall>i n m. unat i + unat n \<le> length (mo_bytes M m) \<longrightarrow>
        mo_slice_len M i n m = Some (take (unat n) (drop (unat i) (mo_bytes M m)))) \<and>
     (\<forall>i bs m. unat i + length bs \<le> length (mo_bytes M m) \<longrightarrow>
        writes_at M i bs m (mo_set M i bs m)) \<and>
     (\<forall>d s n m. unat d + unat n \<le> length (mo_bytes M m) \<longrightarrow> unat s + unat n \<le> length (mo_bytes M m) \<longrightarrow>
        writes_at M d (take (unat n) (drop (unat s) (mo_bytes M m))) m (mo_copy M d s n m)) \<and>
     (\<forall>i d n bs m. unat i + unat n \<le> length (mo_bytes M m) \<longrightarrow>
        writes_at M i (padded (unat d) (unat n) bs) m (mo_set_data M i d n bs m)) \<and>
     (\<forall>i d n r m. unat i + unat n \<le> length (mo_bytes M m) \<longrightarrow>
        (\<exists>bs. length bs = unat n \<and> writes_at M i bs m (mo_set_data_from_global M i d n r m)))"

text \<open>\<open>set_words_num\<close> stores both numbers and returns by how much the cost grew.\<close>

definition vm_ok :: "'m vm \<Rightarrow> bool" where
  "vm_ok V \<longleftrightarrow> meter_ok (vm_meter V) \<and> memory_ok (vm_mem V) \<and>
     (\<forall>n c g. vm_set_words_num V n c g
        = (checked_sub c (expansion_cost g), \<lparr>words_num = n, expansion_cost = c\<rparr>)) \<and>
     (\<forall>n. unat (vm_num_words V n) = (unat n + 31) div 32)"

section \<open>Model\<close>

record interp_gas =
  ig_limit :: u64
  ig_remaining :: u64
  ig_memory :: mem_gas

record 'm machine =
  mc_gas :: interp_gas
  mc_memory :: 'm

datatype halt_reason =
    MemoryLimitOOG | MemoryOOG | OutOfGasHalt | InvalidOperandOOG | StackUnderflow | OutOfOffset
  | NotActivated | StateChangeDuringStaticCall | CallNotAllowedInsideStatic
  | CreateInitCodeSizeLimit | FatalExternalError

text \<open>How an instruction can stop: the interpreter halts, the code panics, or it does what Rust
  leaves undefined.\<close>

datatype exit = Halted halt_reason | Panicked | UndefinedBehaviour

type_synonym ('m, 'z, 'a) op = "(exit, ('m, 'z) machine_scheme, 'a) fallible"

definition monad_memory_cost :: "usize \<Rightarrow> u64" where
  "monad_memory_cost num_words = drop_bit 1 num_words"

definition monad_resize_memory_cold :: "'m vm \<Rightarrow> usize \<Rightarrow> ('m, 'z, unit) op" where
  "monad_resize_memory_cold V new_num_words = (\<lambda>s.
     let total_cost = monad_memory_cost new_num_words;
         gas = mc_gas s;
         (d, mg) = vm_set_words_num V new_num_words total_cost (ig_memory gas);
         gas = gas\<lparr>ig_memory := mg\<rparr>
     in case d of
        None \<Rightarrow> (Inl UndefinedBehaviour, s\<lparr>mc_gas := gas\<rparr>)
      | Some delta \<Rightarrow>
          (case vm_meter V (ig_remaining gas) delta of
             (recorded, remaining) \<Rightarrow>
               let s = s\<lparr>mc_gas := gas\<lparr>ig_remaining := remaining\<rparr>\<rparr> in
               if \<not> recorded then (Inl (Halted MemoryOOG), s)
               else (Inr (), s\<lparr>mc_memory := mo_resize (vm_mem V) (new_num_words * 32) (mc_memory s)\<rparr>)))"

definition monad_resize_memory :: "'m vm \<Rightarrow> usize \<Rightarrow> usize \<Rightarrow> ('m, 'z, unit) op" where
  "monad_resize_memory V offset len = (\<lambda>s.
     if mo_limit_reached (vm_mem V) offset len (mc_memory s)
     then (Inl (Halted MemoryLimitOOG), s)
     else let new_num_words = vm_num_words V (saturating_add offset len) in
       if words_num (ig_memory (mc_gas s)) < new_num_words
       then monad_resize_memory_cold V new_num_words s
       else (Inr (), s))"

section \<open>The cost\<close>

lemma unat_memory_cost: "unat (monad_memory_cost n) = unat n div 2"
  by (simp add: monad_memory_cost_def unat_drop_bit_eq drop_bit_eq_div unat_div)

section \<open>Well-formed machines\<close>

text \<open>The memory is whole words, the recorded words and cost are its own, and the gas left, with
  the cost already paid, is below \<open>2 ^ 58\<close>: a transaction has at most 30 million. The last
  keeps every size below the range of the machine word, since every two words cost one gas.\<close>

abbreviation mem_words :: "('m, 'z) machine_scheme \<Rightarrow> nat" where
  "mem_words s \<equiv> unat (words_num (ig_memory (mc_gas s)))"

abbreviation mem_bytes :: "'m vm \<Rightarrow> ('m, 'z) machine_scheme \<Rightarrow> bytes" where
  "mem_bytes V s \<equiv> mo_bytes (vm_mem V) (mc_memory s)"

abbreviation gas_left :: "('m, 'z) machine_scheme \<Rightarrow> nat" where
  "gas_left s \<equiv> unat (ig_remaining (mc_gas s))"

definition machine_wf :: "'m vm \<Rightarrow> ('m, 'z) machine_scheme \<Rightarrow> bool" where
  "machine_wf V s \<longleftrightarrow>
     expansion_cost (ig_memory (mc_gas s)) = monad_memory_cost (words_num (ig_memory (mc_gas s)))
     \<and> length (mem_bytes V s) = 32 * mem_words s
     \<and> gas_left s + mem_words s div 2 < 2 ^ 58"

text \<open>The words a piece of memory needs.\<close>

definition words_needed :: "usize \<Rightarrow> usize \<Rightarrow> nat" where
  "words_needed offset len = (min (unat offset + unat len) (2 ^ 64 - 1) + 31) div 32"

lemma words_needed_cover:
  assumes "words_needed offset len < 2 ^ 59"
  shows "unat offset + unat len \<le> 32 * words_needed offset len"
proof -
  have "unat offset + unat len < 2 ^ 64"
  proof (rule ccontr)
    assume "\<not> unat offset + unat len < 2 ^ 64"
    then have "words_needed offset len = 2 ^ 59" by (simp add: words_needed_def min_def)
    with assms show False by simp
  qed
  then have m: "words_needed offset len = (unat offset + unat len + 31) div 32"
    by (simp add: words_needed_def min_def)
  show ?thesis unfolding m
    using div_mult_mod_eq [of "unat offset + unat len + 31" 32]
      mod_less_divisor [of 32 "unat offset + unat len + 31"]
    by linarith
qed

lemma unat_num_words:
  "vm_ok V \<Longrightarrow> unat (vm_num_words V (saturating_add offset len)) = words_needed offset len"
  by (simp add: vm_ok_def unat_saturating_add words_needed_def)

lemma words_needed_bound: "words_needed offset len \<le> 2 ^ 59"
  by (simp add: words_needed_def)

section \<open>Resizing\<close>

text \<open>The machine after paying for and growing to \<open>n\<close> words.\<close>

definition grown :: "'m vm \<Rightarrow> usize \<Rightarrow> ('m, 'z) machine_scheme \<Rightarrow> ('m, 'z) machine_scheme" where
  "grown V n s = s\<lparr>
     mc_gas := (mc_gas s)\<lparr>
       ig_remaining := ig_remaining (mc_gas s)
         - (monad_memory_cost n - monad_memory_cost (words_num (ig_memory (mc_gas s)))),
       ig_memory := \<lparr>words_num = n, expansion_cost = monad_memory_cost n\<rparr>\<rparr>,
     mc_memory := mo_resize (vm_mem V) (n * 32) (mc_memory s)\<rparr>"

lemma cost_mono:
  assumes "words_num g < n"
  shows "monad_memory_cost (words_num g) \<le> monad_memory_cost n"
    and "unat (monad_memory_cost n - monad_memory_cost (words_num g)) = unat n div 2 - unat (words_num g) div 2"
proof -
  show le: "monad_memory_cost (words_num g) \<le> monad_memory_cost n"
    using assms by (simp add: word_le_nat_alt word_less_nat_alt unat_memory_cost div_le_mono)
  show "unat (monad_memory_cost n - monad_memory_cost (words_num g)) = unat n div 2 - unat (words_num g) div 2"
    using le by (simp add: unat_minus_le unat_memory_cost)
qed

text \<open>The two comments of the cold path: the cost never shrinks, so the unchecked unwrap is
  defined, and growing fails only for lack of gas.\<close>

lemma resize_cold:
  assumes V: "vm_ok V" and s: "machine_wf V s" and n: "words_num (ig_memory (mc_gas s)) < n"
  shows "fst (monad_resize_memory_cold V n s) =
      (if unat n div 2 - mem_words s div 2 \<le> gas_left s then Inr () else Inl (Halted MemoryOOG))"
    and "unat n div 2 - mem_words s div 2 \<le> gas_left s \<Longrightarrow>
      monad_resize_memory_cold V n s = (Inr (), grown V n s)"
proof -
  let ?g = "ig_memory (mc_gas s)"
  have e: "expansion_cost ?g = monad_memory_cost (words_num ?g)" using s by (simp add: machine_wf_def)
  have set: "vm_set_words_num V n (monad_memory_cost n) ?g
      = (Some (monad_memory_cost n - monad_memory_cost (words_num ?g)),
         \<lparr>words_num = n, expansion_cost = monad_memory_cost n\<rparr>)"
    using V cost_mono(1) [OF n] by (simp add: vm_ok_def checked_sub_def e)
  have meter: "vm_meter V r c = (if c \<le> r then (True, r - c) else (False, r))" for r c
    using V by (simp add: vm_ok_def meter_ok_def)
  have le: "monad_memory_cost n - monad_memory_cost (words_num ?g) \<le> ig_remaining (mc_gas s)
      \<longleftrightarrow> unat n div 2 - mem_words s div 2 \<le> gas_left s"
    using cost_mono(2) [OF n] by (simp add: word_le_nat_alt)
  show "fst (monad_resize_memory_cold V n s) =
      (if unat n div 2 - mem_words s div 2 \<le> gas_left s then Inr () else Inl (Halted MemoryOOG))"
    by (simp add: monad_resize_memory_cold_def Let_def set meter le)
  show "monad_resize_memory_cold V n s = (Inr (), grown V n s)"
    if "unat n div 2 - mem_words s div 2 \<le> gas_left s"
    using that by (simp add: monad_resize_memory_cold_def Let_def set meter le grown_def)
qed

lemma paid_sum: "(h :: nat) \<le> k \<Longrightarrow> k - h \<le> g \<Longrightarrow> g - (k - h) + k = g + h"
  by simp

lemma grown_wf:
  assumes V: "vm_ok V" and s: "machine_wf V s" and n: "words_num (ig_memory (mc_gas s)) < n"
    and pay: "unat n div 2 - mem_words s div 2 \<le> gas_left s"
  shows "machine_wf V (grown V n s)" and "mem_words (grown V n s) = unat n"
    and "gas_left (grown V n s) + unat n div 2 = gas_left s + mem_words s div 2"
    and "mem_bytes V (grown V n s) = mem_bytes V s @ replicate (32 * (unat n - mem_words s)) 0"
proof -
  have lt: "mem_words s < unat n" using n by (simp add: word_less_nat_alt)
  then have half: "mem_words s div 2 \<le> unat n div 2" by (simp add: div_le_mono)
  have paid: "gas_left s + mem_words s div 2 < 2 ^ 58" and len: "length (mem_bytes V s) = 32 * mem_words s"
    using s by (simp_all add: machine_wf_def)
  have cost: "unat (monad_memory_cost n - monad_memory_cost (words_num (ig_memory (mc_gas s))))
      = unat n div 2 - mem_words s div 2"
    by (rule cost_mono(2) [OF n])
  have left: "gas_left (grown V n s) = gas_left s - (unat n div 2 - mem_words s div 2)"
    using pay cost by (simp add: grown_def unat_minus_le word_le_nat_alt)
  show sum: "gas_left (grown V n s) + unat n div 2 = gas_left s + mem_words s div 2"
    unfolding left by (rule paid_sum [OF half pay])
  show words: "mem_words (grown V n s) = unat n" by (simp add: grown_def)
  have "unat n div 2 < 2 ^ 58" using sum paid by (metis add_leD2 le_less_trans order_refl)
  then have "unat n * 32 < 2 ^ 64" by simp
  then have n32: "unat (n * 32) = 32 * unat n" by (simp add: unat_times_lt)
  have "mem_bytes V (grown V n s) = take (unat (n * 32)) (mem_bytes V s)
      @ replicate (unat (n * 32) - length (mem_bytes V s)) 0"
    using V by (simp add: vm_ok_def memory_ok_def grown_def)
  then show bytes: "mem_bytes V (grown V n s) = mem_bytes V s @ replicate (32 * (unat n - mem_words s)) 0"
    using lt by (simp add: n32 len right_diff_distrib')
  have "length (mem_bytes V (grown V n s)) = 32 * unat n"
    using lt by (simp add: bytes len right_diff_distrib')
  then show "machine_wf V (grown V n s)"
    using sum paid words by (simp add: machine_wf_def) (simp add: grown_def)
qed

text \<open>Everything a caller needs to know about a resize: it never does anything undefined, it
  halts only for the limit or for lack of gas, and otherwise the memory covers the piece asked
  for, is what it was followed by zeros, and the gas left plus half the words is the same as
  before.\<close>

definition resized :: "'m vm \<Rightarrow> usize \<Rightarrow> usize \<Rightarrow> ('m, 'z) machine_scheme \<Rightarrow> ('m, 'z) machine_scheme \<Rightarrow> bool" where
  "resized V offset len s t \<longleftrightarrow>
     machine_wf V t \<and> t = s\<lparr>mc_gas := mc_gas t, mc_memory := mc_memory t\<rparr>
     \<and> ig_limit (mc_gas t) = ig_limit (mc_gas s)
     \<and> mem_words t = max (mem_words s) (words_needed offset len)
     \<and> unat offset + unat len \<le> length (mem_bytes V t)
     \<and> mem_bytes V t = mem_bytes V s @ replicate (32 * (mem_words t - mem_words s)) 0
     \<and> gas_left t + mem_words t div 2 = gas_left s + mem_words s div 2
     \<and> same_place (vm_mem V) (mc_memory s) (mc_memory t)"

lemma wf_words_bound:
  assumes "machine_wf V s"
  shows "mem_words s < 2 ^ 59"
proof -
  have "mem_words s div 2 < 2 ^ 58" using assms by (simp add: machine_wf_def)
  then show ?thesis by simp
qed

text \<open>The cold path: too little gas, or the memory grows.\<close>

lemma resize_grows:
  assumes V: "vm_ok V" and s: "machine_wf V s"
    and n_def: "n = vm_num_words V (saturating_add offset len)" and less: "words_num (ig_memory (mc_gas s)) < n"
  shows "if gas_left s < unat n div 2 - mem_words s div 2
    then gas_left s + mem_words s div 2 < words_needed offset len div 2
      \<and> fst (monad_resize_memory_cold V n s) = Inl (Halted MemoryOOG)
    else monad_resize_memory_cold V n s = (Inr (), grown V n s)
      \<and> resized V offset len s (grown V n s)"
proof -
  have n: "unat n = words_needed offset len" unfolding n_def by (rule unat_num_words [OF V])
  have lt: "mem_words s < words_needed offset len" using less by (simp add: word_less_nat_alt n)
  show ?thesis
  proof (cases "unat n div 2 - mem_words s div 2 \<le> gas_left s")
    case pay: True
    note g = grown_wf [OF V s less pay]
    have len: "length (mem_bytes V s) = 32 * mem_words s" using s by (simp add: machine_wf_def)
    have "words_needed offset len < 2 ^ 59" using wf_words_bound [OF g(1)] g(2) n by simp
    then have "unat offset + unat len \<le> 32 * words_needed offset len" by (rule words_needed_cover)
    moreover have "same_place (vm_mem V) (mc_memory s) (mc_memory (grown V n s))"
      using V by (simp add: vm_ok_def memory_ok_def grown_def)
    ultimately have "resized V offset len s (grown V n s)"
      using g lt len by (simp add: resized_def n max_def right_diff_distrib') (simp add: grown_def)
    with resize_cold(2) [OF V s less pay] pay show ?thesis by simp
  next
    case False
    have "mem_words s div 2 \<le> words_needed offset len div 2" using lt by (simp add: div_le_mono)
    with False resize_cold(1) [OF V s less] show ?thesis by (simp add: n)
  qed
qed

lemma resize_cases:
  assumes V: "vm_ok V" and s: "machine_wf V s"
  obtains
    (limit) "mo_limit_reached (vm_mem V) offset len (mc_memory s)"
      "monad_resize_memory V offset len s = (Inl (Halted MemoryLimitOOG), s)"
  | (gas) t where "gas_left s + mem_words s div 2 < words_needed offset len div 2"
      "monad_resize_memory V offset len s = (Inl (Halted MemoryOOG), t)"
  | (ok) t where "monad_resize_memory V offset len s = (Inr (), t)" "resized V offset len s t"
proof (cases "mo_limit_reached (vm_mem V) offset len (mc_memory s)")
  case True
  then show thesis by (intro limit) (simp_all add: monad_resize_memory_def)
next
  case False
  let ?n = "vm_num_words V (saturating_add offset len)"
  have n: "unat ?n = words_needed offset len" by (rule unat_num_words [OF V])
  have len: "length (mem_bytes V s) = 32 * mem_words s" using s by (simp add: machine_wf_def)
  show thesis
  proof (cases "words_num (ig_memory (mc_gas s)) < ?n")
    case less: True
    have run: "monad_resize_memory V offset len s = monad_resize_memory_cold V ?n s"
      using False less by (simp add: monad_resize_memory_def Let_def)
    show thesis
    proof (cases "gas_left s < unat ?n div 2 - mem_words s div 2")
      case True
      then show thesis
        using resize_grows [OF V s refl less] run
        by (intro gas [of "snd (monad_resize_memory V offset len s)"]) (auto simp: prod_eq_iff)
    next
      case False
      then show thesis using resize_grows [OF V s refl less] run by (intro ok) auto
    qed
  next
    case no: False
    then have le: "words_needed offset len \<le> mem_words s" by (simp add: word_less_nat_alt n)
    then have "words_needed offset len < 2 ^ 59" using wf_words_bound [OF s] by simp
    then have "unat offset + unat len \<le> 32 * words_needed offset len" by (rule words_needed_cover)
    then have "resized V offset len s s" using le s len by (simp add: resized_def max_def same_place_def)
    moreover have "monad_resize_memory V offset len s = (Inr (), s)"
      using False no by (simp add: monad_resize_memory_def Let_def)
    ultimately show thesis by (intro ok)
  qed
qed

section \<open>Properties\<close>

text \<open>C19: Expanding the memory of a well-formed machine never does anything undefined. It halts
  with MemoryLimitOOG exactly at the limit, with MemoryOOG only when the gas left and the gas
  already paid do not reach half the words needed, and otherwise the memory covers the piece, is
  the old memory followed by zeros, and the gas left plus half the words stays the same: however
  the memory grew, it has cost half its words.\<close>

theorem memory_expansion:
  assumes "vm_ok V" and "machine_wf V s" and "monad_resize_memory V offset len s = (r, t)"
  shows "r \<in> {Inr (), Inl (Halted MemoryLimitOOG), Inl (Halted MemoryOOG)}
    \<and> (r = Inl (Halted MemoryLimitOOG) \<longleftrightarrow> mo_limit_reached (vm_mem V) offset len (mc_memory s))
    \<and> (if r = Inr () then resized V offset len s t
       else r = Inl (Halted MemoryOOG) \<longrightarrow>
         gas_left s + mem_words s div 2 < words_needed offset len div 2)"
proof -
  have l: "mo_limit_reached (vm_mem V) offset len (mc_memory s) \<Longrightarrow> r = Inl (Halted MemoryLimitOOG)"
    using assms(3) by (auto simp: monad_resize_memory_def)
  have l': "r = Inl (Halted MemoryLimitOOG) \<Longrightarrow> mo_limit_reached (vm_mem V) offset len (mc_memory s)"
    using assms(3) by (auto simp: monad_resize_memory_def monad_resize_memory_cold_def Let_def
        split: if_splits prod.splits option.splits)
  show ?thesis
    by (rule resize_cases [OF assms(1,2), of offset len]) (use assms(3) l l' in auto)
qed

section \<open>A concrete machine for the witnesses\<close>

definition list_memory :: "bytes memory_ops" where
  "list_memory = \<lparr>mo_bytes = (\<lambda>m. m), mo_limit_reached = (\<lambda>offset len m. 0x800000 < unat offset + unat len),
     mo_resize = (\<lambda>n m. take (unat n) m @ replicate (unat n - length m) 0),
     mo_slice_len = (\<lambda>i n m. if unat i + unat n \<le> length m
        then Some (take (unat n) (drop (unat i) m)) else None),
     mo_set = (\<lambda>i bs m. if unat i + length bs \<le> length m then Some (write_at (unat i) bs m) else None),
     mo_copy = (\<lambda>d s n m. if unat d + unat n \<le> length m \<and> unat s + unat n \<le> length m
        then Some (write_at (unat d) (take (unat n) (drop (unat s) m)) m) else None),
     mo_set_data = (\<lambda>i d n bs m. if unat i + unat n \<le> length m
        then Some (write_at (unat i) (padded (unat d) (unat n) bs) m) else None),
     mo_set_data_from_global = (\<lambda>i d n r m. if unat i + unat n \<le> length m
        then Some (write_at (unat i) (replicate (unat n) 0) m) else None),
     mo_local_memory_offset = (\<lambda>m. 0)\<rparr>"

definition list_vm :: "bytes vm" where
  "list_vm = \<lparr>vm_meter = plain_meter,
     vm_set_words_num = (\<lambda>n c g. (checked_sub c (expansion_cost g), \<lparr>words_num = n, expansion_cost = c\<rparr>)),
     vm_num_words = (\<lambda>n. of_nat ((unat n + 31) div 32)), vm_mem = list_memory\<rparr>"

lemma list_memory_ok: "memory_ok list_memory"
  unfolding memory_ok_def
  by (intro conjI allI impI exI [of _ "replicate n 0" for n])
    (auto simp: list_memory_def same_place_def writes_at_def)

lemma list_vm_ok: "vm_ok list_vm"
proof -
  have "unat (of_nat ((unat n + 31) div 32) :: usize) = (unat n + 31) div 32" for n :: usize
    using unat_lt2p [of n] by (intro unat_of_nat_u64) simp
  then show ?thesis
    by (simp add: vm_ok_def list_vm_def list_memory_ok meter_ok_def plain_meter_def)
qed

definition empty_machine :: "bytes machine" where
  "empty_machine = \<lparr>mc_gas = \<lparr>ig_limit = 100, ig_remaining = 100,
     ig_memory = \<lparr>words_num = 0, expansion_cost = 0\<rparr>\<rparr>, mc_memory = []\<rparr>"

theorem memory_expansion_witness:
  "\<exists>t. monad_resize_memory list_vm 64 32 empty_machine = (Inr (), t)
     \<and> length (mem_bytes list_vm t) = 96 \<and> gas_left t = 99"
proof -
  have wf: "machine_wf list_vm empty_machine"
    by (simp add: machine_wf_def empty_machine_def list_vm_def list_memory_def monad_memory_cost_def)
  have n: "words_needed 64 32 = 3" by (simp add: words_needed_def)
  obtain r t where run: "monad_resize_memory list_vm 64 32 empty_machine = (r, t)" by fastforce
  from memory_expansion [OF list_vm_ok wf run]
  have "r = Inr ()" and "resized list_vm 64 32 empty_machine t"
    by (auto simp: n list_vm_def list_memory_def empty_machine_def split: if_splits)
  with run show ?thesis
    by (auto simp: resized_def n empty_machine_def machine_wf_def)
qed

end
