(* ===== verification/Interp.thy ===== *)
theory Interp
  imports Memory Reserve
begin

text \<open>
  The interpreter as the opcode handlers of \<open>memory/opcodes.rs\<close> see it: its state, the
  primitives that revm's macros expand to (\<open>popn!\<close>, \<open>popn_top!\<close>, \<open>gas!\<close>, \<open>check!\<close>,
  \<open>as_usize_or_fail!\<close> and the others) and a weakest-precondition calculus for handlers.

  The stack, the gas parameters, the hash function and the host belong to revm. They are
  parameters, collected in the record \<open>inst_env\<close>; what the handlers rely on is \<open>env_ok\<close>.
\<close>

section \<open>Parameters\<close>

text \<open>Ethereum's hardforks, as far as the handlers ask for them.\<close>

datatype eth_fork = HOMESTEAD | TANGERINE | BYZANTIUM | PETERSBURG | BERLIN | SHANGHAI | CANCUN

text \<open>StackTr: \<open>sk_items\<close> is the stack as a list, the top first. \<open>sk_popn n\<close> is \<open>popn::<n>\<close>
  and \<open>sk_popn_top n\<close> is \<open>popn_top::<n>\<close>, whose last component is the value behind the
  reference to the new top; \<open>sk_set_top\<close> assigns through that reference.\<close>

record 'k stack_ops =
  sk_items :: "'k \<Rightarrow> u256 list"
  sk_popn :: "nat \<Rightarrow> 'k \<Rightarrow> (u256 list \<times> 'k) option"
  sk_popn_top :: "nat \<Rightarrow> 'k \<Rightarrow> ((u256 list \<times> u256) \<times> 'k) option"
  sk_set_top :: "u256 \<Rightarrow> 'k \<Rightarrow> 'k"

definition stack_ok :: "'k stack_ops \<Rightarrow> bool" where
  "stack_ok K \<longleftrightarrow>
     (\<forall>n k. if length (sk_items K k) < n then sk_popn K n k = None
        else \<exists>k'. sk_popn K n k = Some (take n (sk_items K k), k') \<and> sk_items K k' = drop n (sk_items K k)) \<and>
     (\<forall>n k. if length (sk_items K k) \<le> n then sk_popn_top K n k = None
        else \<exists>k'. sk_popn_top K n k = Some ((take n (sk_items K k), sk_items K k ! n), k')
               \<and> sk_items K k' = drop n (sk_items K k)) \<and>
     (\<forall>v k. sk_items K k \<noteq> [] \<longrightarrow> sk_items K (sk_set_top K v k) = v # tl (sk_items K k))"

datatype call_value = Transfer u256 | Apparent u256

record new_call =
  nc_input :: "usize \<times> usize"
  nc_gas_limit :: u64
  nc_target_address :: address
  nc_caller :: address
  nc_bytecode_address :: address
  nc_known_bytecode :: "bytes \<times> bytes"
  nc_value :: call_value
  nc_scheme :: call_scheme
  nc_is_static :: bool
  nc_return_memory_offset :: "usize \<times> usize"

datatype create_scheme = Create | Create2 u256

record new_create =
  cr_caller :: address
  cr_scheme :: create_scheme
  cr_value :: u256
  cr_init_code :: bytes
  cr_gas_limit :: u64

text \<open>The actions a handler leaves for the frame loop. The gas of a return is the interpreter's.\<close>

datatype interp_action =
    ActionReturn instruction_result bytes interp_gas
  | ActionCall new_call
  | ActionCreate new_create

record evm_log =
  el_address :: address
  el_topics :: "u256 list"
  el_data :: bytes

text \<open>The state: gas and memory, then the stack, the return data, the input of the frame, the
  bytecode, the pending action, and the host.\<close>

record ('m, 'k, 'h) interp = "'m machine" +
  in_stack :: 'k
  in_return_data :: bytes
  in_input :: call_input
  in_code :: bytes
  in_target_address :: address
  in_caller :: address
  in_call_value :: u256
  in_is_static :: bool
  in_action :: "interp_action option"
  in_host :: 'h

type_synonym ('m, 'k, 'h, 'a) iop = "(exit, ('m, 'k, 'h) interp, 'a) fallible"

record ('m, 'k, 'h) inst_env =
  ie_vm :: "'m vm"
  ie_stack :: "'k stack_ops"
  ie_enabled :: "eth_fork \<Rightarrow> bool"
  ie_copy_cost :: "usize \<Rightarrow> u64"
  ie_mcopy_cost :: "usize \<Rightarrow> u64"
  ie_keccak256_cost :: "usize \<Rightarrow> u64"
  ie_extcodecopy_cost :: "usize \<Rightarrow> u64"
  ie_log_cost :: "u8 \<Rightarrow> u64 \<Rightarrow> u64"
  ie_initcode_cost :: "usize \<Rightarrow> u64"
  ie_create2_cost :: "usize \<Rightarrow> u64"
  ie_create_cost :: u64
  ie_call_stipend_reduction :: "u64 \<Rightarrow> u64"
  ie_max_initcode_size :: usize
  ie_keccak256 :: "bytes \<Rightarrow> bytes"
  ie_load_acc_and_calc_gas :: "address \<Rightarrow> bool \<Rightarrow> bool \<Rightarrow> u64 \<Rightarrow> ('m, 'k, 'h, u64 \<times> bytes \<times> bytes) iop"
  ie_berlin_load_account :: "address \<Rightarrow> bool \<Rightarrow> ('m, 'k, 'h, bytes option) iop"
  ie_load_account_code :: "address \<Rightarrow> 'h \<Rightarrow> bytes option \<times> 'h"
  ie_log :: "evm_log \<Rightarrow> 'h \<Rightarrow> 'h"

text \<open>What revm's own account loading may do to the interpreter: spend gas and use the host.\<close>

definition spends :: "('m, 'k, 'h) interp \<Rightarrow> ('m, 'k, 'h) interp \<Rightarrow> bool" where
  "spends s t \<longleftrightarrow> (\<exists>g h. unat g \<le> gas_left s \<and>
     t = s\<lparr>mc_gas := (mc_gas s)\<lparr>ig_remaining := g\<rparr>, in_host := h\<rparr>)"

definition halts_or :: "('a \<Rightarrow> ('m, 'k, 'h) interp \<Rightarrow> bool) \<Rightarrow> (exit + 'a) \<times> ('m, 'k, 'h) interp \<Rightarrow> bool" where
  "halts_or Q = (\<lambda>(r, t). case r of Inr x \<Rightarrow> Q x t | Inl (Halted h) \<Rightarrow> True | Inl _ \<Rightarrow> False)"

text \<open>The documented behaviour: the memory and the stack work, loading an account halts or only
  spends gas, and an account loaded with its code has it.\<close>

definition env_ok :: "('m, 'k, 'h) inst_env \<Rightarrow> bool" where
  "env_ok E \<longleftrightarrow> vm_ok (ie_vm E) \<and> stack_ok (ie_stack E) \<and>
     (\<forall>a b c g s. halts_or (\<lambda>_. spends s) (ie_load_acc_and_calc_gas E a b c g s)) \<and>
     (\<forall>a l s. halts_or (\<lambda>code t. spends s t \<and> (l \<longrightarrow> code \<noteq> None)) (ie_berlin_load_account E a l s))"

abbreviation stack_items :: "('m, 'k, 'h) inst_env \<Rightarrow> ('m, 'k, 'h) interp \<Rightarrow> u256 list" where
  "stack_items E s \<equiv> sk_items (ie_stack E) (in_stack s)"

section \<open>Primitives\<close>

definition halt :: "halt_reason \<Rightarrow> (exit, 's, 'a) fallible" where
  "halt r = throw (Halted r)"

definition panic :: "(exit, 's, 'a) fallible" where
  "panic = throw Panicked"

text \<open>Reading the state without changing it.\<close>

definition reads :: "('s \<Rightarrow> 'a) \<Rightarrow> ('e, 's, 'a) fallible" where
  "reads f = (\<lambda>s. (Inr (f s), s))"

text \<open>A panicking operation of the memory.\<close>

definition mem_read :: "('m \<Rightarrow> bytes option) \<Rightarrow> ('m, 'k, 'h, bytes) iop" where
  "mem_read f = (\<lambda>s. case f (mc_memory s) of None \<Rightarrow> (Inl Panicked, s) | Some bs \<Rightarrow> (Inr bs, s))"

definition mem_write :: "('m \<Rightarrow> 'm option) \<Rightarrow> ('m, 'k, 'h, unit) iop" where
  "mem_write f = (\<lambda>s. case f (mc_memory s) of None \<Rightarrow> (Inl Panicked, s)
     | Some m \<Rightarrow> (Inr (), s\<lparr>mc_memory := m\<rparr>))"

definition popn :: "('m, 'k, 'h) inst_env \<Rightarrow> nat \<Rightarrow> ('m, 'k, 'h, u256 list) iop" where
  "popn E n = (\<lambda>s. case sk_popn (ie_stack E) n (in_stack s) of
       None \<Rightarrow> (Inl (Halted StackUnderflow), s)
     | Some (xs, k) \<Rightarrow> (Inr xs, s\<lparr>in_stack := k\<rparr>))"

definition popn_top :: "('m, 'k, 'h) inst_env \<Rightarrow> nat \<Rightarrow> ('m, 'k, 'h, u256 list \<times> u256) iop" where
  "popn_top E n = (\<lambda>s. case sk_popn_top (ie_stack E) n (in_stack s) of
       None \<Rightarrow> (Inl (Halted StackUnderflow), s)
     | Some (xs, k) \<Rightarrow> (Inr xs, s\<lparr>in_stack := k\<rparr>))"

definition set_top :: "('m, 'k, 'h) inst_env \<Rightarrow> u256 \<Rightarrow> ('m, 'k, 'h, unit) iop" where
  "set_top E v = (\<lambda>s. (Inr (), s\<lparr>in_stack := sk_set_top (ie_stack E) v (in_stack s)\<rparr>))"

definition use_gas :: "('m, 'k, 'h) inst_env \<Rightarrow> u64 \<Rightarrow> ('m, 'k, 'h, unit) iop" where
  "use_gas E cost = (\<lambda>s. case vm_meter (ie_vm E) (ig_remaining (mc_gas s)) cost of
     (recorded, remaining) \<Rightarrow>
       (if recorded then Inr () else Inl (Halted OutOfGasHalt),
        s\<lparr>mc_gas := (mc_gas s)\<lparr>ig_remaining := remaining\<rparr>\<rparr>))"

definition check_fork :: "('m, 'k, 'h) inst_env \<Rightarrow> eth_fork \<Rightarrow> ('m, 'k, 'h, unit) iop" where
  "check_fork E f = (if ie_enabled E f then ret () else halt NotActivated)"

definition require_non_staticcall :: "('m, 'k, 'h, unit) iop" where
  "require_non_staticcall =
     bindc (reads in_is_static) (\<lambda>st. if st then halt StateChangeDuringStaticCall else ret ())"

definition as_usize_or_fail :: "u256 \<Rightarrow> (exit, 's, usize) fallible" where
  "as_usize_or_fail v = (if unat v < 2 ^ 64 then ret (ucast v) else halt InvalidOperandOOG)"

definition as_usize_saturated :: "u256 \<Rightarrow> usize" where
  "as_usize_saturated v = (if unat v < 2 ^ 64 then ucast v else - 1)"

text \<open>\<open>u64::try_from(v).unwrap_or(u64::MAX)\<close>.\<close>

definition u64_or_max :: "u256 \<Rightarrow> u64" where
  "u64_or_max v = (if unat v < 2 ^ 64 then ucast v else - 1)"

definition into_address :: "u256 \<Rightarrow> address" where
  "into_address v = ucast v"

definition set_action :: "interp_action \<Rightarrow> ('m, 'k, 'h, unit) iop" where
  "set_action a = (\<lambda>s. (Inr (), s\<lparr>in_action := Some a\<rparr>))"

definition on_host :: "('h \<Rightarrow> 'a \<times> 'h) \<Rightarrow> ('m, 'k, 'h, 'a) iop" where
  "on_host f = (\<lambda>s. case f (in_host s) of (x, h) \<Rightarrow> (Inr x, s\<lparr>in_host := h\<rparr>))"

section \<open>Weakest preconditions\<close>

text \<open>\<open>wp m Q s\<close>: from \<open>s\<close>, \<open>m\<close> does not panic and does nothing undefined; it halts, or it
  returns in a state where \<open>Q\<close> holds.\<close>

definition wp :: "(exit, 's, 'a) fallible \<Rightarrow> ('a \<Rightarrow> 's \<Rightarrow> bool) \<Rightarrow> 's \<Rightarrow> bool" where
  "wp m Q s = (case m s of (Inr x, t) \<Rightarrow> Q x t | (Inl (Halted h), t) \<Rightarrow> True | (Inl _, t) \<Rightarrow> False)"

named_theorems wp_simps "weakest preconditions of the primitives"

lemma wp_bindc [wp_simps]: "wp (bindc m f) Q s = wp m (\<lambda>x. wp (f x) Q) s"
  by (auto simp: wp_def bindc_def split: prod.splits sum.splits exit.splits)

lemma wp_ret [wp_simps]: "wp (ret x) Q s = Q x s"
  by (simp add: wp_def)

lemma wp_halt [wp_simps]: "wp (halt r) Q s"
  by (simp add: wp_def halt_def)

lemma wp_panic [wp_simps]: "\<not> wp panic Q s"
  by (simp add: wp_def panic_def)

lemma wp_reads [wp_simps]: "wp (reads f) Q s = Q (f s) s"
  by (simp add: wp_def reads_def)

lemma wp_if [wp_simps]: "wp (if b then m else m') Q s = (if b then wp m Q s else wp m' Q s)"
  by simp

lemma wp_set_action [wp_simps]: "wp (set_action a) Q s = Q () (s\<lparr>in_action := Some a\<rparr>)"
  by (simp add: wp_def set_action_def)

lemma wp_set_top [wp_simps]:
  "wp (set_top E v) Q s = Q () (s\<lparr>in_stack := sk_set_top (ie_stack E) v (in_stack s)\<rparr>)"
  by (simp add: wp_def set_top_def)

lemma wp_on_host [wp_simps]:
  "wp (on_host f) Q s = Q (fst (f (in_host s))) (s\<lparr>in_host := snd (f (in_host s))\<rparr>)"
  by (simp add: wp_def on_host_def split: prod.splits)

lemma wp_require_non_staticcall [wp_simps]:
  "wp require_non_staticcall Q s = (in_is_static s \<or> Q () s)"
  by (simp add: require_non_staticcall_def wp_simps)

lemma wp_check_fork [wp_simps]: "wp (check_fork E f) Q s = (ie_enabled E f \<longrightarrow> Q () s)"
  by (simp add: check_fork_def wp_simps)

lemma wp_as_usize_or_fail [wp_simps]:
  "wp (as_usize_or_fail v) Q s = (unat v < 2 ^ 64 \<longrightarrow> Q (ucast v) s)"
  by (simp add: as_usize_or_fail_def wp_simps)

lemma wp_mem_read [wp_simps]:
  "wp (mem_read f) Q s = (\<exists>bs. f (mc_memory s) = Some bs \<and> Q bs s)"
  by (auto simp: wp_def mem_read_def split: option.splits)

lemma wp_mem_write:
  "wp (mem_write f) Q s = (\<exists>m. f (mc_memory s) = Some m \<and> Q () (s\<lparr>mc_memory := m\<rparr>))"
  by (auto simp: wp_def mem_write_def split: option.splits)

lemma wp_mono: "wp m Q s \<Longrightarrow> (\<And>x t. Q x t \<Longrightarrow> Q' x t) \<Longrightarrow> wp m Q' s"
  by (auto simp: wp_def split: prod.splits sum.splits exit.splits)

lemma wpD: "wp m Q s \<Longrightarrow> m s = (r, t) \<Longrightarrow> (\<exists>h. r = Inl (Halted h)) \<or> (\<exists>x. r = Inr x \<and> Q x t)"
  by (auto simp: wp_def split: sum.splits exit.splits)

lemma halts_or_wp: "halts_or Q (m s) = wp m Q s"
  by (auto simp: halts_or_def wp_def split: prod.splits sum.splits exit.splits)

text \<open>A popped stack.\<close>

lemma stack_laws:
  assumes "env_ok E"
  shows "length (sk_items (ie_stack E) k) < n \<Longrightarrow> sk_popn (ie_stack E) n k = None"
    and "n \<le> length (sk_items (ie_stack E) k) \<Longrightarrow>
      \<exists>k'. sk_popn (ie_stack E) n k = Some (take n (sk_items (ie_stack E) k), k')
         \<and> sk_items (ie_stack E) k' = drop n (sk_items (ie_stack E) k)"
    and "length (sk_items (ie_stack E) k) \<le> n \<Longrightarrow> sk_popn_top (ie_stack E) n k = None"
    and "n < length (sk_items (ie_stack E) k) \<Longrightarrow>
      \<exists>k'. sk_popn_top (ie_stack E) n k
            = Some ((take n (sk_items (ie_stack E) k), sk_items (ie_stack E) k ! n), k')
         \<and> sk_items (ie_stack E) k' = drop n (sk_items (ie_stack E) k)"
    and "sk_items (ie_stack E) k \<noteq> [] \<Longrightarrow>
      sk_items (ie_stack E) (sk_set_top (ie_stack E) v k) = v # tl (sk_items (ie_stack E) k)"
proof -
  have K: "stack_ok (ie_stack E)" using assms by (simp add: env_ok_def)
  note pop = K [unfolded stack_ok_def, THEN conjunct1, THEN spec [where x = n], THEN spec [where x = k]]
  note top = K [unfolded stack_ok_def, THEN conjunct2, THEN conjunct1,
      THEN spec [where x = n], THEN spec [where x = k]]
  show "length (sk_items (ie_stack E) k) < n \<Longrightarrow> sk_popn (ie_stack E) n k = None"
    and "n \<le> length (sk_items (ie_stack E) k) \<Longrightarrow>
      \<exists>k'. sk_popn (ie_stack E) n k = Some (take n (sk_items (ie_stack E) k), k')
         \<and> sk_items (ie_stack E) k' = drop n (sk_items (ie_stack E) k)"
    using pop by (auto split: if_splits)
  show "length (sk_items (ie_stack E) k) \<le> n \<Longrightarrow> sk_popn_top (ie_stack E) n k = None"
    and "n < length (sk_items (ie_stack E) k) \<Longrightarrow>
      \<exists>k'. sk_popn_top (ie_stack E) n k
            = Some ((take n (sk_items (ie_stack E) k), sk_items (ie_stack E) k ! n), k')
         \<and> sk_items (ie_stack E) k' = drop n (sk_items (ie_stack E) k)"
    using top by (auto split: if_splits)
  show "sk_items (ie_stack E) k \<noteq> [] \<Longrightarrow>
      sk_items (ie_stack E) (sk_set_top (ie_stack E) v k) = v # tl (sk_items (ie_stack E) k)"
    using K by (simp add: stack_ok_def)
qed

lemma wp_popn:
  assumes "env_ok E"
    and "\<And>k. n \<le> length (stack_items E s) \<Longrightarrow> sk_items (ie_stack E) k = drop n (stack_items E s) \<Longrightarrow>
      Q (take n (stack_items E s)) (s\<lparr>in_stack := k\<rparr>)"
  shows "wp (popn E n) Q s"
  using stack_laws(1,2) [OF assms(1), where n = n and k = "in_stack s"] assms(2)
  by (cases "length (stack_items E s) < n") (auto simp: wp_def popn_def)

lemma wp_popn_top:
  assumes "env_ok E"
    and "\<And>k. n < length (stack_items E s) \<Longrightarrow> sk_items (ie_stack E) k = drop n (stack_items E s) \<Longrightarrow>
      Q (take n (stack_items E s), stack_items E s ! n) (s\<lparr>in_stack := k\<rparr>)"
  shows "wp (popn_top E n) Q s"
  using stack_laws(3,4) [OF assms(1), where n = n and k = "in_stack s"] assms(2)
  by (cases "length (stack_items E s) \<le> n") (auto simp: wp_def popn_top_def)

section \<open>Progress\<close>

text \<open>What every step of a handler keeps: a well-formed machine, memory that only grows and is
  paid for, the frame's place and its static flag.\<close>

definition reached :: "('m, 'k, 'h) inst_env \<Rightarrow> ('m, 'k, 'h) interp \<Rightarrow> ('m, 'k, 'h) interp \<Rightarrow> bool" where
  "reached E s t \<longleftrightarrow> machine_wf (ie_vm E) t \<and> mem_words s \<le> mem_words t
     \<and> gas_left t + mem_words t div 2 \<le> gas_left s + mem_words s div 2
     \<and> mo_local_memory_offset (vm_mem (ie_vm E)) (mc_memory t)
         = mo_local_memory_offset (vm_mem (ie_vm E)) (mc_memory s)
     \<and> in_is_static t = in_is_static s \<and> in_action t = in_action s"

text \<open>A piece of memory that exists.\<close>

definition covered :: "('m, 'k, 'h) inst_env \<Rightarrow> ('m, 'k, 'h) interp \<Rightarrow> usize \<Rightarrow> usize \<Rightarrow> bool" where
  "covered E s offset len \<longleftrightarrow> unat offset + unat len \<le> length (mem_bytes (ie_vm E) s)"

named_theorems reached_simps "progress under the updates of the primitives"

lemma reached_refl: "machine_wf (ie_vm E) s \<Longrightarrow> reached E s s"
  by (simp add: reached_def)

lemma reached_update [reached_simps]:
  "reached E s (t\<lparr>in_stack := k\<rparr>) = reached E s t" "reached E s (t\<lparr>in_host := h\<rparr>) = reached E s t"
  "reached E s (t\<lparr>in_stack := k, mc_gas := g\<rparr>) = reached E s (t\<lparr>mc_gas := g\<rparr>)"
  "reached E s (t\<lparr>in_stack := k, mc_memory := m\<rparr>) = reached E s (t\<lparr>mc_memory := m\<rparr>)"
  by (simp_all add: reached_def machine_wf_def)

lemma covered_update [reached_simps]:
  "covered E (t\<lparr>in_stack := k\<rparr>) o' n = covered E t o' n"
  "covered E (t\<lparr>in_host := h\<rparr>) o' n = covered E t o' n"
  "covered E (t\<lparr>in_action := a\<rparr>) o' n = covered E t o' n"
  "covered E (t\<lparr>mc_gas := g\<rparr>) o' n = covered E t o' n"
  "covered E (t\<lparr>mc_gas := g, in_host := h\<rparr>) o' n = covered E t o' n"
  by (simp_all add: covered_def)

lemma reached_gas:
  assumes "reached E s t" and "unat g \<le> gas_left t"
  shows "reached E s (t\<lparr>mc_gas := (mc_gas t)\<lparr>ig_remaining := g\<rparr>\<rparr>)"
  using assms by (simp add: reached_def machine_wf_def)

lemma reached_memory:
  assumes "reached E s t" and "length (mo_bytes (vm_mem (ie_vm E)) m) = length (mem_bytes (ie_vm E) t)"
    and "mo_local_memory_offset (vm_mem (ie_vm E)) m = mo_local_memory_offset (vm_mem (ie_vm E)) (mc_memory t)"
  shows "reached E s (t\<lparr>mc_memory := m\<rparr>)"
  using assms by (simp add: reached_def machine_wf_def)

lemma wp_use_gas:
  assumes "env_ok E" and "reached E start s"
    and "\<And>g. unat g + unat c = gas_left s \<Longrightarrow>
      reached E start (s\<lparr>mc_gas := (mc_gas s)\<lparr>ig_remaining := g\<rparr>\<rparr>) \<Longrightarrow>
      Q () (s\<lparr>mc_gas := (mc_gas s)\<lparr>ig_remaining := g\<rparr>\<rparr>)"
  shows "wp (use_gas E c) Q s"
proof -
  have m: "vm_meter (ie_vm E) r c = (if c \<le> r then (True, r - c) else (False, r))" for r
    using assms(1) by (simp add: env_ok_def vm_ok_def meter_ok_def)
  have "Q () (s\<lparr>mc_gas := (mc_gas s)\<lparr>ig_remaining := ig_remaining (mc_gas s) - c\<rparr>\<rparr>)"
    if "c \<le> ig_remaining (mc_gas s)"
    using that by (intro assms(3) reached_gas [OF assms(2)])
      (simp_all add: unat_minus_le word_le_nat_alt)
  then show ?thesis by (simp add: wp_def use_gas_def m)
qed

lemma wp_resize:
  assumes "env_ok E" and "reached E start s"
    and "\<And>t. resized (ie_vm E) offset len s t \<Longrightarrow> reached E start t \<Longrightarrow> covered E t offset len \<Longrightarrow> Q () t"
  shows "wp (monad_resize_memory (ie_vm E) offset len) Q s"
proof -
  have V: "vm_ok (ie_vm E)" and s: "machine_wf (ie_vm E) s"
    using assms(1,2) by (simp_all add: env_ok_def reached_def)
  have "reached E start t \<and> covered E t offset len" if r: "resized (ie_vm E) offset len s t" for t
  proof -
    have t: "t = s\<lparr>mc_gas := mc_gas t, mc_memory := mc_memory t\<rparr>" using r by (simp add: resized_def)
    have "in_is_static t = in_is_static s" "in_action t = in_action s" by (subst t, simp)+
    then show ?thesis
      using r assms(2) by (auto simp: resized_def reached_def covered_def same_place_def)
  qed
  then show ?thesis
    by (cases rule: resize_cases [OF V s, of offset len]) (auto simp: wp_def intro: assms(3))
qed

lemma resized_fields:
  assumes "resized V offset len s t"
  shows "in_stack t = in_stack s" "in_input t = in_input s" "in_code t = in_code s"
    "in_return_data t = in_return_data s" "in_host t = in_host s"
    "in_target_address t = in_target_address s"
proof -
  have t: "t = s\<lparr>mc_gas := mc_gas t, mc_memory := mc_memory t\<rparr>" using assms by (simp add: resized_def)
  show "in_stack t = in_stack s" "in_input t = in_input s" "in_code t = in_code s"
    "in_return_data t = in_return_data s" "in_host t = in_host s"
    "in_target_address t = in_target_address s"
    by (subst t, simp)+
qed

text \<open>Loading an account.\<close>

lemma wp_spends:
  assumes "halts_or P (m s)" and "\<And>x t. P x t \<Longrightarrow> spends s t \<and> R x"
    and "reached E start s"
    and "\<And>x g h. R x \<Longrightarrow> unat g \<le> gas_left s \<Longrightarrow>
      reached E start (s\<lparr>mc_gas := (mc_gas s)\<lparr>ig_remaining := g\<rparr>, in_host := h\<rparr>) \<Longrightarrow>
      Q x (s\<lparr>mc_gas := (mc_gas s)\<lparr>ig_remaining := g\<rparr>, in_host := h\<rparr>)"
  shows "wp m Q s"
proof -
  have "Q x t" if "P x t" for x t
    using assms(2) [OF that] assms(4) [of x] reached_gas [OF assms(3)]
    by (auto simp: spends_def reached_simps)
  then show ?thesis using assms(1) by (auto simp: halts_or_wp intro: wp_mono)
qed

lemma wp_load_acc:
  assumes "env_ok E" and "reached E start s"
    and "\<And>x g h. unat g \<le> gas_left s \<Longrightarrow>
      reached E start (s\<lparr>mc_gas := (mc_gas s)\<lparr>ig_remaining := g\<rparr>, in_host := h\<rparr>) \<Longrightarrow>
      Q x (s\<lparr>mc_gas := (mc_gas s)\<lparr>ig_remaining := g\<rparr>, in_host := h\<rparr>)"
  shows "wp (ie_load_acc_and_calc_gas E a b c l) Q s"
  using assms by (intro wp_spends [where P = "\<lambda>_. spends s" and R = "\<lambda>_. True"]) (simp_all add: env_ok_def)

lemma wp_berlin_load:
  assumes "env_ok E" and "reached E start s"
    and "\<And>code g h. unat g \<le> gas_left s \<Longrightarrow>
      reached E start (s\<lparr>mc_gas := (mc_gas s)\<lparr>ig_remaining := g\<rparr>, in_host := h\<rparr>) \<Longrightarrow>
      Q (Some code) (s\<lparr>mc_gas := (mc_gas s)\<lparr>ig_remaining := g\<rparr>, in_host := h\<rparr>)"
  shows "wp (ie_berlin_load_account E a True) Q s"
proof -
  have "halts_or (\<lambda>code t. spends s t \<and> (True \<longrightarrow> code \<noteq> None)) (ie_berlin_load_account E a True s)"
    using assms(1) unfolding env_ok_def by blast
  then show ?thesis
    by (rule wp_spends [where R = "\<lambda>code. code \<noteq> None"]) (use assms(2,3) in auto)
qed

section \<open>Memory accesses that are covered\<close>

lemma memory_read:
  assumes "env_ok E" and "covered E s offset len"
  shows "mo_slice_len (vm_mem (ie_vm E)) offset len (mc_memory s)
      = Some (take (unat len) (drop (unat offset) (mem_bytes (ie_vm E) s)))"
  using assms by (simp add: env_ok_def vm_ok_def memory_ok_def covered_def)

lemma length_write_at: "i + length bs \<le> length xs \<Longrightarrow> length (write_at i bs xs) = length xs"
  by (simp add: write_at_def)

lemma wp_write:
  assumes "writes_at (vm_mem (ie_vm E)) offset bs (mc_memory s) (f (mc_memory s))"
    and "unat offset + length bs \<le> length (mem_bytes (ie_vm E) s)" and "reached E start s"
    and "\<And>m. mo_bytes (vm_mem (ie_vm E)) m = write_at (unat offset) bs (mem_bytes (ie_vm E) s) \<Longrightarrow>
      same_place (vm_mem (ie_vm E)) (mc_memory s) m \<Longrightarrow>
      reached E start (s\<lparr>mc_memory := m\<rparr>) \<Longrightarrow> Q () (s\<lparr>mc_memory := m\<rparr>)"
  shows "wp (mem_write f) Q s"
proof -
  obtain m where "f (mc_memory s) = Some m" and place: "same_place (vm_mem (ie_vm E)) (mc_memory s) m"
    and bytes: "mo_bytes (vm_mem (ie_vm E)) m = write_at (unat offset) bs (mem_bytes (ie_vm E) s)"
    using assms(1) by (auto simp: writes_at_def)
  moreover have "reached E start (s\<lparr>mc_memory := m\<rparr>)"
    using assms(2,3) place by (intro reached_memory) (simp_all add: bytes length_write_at same_place_def)
  ultimately show ?thesis using assms(4) by (simp add: wp_mem_write)
qed

lemma memory_writes:
  assumes "env_ok E"
  shows "unat i + length bs \<le> length (mo_bytes (vm_mem (ie_vm E)) m) \<Longrightarrow>
      writes_at (vm_mem (ie_vm E)) i bs m (mo_set (vm_mem (ie_vm E)) i bs m)"
    and "unat d + unat n \<le> length (mo_bytes (vm_mem (ie_vm E)) m) \<Longrightarrow>
      unat s + unat n \<le> length (mo_bytes (vm_mem (ie_vm E)) m) \<Longrightarrow>
      writes_at (vm_mem (ie_vm E)) d (take (unat n) (drop (unat s) (mo_bytes (vm_mem (ie_vm E)) m))) m
        (mo_copy (vm_mem (ie_vm E)) d s n m)"
    and "unat i + unat n \<le> length (mo_bytes (vm_mem (ie_vm E)) m) \<Longrightarrow>
      writes_at (vm_mem (ie_vm E)) i (padded (unat d) (unat n) bs) m
        (mo_set_data (vm_mem (ie_vm E)) i d n bs m)"
    and "unat i + unat n \<le> length (mo_bytes (vm_mem (ie_vm E)) m) \<Longrightarrow>
      \<exists>bs. length bs = unat n \<and> writes_at (vm_mem (ie_vm E)) i bs m
        (mo_set_data_from_global (vm_mem (ie_vm E)) i d n rng m)"
proof -
  have M: "memory_ok (vm_mem (ie_vm E))" using assms by (simp add: env_ok_def vm_ok_def)
  note M [unfolded memory_ok_def]
  note laws = this [THEN conjunct2, THEN conjunct2]
  show "unat i + length bs \<le> length (mo_bytes (vm_mem (ie_vm E)) m) \<Longrightarrow>
      writes_at (vm_mem (ie_vm E)) i bs m (mo_set (vm_mem (ie_vm E)) i bs m)"
    using laws by blast
  show "unat d + unat n \<le> length (mo_bytes (vm_mem (ie_vm E)) m) \<Longrightarrow>
      unat s + unat n \<le> length (mo_bytes (vm_mem (ie_vm E)) m) \<Longrightarrow>
      writes_at (vm_mem (ie_vm E)) d (take (unat n) (drop (unat s) (mo_bytes (vm_mem (ie_vm E)) m))) m
        (mo_copy (vm_mem (ie_vm E)) d s n m)"
    using laws by blast
  show "unat i + unat n \<le> length (mo_bytes (vm_mem (ie_vm E)) m) \<Longrightarrow>
      writes_at (vm_mem (ie_vm E)) i (padded (unat d) (unat n) bs) m
        (mo_set_data (vm_mem (ie_vm E)) i d n bs m)"
    using laws by blast
  show "unat i + unat n \<le> length (mo_bytes (vm_mem (ie_vm E)) m) \<Longrightarrow>
      \<exists>bs. length bs = unat n \<and> writes_at (vm_mem (ie_vm E)) i bs m
        (mo_set_data_from_global (vm_mem (ie_vm E)) i d n rng m)"
    using laws by blast
qed

lemma length_padded [simp]: "length (padded i n bs) = n"
  by (simp add: padded_def)

text \<open>The writes of the handlers, each at a piece that is covered.\<close>

lemma wp_set:
  assumes "env_ok E" and "reached E start s" and "covered E s offset len" and "length bs = unat len"
    and "\<And>m. mo_bytes (vm_mem (ie_vm E)) m = write_at (unat offset) bs (mem_bytes (ie_vm E) s) \<Longrightarrow>
      same_place (vm_mem (ie_vm E)) (mc_memory s) m \<Longrightarrow>
      reached E start (s\<lparr>mc_memory := m\<rparr>) \<Longrightarrow> Q () (s\<lparr>mc_memory := m\<rparr>)"
  shows "wp (mem_write (mo_set (vm_mem (ie_vm E)) offset bs)) Q s"
  by (rule wp_write [of E offset bs]) (use assms in \<open>auto simp: covered_def intro: memory_writes\<close>)

lemma wp_set_data:
  assumes "env_ok E" and "reached E start s" and "covered E s offset len"
    and "\<And>m. mo_bytes (vm_mem (ie_vm E)) m
        = write_at (unat offset) (padded (unat d) (unat len) bs) (mem_bytes (ie_vm E) s) \<Longrightarrow>
      same_place (vm_mem (ie_vm E)) (mc_memory s) m \<Longrightarrow>
      reached E start (s\<lparr>mc_memory := m\<rparr>) \<Longrightarrow> Q () (s\<lparr>mc_memory := m\<rparr>)"
  shows "wp (mem_write (mo_set_data (vm_mem (ie_vm E)) offset d len bs)) Q s"
  by (rule wp_write [of E offset "padded (unat d) (unat len) bs"])
    (use assms in \<open>auto simp: covered_def intro: memory_writes\<close>)

lemma wp_set_data_from_global:
  assumes "env_ok E" and "reached E start s" and "covered E s offset len"
    and "\<And>m. same_place (vm_mem (ie_vm E)) (mc_memory s) m \<Longrightarrow>
      reached E start (s\<lparr>mc_memory := m\<rparr>) \<Longrightarrow> Q () (s\<lparr>mc_memory := m\<rparr>)"
  shows "wp (mem_write (mo_set_data_from_global (vm_mem (ie_vm E)) offset d len rng)) Q s"
proof -
  obtain bs where "length bs = unat len" and "writes_at (vm_mem (ie_vm E)) offset bs (mc_memory s)
      (mo_set_data_from_global (vm_mem (ie_vm E)) offset d len rng (mc_memory s))"
    using memory_writes(4) [OF assms(1), of offset len "mc_memory s" d rng] assms(3)
    by (auto simp: covered_def)
  with assms show ?thesis by (intro wp_write [of E offset bs]) (auto simp: covered_def)
qed

lemma wp_copy:
  assumes "env_ok E" and "reached E start s" and "covered E s dst len" and "covered E s src len"
    and "\<And>m. mo_bytes (vm_mem (ie_vm E)) m = write_at (unat dst)
        (take (unat len) (drop (unat src) (mem_bytes (ie_vm E) s))) (mem_bytes (ie_vm E) s) \<Longrightarrow>
      same_place (vm_mem (ie_vm E)) (mc_memory s) m \<Longrightarrow>
      reached E start (s\<lparr>mc_memory := m\<rparr>) \<Longrightarrow> Q () (s\<lparr>mc_memory := m\<rparr>)"
  shows "wp (mem_write (mo_copy (vm_mem (ie_vm E)) dst src len)) Q s"
  by (rule wp_write [of E dst "take (unat len) (drop (unat src) (mem_bytes (ie_vm E) s))"])
    (use assms in \<open>auto simp: covered_def intro: memory_writes\<close>)

end
