(* ===== verification/Opcodes.thy ===== *)
theory Opcodes
  imports Interp
begin

text \<open>
  The opcode handlers of MIP-3 (\<open>memory/opcodes.rs\<close>) and the instruction table and gas
  parameters of \<open>instructions.rs\<close>. A handler that returns early has halted, which is an error of
  the computation; the \<open>Option\<close>s of the helpers disappear in the same way, except that of
  \<open>monad_copy_cost_and_memory_resize\<close>, which is also None for an empty copy.
\<close>

section \<open>Helpers\<close>

definition monad_copy_cost_and_memory_resize ::
    "('m, 'k, 'h) inst_env \<Rightarrow> u256 \<Rightarrow> usize \<Rightarrow> ('m, 'k, 'h, usize option) iop" where
  "monad_copy_cost_and_memory_resize E memory_offset len =
     seqc (use_gas E (ie_copy_cost E len))
     (if len = 0 then ret None
      else bindc (as_usize_or_fail memory_offset) (\<lambda>memory_offset.
        seqc (monad_resize_memory (ie_vm E) memory_offset len)
        (ret (Some memory_offset))))"

definition monad_return_inner ::
    "('m, 'k, 'h) inst_env \<Rightarrow> instruction_result \<Rightarrow> ('m, 'k, 'h, unit) iop" where
  "monad_return_inner E instruction_result =
     bindc (popn E 2) (\<lambda>xs. let offset = xs ! 0; len = xs ! 1 in
     bindc (as_usize_or_fail len) (\<lambda>len.
     bindc (if len \<noteq> 0
       then bindc (as_usize_or_fail offset) (\<lambda>offset.
         seqc (monad_resize_memory (ie_vm E) offset len)
         (mem_read (mo_slice_len (vm_mem (ie_vm E)) offset len)))
       else ret []) (\<lambda>output.
     bindc (reads mc_gas) (\<lambda>gas.
     set_action (ActionReturn instruction_result output gas)))))"

text \<open>The sum that ends the range panics in a checked build when it leaves the machine word.\<close>

definition monad_call_resize_memory ::
    "('m, 'k, 'h) inst_env \<Rightarrow> u256 \<Rightarrow> u256 \<Rightarrow> ('m, 'k, 'h, usize \<times> usize) iop" where
  "monad_call_resize_memory E offset len =
     bindc (as_usize_or_fail len) (\<lambda>len.
     bindc (if len \<noteq> 0
       then bindc (as_usize_or_fail offset) (\<lambda>offset.
         seqc (monad_resize_memory (ie_vm E) offset len)
         (ret offset))
       else ret (- 1)) (\<lambda>offset.
     if unat offset + unat len < 2 ^ 64 then ret (offset, offset + len) else panic))"

definition monad_get_memory_input_and_out_ranges ::
    "('m, 'k, 'h) inst_env \<Rightarrow> ('m, 'k, 'h, (usize \<times> usize) \<times> (usize \<times> usize)) iop" where
  "monad_get_memory_input_and_out_ranges E =
     bindc (popn E 4) (\<lambda>xs.
     bindc (monad_call_resize_memory E (xs ! 0) (xs ! 1)) (\<lambda>in_range.
     bindc (reads (\<lambda>s. mo_local_memory_offset (vm_mem (ie_vm E)) (mc_memory s))) (\<lambda>offset.
     let in_range = (if fst in_range < snd in_range
           then (saturating_add (fst in_range) offset, saturating_add (snd in_range) offset)
           else in_range) in
     bindc (monad_call_resize_memory E (xs ! 2) (xs ! 3)) (\<lambda>ret_range.
     ret (in_range, ret_range)))))"

section \<open>Memory opcodes\<close>

definition mload :: "('m, 'k, 'h) inst_env \<Rightarrow> ('m, 'k, 'h, unit) iop" where
  "mload E =
     bindc (popn_top E 0) (\<lambda>(_, top).
     bindc (as_usize_or_fail top) (\<lambda>offset.
     seqc (monad_resize_memory (ie_vm E) offset 32)
     (bindc (mem_read (mo_slice_len (vm_mem (ie_vm E)) offset 32)) (\<lambda>bs.
     if 32 < length bs then panic else set_top E (from_be_bytes bs)))))"

definition mstore :: "('m, 'k, 'h) inst_env \<Rightarrow> ('m, 'k, 'h, unit) iop" where
  "mstore E =
     bindc (popn E 2) (\<lambda>xs. let offset = xs ! 0; value = xs ! 1 in
     bindc (as_usize_or_fail offset) (\<lambda>offset.
     seqc (monad_resize_memory (ie_vm E) offset 32)
     (mem_write (mo_set (vm_mem (ie_vm E)) offset (to_be_bytes 32 value)))))"

definition mstore8 :: "('m, 'k, 'h) inst_env \<Rightarrow> ('m, 'k, 'h, unit) iop" where
  "mstore8 E =
     bindc (popn E 2) (\<lambda>xs. let offset = xs ! 0; value = xs ! 1 in
     bindc (as_usize_or_fail offset) (\<lambda>offset.
     seqc (monad_resize_memory (ie_vm E) offset 1)
     (mem_write (mo_set (vm_mem (ie_vm E)) offset [ucast value]))))"

definition mcopy :: "('m, 'k, 'h) inst_env \<Rightarrow> ('m, 'k, 'h, unit) iop" where
  "mcopy E =
     seqc (check_fork E CANCUN)
     (bindc (popn E 3) (\<lambda>xs. let dst = xs ! 0; src = xs ! 1; len = xs ! 2 in
     bindc (as_usize_or_fail len) (\<lambda>len.
     seqc (use_gas E (ie_mcopy_cost E len))
     (if len = 0 then ret ()
      else bindc (as_usize_or_fail dst) (\<lambda>dst.
        bindc (as_usize_or_fail src) (\<lambda>src.
        seqc (monad_resize_memory (ie_vm E) (max dst src) len)
        (mem_write (mo_copy (vm_mem (ie_vm E)) dst src len))))))))"

section \<open>Hash\<close>

definition keccak256 :: "('m, 'k, 'h) inst_env \<Rightarrow> ('m, 'k, 'h, unit) iop" where
  "keccak256 E =
     bindc (popn_top E 1) (\<lambda>(xs, top). let offset = xs ! 0 in
     bindc (as_usize_or_fail top) (\<lambda>len.
     seqc (use_gas E (ie_keccak256_cost E len))
     (bindc (if len = 0 then ret KECCAK_EMPTY
       else bindc (as_usize_or_fail offset) (\<lambda>from'.
         seqc (monad_resize_memory (ie_vm E) from' len)
         (bindc (mem_read (mo_slice_len (vm_mem (ie_vm E)) from' len)) (\<lambda>bs.
         ret (from_be_bytes (ie_keccak256 E bs)))))) (\<lambda>hash.
     set_top E hash))))"

section \<open>Copy opcodes\<close>

definition calldatacopy :: "('m, 'k, 'h) inst_env \<Rightarrow> ('m, 'k, 'h, unit) iop" where
  "calldatacopy E =
     bindc (popn E 3) (\<lambda>xs. let memory_offset = xs ! 0; data_offset = xs ! 1; len = xs ! 2 in
     bindc (as_usize_or_fail len) (\<lambda>len.
     bindc (monad_copy_cost_and_memory_resize E memory_offset len) (\<lambda>r. case r of
       None \<Rightarrow> ret ()
     | Some memory_offset \<Rightarrow>
         let data_offset = as_usize_saturated data_offset in
         bindc (reads in_input) (\<lambda>input. case input of
           InputBytes bytes \<Rightarrow>
             mem_write (mo_set_data (vm_mem (ie_vm E)) memory_offset data_offset len bytes)
         | SharedBuffer rng \<Rightarrow>
             mem_write (mo_set_data_from_global (vm_mem (ie_vm E)) memory_offset data_offset len rng)))))"

definition codecopy :: "('m, 'k, 'h) inst_env \<Rightarrow> ('m, 'k, 'h, unit) iop" where
  "codecopy E =
     bindc (popn E 3) (\<lambda>xs. let memory_offset = xs ! 0; code_offset = xs ! 1; len = xs ! 2 in
     bindc (as_usize_or_fail len) (\<lambda>len.
     bindc (monad_copy_cost_and_memory_resize E memory_offset len) (\<lambda>r. case r of
       None \<Rightarrow> ret ()
     | Some memory_offset \<Rightarrow>
         let code_offset = as_usize_saturated code_offset in
         bindc (reads in_code) (\<lambda>code.
         mem_write (mo_set_data (vm_mem (ie_vm E)) memory_offset code_offset len code)))))"

definition returndatacopy :: "('m, 'k, 'h) inst_env \<Rightarrow> ('m, 'k, 'h, unit) iop" where
  "returndatacopy E =
     seqc (check_fork E BYZANTIUM)
     (bindc (popn E 3) (\<lambda>xs. let memory_offset = xs ! 0; offset = xs ! 1; len = xs ! 2 in
     bindc (as_usize_or_fail len) (\<lambda>len.
     let data_offset = as_usize_saturated offset;
         data_end = saturating_add data_offset len in
     bindc (reads in_return_data) (\<lambda>buffer.
     if length buffer < unat data_end then halt OutOfOffset
     else bindc (monad_copy_cost_and_memory_resize E memory_offset len) (\<lambda>r. case r of
       None \<Rightarrow> ret ()
     | Some memory_offset \<Rightarrow>
         mem_write (mo_set_data (vm_mem (ie_vm E)) memory_offset data_offset len buffer))))))"

definition extcodecopy :: "('m, 'k, 'h) inst_env \<Rightarrow> ('m, 'k, 'h, unit) iop" where
  "extcodecopy E =
     bindc (popn E 4) (\<lambda>xs.
     let address = into_address (xs ! 0); memory_offset = xs ! 1; code_offset = xs ! 2 in
     bindc (as_usize_or_fail (xs ! 3)) (\<lambda>len.
     seqc (use_gas E (ie_extcodecopy_cost E len))
     (bindc (if len \<noteq> 0
       then bindc (as_usize_or_fail memory_offset) (\<lambda>memory_offset_usize.
         seqc (monad_resize_memory (ie_vm E) memory_offset_usize len)
         (ret memory_offset_usize))
       else ret 0) (\<lambda>memory_offset_usize.
     bindc (if ie_enabled E BERLIN
       then bindc (ie_berlin_load_account E address True) (\<lambda>code.
         case code of None \<Rightarrow> panic | Some code \<Rightarrow> ret code)
       else bindc (on_host (ie_load_account_code E address)) (\<lambda>code.
         case code of None \<Rightarrow> halt FatalExternalError | Some code \<Rightarrow> ret code)) (\<lambda>code.
     let code_offset_usize = min (as_usize_saturated code_offset) (of_nat (length code)) in
     mem_write (mo_set_data (vm_mem (ie_vm E)) memory_offset_usize code_offset_usize len code))))))"

section \<open>Logs\<close>

text \<open>\<open>LogData::new\<close> refuses more than four topics.\<close>

definition log_op :: "('m, 'k, 'h) inst_env \<Rightarrow> nat \<Rightarrow> ('m, 'k, 'h, unit) iop" where
  "log_op E n =
     seqc require_non_staticcall
     (bindc (popn E 2) (\<lambda>xs. let offset = xs ! 0; len = xs ! 1 in
     bindc (as_usize_or_fail len) (\<lambda>len.
     seqc (use_gas E (ie_log_cost E (of_nat n) len))
     (bindc (if len = 0 then ret []
       else bindc (as_usize_or_fail offset) (\<lambda>offset.
         seqc (monad_resize_memory (ie_vm E) offset len)
         (mem_read (mo_slice_len (vm_mem (ie_vm E)) offset len)))) (\<lambda>data.
     bindc (popn E n) (\<lambda>topics.
     bindc (reads in_target_address) (\<lambda>address.
     if 4 < length topics then panic
     else on_host (\<lambda>h. ((), ie_log E
       \<lparr>el_address = address, el_topics = topics, el_data = data\<rparr> h)))))))))"

section \<open>Creation\<close>

definition create_op :: "('m, 'k, 'h) inst_env \<Rightarrow> bool \<Rightarrow> ('m, 'k, 'h, unit) iop" where
  "create_op E is_create2 =
     seqc require_non_staticcall
     (seqc (if is_create2 then check_fork E PETERSBURG else ret ())
     (bindc (popn E 3) (\<lambda>xs. let value = xs ! 0; code_offset = xs ! 1; len = xs ! 2 in
     bindc (as_usize_or_fail len) (\<lambda>len.
     bindc (if len \<noteq> 0
       then seqc (if ie_enabled E SHANGHAI
            then (if ie_max_initcode_size E < len then halt CreateInitCodeSizeLimit
                  else use_gas E (ie_initcode_cost E len))
            else ret ())
         (bindc (as_usize_or_fail code_offset) (\<lambda>code_offset.
         seqc (monad_resize_memory (ie_vm E) code_offset len)
         (mem_read (mo_slice_len (vm_mem (ie_vm E)) code_offset len))))
       else ret []) (\<lambda>code.
     bindc (if is_create2
       then bindc (popn E 1) (\<lambda>ys.
         seqc (use_gas E (ie_create2_cost E len)) (ret (Create2 (ys ! 0))))
       else seqc (use_gas E (ie_create_cost E)) (ret Create)) (\<lambda>scheme.
     bindc (reads (\<lambda>s. ig_remaining (mc_gas s))) (\<lambda>gas_limit.
     let gas_limit = (if ie_enabled E TANGERINE then ie_call_stipend_reduction E gas_limit
                      else gas_limit) in
     seqc (use_gas E gas_limit)
     (bindc (reads in_target_address) (\<lambda>target.
     set_action (ActionCreate \<lparr>cr_caller = target, cr_scheme = scheme, cr_value = value,
       cr_init_code = code, cr_gas_limit = gas_limit\<rparr>))))))))))"

section \<open>Calls\<close>

definition call_op :: "('m, 'k, 'h) inst_env \<Rightarrow> ('m, 'k, 'h, unit) iop" where
  "call_op E =
     bindc (popn E 3) (\<lambda>xs.
     let local_gas_limit = u64_or_max (xs ! 0); to' = into_address (xs ! 1); value = xs ! 2;
         has_transfer = value \<noteq> 0 in
     bindc (reads in_is_static) (\<lambda>is_static.
     if is_static \<and> has_transfer then halt CallNotAllowedInsideStatic
     else bindc (monad_get_memory_input_and_out_ranges E) (\<lambda>(input, return_memory_offset).
     bindc (ie_load_acc_and_calc_gas E to' has_transfer True local_gas_limit)
       (\<lambda>(gas_limit, bytecode, bytecode_hash).
     bindc (reads in_target_address) (\<lambda>target.
     bindc (reads in_is_static) (\<lambda>is_static.
     set_action (ActionCall \<lparr>nc_input = input, nc_gas_limit = gas_limit, nc_target_address = to',
       nc_caller = target, nc_bytecode_address = to',
       nc_known_bytecode = (bytecode_hash, bytecode), nc_value = Transfer value,
       nc_scheme = CallScheme_Call, nc_is_static = is_static,
       nc_return_memory_offset = return_memory_offset\<rparr>)))))))"

definition call_code :: "('m, 'k, 'h) inst_env \<Rightarrow> ('m, 'k, 'h, unit) iop" where
  "call_code E =
     bindc (popn E 3) (\<lambda>xs.
     let local_gas_limit = u64_or_max (xs ! 0); to' = into_address (xs ! 1); value = xs ! 2;
         has_transfer = value \<noteq> 0 in
     bindc (monad_get_memory_input_and_out_ranges E) (\<lambda>(input, return_memory_offset).
     bindc (ie_load_acc_and_calc_gas E to' has_transfer False local_gas_limit)
       (\<lambda>(gas_limit, bytecode, bytecode_hash).
     bindc (reads in_target_address) (\<lambda>target.
     bindc (reads in_is_static) (\<lambda>is_static.
     set_action (ActionCall \<lparr>nc_input = input, nc_gas_limit = gas_limit,
       nc_target_address = target, nc_caller = target, nc_bytecode_address = to',
       nc_known_bytecode = (bytecode_hash, bytecode), nc_value = Transfer value,
       nc_scheme = CallCode, nc_is_static = is_static,
       nc_return_memory_offset = return_memory_offset\<rparr>))))))"

definition delegate_call :: "('m, 'k, 'h) inst_env \<Rightarrow> ('m, 'k, 'h, unit) iop" where
  "delegate_call E =
     seqc (check_fork E HOMESTEAD)
     (bindc (popn E 2) (\<lambda>xs.
     let local_gas_limit = u64_or_max (xs ! 0); to' = into_address (xs ! 1) in
     bindc (monad_get_memory_input_and_out_ranges E) (\<lambda>(input, return_memory_offset).
     bindc (ie_load_acc_and_calc_gas E to' False False local_gas_limit)
       (\<lambda>(gas_limit, bytecode, bytecode_hash).
     bindc (reads in_target_address) (\<lambda>target.
     bindc (reads in_caller) (\<lambda>caller.
     bindc (reads in_call_value) (\<lambda>call_value.
     bindc (reads in_is_static) (\<lambda>is_static.
     set_action (ActionCall \<lparr>nc_input = input, nc_gas_limit = gas_limit,
       nc_target_address = target, nc_caller = caller, nc_bytecode_address = to',
       nc_known_bytecode = (bytecode_hash, bytecode), nc_value = Apparent call_value,
       nc_scheme = DelegateCall, nc_is_static = is_static,
       nc_return_memory_offset = return_memory_offset\<rparr>)))))))))"

definition static_call :: "('m, 'k, 'h) inst_env \<Rightarrow> ('m, 'k, 'h, unit) iop" where
  "static_call E =
     seqc (check_fork E BYZANTIUM)
     (bindc (popn E 2) (\<lambda>xs.
     let local_gas_limit = u64_or_max (xs ! 0); to' = into_address (xs ! 1) in
     bindc (monad_get_memory_input_and_out_ranges E) (\<lambda>(input, return_memory_offset).
     bindc (ie_load_acc_and_calc_gas E to' False False local_gas_limit)
       (\<lambda>(gas_limit, bytecode, bytecode_hash).
     bindc (reads in_target_address) (\<lambda>target.
     set_action (ActionCall \<lparr>nc_input = input, nc_gas_limit = gas_limit,
       nc_target_address = to', nc_caller = target, nc_bytecode_address = to',
       nc_known_bytecode = (bytecode_hash, bytecode), nc_value = Transfer 0,
       nc_scheme = StaticCall, nc_is_static = True,
       nc_return_memory_offset = return_memory_offset\<rparr>))))))"

section \<open>Return and revert\<close>

definition ret_op :: "('m, 'k, 'h) inst_env \<Rightarrow> ('m, 'k, 'h, unit) iop" where
  "ret_op E = monad_return_inner E Return"

definition revert_op :: "('m, 'k, 'h) inst_env \<Rightarrow> ('m, 'k, 'h, unit) iop" where
  "revert_op E = seqc (check_fork E BYZANTIUM) (monad_return_inner E Revert)"

section \<open>The instruction table and the gas parameters (instructions.rs)\<close>

definition COLD_SLOAD_COST :: u64 where "COLD_SLOAD_COST = 8100"
definition COLD_ACCOUNT_ACCESS_COST :: u64 where "COLD_ACCOUNT_ACCESS_COST = 10100"
definition WARM_STORAGE_READ_COST :: u64 where "WARM_STORAGE_READ_COST = 100"

text \<open>The entries of revm's GasParams that are named here, and the others.\<close>

datatype gas_id =
    cold_storage_cost | cold_storage_additional_cost | cold_account_additional_cost
  | warm_storage_read_cost | other_gas_id nat

type_synonym gas_params = "gas_id \<Rightarrow> u64"

definition override_gas :: "(gas_id \<times> u64) list \<Rightarrow> gas_params \<Rightarrow> gas_params" where
  "override_gas xs params = fold (\<lambda>(i, c) p. p(i := c)) xs params"

text \<open>\<open>new_spec\<close> is \<open>GasParams::new_spec\<close>.\<close>

definition monad_gas_params :: "(SpecId \<Rightarrow> gas_params) \<Rightarrow> MonadSpecId \<Rightarrow> gas_params" where
  "monad_gas_params new_spec spec =
     (let params = new_spec (into_eth_spec spec) in
      if is_enabled_in MonadEight spec
      then override_gas
        [(cold_storage_cost, COLD_SLOAD_COST),
         (cold_storage_additional_cost, COLD_SLOAD_COST - WARM_STORAGE_READ_COST),
         (cold_account_additional_cost, COLD_ACCOUNT_ACCESS_COST - WARM_STORAGE_READ_COST)] params
      else params)"

text \<open>An instruction is its handler with its static gas, which the interpreter loop charges
  first. The opcodes and the prices \<open>gas::KECCAK256\<close> (30), \<open>gas::LOG\<close> (375) and
  \<open>gas::WARM_STORAGE_READ_COST\<close> (100) are Ethereum's.\<close>

type_synonym ('m, 'k, 'h) instruction = "('m, 'k, 'h, unit) iop \<times> u64"

definition mip3_instructions :: "('m, 'k, 'h) inst_env \<Rightarrow> (u8 \<times> ('m, 'k, 'h) instruction) list" where
  "mip3_instructions E =
     [(0x51, mload E, 3), (0x52, mstore E, 3), (0x53, mstore8 E, 3), (0x5e, mcopy E, 3),
      (0x20, keccak256 E, 30),
      (0x37, calldatacopy E, 3), (0x39, codecopy E, 3), (0x3e, returndatacopy E, 3),
      (0x3c, extcodecopy E, 100),
      (0xa0, log_op E 0, 375), (0xa1, log_op E 1, 375), (0xa2, log_op E 2, 375),
      (0xa3, log_op E 3, 375), (0xa4, log_op E 4, 375),
      (0xf0, create_op E False, 0), (0xf5, create_op E True, 0),
      (0xf1, call_op E, 100), (0xf2, call_code E, 100), (0xf4, delegate_call E, 100),
      (0xfa, static_call E, 100),
      (0xf3, ret_op E, 0), (0xfd, revert_op E, 0)]"

text \<open>\<open>eth\<close> is \<open>instruction_table_gas_changes_spec\<close>.\<close>

definition monad_instructions ::
    "('m, 'k, 'h) inst_env \<Rightarrow> (SpecId \<Rightarrow> u8 \<Rightarrow> ('m, 'k, 'h) instruction) \<Rightarrow> MonadSpecId \<Rightarrow>
     u8 \<Rightarrow> ('m, 'k, 'h) instruction" where
  "monad_instructions E eth spec =
     (let instructions = eth (into_eth_spec spec) in
      if is_enabled_in MonadNine spec
      then fold (\<lambda>(opcode, instruction) table. table(opcode := instruction))
             (mip3_instructions E) instructions
      else instructions)"

definition mip3_opcodes :: "u8 list" where
  "mip3_opcodes = [0x51, 0x52, 0x53, 0x5e, 0x20, 0x37, 0x39, 0x3e, 0x3c, 0xa0, 0xa1, 0xa2, 0xa3,
     0xa4, 0xf0, 0xf5, 0xf1, 0xf2, 0xf4, 0xfa, 0xf3, 0xfd]"

section \<open>What a handler leaves behind\<close>

text \<open>The return range of a call, when it is not empty, lies in the memory; the input range, when
  it is not empty, is such a range moved by the frame's place in the shared buffer.\<close>

definition return_range_fits :: "('m, 'k, 'h) inst_env \<Rightarrow> ('m, 'k, 'h) interp \<Rightarrow> usize \<times> usize \<Rightarrow> bool" where
  "return_range_fits E t = (\<lambda>(a, b). unat b \<le> unat a \<or> unat b \<le> length (mem_bytes (ie_vm E) t))"

definition input_range_fits :: "('m, 'k, 'h) inst_env \<Rightarrow> ('m, 'k, 'h) interp \<Rightarrow> usize \<times> usize \<Rightarrow> bool" where
  "input_range_fits E t = (\<lambda>(a, b). unat b \<le> unat a \<or>
     (\<exists>c d. unat c < unat d \<and> unat d \<le> length (mem_bytes (ie_vm E) t)
        \<and> a = saturating_add c (mo_local_memory_offset (vm_mem (ie_vm E)) (mc_memory t))
        \<and> b = saturating_add d (mo_local_memory_offset (vm_mem (ie_vm E)) (mc_memory t))))"

text \<open>An action is as it may be in this frame: a return carries the gas of the frame, only a
  frame that is not static creates, and the calls of a static frame are static and move no
  money to another account.\<close>

definition action_fits :: "('m, 'k, 'h) inst_env \<Rightarrow> ('m, 'k, 'h) interp \<Rightarrow> interp_action \<Rightarrow> bool" where
  "action_fits E t a \<longleftrightarrow> (case a of
       ActionReturn result out gas \<Rightarrow> gas = mc_gas t
     | ActionCreate c \<Rightarrow> \<not> in_is_static t
     | ActionCall c \<Rightarrow> input_range_fits E t (nc_input c)
         \<and> return_range_fits E t (nc_return_memory_offset c)
         \<and> (in_is_static t \<longrightarrow> nc_is_static c
              \<and> (nc_value c = Transfer 0 \<or> nc_target_address c = nc_caller c
                   \<or> nc_scheme c = DelegateCall)))"

definition handled :: "('m, 'k, 'h) inst_env \<Rightarrow> ('m, 'k, 'h) interp \<Rightarrow> ('m, 'k, 'h) interp \<Rightarrow> bool" where
  "handled E s t \<longleftrightarrow> (\<exists>u. reached E s u \<and>
     (t = u \<or> (\<exists>a. t = u\<lparr>in_action := Some a\<rparr> \<and> action_fits E u a)))"

lemma handled_reached: "reached E s t \<Longrightarrow> handled E s t"
  by (auto simp: handled_def)

lemma handled_action: "reached E s u \<Longrightarrow> action_fits E u a \<Longrightarrow> handled E s (u\<lparr>in_action := Some a\<rparr>)"
  by (auto simp: handled_def)

lemma wp_monad_copy_cost:
  assumes "env_ok E" and "reached E start s"
    and "\<And>t. len = 0 \<Longrightarrow> reached E start t \<Longrightarrow> Q None t"
    and "\<And>offset t. reached E start t \<Longrightarrow> covered E t offset len \<Longrightarrow> Q (Some offset) t"
  shows "wp (monad_copy_cost_and_memory_resize E memory_offset len) Q s"
  unfolding monad_copy_cost_and_memory_resize_def
  by (auto simp: wp_simps intro!: wp_use_gas [OF assms(1,2)] wp_resize [OF assms(1)] assms(3,4))

lemma handled_return:
  assumes E: "env_ok E" and "reached E s s"
  shows "wp (monad_return_inner E r) (\<lambda>_. handled E s) s"
proof -
  note rules = wp_popn [OF E] wp_resize [OF E, where start = s]
  show ?thesis
    unfolding monad_return_inner_def
    by (auto simp: wp_simps Let_def reached_simps memory_read [OF E] assms action_fits_def
        intro!: rules handled_action)
qed

lemma handled_memory:
  assumes E: "env_ok E" and "machine_wf (ie_vm E) s"
  shows "wp (mload E) (\<lambda>_. handled E s) s" and "wp (mstore E) (\<lambda>_. handled E s) s"
    and "wp (mstore8 E) (\<lambda>_. handled E s) s" and "wp (keccak256 E) (\<lambda>_. handled E s) s"
    and "wp (calldatacopy E) (\<lambda>_. handled E s) s" and "wp (codecopy E) (\<lambda>_. handled E s) s"
    and "wp (returndatacopy E) (\<lambda>_. handled E s) s"
proof -
  have s: "reached E s s" using assms(2) by (rule reached_refl)
  note rules = wp_popn [OF E] wp_popn_top [OF E] wp_resize [OF E, where start = s]
    wp_use_gas [OF E, where start = s] wp_monad_copy_cost [OF E, where start = s]
    wp_set [OF E, where start = s] wp_set_data [OF E, where start = s]
    wp_set_data_from_global [OF E, where start = s] handled_reached
  note facts = wp_simps Let_def reached_simps memory_read [OF E] s
  show "wp (mload E) (\<lambda>_. handled E s) s"
    unfolding mload_def by (auto simp: facts intro!: rules)
  show "wp (mstore E) (\<lambda>_. handled E s) s"
    unfolding mstore_def by (auto simp: facts intro!: rules)
  show "wp (mstore8 E) (\<lambda>_. handled E s) s"
    unfolding mstore8_def by (auto simp: facts intro!: rules)
  show "wp (keccak256 E) (\<lambda>_. handled E s) s"
    unfolding keccak256_def by (auto simp: facts intro!: rules)
  show "wp (calldatacopy E) (\<lambda>_. handled E s) s"
    unfolding calldatacopy_def by (auto simp: facts split: call_input.splits intro!: rules)
  show "wp (codecopy E) (\<lambda>_. handled E s) s"
    unfolding codecopy_def by (auto simp: facts intro!: rules)
  show "wp (returndatacopy E) (\<lambda>_. handled E s) s"
    unfolding returndatacopy_def by (auto simp: facts intro!: rules)
qed


lemma covered_max: "covered E s (max a b) n \<longleftrightarrow> covered E s a n \<and> covered E s b n"
  by (auto simp: covered_def max_def word_le_nat_alt)

lemma covered_empty: "covered E s 0 0"
  by (simp add: covered_def)

lemma handled_copy:
  assumes E: "env_ok E" and "machine_wf (ie_vm E) s"
  shows "wp (mcopy E) (\<lambda>_. handled E s) s" and "wp (extcodecopy E) (\<lambda>_. handled E s) s"
    and "n \<le> 4 \<Longrightarrow> wp (log_op E n) (\<lambda>_. handled E s) s"
proof -
  have s: "reached E s s" using assms(2) by (rule reached_refl)
  note rules = wp_popn [OF E] wp_resize [OF E, where start = s] wp_use_gas [OF E, where start = s]
    wp_copy [OF E, where start = s] wp_set_data [OF E, where start = s]
    wp_berlin_load [OF E, where start = s] handled_reached
  note facts = wp_simps Let_def reached_simps memory_read [OF E] s
  show "wp (mcopy E) (\<lambda>_. handled E s) s"
    unfolding mcopy_def by (auto simp: facts covered_max intro!: rules)
  show "wp (extcodecopy E) (\<lambda>_. handled E s) s"
    unfolding extcodecopy_def
    by (auto simp: facts split: option.splits intro!: rules covered_empty)
  show "wp (log_op E n) (\<lambda>_. handled E s) s" if "n \<le> 4"
    using that unfolding log_op_def by (auto simp: facts intro!: rules)
qed


lemma reached_trans: "reached E s t \<Longrightarrow> reached E t u \<Longrightarrow> reached E s u"
  by (auto simp: reached_def)

lemma reached_length:
  assumes "reached E s t" and "machine_wf (ie_vm E) s"
  shows "length (mem_bytes (ie_vm E) s) \<le> length (mem_bytes (ie_vm E) t)"
  using assms by (simp add: reached_def machine_wf_def)

text \<open>A range returned by \<open>monad_call_resize_memory\<close> is empty or lies in the memory.\<close>

lemma wp_call_resize:
  assumes E: "env_ok E" and s: "machine_wf (ie_vm E) s"
    and Q: "\<And>rng t. reached E s t \<Longrightarrow> return_range_fits E t rng \<Longrightarrow> in_stack t = in_stack s \<Longrightarrow> Q rng t"
  shows "wp (monad_call_resize_memory E offset len) Q s"
proof -
  have max: "unat (- 1 :: usize) + unat (0 :: usize) < 2 ^ 64"
    using unat_lt2p [of "- 1 :: usize"] by simp
  have cov: "unat a + unat n < 2 ^ 64 \<and> return_range_fits E t (a, a + n)"
    if c: "covered E t a n" and r: "reached E s t" for a n :: usize and t
  proof -
    have wf: "machine_wf (ie_vm E) t" using r by (simp add: reached_def)
    have "unat a + unat n < 2 ^ 64"
      using c wf wf_words_bound [OF wf] by (simp add: covered_def machine_wf_def)
    then show ?thesis using c by (simp add: return_range_fits_def covered_def unat_plus_lt)
  qed
  note rules = wp_resize [OF E, where start = s]
  show ?thesis
    unfolding monad_call_resize_memory_def
    using cov max reached_refl [OF s]
    by (auto simp: wp_simps return_range_fits_def intro!: rules Q dest: resized_fields(1))
qed

text \<open>The input range is moved to the memory of this frame before the output range grows it.\<close>

lemma moved_input_fits:
  assumes t: "reached E s t" and rng: "return_range_fits E t rng" and u: "reached E t u"
  defines "p \<equiv> mo_local_memory_offset (vm_mem (ie_vm E)) (mc_memory t)"
  shows "input_range_fits E u (if fst rng < snd rng
    then (saturating_add (fst rng) p, saturating_add (snd rng) p) else rng)"
proof -
  have "length (mem_bytes (ie_vm E) t) \<le> length (mem_bytes (ie_vm E) u)"
    using reached_length [OF u] t by (simp add: reached_def)
  moreover have "mo_local_memory_offset (vm_mem (ie_vm E)) (mc_memory u) = p"
    using u by (simp add: reached_def p_def)
  ultimately show ?thesis
    using rng by (cases rng)
      (force simp: input_range_fits_def return_range_fits_def word_less_nat_alt p_def)
qed

lemma wp_call_ranges:
  assumes E: "env_ok E" and s: "machine_wf (ie_vm E) s"
    and Q: "\<And>inp out t. reached E s t \<Longrightarrow> input_range_fits E t inp \<Longrightarrow> return_range_fits E t out \<Longrightarrow> Q (inp, out) t"
  shows "wp (monad_get_memory_input_and_out_ranges E) Q s"
proof -
  let ?place = "\<lambda>t. mo_local_memory_offset (vm_mem (ie_vm E)) (mc_memory t)"
  let ?moved = "\<lambda>p rng. if fst rng < snd rng
    then (saturating_add (fst rng) p, saturating_add (snd rng) p) else rng"
  have step: "Q (?moved (?place t) rng, out) u"
    if "reached E s t" "return_range_fits E t rng" "reached E t u" "return_range_fits E u out" for rng out t u
    using that moved_input_fits [OF that(1-3)] reached_trans by (intro Q) blast+
  show ?thesis
    unfolding monad_get_memory_input_and_out_ranges_def wp_bindc
  proof (rule wp_popn [OF E])
    fix k
    let ?s = "s\<lparr>in_stack := k\<rparr>"
    have s': "machine_wf (ie_vm E) ?s" using s by (simp add: machine_wf_def)
    have rs: "reached E s t" if "reached E ?s t" for t
      using that by (simp add: reached_def)
    show "wp (monad_call_resize_memory E (take 4 (stack_items E s) ! 0) (take 4 (stack_items E s) ! 1))
       (\<lambda>x. wp (reads (\<lambda>s. ?place s))
             (\<lambda>xa. wp (let in_range = ?moved xa x
                        in bindc (monad_call_resize_memory E (take 4 (stack_items E s) ! 2)
                                   (take 4 (stack_items E s) ! 3))
                            (\<lambda>ret_range. ret (in_range, ret_range)))
                    Q)) ?s"
    proof (rule wp_call_resize [OF E s'])
      fix rng t
      assume t: "reached E ?s t" and rng: "return_range_fits E t rng"
      have wf: "machine_wf (ie_vm E) t" using t by (simp add: reached_def)
      show "wp (reads (\<lambda>s. ?place s))
             (\<lambda>xa. wp (let in_range = ?moved xa rng
                        in bindc (monad_call_resize_memory E (take 4 (stack_items E s) ! 2)
                                   (take 4 (stack_items E s) ! 3))
                            (\<lambda>ret_range. ret (in_range, ret_range)))
                    Q) t"
        unfolding Let_def wp_reads wp_bindc
        by (rule wp_call_resize [OF E wf]) (use step [OF rs [OF t] rng] in \<open>simp add: wp_ret\<close>)
    qed
  qed
qed

lemma handled_calls:
  assumes E: "env_ok E" and wf: "machine_wf (ie_vm E) s"
  shows "wp (call_op E) (\<lambda>_. handled E s) s" and "wp (call_code E) (\<lambda>_. handled E s) s"
    and "wp (delegate_call E) (\<lambda>_. handled E s) s" and "wp (static_call E) (\<lambda>_. handled E s) s"
proof -
  have s: "reached E s s" using wf by (rule reached_refl)
  have wf': "machine_wf (ie_vm E) (s\<lparr>in_stack := k\<rparr>)" for k using wf by (simp add: machine_wf_def)
  have ranges: "wp (monad_get_memory_input_and_out_ranges E) Q (s\<lparr>in_stack := k\<rparr>)"
    if "\<And>inp out t. reached E s t \<Longrightarrow> in_is_static t = in_is_static s \<Longrightarrow>
      input_range_fits E t inp \<Longrightarrow> return_range_fits E t out \<Longrightarrow> Q (inp, out) t"
    for k Q
  proof (rule wp_call_ranges [OF E wf'])
    fix inp out t
    assume "reached E (s\<lparr>in_stack := k\<rparr>) t"
    then have "reached E s t" and "in_is_static t = in_is_static s" by (simp_all add: reached_def)
    then show "input_range_fits E t inp \<Longrightarrow> return_range_fits E t out \<Longrightarrow> Q (inp, out) t"
      by (rule that)
  qed
  have keep: "input_range_fits E (t\<lparr>mc_gas := g, in_host := h\<rparr>) rng = input_range_fits E t rng"
    "return_range_fits E (t\<lparr>mc_gas := g, in_host := h\<rparr>) rng = return_range_fits E t rng" for t g h rng
    by (simp_all add: input_range_fits_def return_range_fits_def)
  note rules = wp_popn [OF E] ranges wp_load_acc [OF E, where start = s] handled_action
  note facts = wp_simps Let_def reached_simps s action_fits_def keep
  show "wp (call_op E) (\<lambda>_. handled E s) s"
    unfolding call_op_def by (auto simp: facts intro!: rules)
  show "wp (call_code E) (\<lambda>_. handled E s) s"
    unfolding call_code_def by (auto simp: facts intro!: rules)
  show "wp (delegate_call E) (\<lambda>_. handled E s) s"
    unfolding delegate_call_def by (auto simp: facts intro!: rules)
  show "wp (static_call E) (\<lambda>_. handled E s) s"
    unfolding static_call_def by (auto simp: facts intro!: rules)
qed

lemma handled_create:
  assumes E: "env_ok E" and "machine_wf (ie_vm E) s"
  shows "wp (create_op E c2) (\<lambda>_. handled E s) s"
proof -
  have s: "reached E s s" using assms(2) by (rule reached_refl)
  note rules = wp_popn [OF E] wp_resize [OF E, where start = s] wp_use_gas [OF E, where start = s]
  note facts = wp_simps reached_simps memory_read [OF E] s
  have fin: "handled E s (u\<lparr>in_action := Some (ActionCreate c)\<rparr>)"
    if "reached E s u" and "\<not> in_is_static s" for u c
    using that by (intro handled_action) (auto simp: action_fits_def reached_def)
  have fin': "handled E s (u\<lparr>mc_gas := g, in_stack := k, in_action := Some (ActionCreate c)\<rparr>)"
    if "reached E s (u\<lparr>mc_gas := g\<rparr>)" and "\<not> in_is_static s" for u c g k
    using that by (intro fin) (auto simp: reached_def machine_wf_def)
  show ?thesis
    unfolding create_op_def Let_def
    by (auto simp: facts intro!: rules fin fin')
qed

end
