(* ===== verification/Mip3.thy ===== *)
theory Mip3
  imports Opcodes
begin

text \<open>
  The instruction table as a whole: what holds of every opcode that MIP-3 replaces, the prices, and
  the round trip of MSTORE and MLOAD.
\<close>

section \<open>Every handler\<close>

lemma monad_instructions_eq:
  assumes "is_enabled_in MonadNine spec"
  shows "monad_instructions E eth spec opcode =
    (case map_of (rev (mip3_instructions E)) opcode of Some i \<Rightarrow> i | None \<Rightarrow> eth (into_eth_spec spec) opcode)"
proof -
  have "fold (\<lambda>(opcode, instruction) table. table(opcode := instruction)) xs table opcode
      = (case map_of (rev xs) opcode of Some i \<Rightarrow> i | None \<Rightarrow> table opcode)" for xs table
    by (induction xs arbitrary: table) (auto simp: map_add_def split: option.splits)
  with assms show ?thesis by (simp add: monad_instructions_def Let_def)
qed

lemma mip3_opcode_handled:
  assumes "env_ok E" and "machine_wf (ie_vm E) s" and "is_enabled_in MonadNine spec"
    and "opcode \<in> set mip3_opcodes"
  shows "wp (fst (monad_instructions E eth spec opcode)) (\<lambda>_. handled E s) s"
proof -
  note h = handled_memory [OF assms(1,2)] handled_copy [OF assms(1,2)] handled_calls [OF assms(1,2)]
    handled_create [OF assms(1,2)]
  have r: "wp (ret_op E) (\<lambda>_. handled E s) s" "wp (revert_op E) (\<lambda>_. handled E s) s"
    using handled_return [OF assms(1) reached_refl [OF assms(2)]]
    by (simp_all add: ret_op_def revert_op_def wp_simps)
  show ?thesis
    using assms(4) unfolding monad_instructions_eq [OF assms(3)]
    by (auto simp: mip3_opcodes_def mip3_instructions_def h r)
qed

lemma handled_cases:
  assumes "env_ok E" and "machine_wf (ie_vm E) s" and "is_enabled_in MonadNine spec"
    and "opcode \<in> set mip3_opcodes" and "fst (monad_instructions E eth spec opcode) s = (r, t)"
  obtains (halted) h where "r = Inl (Halted h)"
  | (finished) u where "r = Inr ()" "reached E s u" "t = u"
  | (action) u a where "r = Inr ()" "reached E s u" "t = u\<lparr>in_action := Some a\<rparr>" "action_fits E u a"
  using wpD [OF mip3_opcode_handled [OF assms(1-4)] assms(5)] by (auto simp: handled_def)

text \<open>The fields an action does not touch.\<close>

lemma action_update [simp]:
  "machine_wf V (u\<lparr>in_action := a\<rparr>) = machine_wf V u"
  "input_range_fits E (u\<lparr>in_action := a\<rparr>) = input_range_fits E u"
  "return_range_fits E (u\<lparr>in_action := a\<rparr>) = return_range_fits E u"
  by (simp_all add: machine_wf_def input_range_fits_def return_range_fits_def)

section \<open>Properties\<close>

text \<open>C10: From a well-formed machine, none of the opcodes that MIP-3 replaces panics or does
  anything undefined. It halts, or it returns with a well-formed machine whose memory has not
  shrunk and whose gas has paid at least for the growth.\<close>

theorem mip3_opcodes_safe:
  assumes "env_ok E" and "machine_wf (ie_vm E) s" and "is_enabled_in MonadNine spec"
    and "opcode \<in> set mip3_opcodes" and "fst (monad_instructions E eth spec opcode) s = (r, t)"
  shows "(\<exists>h. r = Inl (Halted h)) \<or>
    (r = Inr () \<and> machine_wf (ie_vm E) t \<and> mem_words s \<le> mem_words t
     \<and> gas_left t + mem_words t div 2 \<le> gas_left s + mem_words s div 2)"
  by (cases rule: handled_cases [OF assms]) (auto simp: reached_def)

text \<open>C26: A static frame stays static. Under MIP-3 its LOG and CREATE opcodes halt before they
  touch anything; any other replaced opcode that returns leaves the pending action as it was,
  or a return, or a static call that moves no money to another account.\<close>

theorem static_frames_stay_static:
  assumes "env_ok E" and "machine_wf (ie_vm E) s" and "is_enabled_in MonadNine spec"
    and "opcode \<in> set mip3_opcodes" and "fst (monad_instructions E eth spec opcode) s = (r, t)"
    and "in_is_static s"
  shows "(opcode \<in> {0xa0, 0xa1, 0xa2, 0xa3, 0xa4, 0xf0, 0xf5} \<longrightarrow>
      r = Inl (Halted StateChangeDuringStaticCall) \<and> t = s) \<and>
    (r = Inr () \<longrightarrow> in_is_static t \<and> (in_action t = in_action s \<or>
      (\<exists>result out gas. in_action t = Some (ActionReturn result out gas)) \<or>
      (\<exists>c. in_action t = Some (ActionCall c) \<and> nc_is_static c \<and>
        (nc_value c = Transfer 0 \<or> nc_target_address c = nc_caller c \<or> nc_scheme c = DelegateCall))))"
proof (intro conjI impI)
  have halt: "bindc require_non_staticcall f s = (Inl (Halted StateChangeDuringStaticCall), s)"
    for f :: "unit \<Rightarrow> ('a, 'b, 'c, unit) iop"
    using assms(6) by (simp add: require_non_staticcall_def bindc_def reads_def halt_def)
  assume "opcode \<in> {0xa0, 0xa1, 0xa2, 0xa3, 0xa4, 0xf0, 0xf5}"
  then have "r = Inl (Halted StateChangeDuringStaticCall) \<and> t = s"
    using assms(5) unfolding monad_instructions_eq [OF assms(3)]
    by (auto simp: mip3_instructions_def log_op_def create_op_def halt)
  then show "r = Inl (Halted StateChangeDuringStaticCall)" and "t = s" by simp_all
next
  assume "r = Inr ()"
  then have "in_is_static t \<and> (in_action t = in_action s \<or>
      (\<exists>result out gas. in_action t = Some (ActionReturn result out gas)) \<or>
      (\<exists>c. in_action t = Some (ActionCall c) \<and> nc_is_static c \<and>
        (nc_value c = Transfer 0 \<or> nc_target_address c = nc_caller c \<or> nc_scheme c = DelegateCall)))"
    using assms(6)
    by (cases rule: handled_cases [OF assms(1-5)])
      (auto simp: reached_def action_fits_def split: interp_action.splits)
  then show "in_is_static t" and "in_action t = in_action s \<or>
      (\<exists>result out gas. in_action t = Some (ActionReturn result out gas)) \<or>
      (\<exists>c. in_action t = Some (ActionCall c) \<and> nc_is_static c \<and>
        (nc_value c = Transfer 0 \<or> nc_target_address c = nc_caller c \<or> nc_scheme c = DelegateCall))"
    by simp_all
qed

text \<open>C27: The memory ranges a call hands to the frame loop exist: a non-empty return range lies in
  the caller's memory, and a non-empty input range is such a range moved to the frame's place in
  the shared buffer.\<close>

theorem call_ranges_in_memory:
  assumes "env_ok E" and "machine_wf (ie_vm E) s" and "is_enabled_in MonadNine spec"
    and "opcode \<in> set mip3_opcodes"
    and "fst (monad_instructions E eth spec opcode) s = (Inr (), t)"
    and "in_action s = None" and "in_action t = Some (ActionCall c)"
  shows "input_range_fits E t (nc_input c) \<and> return_range_fits E t (nc_return_memory_offset c)"
  using assms(6,7)
  by (cases rule: handled_cases [OF assms(1-5)]) (auto simp: reached_def action_fits_def)

text \<open>On every hardfork a cold storage access costs 8100 and a cold account access 10100 in
  all, the warm hundred included, and no other gas parameter differs from Ethereum's; and the
  table differs from Ethereum's exactly at the MIP-3 opcodes, from MonadNine on.\<close>

theorem monad_repricing:
  "monad_gas_params new_spec spec cold_storage_cost = 8100
   \<and> monad_gas_params new_spec spec cold_storage_additional_cost + WARM_STORAGE_READ_COST = 8100
   \<and> monad_gas_params new_spec spec cold_account_additional_cost + WARM_STORAGE_READ_COST = 10100
   \<and> monad_gas_params new_spec spec warm_storage_read_cost
       = new_spec (into_eth_spec spec) warm_storage_read_cost
   \<and> monad_gas_params new_spec spec (other_gas_id n) = new_spec (into_eth_spec spec) (other_gas_id n)
   \<and> monad_instructions E eth spec opcode
       = (if spec \<noteq> MonadEight \<and> opcode \<in> set mip3_opcodes
          then the (map_of (mip3_instructions E) opcode) else eth (into_eth_spec spec) opcode)"
proof -
  have keys: "map_of (mip3_instructions E) opcode = None \<longleftrightarrow> opcode \<notin> set mip3_opcodes"
    by (simp add: map_of_eq_None_iff mip3_instructions_def mip3_opcodes_def)
  have "distinct (map fst (mip3_instructions E))" by (simp add: mip3_instructions_def)
  then have rev: "map_of (rev (mip3_instructions E)) = map_of (mip3_instructions E)"
    by (intro map_of_inject_set [THEN iffD2]) (simp_all add: rev_map [symmetric])
  have "monad_instructions E eth spec opcode
       = (if spec \<noteq> MonadEight \<and> opcode \<in> set mip3_opcodes
          then the (map_of (mip3_instructions E) opcode) else eth (into_eth_spec spec) opcode)"
  proof (cases "spec = MonadEight")
    case True
    then show ?thesis by (simp add: monad_instructions_def Let_def)
  next
    case False
    then have "is_enabled_in MonadNine spec" by simp
    note eq = monad_instructions_eq [OF this, of E eth opcode]
    show ?thesis
      using False keys by (cases "map_of (mip3_instructions E) opcode") (simp_all add: eq rev)
  qed
  then show ?thesis
    by (simp add: monad_gas_params_def override_gas_def Let_def COLD_SLOAD_COST_def
        COLD_ACCOUNT_ACCESS_COST_def WARM_STORAGE_READ_COST_def)
qed

section \<open>Storing and loading\<close>

lemma resize_covered:
  assumes "vm_ok V" and "machine_wf V s"
    and "\<not> mo_limit_reached (vm_mem V) offset len (mc_memory s)"
    and "words_needed offset len \<le> mem_words s"
  shows "monad_resize_memory V offset len s = (Inr (), s)"
  using assms unat_num_words [OF assms(1)]
  by (simp add: monad_resize_memory_def Let_def word_less_nat_alt)

lemma resized_covers: "resized V offset len s t \<Longrightarrow> unat offset + unat len \<le> length (mem_bytes V t)"
  unfolding resized_def by blast

lemma mstore_run:
  assumes E: "env_ok E" and s: "machine_wf (ie_vm E) s"
    and items: "stack_items E s = offset # value # rest" and run: "mstore E s = (Inr (), t)"
  obtains k u where "unat offset < 2 ^ 64"
    "resized (ie_vm E) (ucast offset) 32 (s\<lparr>in_stack := k\<rparr>) u"
    "\<not> mo_limit_reached (vm_mem (ie_vm E)) (ucast offset) 32 (mc_memory s)"
    "\<exists>m. t = u\<lparr>mc_memory := m\<rparr> \<and> same_place (vm_mem (ie_vm E)) (mc_memory u) m \<and>
      mo_bytes (vm_mem (ie_vm E)) m = write_at (unat (ucast offset :: usize)) (to_be_bytes 32 value) (mem_bytes (ie_vm E) u)"
proof -
  have V: "vm_ok (ie_vm E)" using E by (simp add: env_ok_def)
  have "\<exists>k. sk_popn (ie_stack E) 2 (in_stack s) = Some ([offset, value], k)"
    using stack_laws(2) [OF E, of 2 "in_stack s"] items by auto
  then obtain k where k: "sk_popn (ie_stack E) 2 (in_stack s) = Some ([offset, value], k)" by blast
  have off: "unat offset < 2 ^ 64"
    using run k by (auto simp: mstore_def popn_def bindc_def as_usize_or_fail_def halt_def Let_def split: if_splits)
  let ?s = "s\<lparr>in_stack := k\<rparr>"
  have wf: "machine_wf (ie_vm E) ?s" using s by (simp add: machine_wf_def)
  have go: "bindc (monad_resize_memory (ie_vm E) (ucast offset) 32)
      (\<lambda>_. mem_write (mo_set (vm_mem (ie_vm E)) (ucast offset) (to_be_bytes 32 value))) ?s = (Inr (), t)"
    using run k off by (simp add: mstore_def popn_def as_usize_or_fail_def Let_def bindc_ok)
  show thesis
  proof (rule resize_cases [OF V wf, of "ucast offset" 32])
    fix u
    assume ok: "monad_resize_memory (ie_vm E) (ucast offset) 32 ?s = (Inr (), u)"
      "resized (ie_vm E) (ucast offset) 32 ?s u"
    have bound: "unat (ucast offset :: usize) + length (to_be_bytes 32 value) \<le> length (mem_bytes (ie_vm E) u)"
      using resized_covers [OF ok(2)] by simp
    from memory_writes(1) [OF E bound] ok(1) go
    have "\<exists>m. t = u\<lparr>mc_memory := m\<rparr> \<and> same_place (vm_mem (ie_vm E)) (mc_memory u) m \<and>
      mo_bytes (vm_mem (ie_vm E)) m = write_at (unat (ucast offset :: usize)) (to_be_bytes 32 value) (mem_bytes (ie_vm E) u)"
      by (auto simp: writes_at_def mem_write_def bindc_ok)
    moreover have "\<not> mo_limit_reached (vm_mem (ie_vm E)) (ucast offset) 32 (mc_memory s)"
      using ok(1) by (auto simp: monad_resize_memory_def)
    ultimately show thesis using that off ok(2) by blast
  qed (use go in \<open>simp_all add: bindc_def\<close>)
qed

text \<open>C28: What MSTORE stored, MLOAD loads: after a successful MSTORE, a MLOAD of the same offset
  succeeds, costs no memory and puts the stored word on the stack.\<close>

theorem mstore_mload_roundtrip:
  assumes "env_ok E" and "machine_wf (ie_vm E) s"
    and "stack_items E s = offset # value # rest" and "mstore E s = (Inr (), t)"
    and "sk_items (ie_stack E) k = offset # rest'"
  shows "\<exists>u. mload E (t\<lparr>in_stack := k\<rparr>) = (Inr (), u) \<and> stack_items E u = value # rest'
    \<and> mc_gas u = mc_gas t \<and> mc_memory u = mc_memory t"
proof -
  let ?o = "ucast offset :: usize" and ?M = "vm_mem (ie_vm E)"
  obtain k0 v where off: "unat offset < 2 ^ 64" and v: "resized (ie_vm E) ?o 32 (s\<lparr>in_stack := k0\<rparr>) v"
    and limit: "\<not> mo_limit_reached ?M ?o 32 (mc_memory s)"
    and m: "\<exists>m. t = v\<lparr>mc_memory := m\<rparr> \<and> same_place ?M (mc_memory v) m
      \<and> mo_bytes ?M m = write_at (unat ?o) (to_be_bytes 32 value) (mem_bytes (ie_vm E) v)"
    by (rule mstore_run [OF assms(1-4)])
  from m obtain m where t: "t = v\<lparr>mc_memory := m\<rparr>" and place: "same_place ?M (mc_memory v) m"
    and bytes: "mo_bytes ?M m = write_at (unat ?o) (to_be_bytes 32 value) (mem_bytes (ie_vm E) v)"
    by blast
  have V: "vm_ok (ie_vm E)" using assms(1) by (simp add: env_ok_def)
  have cov: "unat ?o + 32 \<le> length (mem_bytes (ie_vm E) v)" using resized_covers [OF v] by simp
  have len: "length (mo_bytes ?M m) = length (mem_bytes (ie_vm E) v)"
    using cov by (simp add: bytes length_write_at)
  let ?u = "t\<lparr>in_stack := k\<rparr>"
  have wf: "machine_wf (ie_vm E) ?u"
  proof -
    have "machine_wf (ie_vm E) v" using v by (simp add: resized_def)
    then show ?thesis using len by (simp add: t machine_wf_def)
  qed
  obtain k1 where top: "sk_popn_top (ie_stack E) 0 k = Some (([], offset), k1)"
    and k1: "sk_items (ie_stack E) k1 = offset # rest'"
    using stack_laws(4) [OF assms(1), of 0 k] assms(5) by auto
  have set: "sk_items (ie_stack E) (sk_set_top (ie_stack E) value k1) = value # rest'"
    using stack_laws(5) [OF assms(1), of k1] k1 by simp
  let ?w = "t\<lparr>in_stack := k1\<rparr>"
  have wf': "machine_wf (ie_vm E) ?w" using wf by (simp add: machine_wf_def)
  have words: "words_needed ?o 32 \<le> mem_words ?w" using v by (simp add: resized_def t)
  have nolimit: "\<not> mo_limit_reached ?M ?o 32 (mc_memory ?w)"
    using limit v place by (simp add: resized_def same_place_def t)
  note resize = resize_covered [OF V wf' nolimit words]
  have covered: "covered E ?w ?o 32" using cov len by (simp add: covered_def t)
  have read: "mo_slice_len ?M ?o 32 (mc_memory ?w) = Some (to_be_bytes 32 value)"
    using memory_read [OF assms(1) covered] cov by (simp add: t bytes write_at_def)
  have "mload E ?u = (Inr (), t\<lparr>in_stack := sk_set_top (ie_stack E) value k1\<rparr>)"
    using off top resize read
    by (simp add: mload_def popn_top_def as_usize_or_fail_def bindc_def mem_read_def set_top_def
        from_to_be_bytes)
  with set show ?thesis by simp
qed


section \<open>A concrete frame for the witnesses\<close>

definition list_stack :: "u256 list stack_ops" where
  "list_stack = \<lparr>sk_items = (\<lambda>k. k),
     sk_popn = (\<lambda>n k. if length k < n then None else Some (take n k, drop n k)),
     sk_popn_top = (\<lambda>n k. if length k \<le> n then None else Some ((take n k, k ! n), drop n k)),
     sk_set_top = (\<lambda>v k. v # tl k)\<rparr>"

definition plain_env :: "(bytes, u256 list, evm_log list) inst_env" where
  "plain_env = \<lparr>ie_vm = list_vm, ie_stack = list_stack, ie_enabled = (\<lambda>f. True),
     ie_copy_cost = (\<lambda>n. 3), ie_mcopy_cost = (\<lambda>n. 3), ie_keccak256_cost = (\<lambda>n. 6),
     ie_extcodecopy_cost = (\<lambda>n. 3), ie_log_cost = (\<lambda>n l. 375), ie_initcode_cost = (\<lambda>n. 2),
     ie_create2_cost = (\<lambda>n. 32000), ie_create_cost = 32000,
     ie_call_stipend_reduction = (\<lambda>g. g - g div 64), ie_max_initcode_size = 0x40000,
     ie_keccak256 = (\<lambda>bs. bs),
     ie_load_acc_and_calc_gas = (\<lambda>a transfer_value create_cost g. ret (g, [], [])),
     ie_berlin_load_account = (\<lambda>a load_code. ret (Some [])),
     ie_load_account_code = (\<lambda>a h. (Some [], h)), ie_log = (\<lambda>l h. l # h)\<rparr>"

definition plain_frame :: "u256 list \<Rightarrow> bool \<Rightarrow> (bytes, u256 list, evm_log list) interp" where
  "plain_frame k static = \<lparr>mc_gas = \<lparr>ig_limit = 100, ig_remaining = 100,
     ig_memory = \<lparr>words_num = 0, expansion_cost = 0\<rparr>\<rparr>, mc_memory = [],
     in_stack = k, in_return_data = [], in_input = InputBytes [], in_code = [],
     in_target_address = 7, in_caller = 9, in_call_value = 0, in_is_static = static,
     in_action = None, in_host = []\<rparr>"

lemma plain_env_vm: "ie_vm plain_env = list_vm"
  by (simp add: plain_env_def)

lemma plain_env_ok: "env_ok plain_env"
proof -
  have "spends s s" for s :: "(bytes, u256 list, evm_log list) interp"
    unfolding spends_def by (intro exI [of _ "ig_remaining (mc_gas s)"] exI [of _ "in_host s"]) simp
  then show ?thesis
    by (simp add: env_ok_def plain_env_def list_vm_ok stack_ok_def list_stack_def halts_or_def)
qed

lemma plain_frame_wf: "machine_wf (ie_vm plain_env) (plain_frame k st)"
  by (simp add: machine_wf_def plain_frame_def plain_env_def list_vm_def list_memory_def monad_memory_cost_def)

text \<open>A RETURN of 32 bytes at 64, and a CALL from a static frame.\<close>

theorem mip3_opcodes_safe_witness:
  "\<exists>r t. fst (monad_instructions plain_env (\<lambda>_ _. (ret (), 0)) MonadNine 0xf3) (plain_frame [64, 32] False) = (r, t)
     \<and> ((\<exists>h. r = Inl (Halted h)) \<or> (r = Inr () \<and> machine_wf (ie_vm plain_env) t))"
proof -
  obtain r t where run: "fst (monad_instructions plain_env (\<lambda>_ _. (ret (), 0)) MonadNine 0xf3)
      (plain_frame [64, 32] False) = (r, t)"
    by fastforce
  from mip3_opcodes_safe [OF plain_env_ok plain_frame_wf _ _ run] run show ?thesis
    by (auto simp: mip3_opcodes_def)
qed

theorem static_frames_stay_static_witness:
  "fst (monad_instructions plain_env (\<lambda>_ _. (ret (), 0)) MonadNine 0xf0) (plain_frame [0, 0, 0] True)
     = (Inl (Halted StateChangeDuringStaticCall), plain_frame [0, 0, 0] True)"
proof -
  obtain r t where run: "fst (monad_instructions plain_env (\<lambda>_ _. (ret (), 0)) MonadNine 0xf0)
      (plain_frame [0, 0, 0] True) = (r, t)"
    by fastforce
  have "in_is_static (plain_frame [0, 0, 0] True)" by (simp add: plain_frame_def)
  from static_frames_stay_static [OF plain_env_ok plain_frame_wf _ _ run this] run show ?thesis
    by (simp add: mip3_opcodes_def)
qed

text \<open>A call with 32 bytes of input and 32 bytes of output.\<close>

definition call_frame :: "(bytes, u256 list, evm_log list) interp" where
  "call_frame = plain_frame [50, 5, 0, 0, 32, 64, 32] False"

lemma call_frame_run:
  "\<exists>t c. call_op plain_env call_frame = (Inr (), t) \<and> in_action t = Some (ActionCall c)
     \<and> nc_return_memory_offset c = (64, 96)"
  by (simp add: call_op_def call_frame_def plain_frame_def plain_env_def popn_def list_stack_def
      bindc_def reads_def monad_get_memory_input_and_out_ranges_def monad_call_resize_memory_def
      as_usize_or_fail_def monad_resize_memory_def monad_resize_memory_cold_def list_vm_def
      list_memory_def plain_meter_def set_action_def u64_or_max_def into_address_def Let_def
      saturating_add_def monad_memory_cost_def checked_sub_def)


theorem call_ranges_in_memory_witness:
  "\<exists>t c. fst (monad_instructions plain_env (\<lambda>_ _. (ret (), 0)) MonadNine 0xf1) call_frame = (Inr (), t)
     \<and> in_action t = Some (ActionCall c) \<and> nc_return_memory_offset c = (64, 96)
     \<and> 96 \<le> length (mem_bytes list_vm t)"
proof -
  obtain t c where run: "call_op plain_env call_frame = (Inr (), t)" "in_action t = Some (ActionCall c)"
      "nc_return_memory_offset c = (64, 96)"
    using call_frame_run by blast
  have table: "fst (monad_instructions plain_env (\<lambda>_ _. (ret (), 0)) MonadNine 0xf1) = call_op plain_env"
    by (simp add: monad_instructions_eq mip3_instructions_def)
  have go: "fst (monad_instructions plain_env (\<lambda>_ _. (ret (), 0)) MonadNine 0xf1) call_frame = (Inr (), t)"
    by (simp add: table run)
  have "in_action call_frame = None" and "machine_wf (ie_vm plain_env) call_frame"
    by (simp_all add: call_frame_def plain_frame_wf) (simp add: plain_frame_def)
  then have "return_range_fits plain_env t (nc_return_memory_offset c)"
    using call_ranges_in_memory [OF plain_env_ok, of call_frame MonadNine "0xf1"] run(2) go
    by (auto simp: mip3_opcodes_def)
  then show ?thesis
    using run go by (intro exI [of _ t] exI [of _ c]) (simp add: return_range_fits_def plain_env_vm)
qed

lemma mstore_example_run:
  "\<exists>t. mstore plain_env (plain_frame [64, 42] False) = (Inr (), t)"
  by (simp add: mstore_def plain_frame_def plain_env_def popn_def list_stack_def bindc_def
      as_usize_or_fail_def monad_resize_memory_def monad_resize_memory_cold_def list_vm_def
      list_memory_def plain_meter_def mem_write_def Let_def saturating_add_def
      monad_memory_cost_def checked_sub_def)

theorem mstore_mload_roundtrip_witness:
  "\<exists>t u. mstore plain_env (plain_frame [64, 42] False) = (Inr (), t)
     \<and> mload plain_env (t\<lparr>in_stack := [64]\<rparr>) = (Inr (), u) \<and> in_stack u = [42]"
proof -
  obtain t where run: "mstore plain_env (plain_frame [64, 42] False) = (Inr (), t)"
    using mstore_example_run by blast
  have items: "stack_items plain_env (plain_frame [64, 42] False) = [64, 42]"
    "sk_items (ie_stack plain_env) k = k" for k
    by (simp_all add: plain_env_def list_stack_def plain_frame_def)
  show ?thesis
    using mstore_mload_roundtrip [OF plain_env_ok plain_frame_wf items(1) run items(2)] run
    by (auto simp: items)
qed

end
