(* ===== verification/Evm.thy ===== *)
theory Evm
  imports TxHandler Backend Mip3
begin

text \<open>
  The EVM as it is put together: \<open>MonadEvm\<close> of \<open>evm.rs\<close>, the default context of
  \<open>api/default_ctx.rs\<close>, the builder of \<open>api/builder.rs\<close>, and the interface of \<open>api/exec.rs\<close>, through
  which blocks and transactions are run.

  \<open>Handler::run\<close> and its variants are revm's and a parameter: they call the stages that the
  handler overrides (\<open>monad_handler\<close>) in the documented order (\<open>evm_runs_ok\<close>). The frame loop, the
  local context, the frame stack and the inspector are values of revm's.
\<close>

section \<open>The context\<close>

record ('g, 'j, 'l, 'e) evm_context =
  cx_block :: block_env
  cx_tx :: transaction
  cx_cfg :: "'g cfg_env"
  cx_journaled_state :: "'j MonadJournal"
  cx_chain :: MonadChainContext
  cx_local :: 'l
  cx_error :: 'e

text \<open>The defaults of revm's types that a context is filled with.\<close>

record ('g, 'l, 'e) context_defaults =
  df_block :: block_env
  df_tx :: transaction
  df_new_cfg :: "'g new_cfg"
  df_gas_params :: "MonadSpecId \<Rightarrow> 'g"
  df_local :: 'l
  df_no_error :: 'e

definition monad_context_with_db ::
    "('j, 'x) journal_ops \<Rightarrow> ('d, 'j) journal_db \<Rightarrow> ('g, 'l, 'e) context_defaults \<Rightarrow> 'd \<Rightarrow>
     ('g, 'j, 'l, 'e) evm_context" where
  "monad_context_with_db I D f db =
     (let journaled_state = mj_new D db;
          journaled_state = mj_set_spec_id I (into_eth_spec MonadSpecId_default) journaled_state
      in \<lparr>cx_block = df_block f, cx_tx = df_tx f, cx_cfg = cfg_new (df_new_cfg f) (df_gas_params f),
          cx_journaled_state = journaled_state, cx_chain = MonadChainContext_default,
          cx_local = df_local f, cx_error = df_no_error f\<rparr>)"

definition monad ::
    "('j, 'x) journal_ops \<Rightarrow> ('d, 'j) journal_db \<Rightarrow> ('g, 'l, 'e) context_defaults \<Rightarrow> 'd \<Rightarrow>
     ('g, 'j, 'l, 'e) evm_context" where
  "monad I D f empty_db = monad_context_with_db I D f empty_db"

section \<open>MonadEvm (evm.rs)\<close>

record ('c, 'i, 'n, 'p, 'f) evm =
  ev_ctx :: 'c
  ev_inspector :: 'i
  ev_instruction :: 'n
  ev_precompiles :: 'p
  ev_frame_stack :: 'f

text \<open>What an EVM is made from besides its context: the environment of the opcodes, Ethereum's
  instruction tables, the foreign code of the precompiles, and the allocation of a frame stack.\<close>

record ('m, 'k, 'h, 'f) parts =
  pt_inst :: "('m, 'k, 'h) inst_env"
  pt_table :: "SpecId \<Rightarrow> u8 \<Rightarrow> ('m, 'k, 'h) instruction"
  pt_foreign :: foreign
  pt_new_prealloc :: "nat \<Rightarrow> 'f"

type_synonym ('g, 'j, 'l, 'e, 'i, 'm, 'k, 'h, 'f) monad_evm =
  "(('g, 'j, 'l, 'e) evm_context, 'i, u8 \<Rightarrow> ('m, 'k, 'h) instruction, MonadPrecompiles, 'f) evm"

definition MonadEvm_new ::
    "('m, 'k, 'h, 'f) parts \<Rightarrow> ('g, 'j, 'l, 'e) evm_context \<Rightarrow> 'i \<Rightarrow>
     ('g, 'j, 'l, 'e, 'i, 'm, 'k, 'h, 'f) monad_evm" where
  "MonadEvm_new P cx insp =
     (let spec = spec_of (cx_cfg cx) in
      \<lparr>ev_ctx = cx, ev_inspector = insp,
       ev_instruction = monad_instructions (pt_inst P) (pt_table P) spec,
       ev_precompiles = new_with_spec (pt_foreign P) spec,
       ev_frame_stack = pt_new_prealloc P 8\<rparr>)"

definition with_inspector :: "'i2 \<Rightarrow> ('c, 'i, 'n, 'p, 'f) evm \<Rightarrow> ('c, 'i2, 'n, 'p, 'f) evm" where
  "with_inspector insp v =
     \<lparr>ev_ctx = ev_ctx v, ev_inspector = insp, ev_instruction = ev_instruction v,
      ev_precompiles = ev_precompiles v, ev_frame_stack = ev_frame_stack v\<rparr>"

definition with_precompiles :: "'p2 \<Rightarrow> ('c, 'i, 'n, 'p, 'f) evm \<Rightarrow> ('c, 'i, 'n, 'p2, 'f) evm" where
  "with_precompiles prec v =
     \<lparr>ev_ctx = ev_ctx v, ev_inspector = ev_inspector v, ev_instruction = ev_instruction v,
      ev_precompiles = prec, ev_frame_stack = ev_frame_stack v\<rparr>"

definition into_inspector :: "('c, 'i, 'n, 'p, 'f) evm \<Rightarrow> 'i" where
  "into_inspector v = ev_inspector v"

definition evm_all :: "('c, 'i, 'n, 'p, 'f) evm \<Rightarrow> 'c \<times> 'n \<times> 'p \<times> 'f" where
  "evm_all v = (ev_ctx v, ev_instruction v, ev_precompiles v, ev_frame_stack v)"

definition evm_all_inspector :: "('c, 'i, 'n, 'p, 'f) evm \<Rightarrow> 'c \<times> 'n \<times> 'p \<times> 'f \<times> 'i" where
  "evm_all_inspector v =
     (ev_ctx v, ev_instruction v, ev_precompiles v, ev_frame_stack v, ev_inspector v)"

text \<open>The frame operations are those of revm's Evm.\<close>

record ('v, 'q, 'fi, 'fr, 'ir) frame_ops =
  fo_frame_init :: "'fi \<Rightarrow> ('q, 'v, 'ir) fallible"
  fo_frame_run :: "('q, 'v, 'ir) fallible"
  fo_frame_return_result :: "'fr \<Rightarrow> ('q, 'v, 'fr option) fallible"

definition frame_init :: "('v, 'q, 'fi, 'fr, 'ir) frame_ops \<Rightarrow> 'fi \<Rightarrow> ('q, 'v, 'ir) fallible" where
  "frame_init O' frame_input = fo_frame_init O' frame_input"

definition frame_run :: "('v, 'q, 'fi, 'fr, 'ir) frame_ops \<Rightarrow> ('q, 'v, 'ir) fallible" where
  "frame_run O' = fo_frame_run O'"

definition frame_return_result ::
    "('v, 'q, 'fi, 'fr, 'ir) frame_ops \<Rightarrow> 'fr \<Rightarrow> ('q, 'v, 'fr option) fallible" where
  "frame_return_result O' result = fo_frame_return_result O' result"

section \<open>The builder (api/builder.rs)\<close>

definition build_monad ::
    "('m, 'k, 'h, 'f) parts \<Rightarrow> ('g, 'j, 'l, 'e) evm_context \<Rightarrow>
     ('g, 'j, 'l, 'e, unit, 'm, 'k, 'h, 'f) monad_evm" where
  "build_monad P cx = MonadEvm_new P cx ()"

definition build_monad_with_inspector ::
    "('m, 'k, 'h, 'f) parts \<Rightarrow> 'i \<Rightarrow> ('g, 'j, 'l, 'e) evm_context \<Rightarrow>
     ('g, 'j, 'l, 'e, 'i, 'm, 'k, 'h, 'f) monad_evm" where
  "build_monad_with_inspector P insp cx = MonadEvm_new P cx insp"

section \<open>The handler over an EVM (handler.rs)\<close>

definition journal_of :: "(('g, 'j, 'l, 'e) evm_context, 'i, 'n, 'p, 'f) evm \<Rightarrow> 'j MonadJournal" where
  "journal_of v = cx_journaled_state (ev_ctx v)"

definition set_journal ::
    "'j MonadJournal \<Rightarrow> (('g, 'j, 'l, 'e) evm_context, 'i, 'n, 'p, 'f) evm \<Rightarrow>
     (('g, 'j, 'l, 'e) evm_context, 'i, 'n, 'p, 'f) evm" where
  "set_journal j v = v\<lparr>ev_ctx := (ev_ctx v)\<lparr>cx_journaled_state := j\<rparr>\<rparr>"

text \<open>The stages of a transaction that a handler may override.\<close>

record ('v, 'q) handler_stages =
  hs_validate_env :: "('q, 'v, unit) fallible"
  hs_pre_execution :: "('q, 'v, u64) fallible"
  hs_refund :: "frame_gas \<Rightarrow> int \<Rightarrow> frame_gas"
  hs_reimburse_caller :: "frame_gas \<Rightarrow> ('q, 'v, unit) fallible"
  hs_reward_beneficiary :: "frame_gas \<Rightarrow> ('q, 'v, unit) fallible"

text \<open>A stage that works on the journal of the context; its error is one of the mainnet's.\<close>

definition on_journal ::
    "('j MonadJournal \<Rightarrow> ('x + 'a) \<times> 'j MonadJournal) \<Rightarrow>
     ('x tx_error, (('g, 'j, 'l, 'e) evm_context, 'i, 'n, 'p, 'f) evm, 'a) fallible" where
  "on_journal stage v = (case stage (journal_of v) of
     (Inl e, j) \<Rightarrow> (Inl (Mainnet e), set_journal j v)
   | (Inr a, j) \<Rightarrow> (Inr a, set_journal j v))"

text \<open>\<open>M\<close> gives the mainnet handler's stages in a context.\<close>

definition monad_handler ::
    "('j, 'x) journal_ops \<Rightarrow> (('g, 'j, 'l, 'e) evm_context \<Rightarrow> ('j, 'x) mainnet) \<Rightarrow>
     ((('g, 'j, 'l, 'e) evm_context, 'i, 'n, 'p, 'f) evm, 'x tx_error) handler_stages" where
  "monad_handler I M = \<lparr>
     hs_validate_env = (\<lambda>v. let c = ev_ctx v in
       (validate_env (M c) (spec_of (cx_cfg c)) (cx_tx c), v)),
     hs_pre_execution = (\<lambda>v. let c = ev_ctx v in
       on_journal (pre_execution I (M c) (cx_chain c) (spec_of (cx_cfg c)) (cx_block c) (cx_tx c)) v),
     hs_refund = refund,
     hs_reimburse_caller = (\<lambda>gas. on_journal (reimburse_caller gas)),
     hs_reward_beneficiary = (\<lambda>gas v. let c = ev_ctx v in
       on_journal (reward_beneficiary I (M c) (spec_of (cx_cfg c)) (cx_block c) (cx_tx c)) v)\<rparr>"

section \<open>The interface (api/exec.rs)\<close>

text \<open>The four ways to run a handler: Handler::run, run_system_call and their inspecting variants.\<close>

record ('v, 'q, 'r) handler_runs =
  hr_run :: "('v, 'q) handler_stages \<Rightarrow> ('q, 'v, 'r) fallible"
  hr_inspect_run :: "('v, 'q) handler_stages \<Rightarrow> ('q, 'v, 'r) fallible"
  hr_run_system_call :: "('v, 'q) handler_stages \<Rightarrow> ('q, 'v, 'r) fallible"
  hr_inspect_run_system_call :: "('v, 'q) handler_stages \<Rightarrow> ('q, 'v, 'r) fallible"

definition set_block ::
    "block_env \<Rightarrow> (('g, 'j, 'l, 'e) evm_context, 'i, 'n, 'p, 'f) evm \<Rightarrow>
     (('g, 'j, 'l, 'e) evm_context, 'i, 'n, 'p, 'f) evm" where
  "set_block block v = v\<lparr>ev_ctx := (ev_ctx v)\<lparr>cx_block := block\<rparr>\<rparr>"

definition set_tx ::
    "transaction \<Rightarrow> (('g, 'j, 'l, 'e) evm_context, 'i, 'n, 'p, 'f) evm \<Rightarrow>
     (('g, 'j, 'l, 'e) evm_context, 'i, 'n, 'p, 'f) evm" where
  "set_tx tx v = v\<lparr>ev_ctx := (ev_ctx v)\<lparr>cx_tx := tx\<rparr>\<rparr>"

definition transact_one ::
    "('j, 'x) journal_ops \<Rightarrow> (('g, 'j, 'l, 'e) evm_context \<Rightarrow> ('j, 'x) mainnet) \<Rightarrow>
     ((('g, 'j, 'l, 'e) evm_context, 'i, 'n, 'p, 'f) evm, 'x tx_error, 'r) handler_runs \<Rightarrow> transaction \<Rightarrow>
     ('x tx_error, (('g, 'j, 'l, 'e) evm_context, 'i, 'n, 'p, 'f) evm, 'r) fallible" where
  "transact_one I M R tx v = (let v = set_tx tx v in hr_run R (monad_handler I M) v)"

definition finalize ::
    "('j, 'x) journal_ops \<Rightarrow> (('g, 'j, 'l, 'e) evm_context, 'i, 'n, 'p, 'f) evm \<Rightarrow>
     evm_state \<times> (('g, 'j, 'l, 'e) evm_context, 'i, 'n, 'p, 'f) evm" where
  "finalize I v = (case mj_finalize I (journal_of v) of (st, j) \<Rightarrow> (st, set_journal j v))"

definition replay ::
    "('j, 'x) journal_ops \<Rightarrow> (('g, 'j, 'l, 'e) evm_context \<Rightarrow> ('j, 'x) mainnet) \<Rightarrow>
     ((('g, 'j, 'l, 'e) evm_context, 'i, 'n, 'p, 'f) evm, 'x tx_error, 'r) handler_runs \<Rightarrow>
     ('x tx_error, (('g, 'j, 'l, 'e) evm_context, 'i, 'n, 'p, 'f) evm, 'r \<times> evm_state) fallible" where
  "replay I M R v = (case hr_run R (monad_handler I M) v of
     (Inl e, v) \<Rightarrow> (Inl e, v)
   | (Inr result, v) \<Rightarrow> (case finalize I v of (st, v) \<Rightarrow> (Inr (result, st), v)))"

text \<open>\<open>write\<close> is the commit of the database.\<close>

definition commit ::
    "('d, 'j) journal_db \<Rightarrow> (evm_state \<Rightarrow> 'd \<Rightarrow> 'd) \<Rightarrow> evm_state \<Rightarrow>
     (('g, 'j, 'l, 'e) evm_context, 'i, 'n, 'p, 'f) evm \<Rightarrow> (('g, 'j, 'l, 'e) evm_context, 'i, 'n, 'p, 'f) evm" where
  "commit D write st v = set_journal (mj_db_mut D (write st) (journal_of v)) v"

definition set_inspector :: "'i \<Rightarrow> ('c, 'i, 'n, 'p, 'f) evm \<Rightarrow> ('c, 'i, 'n, 'p, 'f) evm" where
  "set_inspector insp v = v\<lparr>ev_inspector := insp\<rparr>"

definition inspect_one_tx ::
    "('j, 'x) journal_ops \<Rightarrow> (('g, 'j, 'l, 'e) evm_context \<Rightarrow> ('j, 'x) mainnet) \<Rightarrow>
     ((('g, 'j, 'l, 'e) evm_context, 'i, 'n, 'p, 'f) evm, 'x tx_error, 'r) handler_runs \<Rightarrow> transaction \<Rightarrow>
     ('x tx_error, (('g, 'j, 'l, 'e) evm_context, 'i, 'n, 'p, 'f) evm, 'r) fallible" where
  "inspect_one_tx I M R tx v = (let v = set_tx tx v in hr_inspect_run R (monad_handler I M) v)"

text \<open>\<open>new_tx\<close> is \<open>new_system_tx_with_caller\<close>.\<close>

definition system_call_one_with_caller ::
    "('j, 'x) journal_ops \<Rightarrow> (('g, 'j, 'l, 'e) evm_context \<Rightarrow> ('j, 'x) mainnet) \<Rightarrow>
     ((('g, 'j, 'l, 'e) evm_context, 'i, 'n, 'p, 'f) evm, 'x tx_error, 'r) handler_runs \<Rightarrow>
     (address \<Rightarrow> address \<Rightarrow> bytes \<Rightarrow> transaction) \<Rightarrow> address \<Rightarrow> address \<Rightarrow> bytes \<Rightarrow>
     ('x tx_error, (('g, 'j, 'l, 'e) evm_context, 'i, 'n, 'p, 'f) evm, 'r) fallible" where
  "system_call_one_with_caller I M R new_tx caller system_contract_address data v =
     (let v = set_tx (new_tx caller system_contract_address data) v in
      hr_run_system_call R (monad_handler I M) v)"

definition inspect_one_system_call_with_caller ::
    "('j, 'x) journal_ops \<Rightarrow> (('g, 'j, 'l, 'e) evm_context \<Rightarrow> ('j, 'x) mainnet) \<Rightarrow>
     ((('g, 'j, 'l, 'e) evm_context, 'i, 'n, 'p, 'f) evm, 'x tx_error, 'r) handler_runs \<Rightarrow>
     (address \<Rightarrow> address \<Rightarrow> bytes \<Rightarrow> transaction) \<Rightarrow> address \<Rightarrow> address \<Rightarrow> bytes \<Rightarrow>
     ('x tx_error, (('g, 'j, 'l, 'e) evm_context, 'i, 'n, 'p, 'f) evm, 'r) fallible" where
  "inspect_one_system_call_with_caller I M R new_tx caller system_contract_address data v =
     (let v = set_tx (new_tx caller system_contract_address data) v in
      hr_inspect_run_system_call R (monad_handler I M) v)"

section \<open>What is relied on\<close>

text \<open>A run changes neither the block, the transaction, the configuration and the chain context nor
  the instruction table; loading the accounts hands the hardfork to the precompiles.\<close>

definition keeps_wiring ::
    "foreign \<Rightarrow> ('g, 'j, 'l, 'e, 'i, 'm, 'k, 'h, 'f) monad_evm \<Rightarrow>
     ('g, 'j, 'l, 'e, 'i, 'm, 'k, 'h, 'f) monad_evm \<Rightarrow> bool" where
  "keeps_wiring F v v' \<longleftrightarrow>
     cx_block (ev_ctx v') = cx_block (ev_ctx v) \<and> cx_tx (ev_ctx v') = cx_tx (ev_ctx v)
     \<and> cx_cfg (ev_ctx v') = cx_cfg (ev_ctx v) \<and> cx_chain (ev_ctx v') = cx_chain (ev_ctx v)
     \<and> ev_instruction v' = ev_instruction v
     \<and> (ev_precompiles v' = ev_precompiles v
        \<or> ev_precompiles v' = snd (set_spec F (spec_of (cx_cfg (ev_ctx v))) (ev_precompiles v)))"

text \<open>The frame loop changes the journal by the wrapper's operations.\<close>

definition executes ::
    "('j, 'x) journal_ops \<Rightarrow> foreign \<Rightarrow> ('g, 'j, 'l, 'e, 'i, 'm, 'k, 'h, 'f) monad_evm \<Rightarrow>
     ('g, 'j, 'l, 'e, 'i, 'm, 'k, 'h, 'f) monad_evm \<Rightarrow> bool" where
  "executes I F v v' \<longleftrightarrow> keeps_wiring F v v' \<and> (mj_step I)\<^sup>*\<^sup>* (journal_of v) (journal_of v')"

text \<open>Handler::run is documented to validate, to run the pre-execution, the frames, the refund, the
  reimbursement and the reward, and to take the logs and commit; a failure at any point discards
  the transaction, and a failed validation does nothing else. A system call runs the frames only.\<close>

definition run_law ::
    "('j, 'x) journal_ops \<Rightarrow> foreign \<Rightarrow>
     (('g, 'j, 'l, 'e, 'i, 'm, 'k, 'h, 'f) monad_evm, 'x tx_error) handler_stages \<Rightarrow>
     ('x tx_error, ('g, 'j, 'l, 'e, 'i, 'm, 'k, 'h, 'f) monad_evm, 'r) fallible \<Rightarrow> bool" where
  "run_law I F H run \<longleftrightarrow> (\<forall>v r v'. run v = (r, v') \<longrightarrow> keeps_wiring F v v' \<and>
     (case r of
        Inr _ \<Rightarrow> \<exists>v1 v2 v3 v4 v5 gas fr j.
          hs_validate_env H v = (Inr (), v1) \<and> hs_pre_execution H v1 = (Inr gas, v2)
          \<and> executes I F v2 v3
          \<and> hs_reimburse_caller H (hs_refund H fr (uint gas)) v3 = (Inr (), v4)
          \<and> hs_reward_beneficiary H (hs_refund H fr (uint gas)) v4 = (Inr (), v5)
          \<and> (mj_step I)\<^sup>*\<^sup>* (journal_of v5) j \<and> journal_of v' = mj_commit_tx I j
      | Inl e \<Rightarrow> (\<exists>j. journal_of v' = mj_discard_tx I j)
          \<and> (\<forall>e' v1. hs_validate_env H v = (Inl e', v1) \<longrightarrow>
               e = e' \<and> journal_of v' = mj_discard_tx I (journal_of v1))))"

definition system_run_law ::
    "('j, 'x) journal_ops \<Rightarrow> foreign \<Rightarrow>
     ('x tx_error, ('g, 'j, 'l, 'e, 'i, 'm, 'k, 'h, 'f) monad_evm, 'r) fallible \<Rightarrow> bool" where
  "system_run_law I F run \<longleftrightarrow> (\<forall>v r v'. run v = (r, v') \<longrightarrow> keeps_wiring F v v' \<and>
     (case r of
        Inr _ \<Rightarrow> \<exists>v1 j. executes I F v v1 \<and> (mj_step I)\<^sup>*\<^sup>* (journal_of v1) j
          \<and> journal_of v' = mj_commit_tx I j
      | Inl _ \<Rightarrow> \<exists>j. journal_of v' = mj_discard_tx I j))"

definition evm_runs_ok ::
    "('j, 'x) journal_ops \<Rightarrow> (('g, 'j, 'l, 'e) evm_context \<Rightarrow> ('j, 'x) mainnet) \<Rightarrow> foreign \<Rightarrow>
     (('g, 'j, 'l, 'e, 'i, 'm, 'k, 'h, 'f) monad_evm, 'x tx_error, 'r) handler_runs \<Rightarrow> bool" where
  "evm_runs_ok I M F R \<longleftrightarrow> (let H = monad_handler I M in
     run_law I F H (hr_run R H) \<and> run_law I F H (hr_inspect_run R H)
     \<and> system_run_law I F (hr_run_system_call R H)
     \<and> system_run_law I F (hr_inspect_run_system_call R H))"

text \<open>The pre-execution stages of the mainnet charge the caller only.\<close>

definition settled :: "('j, 'x) journal_ops \<Rightarrow> address \<Rightarrow> 'j MonadJournal \<Rightarrow> bool" where
  "settled I a j \<longleftrightarrow> (\<forall>b acc. b \<noteq> a \<longrightarrow> mj_state I j b = Some acc \<longrightarrow>
     ai_balance (acc_original_info acc) \<le> ai_balance (acc_info acc))"

definition charges_caller :: "('j, 'x) journal_ops \<Rightarrow> ('j, 'x) mainnet \<Rightarrow> address \<Rightarrow> bool" where
  "charges_caller I M a \<longleftrightarrow> (\<forall>j. settled I a j \<longrightarrow>
     settled I a (snd (mn_validate_and_deduct_caller M j))
     \<and> settled I a (snd (mn_load_accounts M j)) \<and> settled I a (snd (mn_apply_eip7702_auth_list M j)))"

section \<open>Between transactions\<close>

lemma journal_of_simps [simp]:
  "journal_of (set_journal j v) = j" "journal_of (set_tx tx v) = journal_of v"
  "journal_of (set_block b v) = journal_of v" "journal_of (set_inspector insp v) = journal_of v"
  "ev_instruction (set_journal j v) = ev_instruction v" "ev_instruction (set_tx tx v) = ev_instruction v"
  "ev_instruction (set_block b v) = ev_instruction v"
  "ev_instruction (set_inspector insp v) = ev_instruction v"
  "ev_precompiles (set_journal j v) = ev_precompiles v" "ev_precompiles (set_tx tx v) = ev_precompiles v"
  "ev_precompiles (set_block b v) = ev_precompiles v"
  "ev_precompiles (set_inspector insp v) = ev_precompiles v"
  "cx_cfg (ev_ctx (set_journal j v)) = cx_cfg (ev_ctx v)" "cx_cfg (ev_ctx (set_tx tx v)) = cx_cfg (ev_ctx v)"
  "cx_cfg (ev_ctx (set_block b v)) = cx_cfg (ev_ctx v)"
  "cx_cfg (ev_ctx (set_inspector insp v)) = cx_cfg (ev_ctx v)"
  by (simp_all add: journal_of_def set_journal_def set_tx_def set_block_def set_inspector_def)

text \<open>The states a user of the interface reaches: an EVM is built on a journal that no transaction
  has touched, and used in any order.\<close>

inductive evm_reach ::
    "('j, 'x) journal_ops \<Rightarrow> (('g, 'j, 'l, 'e) evm_context \<Rightarrow> ('j, 'x) mainnet) \<Rightarrow>
     ('m, 'k, 'h, 'f) parts \<Rightarrow>
     (('g, 'j, 'l, 'e, 'i, 'm, 'k, 'h, 'f) monad_evm, 'x tx_error, 'r) handler_runs \<Rightarrow>
     ('d, 'j) journal_db \<Rightarrow> ('g, 'j, 'l, 'e, 'i, 'm, 'k, 'h, 'f) monad_evm \<Rightarrow> bool" for I M P R D where
  Build: "mj_tracker (cx_journaled_state cx) = tracker_default \<Longrightarrow> evm_reach I M P R D (MonadEvm_new P cx insp)"
| With_inspector: "evm_reach I M P R D v \<Longrightarrow> evm_reach I M P R D (with_inspector insp v)"
| Set_inspector: "evm_reach I M P R D v \<Longrightarrow> evm_reach I M P R D (set_inspector insp v)"
| Set_block: "evm_reach I M P R D v \<Longrightarrow> evm_reach I M P R D (set_block b v)"
| Transact_one: "evm_reach I M P R D v \<Longrightarrow> evm_reach I M P R D (snd (transact_one I M R tx v))"
| Inspect_one_tx: "evm_reach I M P R D v \<Longrightarrow> evm_reach I M P R D (snd (inspect_one_tx I M R tx v))"
| Replay: "evm_reach I M P R D v \<Longrightarrow> evm_reach I M P R D (snd (replay I M R v))"
| Finalize: "evm_reach I M P R D v \<Longrightarrow> evm_reach I M P R D (snd (finalize I v))"
| Commit: "evm_reach I M P R D v \<Longrightarrow> evm_reach I M P R D (commit D write st v)"
| System_call: "evm_reach I M P R D v \<Longrightarrow>
    evm_reach I M P R D (snd (system_call_one_with_caller I M R new_tx a c bs v))"
| Inspect_system_call: "evm_reach I M P R D v \<Longrightarrow>
    evm_reach I M P R D (snd (inspect_one_system_call_with_caller I M R new_tx a c bs v))"

text \<open>The instruction table and the precompiles are those of the configured hardfork, and no
  transaction is being tracked.\<close>

definition at_rest ::
    "('m, 'k, 'h, 'f) parts \<Rightarrow> ('g, 'j, 'l, 'e, 'i, 'm, 'k, 'h, 'f) monad_evm \<Rightarrow> bool" where
  "at_rest P v \<longleftrightarrow> (let spec = spec_of (cx_cfg (ev_ctx v)) in
     ev_instruction v = monad_instructions (pt_inst P) (pt_table P) spec
     \<and> ev_precompiles v = new_with_spec (pt_foreign P) spec
     \<and> mj_tracker (journal_of v) = tracker_default)"

lemma at_rest_cong:
  assumes "at_rest P v" and "keeps_wiring (pt_foreign P) v v'"
    and "mj_tracker (journal_of v') = tracker_default"
  shows "at_rest P v'"
  using assms by (auto simp: at_rest_def keeps_wiring_def Let_def set_spec_def new_with_spec_table(1))

lemma ends_cleared:
  "mj_tracker (mj_commit_tx I j) = tracker_default" "mj_tracker (mj_discard_tx I j) = tracker_default"
  "mj_tracker (snd (mj_finalize I j)) = tracker_default"
  by (simp_all add: mj_commit_tx_def mj_discard_tx_def mj_finalize_def clear_tracker_def Let_def
      split: prod.splits)

lemma run_ends_at_rest:
  assumes "run_law I (pt_foreign P) H run \<or> system_run_law I (pt_foreign P) run" and "at_rest P v"
  shows "at_rest P (snd (run v))"
proof -
  obtain r v' where run: "run v = (r, v')" by fastforce
  have "keeps_wiring (pt_foreign P) v v' \<and> mj_tracker (journal_of v') = tracker_default"
    using assms(1) run unfolding run_law_def system_run_law_def
    by (cases r) (fastforce simp: ends_cleared)+
  then show ?thesis using at_rest_cong [OF assms(2)] run by simp
qed

lemma at_rest_simps:
  "at_rest P (set_tx tx v) = at_rest P v" "at_rest P (set_block b v) = at_rest P v"
  "at_rest P (set_inspector insp v) = at_rest P v" "at_rest P (with_inspector insp v) = at_rest P v"
  by (simp_all add: at_rest_def with_inspector_def journal_of_def
      set_tx_def set_block_def set_inspector_def)

lemma finalize_at_rest: "at_rest P v \<Longrightarrow> at_rest P (snd (finalize I v))"
  using ends_cleared(3) [of I "journal_of v"]
  by (auto simp: finalize_def at_rest_def Let_def split: prod.splits)

lemma reach_at_rest:
  assumes "evm_reach I M P R D v" and ok: "evm_runs_ok I M (pt_foreign P) R"
  shows "at_rest P v"
  using assms(1)
proof (induction rule: evm_reach.induct)
  case (Build cx insp)
  then show ?case by (simp add: at_rest_def MonadEvm_new_def journal_of_def Let_def)
next
  case (Replay v)
  then have "at_rest P (snd (hr_run R (monad_handler I M) v))"
    using ok by (intro run_ends_at_rest) (auto simp: evm_runs_ok_def Let_def)
  then show ?case
    by (auto simp: replay_def dest: finalize_at_rest [of P _ I] split: prod.splits sum.splits)
next
  case (Commit v st)
  then show ?case by (simp add: commit_def at_rest_def mj_db_mut_def)
qed (use ok in \<open>auto simp: at_rest_simps finalize_at_rest transact_one_def inspect_one_tx_def
    system_call_one_with_caller_def inspect_one_system_call_with_caller_def Let_def evm_runs_ok_def
    intro!: run_ends_at_rest [where H = "monad_handler I M"]\<close>)

text \<open>While no transaction is tracked, no operation reports anything to the tracker.\<close>

lemma untracked_hooks:
  assumes "\<not> tracking_enabled trk" and "failed trk = {}"
  shows "on_debit acc a trk = trk" "on_credit acc a trk = trk" "on_set_code acc a code trk = trk"
    "on_checkpoint_revert as st trk = trk"
  using assms
  by (simp_all add: on_debit_def on_credit_def on_set_code_def on_checkpoint_revert_def
      update_loaded_account_def)

lemma untracked_default [simp]: "\<not> tracking_enabled tracker_default" "failed tracker_default = {}"
  by (simp_all add: tracker_default_def)

lemma untracked_on_transfer:
  "mj_tracker j = tracker_default \<Longrightarrow> mj_tracker (on_transfer I f r j) = tracker_default"
  by (simp add: on_transfer_def Let_def untracked_hooks)

lemma untracked_moves:
  assumes "mj_tracker j = tracker_default"
  shows "mj_tracker (snd (mj_transfer I f r x j)) = tracker_default"
    and "mj_tracker (snd (mj_transfer_loaded I f r x j)) = tracker_default"
    and "mj_tracker (snd (mj_selfdestruct I f r b j)) = tracker_default"
    and "mj_tracker (snd (mj_create_account_checkpoint I f r x spec j)) = tracker_default"
    and "mj_tracker (snd (mj_balance_incr I f x j)) = tracker_default"
  unfolding mj_transfer_def mj_transfer_loaded_def mj_selfdestruct_def mj_create_account_checkpoint_def
    mj_balance_incr_def
  using assms by (simp_all add: untracked_on_transfer untracked_hooks split: prod.split sum.split option.split)

lemma untracked_others:
  assumes "mj_tracker j = tracker_default"
  shows "mj_tracker (mj_set_code_with_hash I a code hash j) = tracker_default"
    and "mj_tracker (snd (mj_checkpoint I j)) = tracker_default"
    and "mj_tracker (mj_checkpoint_commit I j) = tracker_default"
    and "mj_tracker (mj_checkpoint_revert I cp j) = tracker_default"
  using assms
  by (simp_all add: mj_set_code_with_hash_def mj_checkpoint_def mj_checkpoint_commit_def
      mj_checkpoint_revert_def mj_on_checkpoint_revert_def Let_def untracked_hooks split: prod.split)

lemma untracked_step:
  assumes "mj_step I j j'" and "mj_tracker j = tracker_default"
  shows "mj_tracker j' = tracker_default"
  using assms(1)
proof (cases rule: mj_step.cases)
  case Pass
  then have "mj_tracker j' = mj_tracker (j\<lparr>mj_inner := mj_inner j'\<rparr>)"
    by (rule arg_cong [OF passes_on_inner])
  then show ?thesis using assms(2) by simp
qed (simp_all add: assms(2) untracked_moves untracked_others)

lemma untracked_steps:
  assumes "(mj_step I)\<^sup>*\<^sup>* j j'" and "mj_tracker j = tracker_default"
  shows "mj_tracker j' = tracker_default"
  using assms by (induction rule: rtranclp_induct) (auto intro: untracked_step)

section \<open>Transactions\<close>

lemma loads_settled:
  assumes "settled I a j" and "loads (mj_state I j) (mj_state I j')"
  shows "settled I a j'"
  unfolding settled_def
proof (intro allI impI)
  fix b acc
  assume b: "b \<noteq> a" and acc: "mj_state I j' b = Some acc"
  from assms(2) show "ai_balance (acc_original_info acc) \<le> ai_balance (acc_info acc)"
  proof (cases rule: loadsD [where a = b])
    case 1
    then show ?thesis using assms(1) b acc by (simp add: settled_def)
  next
    case (2 acc')
    then show ?thesis using acc by (simp add: fresh_def)
  qed
qed

lemma pre_execution_settled:
  assumes "pre_execution I M ctx spec b tx j = (Inr gas, j')" and "charges_caller I M (tx_caller tx)"
    and "settled I (tx_caller tx) j" and "journal_ok I"
  shows "settled I (tx_caller tx) j'"
proof -
  let ?a = "tx_caller tx"
  obtain j1 j2 j3 j4 acc where
    s: "j1 = snd (mn_validate_and_deduct_caller M j)" "j2 = snd (mn_load_accounts M j1)"
      "j3 = snd (mn_apply_eip7702_auth_list M j2)" "j4 = snd (mj_load_account_with_code I ?a j3)"
    and j': "j' = reserve_balance_mut (init_tracker (init_of ctx spec b tx acc)) j4"
    using assms(1) by (auto simp: pre_execution_def split: prod.splits sum.splits)
  have "settled I ?a j3" using assms(2,3) s by (auto simp: charges_caller_def)
  moreover have "loads (mj_state I j3) (mj_state I j4)"
    using assms(4) passes_on_loads [OF passes_on.Load_code] by (auto simp: s journal_ok_def)
  ultimately have "settled I ?a j4" by (rule loads_settled)
  then show ?thesis by (simp add: j' settled_def reserve_balance_mut_def mj_state_def)
qed

lemma refund_stage: "hs_refund (monad_handler I M) = refund"
  by (simp add: monad_handler_def)

text \<open>The stages of a completed run, over the journal.\<close>

lemma run_stages:
  assumes "run_law I F (monad_handler I M) run" and "run v = (Inr res, v')"
  obtains gas j1 j2 j3 j4 where
    "pre_execution I (M (ev_ctx v)) (cx_chain (ev_ctx v)) (spec_of (cx_cfg (ev_ctx v)))
       (cx_block (ev_ctx v)) (cx_tx (ev_ctx v)) (journal_of v) = (Inr gas, j1)"
    "(mj_step I)\<^sup>*\<^sup>* j1 j2"
    "\<exists>c. reward_beneficiary I (M c) (spec_of (cx_cfg (ev_ctx v))) (cx_block (ev_ctx v))
       (cx_tx (ev_ctx v)) j2 = (Inr (), j3)"
    "(mj_step I)\<^sup>*\<^sup>* j3 j4" "journal_of v' = mj_commit_tx I j4"
proof -
  let ?H = "monad_handler I M"
  obtain v1 v2 v3 v4 v5 gas fr j where s:
    "hs_validate_env ?H v = (Inr (), v1)" "hs_pre_execution ?H v1 = (Inr gas, v2)" "executes I F v2 v3"
    "hs_reimburse_caller ?H (refund fr (uint gas)) v3 = (Inr (), v4)"
    "hs_reward_beneficiary ?H (refund fr (uint gas)) v4 = (Inr (), v5)"
    "(mj_step I)\<^sup>*\<^sup>* (journal_of v5) j" "journal_of v' = mj_commit_tx I j"
    using assms(1) [unfolded run_law_def, THEN spec, THEN spec, THEN spec, THEN mp, OF assms(2)]
    by (simp only: sum.case refund_stage) blast
  have v1: "v1 = v" using s(1) by (simp add: monad_handler_def Let_def)
  have p: "pre_execution I (M (ev_ctx v)) (cx_chain (ev_ctx v)) (spec_of (cx_cfg (ev_ctx v)))
       (cx_block (ev_ctx v)) (cx_tx (ev_ctx v)) (journal_of v) = (Inr gas, journal_of v2)"
    and v2: "v2 = set_journal (journal_of v2) v"
    using s(2) unfolding v1 by (auto simp: monad_handler_def Let_def on_journal_def
        split: prod.splits sum.splits)
  have e: "(mj_step I)\<^sup>*\<^sup>* (journal_of v2) (journal_of v3)" "keeps_wiring F v2 v3"
    using s(3) by (auto simp: executes_def)
  have v4: "v4 = v3"
    using s(4) by (simp add: monad_handler_def on_journal_def reimburse_caller_def set_journal_def
        journal_of_def)
  have "cx_cfg (ev_ctx v3) = cx_cfg (ev_ctx v)" "cx_block (ev_ctx v3) = cx_block (ev_ctx v)"
    "cx_tx (ev_ctx v3) = cx_tx (ev_ctx v)"
    using e(2) by (subst (asm) v2; simp add: keeps_wiring_def set_journal_def)+
  then have "reward_beneficiary I (M (ev_ctx v3)) (spec_of (cx_cfg (ev_ctx v))) (cx_block (ev_ctx v))
       (cx_tx (ev_ctx v)) (journal_of v3) = (Inr (), journal_of v5)"
    using s(5) unfolding v4
    by (auto simp: monad_handler_def Let_def on_journal_def split: prod.splits sum.splits)
  then show ?thesis using that [OF p e(1) _ s(6,7)] by blast
qed

section \<open>Properties\<close>

text \<open>C11: However the interface is used (blocks, transactions, system calls, inspection, in any
  order, completed or failed), between two uses the instruction table and the precompiles are
  those of the configured hardfork and no transaction is tracked, so that a system call, which
  starts from there, is never reported as a reserve violation.\<close>

theorem evm_between_transactions:
  assumes "evm_reach I M P R D v" and "evm_runs_ok I M (pt_foreign P) R"
  shows "ev_instruction v =
      monad_instructions (pt_inst P) (pt_table P) (spec_of (cx_cfg (ev_ctx v)))
    \<and> ev_precompiles v = new_with_spec (pt_foreign P) (spec_of (cx_cfg (ev_ctx v)))
    \<and> mj_tracker (journal_of v) = tracker_default
    \<and> (\<forall>j. (mj_step I)\<^sup>*\<^sup>* (journal_of v) j \<longrightarrow> \<not> has_violation (mj_tracker j))"
proof -
  have "at_rest P v" using assms by (rule reach_at_rest)
  moreover have "\<not> has_violation (mj_tracker j)"
    if "mj_tracker (journal_of v) = tracker_default" "(mj_step I)\<^sup>*\<^sup>* (journal_of v) j" for j
    using untracked_steps [OF that(2,1)] by (simp add: has_violation_def)
  ultimately show ?thesis by (auto simp: at_rest_def Let_def)
qed



text \<open>The EVM built on the default context runs MonadNine: its table has Monad's handler at
  each of the 22 opcodes of MIP-3 and Ethereum's elsewhere, its precompiles serve the staking
  contract, the reserve-balance query, ML-DSA and BLAKE3, its limits are Monad's, and nothing is
  tracked.\<close>

theorem default_evm:
  assumes "new_cfg_ok (df_new_cfg f)"
  shows "let v = build_monad P (monad_context_with_db I D f db) in
      (\<forall>op. ev_instruction v op = (case map_of (rev (mip3_instructions (pt_inst P))) op of
           Some i \<Rightarrow> i | None \<Rightarrow> pt_table P OSAKA op))
    \<and> {STAKING_ADDRESS, RESERVE_BALANCE_ADDRESS, 0x0101, 0x0102} \<subseteq> {a. contains (ev_precompiles v) a}
    \<and> tx_gas_limit_cap (cx_cfg (ev_ctx v)) = 30000000
    \<and> max_code_size (cx_cfg (ev_ctx v)) = 0x20000 \<and> max_initcode_size (cx_cfg (ev_ctx v)) = 0x40000
    \<and> memory_limit (cx_cfg (ev_ctx v)) = 8 * 1024 * 1024
    \<and> mj_tracker (journal_of v) = tracker_default"
proof -
  have "spec_of (cfg_new (df_new_cfg f) g) = MonadNine" for g
    by (simp add: new_cfg_limits [OF assms] spec_of_def)
  then show ?thesis
    by (simp add: build_monad_def MonadEvm_new_def monad_context_with_db_def Let_def
        monad_instructions_eq contains_def new_with_spec_table new_cfg_limits [OF assms]
        journal_of_def mj_set_spec_id_def mj_new_def cong: option.case_cong)
qed

section \<open>An EVM for the witnesses\<close>

text \<open>A way to run a handler: the stages in order, with one transfer as the execution.\<close>

type_synonym plain_evm =
  "(unit, plain_journal, unit, unit, unit, bytes, u256 list, evm_log list, unit) monad_evm"

definition plain_discard :: "plain_evm \<Rightarrow> plain_evm \<Rightarrow> plain_evm" where
  "plain_discard u v = set_journal (mj_discard_tx plain_ops (journal_of u)) v"

definition plain_execution :: "plain_evm \<Rightarrow> plain_evm" where
  "plain_execution v = set_journal (snd (mj_transfer plain_ops 5 9 1 (journal_of v))) v"

definition plain_run ::
    "(plain_evm, string tx_error) handler_stages \<Rightarrow> (string tx_error, plain_evm, nat) fallible" where
  "plain_run H v = (case hs_validate_env H v of
       (Inl e, u) \<Rightarrow> (Inl e, plain_discard u v)
     | (Inr _, u) \<Rightarrow> (case hs_pre_execution H u of
       (Inl e, u) \<Rightarrow> (Inl e, plain_discard u v)
     | (Inr gas, u) \<Rightarrow>
         let u = plain_execution u;
             fr = hs_refund H \<lparr>fg_limit = 21000, fg_remaining = 0, fg_refunded = 9\<rparr> (uint gas) in
         (case hs_reimburse_caller H fr u of
            (Inl e, u) \<Rightarrow> (Inl e, plain_discard u v)
          | (Inr _, u) \<Rightarrow> (case hs_reward_beneficiary H fr u of
              (Inl e, u) \<Rightarrow> (Inl e, plain_discard u v)
            | (Inr _, u) \<Rightarrow> (Inr 0, set_journal (mj_commit_tx plain_ops (journal_of u)) v)))))"

definition plain_system_run ::
    "(plain_evm, string tx_error) handler_stages \<Rightarrow> (string tx_error, plain_evm, nat) fallible" where
  "plain_system_run H v = (Inr 0, set_journal (mj_commit_tx plain_ops (journal_of v)) v)"

definition plain_runs :: "(plain_evm, string tx_error, nat) handler_runs" where
  "plain_runs = \<lparr>hr_run = plain_run, hr_inspect_run = plain_run,
     hr_run_system_call = plain_system_run, hr_inspect_run_system_call = plain_system_run\<rparr>"

lemma keeps_wiring_journal: "keeps_wiring F v (set_journal j v)"
  by (simp add: keeps_wiring_def set_journal_def)

lemma keeps_wiring_refl: "keeps_wiring F v v"
  by (simp add: keeps_wiring_def)

lemma plain_run_law: "run_law plain_ops F H (plain_run H)"
proof -
  have x: "executes plain_ops F u (plain_execution u)" for u
    by (simp add: executes_def plain_execution_def keeps_wiring_journal mj_step.Transfer
        r_into_rtranclp)
  show ?thesis
    unfolding run_law_def
  proof (intro allI impI)
    fix v r v'
    assume run: "plain_run H v = (r, v')"
    show "keeps_wiring F v v' \<and> (case r of
        Inr _ \<Rightarrow> \<exists>v1 v2 v3 v4 v5 gas fr j.
          hs_validate_env H v = (Inr (), v1) \<and> hs_pre_execution H v1 = (Inr gas, v2)
          \<and> executes plain_ops F v2 v3
          \<and> hs_reimburse_caller H (hs_refund H fr (uint gas)) v3 = (Inr (), v4)
          \<and> hs_reward_beneficiary H (hs_refund H fr (uint gas)) v4 = (Inr (), v5)
          \<and> (mj_step plain_ops)\<^sup>*\<^sup>* (journal_of v5) j \<and> journal_of v' = mj_commit_tx plain_ops j
      | Inl e \<Rightarrow> (\<exists>j. journal_of v' = mj_discard_tx plain_ops j)
          \<and> (\<forall>e' v1. hs_validate_env H v = (Inl e', v1) \<longrightarrow>
               e = e' \<and> journal_of v' = mj_discard_tx plain_ops (journal_of v1)))"
      using run x unfolding plain_run_def
      by (auto simp: Let_def keeps_wiring_journal plain_discard_def split: prod.splits sum.splits)
        blast
  qed
qed

lemma plain_system_run_law: "system_run_law plain_ops F (plain_system_run H)"
  unfolding system_run_law_def plain_system_run_def executes_def
  by (auto simp: keeps_wiring_journal intro: keeps_wiring_refl)

lemma plain_runs_ok: "evm_runs_ok plain_ops M F plain_runs"
  by (simp add: evm_runs_ok_def plain_runs_def Let_def plain_run_law plain_system_run_law)

definition plain_parts :: "(bytes, u256 list, evm_log list, unit) parts" where
  "plain_parts = \<lparr>pt_inst = plain_env, pt_table = (\<lambda>_ _. (ret (), 0)),
     pt_foreign = sample_foreign, pt_new_prealloc = (\<lambda>_. ())\<rparr>"

definition plain_cfg :: "unit new_cfg" where
  "plain_cfg spec g = \<lparr>cfg_chain_id = 1, cfg_spec = spec, cfg_tx_gas_limit_cap = None,
     cfg_limit_contract_code_size = None, cfg_limit_contract_initcode_size = None,
     cfg_memory_limit = 0, cfg_tx_chain_id_check = True, cfg_max_blobs_per_tx = None,
     cfg_disable_nonce_check = False, cfg_eip3541_disabled = False, cfg_eip3607_disabled = False,
     cfg_eip7623_disabled = False, cfg_balance_check_disabled = False,
     cfg_block_gas_limit_disabled = False, cfg_base_fee_check_disabled = False,
     cfg_priority_fee_check_disabled = False, cfg_fee_charge_disabled = False, cfg_gas_params = g\<rparr>"

definition plain_defaults :: "(unit, unit, unit) context_defaults" where
  "plain_defaults = \<lparr>df_block = wit_block, df_tx = wit_tx, df_new_cfg = plain_cfg,
     df_gas_params = (\<lambda>_. ()), df_local = (), df_no_error = ()\<rparr>"

definition plain_db :: "(evm_state, plain_journal) journal_db" where
  "plain_db = \<lparr>jd_new = (\<lambda>db. \<lparr>pj_accounts = db, pj_slots = (\<lambda>_ _. 0), pj_logs = [], pj_entries = []\<rparr>),
     jd_db = pj_accounts, jd_update = (\<lambda>f j. j\<lparr>pj_accounts := f (pj_accounts j)\<rparr>)\<rparr>"

text \<open>An EVM on the default context, over a database with the sender 7 and the account 5.\<close>

definition plain_start :: plain_evm where
  "plain_start = build_monad plain_parts (monad_context_with_db plain_ops plain_db plain_defaults
     [7 \<mapsto> wit_account 500, 5 \<mapsto> wit_account 1000])"

lemma plain_start_state:
  "cx_chain (ev_ctx plain_start) = MonadChainContext_default"
  "spec_of (cx_cfg (ev_ctx plain_start)) = MonadNine" "cx_block (ev_ctx plain_start) = wit_block"
  "journal_of plain_start = wit_start"
  by (simp_all add: plain_start_def build_monad_def MonadEvm_new_def monad_context_with_db_def Let_def
      plain_defaults_def plain_cfg_def cfg_new_def MonadSpecId_default_def spec_of_def journal_of_def
      mj_set_spec_id_def mj_new_def plain_ops_def plain_db_def wit_start_def)

theorem default_evm_witness:
  "tx_gas_limit_cap (cx_cfg (ev_ctx plain_start)) = 30000000
    \<and> contains (ev_precompiles plain_start) 0x0102"
proof -
  have "new_cfg_ok (df_new_cfg plain_defaults)"
    by (simp add: new_cfg_ok_def plain_defaults_def plain_cfg_def)
  from default_evm [OF this, of plain_parts plain_ops plain_db "[7 \<mapsto> wit_account 500, 5 \<mapsto> wit_account 1000]"]
  show ?thesis by (simp add: plain_start_def Let_def)
qed

text \<open>Before the transaction, and after one completed transaction and a refused one.\<close>

abbreviation plain_transact :: "transaction \<Rightarrow> (string tx_error, plain_evm, nat) fallible" where
  "plain_transact \<equiv> transact_one plain_ops (\<lambda>_. plain_mainnet) plain_runs"

lemma plain_start_reach:
  "evm_reach plain_ops (\<lambda>_. plain_mainnet) plain_parts plain_runs plain_db plain_start"
  unfolding plain_start_def build_monad_def
  by (rule evm_reach.Build)
    (simp add: monad_context_with_db_def mj_set_spec_id_def mj_new_def Let_def)

theorem evm_between_transactions_witness:
  "mj_tracker (journal_of (snd (plain_transact (wit_tx\<lparr>tx_type := Eip4844\<rparr>)
      (snd (plain_transact wit_tx plain_start))))) = tracker_default"
  using evm_between_transactions [OF evm_reach.Transact_one [OF evm_reach.Transact_one
      [OF plain_start_reach]] plain_runs_ok]
  by blast


lemma plain_reward:
  assumes "pj_accounts (mj_inner j) 3 = None"
  shows "\<exists>j'. reward_beneficiary plain_ops M spec wit_block tx j = (Inr (), j')"
proof -
  have "\<not> 2 ^ 256 \<le> unat x" for x :: u256
    using unat_lt2p [of x] by simp
  with assms show ?thesis
    by (simp add: reward_beneficiary_def Let_def mj_balance_incr_def plain_ops_def pj_incr_def
        pj_load_def wit_block_def)
qed

lemma plain_pre_execution:
  "pre_execution plain_ops plain_mainnet MonadChainContext_default MonadNine wit_block wit_tx wit_start
     = (Inr 0, wit_start\<lparr>mj_tracker := init_tracker (init_of MonadChainContext_default MonadNine
         wit_block wit_tx (wit_account 500)) (mj_tracker wit_start)\<rparr>)"
  by (simp add: pre_execution_def plain_mainnet_def wit_start_def wit_tx_def plain_ops_def
      mj_load_account_with_code_def pj_load_account_def pj_load_def reserve_balance_mut_def)

lemma plain_transfer_accounts:
  assumes "mj_inner j = mj_inner wit_start"
  shows "pj_accounts (mj_inner (snd (mj_transfer plain_ops 5 9 1 j))) 3 = None"
  using assms
  by (simp add: mj_transfer_def plain_ops_def pj_move_def pj_load_def pj_push_def wit_start_def
      wit_account_def Let_def)

lemma plain_transact_completes: "\<exists>v'. plain_transact wit_tx plain_start = (Inr 0, v')"
proof -
  let ?H = "monad_handler plain_ops (\<lambda>_. plain_mainnet) :: (plain_evm, string tx_error) handler_stages"
  let ?v = "set_tx wit_tx plain_start"
  obtain u where pre: "hs_pre_execution ?H ?v = (Inr 0, u)"
    and u: "mj_inner (journal_of u) = mj_inner wit_start" "cx_block (ev_ctx u) = wit_block"
    using plain_pre_execution plain_start_state
    by (simp add: monad_handler_def on_journal_def set_tx_def set_journal_def journal_of_def)
  have val: "hs_validate_env ?H ?v = (Inr (), ?v)"
    by (simp add: monad_handler_def validate_env_def set_tx_def plain_mainnet_def wit_tx_def)
  obtain j where "reward_beneficiary plain_ops plain_mainnet (spec_of (cx_cfg (ev_ctx u))) wit_block
      (cx_tx (ev_ctx u)) (snd (mj_transfer plain_ops 5 9 1 (journal_of u))) = (Inr (), j)"
    using plain_reward [OF plain_transfer_accounts [OF u(1)]] by blast
  then have "hs_reward_beneficiary ?H fr (plain_execution u)
      = (Inr (), set_journal j (plain_execution u))" for fr
    using u(2) by (simp add: monad_handler_def on_journal_def Let_def plain_execution_def
        set_journal_def journal_of_def)
  moreover have "hs_reimburse_caller ?H fr x = (Inr (), x)" for fr x
    by (simp add: monad_handler_def on_journal_def reimburse_caller_def set_journal_def journal_of_def)
  ultimately show ?thesis
    using val pre by (simp add: transact_one_def plain_runs_def plain_run_def Let_def)
qed


end
