(* ===== verification/Node.thy ===== *)
theory Node
  imports Precompiles
begin

text \<open>
  The in-process development node of \<open>suwappu-node/src/node.rs\<close>: an EVM database, a block
  counter and the maps of receipts, transactions and block hashes. Every method takes the lock
  of the state once, so that a method is one step; \<open>send_raw_transaction\<close> is the only one that
  changes the state. A poisoned lock, which only a panic of another thread leaves, is not
  modelled.

  The database, the EVM, the signature recovery, the RLP decoder, Keccak-256 and the hex crate
  are parameters, collected in \<open>node_env\<close>.
\<close>

section \<open>Texts\<close>

text \<open>The \<open>{:x}\<close> format of an unsigned integer.\<close>

definition hex_digit :: "nat \<Rightarrow> char" where
  "hex_digit n = ''0123456789abcdef'' ! n"

fun hex_nat :: "nat \<Rightarrow> string" where
  "hex_nat n = (if n < 16 then [hex_digit n] else hex_nat (n div 16) @ [hex_digit (n mod 16)])"

declare hex_nat.simps [simp del]

text \<open>The decimal format.\<close>

fun dec_nat :: "nat \<Rightarrow> string" where
  "dec_nat n = (if n < 10 then [hex_digit n] else dec_nat (n div 10) @ [hex_digit (n mod 10)])"

declare dec_nat.simps [simp del]

definition hex0x :: "'a::len word \<Rightarrow> string" where
  "hex0x w = ''0x'' @ hex_nat (unat w)"

text \<open>serde_json's Value.\<close>

datatype json =
    JNull
  | JBool bool
  | JNumber int
  | JString string
  | JArray "json list"
  | JObject "(string \<times> json) list"

section \<open>Parameters\<close>

text \<open>What \<open>extract_tx_fields\<close> reads of a decoded transaction.\<close>

record tx_body =
  tb_nonce :: u64
  tb_gas_limit :: u64
  tb_to :: "address option"
  tb_value :: u256
  tb_input :: bytes

text \<open>The 1559 price is \<open>max_fee_per_gas\<close>.\<close>

datatype tx_envelope =
    Legacy tx_body u128 "u64 option"
  | Eip2930 tx_body u128 u64
  | Eip1559 tx_body u128 u64
  | BlobTx
  | OtherTx

text \<open>The fields of the EVM context that the node sets. A TxEnv is given by the builder calls that
  make it; \<open>te_chain_id\<close> is None where the builder's default is kept.\<close>

record evm_ctx =
  ec_block_gas_limit :: u64
  ec_basefee :: u64
  ec_block_number :: u256
  ec_disable_balance_check :: bool
  ec_disable_block_gas_limit :: bool
  ec_disable_nonce_check :: bool
  ec_disable_base_fee :: bool
  ec_tx_chain_id_check :: bool
  ec_chain_id :: u64

record tx_env =
  te_caller :: address
  te_to :: "address option"
  te_nonce :: u64
  te_gas_limit :: u64
  te_gas_price :: u128
  te_value :: u256
  te_data :: bytes
  te_chain_id :: "u64 option option"

datatype exec_output = OutputCall bytes | OutputCreate bytes "address option"

text \<open>The debug texts of a halt reason and of an EVM error stand for them.\<close>

datatype execution_result =
    ExecSuccess u64 exec_output
  | ExecRevert u64 bytes
  | ExecHalt u64 string

record db_account =
  da_balance :: u256
  da_nonce :: u64
  da_code_hash :: u256

record ('d, 'v) node_env =
  ne_default_db :: 'd
  ne_account :: "'d \<Rightarrow> address \<Rightarrow> db_account option"
  ne_contract :: "'d \<Rightarrow> u256 \<Rightarrow> bytes option"
  ne_insert_account :: "address \<Rightarrow> u256 \<Rightarrow> u64 \<Rightarrow> 'd \<Rightarrow> 'd"
  ne_context :: evm_ctx
  ne_transact_commit :: "evm_ctx \<Rightarrow> tx_env \<Rightarrow> 'd \<Rightarrow> (string + execution_result) \<times> 'd"
  ne_decode :: "bytes \<Rightarrow> string + 'v"
  ne_recover_signer :: "'v \<Rightarrow> string + address"
  ne_envelope :: "'v \<Rightarrow> tx_envelope"
  ne_keccak256 :: "bytes \<Rightarrow> u256"
  ne_hex :: "bytes \<Rightarrow> string"
  ne_parse_address :: "string \<Rightarrow> string + address"

section \<open>Model\<close>

definition BLOCK_GAS_LIMIT :: u64 where "BLOCK_GAS_LIMIT = 1000000000"
definition DEFAULT_GAS_LIMIT :: u64 where "DEFAULT_GAS_LIMIT = 30000000"
definition PREFUND_WEI :: u128 where "PREFUND_WEI = 10000 * 1000000000000000000"

definition DEV_ACCOUNTS :: "string list" where
  "DEV_ACCOUNTS =
     [''0xf39Fd6e51aad88F6F4ce6aB8827279cffFb92266'', ''0x70997970C51812dc3A010C7d01b50e0d17dc79C8'',
      ''0x3C44CdDdB6a900fa2b585dd299e03d12FA4293BC'', ''0x90F79bf6EB2c4f870365E785982E1f101E93b906'',
      ''0x15d34AAf54267DB7D7c367839AAf71A00a2C6A65'', ''0x9965507D1a55bcC2695C58ba16FB37d819B0A4dc'',
      ''0x976EA74026E726554dB657fA54763abd0C3a0aa9'', ''0x14dC79964da2C08b23698B3D3cc7Ca32193d9955'',
      ''0x23618e81E3f5cdF7f54C3d65f7FBc0aBf5B21E8f'', ''0xa0Ee7A142d267C1f36714E4a8F75612F20a79720'']"

record Receipt =
  rc_status :: string
  rc_gas_used :: string
  rc_contract_address :: "string option"
  rc_block_number :: string
  rc_transaction_hash :: string
  rc_transaction_index :: string
  rc_block_hash :: string
  rc_logs :: "json list"
  rc_from :: string
  rc_to :: "string option"
  rc_cumulative_gas_used :: string
  rc_logs_bloom :: string
  rc_type :: string
  rc_effective_gas_price :: string

record StoredTx =
  st_hash :: string
  st_nonce :: string
  st_block_hash :: string
  st_block_number :: string
  st_transaction_index :: string
  st_from :: string
  st_to :: "string option"
  st_value :: string
  st_gas :: string
  st_gas_price :: string
  st_input :: string
  st_chain_id :: "string option"
  st_type :: string

text \<open>The three maps are from transaction hashes and block numbers.\<close>

record 'd NodeState =
  ns_db :: 'd
  ns_block_number :: u64
  ns_chain_id :: u64
  ns_receipts :: "u256 \<Rightarrow> Receipt option"
  ns_transactions :: "u256 \<Rightarrow> StoredTx option"
  ns_block_hashes :: "u64 \<Rightarrow> u256 option"

text \<open>A development account that is no address makes \<open>new\<close> panic, which is None.\<close>

definition node_new :: "('d, 'v) node_env \<Rightarrow> u64 \<Rightarrow> 'd NodeState option" where
  "node_new E chain_id =
     map_option (\<lambda>db. \<lparr>ns_db = db, ns_block_number = 0, ns_chain_id = chain_id,
         ns_receipts = Map.empty, ns_transactions = Map.empty, ns_block_hashes = Map.empty\<rparr>)
       (fold (\<lambda>addr_str db. case db of None \<Rightarrow> None | Some db \<Rightarrow>
            (case ne_parse_address E addr_str of
               Inl e \<Rightarrow> None
             | Inr addr \<Rightarrow> Some (ne_insert_account E addr (ucast PREFUND_WEI) 0 db)))
          DEV_ACCOUNTS (Some (ne_default_db E)))"

definition get_balance :: "('d, 'v) node_env \<Rightarrow> address \<Rightarrow> 'd NodeState \<Rightarrow> u256" where
  "get_balance E addr s = (case ne_account E (ns_db s) addr of Some a \<Rightarrow> da_balance a | None \<Rightarrow> 0)"

definition get_nonce :: "('d, 'v) node_env \<Rightarrow> address \<Rightarrow> 'd NodeState \<Rightarrow> u64" where
  "get_nonce E addr s = (case ne_account E (ns_db s) addr of Some a \<Rightarrow> da_nonce a | None \<Rightarrow> 0)"

definition get_code :: "('d, 'v) node_env \<Rightarrow> address \<Rightarrow> 'd NodeState \<Rightarrow> bytes" where
  "get_code E addr s =
     (case ne_account E (ns_db s) addr of
        None \<Rightarrow> []
      | Some a \<Rightarrow>
          if da_code_hash a = KECCAK_EMPTY then []
          else (case ne_contract E (ns_db s) (da_code_hash a) of None \<Rightarrow> [] | Some code \<Rightarrow> code))"

text \<open>The context of the calls that must not commit, and their transaction.\<close>

definition read_only_context :: "('d, 'v) node_env \<Rightarrow> u64 \<Rightarrow> evm_ctx" where
  "read_only_context E chain_id = (ne_context E)
     \<lparr>ec_block_gas_limit := BLOCK_GAS_LIMIT, ec_basefee := 0, ec_disable_balance_check := True,
      ec_disable_block_gas_limit := True, ec_disable_nonce_check := True,
      ec_disable_base_fee := True, ec_tx_chain_id_check := False, ec_chain_id := chain_id\<rparr>"

definition read_only_tx ::
    "address option \<Rightarrow> address option \<Rightarrow> bytes \<Rightarrow> u256 \<Rightarrow> u64 \<Rightarrow> tx_env" where
  "read_only_tx from' to' data value gas_limit =
     \<lparr>te_caller = (case from' of Some a \<Rightarrow> a | None \<Rightarrow> 0), te_to = to', te_nonce = 0,
      te_gas_limit = gas_limit, te_gas_price = 0, te_value = value, te_data = data,
      te_chain_id = None\<rparr>"

text \<open>The execution works on a clone of the database, which is dropped.\<close>

definition eth_call ::
    "('d, 'v) node_env \<Rightarrow> address option \<Rightarrow> address option \<Rightarrow> bytes \<Rightarrow> u256 \<Rightarrow> u64 option \<Rightarrow>
     'd NodeState \<Rightarrow> string + bytes" where
  "eth_call E from' to' data value gas_limit s =
     (case fst (ne_transact_commit E (read_only_context E (ns_chain_id s))
         (read_only_tx from' to' data value
            (case gas_limit of Some g \<Rightarrow> g | None \<Rightarrow> DEFAULT_GAS_LIMIT)) (ns_db s)) of
        Inr (ExecSuccess gas output) \<Rightarrow>
          (case output of OutputCall b \<Rightarrow> Inr b | OutputCreate b a \<Rightarrow> Inr b)
      | Inr (ExecRevert gas output) \<Rightarrow> Inl (''execution reverted: 0x'' @ ne_hex E output)
      | Inr (ExecHalt gas reason) \<Rightarrow> Inl (''execution halted: '' @ reason)
      | Inl e \<Rightarrow> Inl (''evm error: '' @ e))"

text \<open>\<open>(gas_used as u128 * 12 / 10) as u64\<close> keeps the low 64 bits of the quotient.\<close>

definition estimate_gas ::
    "('d, 'v) node_env \<Rightarrow> address option \<Rightarrow> address option \<Rightarrow> bytes \<Rightarrow> u256 \<Rightarrow>
     'd NodeState \<Rightarrow> string + u64" where
  "estimate_gas E from' to' data value s =
     (case fst (ne_transact_commit E (read_only_context E (ns_chain_id s))
         (read_only_tx from' to' data value DEFAULT_GAS_LIMIT) (ns_db s)) of
        Inr (ExecSuccess gas_used output) \<Rightarrow>
          (let estimate = (ucast ((ucast gas_used :: u128) * 12 div 10) :: u64)
           in Inr (min estimate DEFAULT_GAS_LIMIT))
      | Inr (ExecRevert gas output) \<Rightarrow> Inl (''execution reverted: 0x'' @ ne_hex E output)
      | Inr (ExecHalt gas reason) \<Rightarrow> Inl (''execution halted: '' @ reason)
      | Inl e \<Rightarrow> Inl (''evm error: '' @ e))"

record TxFields =
  tf_nonce :: u64
  tf_gas_limit :: u64
  tf_gas_price :: u128
  tf_to :: "address option"
  tf_value :: u256
  tf_input :: bytes
  tf_tx_type :: u8
  tf_chain_id_opt :: "u64 option"

definition tx_fields :: "tx_body \<Rightarrow> u128 \<Rightarrow> u8 \<Rightarrow> u64 option \<Rightarrow> TxFields" where
  "tx_fields tx price ty chain_id =
     \<lparr>tf_nonce = tb_nonce tx, tf_gas_limit = tb_gas_limit tx, tf_gas_price = price,
      tf_to = tb_to tx, tf_value = tb_value tx, tf_input = tb_input tx, tf_tx_type = ty,
      tf_chain_id_opt = chain_id\<rparr>"

fun extract_tx_fields :: "tx_envelope \<Rightarrow> string + TxFields" where
  "extract_tx_fields (Legacy tx gas_price chain_id) = Inr (tx_fields tx gas_price 0 chain_id)"
| "extract_tx_fields (Eip2930 tx gas_price chain_id) = Inr (tx_fields tx gas_price 1 (Some chain_id))"
| "extract_tx_fields (Eip1559 tx max_fee chain_id) = Inr (tx_fields tx max_fee 2 (Some chain_id))"
| "extract_tx_fields BlobTx =
     Inl ''blob transactions (EIP-4844) are not supported by the dev node''"
| "extract_tx_fields OtherTx = Inl ''unsupported transaction type''"

text \<open>The status, the gas and the created contract of an executed transaction.\<close>

fun outcome_of :: "execution_result \<Rightarrow> u8 \<times> u64 \<times> address option" where
  "outcome_of (ExecSuccess gas_used output) =
     (1, gas_used, case output of OutputCreate b (Some a) \<Rightarrow> Some a | _ \<Rightarrow> None)"
| "outcome_of (ExecRevert gas_used output) = (0, gas_used, None)"
| "outcome_of (ExecHalt gas_used reason) = (0, gas_used, None)"

definition hex_b256 :: "('d, 'v) node_env \<Rightarrow> u256 \<Rightarrow> string" where
  "hex_b256 E h = ''0x'' @ ne_hex E (to_be_bytes 32 h)"

definition hex_address :: "('d, 'v) node_env \<Rightarrow> address \<Rightarrow> string" where
  "hex_address E a = ''0x'' @ ne_hex E (to_be_bytes 20 a)"

definition block_hash_of :: "('d, 'v) node_env \<Rightarrow> u64 \<Rightarrow> u256" where
  "block_hash_of E block_number = ne_keccak256 E (to_le_bytes 8 block_number)"

definition receipt_of ::
    "('d, 'v) node_env \<Rightarrow> u256 \<Rightarrow> address \<Rightarrow> TxFields \<Rightarrow> u64 \<Rightarrow> u8 \<times> u64 \<times> address option \<Rightarrow> Receipt" where
  "receipt_of E tx_hash sender tf block_number = (\<lambda>(status, gas_used, contract_addr).
     \<lparr>rc_status = hex0x status, rc_gas_used = hex0x gas_used,
      rc_contract_address = map_option (hex_address E) contract_addr,
      rc_block_number = hex0x block_number, rc_transaction_hash = hex_b256 E tx_hash,
      rc_transaction_index = ''0x0'', rc_block_hash = hex_b256 E (block_hash_of E block_number),
      rc_logs = [], rc_from = hex_address E sender, rc_to = map_option (hex_address E) (tf_to tf),
      rc_cumulative_gas_used = hex0x gas_used, rc_logs_bloom = ''0x'' @ replicate 512 (CHR ''0''),
      rc_type = hex0x (tf_tx_type tf), rc_effective_gas_price = hex0x (tf_gas_price tf)\<rparr>)"

definition stored_tx_of ::
    "('d, 'v) node_env \<Rightarrow> u256 \<Rightarrow> address \<Rightarrow> TxFields \<Rightarrow> u64 \<Rightarrow> StoredTx" where
  "stored_tx_of E tx_hash sender tf block_number =
     \<lparr>st_hash = hex_b256 E tx_hash, st_nonce = hex0x (tf_nonce tf),
      st_block_hash = hex_b256 E (block_hash_of E block_number),
      st_block_number = hex0x block_number, st_transaction_index = ''0x0'',
      st_from = hex_address E sender, st_to = map_option (hex_address E) (tf_to tf),
      st_value = hex0x (tf_value tf), st_gas = hex0x (tf_gas_limit tf),
      st_gas_price = hex0x (tf_gas_price tf), st_input = ''0x'' @ ne_hex E (tf_input tf),
      st_chain_id = map_option hex0x (tf_chain_id_opt tf), st_type = hex0x (tf_tx_type tf)\<rparr>"

text \<open>The execution context and the transaction of a submission: nonce and balance checks stay on.\<close>

definition mining_context :: "('d, 'v) node_env \<Rightarrow> u64 \<Rightarrow> u64 \<Rightarrow> evm_ctx" where
  "mining_context E chain_id block_number = (ne_context E)
     \<lparr>ec_block_gas_limit := BLOCK_GAS_LIMIT, ec_basefee := 0, ec_disable_base_fee := True,
      ec_chain_id := chain_id, ec_block_number := ucast block_number\<rparr>"

definition mining_tx :: "address \<Rightarrow> TxFields \<Rightarrow> tx_env" where
  "mining_tx sender tf =
     \<lparr>te_caller = sender, te_to = tf_to tf, te_nonce = tf_nonce tf, te_gas_limit = tf_gas_limit tf,
      te_gas_price = tf_gas_price tf, te_value = tf_value tf, te_data = tf_input tf,
      te_chain_id = Some (tf_chain_id_opt tf)\<rparr>"

text \<open>What happens under the lock, once the transaction is decoded: the database goes through the
  EVM and comes back whatever the outcome, and an executed transaction makes a block.\<close>

definition mine_transaction ::
    "('d, 'v) node_env \<Rightarrow> u256 \<Rightarrow> address \<Rightarrow> TxFields \<Rightarrow> 'd NodeState \<Rightarrow>
     (string + u256) \<times> 'd NodeState" where
  "mine_transaction E tx_hash sender tf s =
     (case (case tf_chain_id_opt tf of
              Some cid \<Rightarrow> if cid \<noteq> ns_chain_id s then Some cid else None
            | None \<Rightarrow> None) of
        Some cid \<Rightarrow> (Inl (''chain id mismatch: tx='' @ dec_nat (unat cid) @ '' node=''
                        @ dec_nat (unat (ns_chain_id s))), s)
      | None \<Rightarrow>
          let block_number = ns_block_number s + 1;
              (exec_result, db) = ne_transact_commit E
                (mining_context E (ns_chain_id s) block_number) (mining_tx sender tf) (ns_db s);
              s = s\<lparr>ns_db := db\<rparr>
          in (case exec_result of
                Inl e \<Rightarrow> (Inl (''transaction validation failed: '' @ e), s)
              | Inr result \<Rightarrow>
                  (Inr tx_hash, s\<lparr>ns_block_number := block_number,
                     ns_receipts := (ns_receipts s)(tx_hash \<mapsto>
                       receipt_of E tx_hash sender tf block_number (outcome_of result)),
                     ns_transactions := (ns_transactions s)(tx_hash \<mapsto>
                       stored_tx_of E tx_hash sender tf block_number),
                     ns_block_hashes := (ns_block_hashes s)(block_number \<mapsto>
                       block_hash_of E block_number)\<rparr>)))"

definition send_raw_transaction ::
    "('d, 'v) node_env \<Rightarrow> bytes \<Rightarrow> 'd NodeState \<Rightarrow> (string + u256) \<times> 'd NodeState" where
  "send_raw_transaction E raw s =
     (case ne_decode E raw of
        Inl e \<Rightarrow> (Inl (''RLP decode error: '' @ e), s)
      | Inr envelope \<Rightarrow>
     (case ne_recover_signer E envelope of
        Inl e \<Rightarrow> (Inl (''sender recovery failed: '' @ e), s)
      | Inr sender \<Rightarrow>
     (case extract_tx_fields (ne_envelope E envelope) of
        Inl e \<Rightarrow> (Inl e, s)
      | Inr tf \<Rightarrow> mine_transaction E (ne_keccak256 E raw) sender tf s)))"

definition get_receipt :: "u256 \<Rightarrow> 'd NodeState \<Rightarrow> Receipt option" where
  "get_receipt hash s = ns_receipts s hash"

definition get_transaction :: "u256 \<Rightarrow> 'd NodeState \<Rightarrow> StoredTx option" where
  "get_transaction hash s = ns_transactions s hash"

definition get_block_hash :: "('d, 'v) node_env \<Rightarrow> u64 \<Rightarrow> 'd NodeState \<Rightarrow> u256" where
  "get_block_hash E number s =
     (case ns_block_hashes s number of Some h \<Rightarrow> h | None \<Rightarrow> block_hash_of E number)"

definition get_block :: "('d, 'v) node_env \<Rightarrow> u64 \<Rightarrow> 'd NodeState \<Rightarrow> json" where
  "get_block E number s = JObject
     [(''number'', JString (hex0x number)),
      (''hash'', JString (hex_b256 E (get_block_hash E number s))),
      (''parentHash'', JString (''0x'' @ replicate 64 (CHR ''0''))),
      (''nonce'', JString ''0x0000000000000000''),
      (''sha3Uncles'', JString ''0x1dcc4de8dec75d7aab85b567b6ccd41ad312451b948a7413f0a142fd40d49347''),
      (''logsBloom'', JString (''0x'' @ replicate 512 (CHR ''0''))),
      (''transactionsRoot'', JString ''0x56e81f171bcc55a6ff8345e692c0f86e5b48e01b996cadc001622fb5e363b421''),
      (''stateRoot'', JString ''0x56e81f171bcc55a6ff8345e692c0f86e5b48e01b996cadc001622fb5e363b421''),
      (''receiptsRoot'', JString ''0x56e81f171bcc55a6ff8345e692c0f86e5b48e01b996cadc001622fb5e363b421''),
      (''miner'', JString ''0x0000000000000000000000000000000000000000''),
      (''difficulty'', JString ''0x0''), (''totalDifficulty'', JString ''0x0''),
      (''extraData'', JString ''0x''), (''size'', JString ''0x200''),
      (''gasLimit'', JString (hex0x BLOCK_GAS_LIMIT)), (''gasUsed'', JString ''0x0''),
      (''timestamp'', JString ''0x0''), (''transactions'', JArray []), (''uncles'', JArray []),
      (''baseFeePerGas'', JString ''0x0'')]"

section \<open>What can be observed of a node\<close>

text \<open>An execution that ends in an error commits nothing: afterwards every account and every
  contract reads as before. (The database may remember that it looked an account up.) And an
  execution uses at most the gas limit of its transaction.\<close>

definition same_accounts :: "('d, 'v) node_env \<Rightarrow> 'd NodeState \<Rightarrow> 'd NodeState \<Rightarrow> bool" where
  "same_accounts E s t \<longleftrightarrow> (\<forall>a. get_balance E a t = get_balance E a s
     \<and> get_nonce E a t = get_nonce E a s \<and> get_code E a t = get_code E a s)"

definition node_env_ok :: "('d, 'v) node_env \<Rightarrow> bool" where
  "node_env_ok E \<longleftrightarrow> (\<forall>ctx tx s e db. ne_transact_commit E ctx tx (ns_db s) = (Inl e, db) \<longrightarrow>
     same_accounts E s (s\<lparr>ns_db := db\<rparr>)) \<and>
     (\<forall>ctx tx d gas out db. ne_transact_commit E ctx tx d = (Inr (ExecSuccess gas out), db) \<longrightarrow>
     gas \<le> te_gas_limit tx)"

text \<open>Everything but the accounts.\<close>

definition same_chain :: "'d NodeState \<Rightarrow> 'd NodeState \<Rightarrow> bool" where
  "same_chain s t \<longleftrightarrow> ns_block_number t = ns_block_number s \<and> ns_chain_id t = ns_chain_id s
     \<and> ns_receipts t = ns_receipts s \<and> ns_transactions t = ns_transactions s
     \<and> ns_block_hashes t = ns_block_hashes s"

lemma same_accounts_refl: "same_accounts E s s"
  by (simp add: same_accounts_def)

lemma same_chain_refl: "same_chain s s"
  by (simp add: same_chain_def)

lemma submission_cases:
  assumes "send_raw_transaction E raw s = (r, t)"
  obtains (refused) e where "r = Inl e" "t = s"
  | (failed) e ctx tx err db where "r = Inl e" "ne_transact_commit E ctx tx (ns_db s) = (Inl err, db)"
      "t = s\<lparr>ns_db := db\<rparr>"
  | (mined) envelope sender tf result db where
      "ne_decode E raw = Inr envelope" "ne_recover_signer E envelope = Inr sender"
      "extract_tx_fields (ne_envelope E envelope) = Inr tf"
      "ne_transact_commit E (mining_context E (ns_chain_id s) (ns_block_number s + 1))
         (mining_tx sender tf) (ns_db s) = (Inr result, db)"
      "tf_chain_id_opt tf \<in> {None, Some (ns_chain_id s)}"
      "r = Inr (ne_keccak256 E raw)"
      "t = s\<lparr>ns_db := db, ns_block_number := ns_block_number s + 1,
         ns_receipts := (ns_receipts s)(ne_keccak256 E raw \<mapsto> receipt_of E (ne_keccak256 E raw)
           sender tf (ns_block_number s + 1) (outcome_of result)),
         ns_transactions := (ns_transactions s)(ne_keccak256 E raw \<mapsto>
           stored_tx_of E (ne_keccak256 E raw) sender tf (ns_block_number s + 1)),
         ns_block_hashes := (ns_block_hashes s)(ns_block_number s + 1 \<mapsto>
           block_hash_of E (ns_block_number s + 1))\<rparr>"
proof -
  note def = send_raw_transaction_def [of E raw s]
  consider (bad) e where "send_raw_transaction E raw s = (Inl e, s)"
    | (good) envelope sender tf where "ne_decode E raw = Inr envelope"
      "ne_recover_signer E envelope = Inr sender"
      "extract_tx_fields (ne_envelope E envelope) = Inr tf"
      "send_raw_transaction E raw s = mine_transaction E (ne_keccak256 E raw) sender tf s"
    by (cases "ne_decode E raw"; cases "ne_recover_signer E (projr (ne_decode E raw))";
        cases "extract_tx_fields (ne_envelope E (projr (ne_decode E raw)))") (auto simp: def)
  then show thesis
  proof cases
    case bad
    with assms show thesis by (intro refused [of e]) simp_all
  next
    case good
    note mine = mine_transaction_def [of E "ne_keccak256 E raw" sender tf s]
    show thesis
    proof (cases "tf_chain_id_opt tf \<in> {None, Some (ns_chain_id s)}")
      case chain: True
      obtain result db where run: "ne_transact_commit E (mining_context E (ns_chain_id s) (ns_block_number s + 1))
          (mining_tx sender tf) (ns_db s) = (result, db)"
        by fastforce
      show thesis
      proof (cases result)
        case (Inl e)
        with assms good chain run show thesis
          by (intro failed) (auto simp: mine Let_def)
      next
        case (Inr x)
        with assms good chain run show thesis
          by (intro mined) (auto simp: mine Let_def)
      qed
    next
      case False
      then obtain cid where "tf_chain_id_opt tf = Some cid" and "cid \<noteq> ns_chain_id s" by auto
      with assms good have "t = s" and "isl r" by (auto simp: mine)
      then show thesis using refused [of "projl r"] by simp
    qed
  qed
qed

section \<open>Runs of the node\<close>

text \<open>A node after any number of submissions, of which \<open>n\<close> made a block.\<close>

inductive node_run :: "('d, 'v) node_env \<Rightarrow> u64 \<Rightarrow> nat \<Rightarrow> 'd NodeState \<Rightarrow> bool" for E cid where
  start: "node_new E cid = Some s \<Longrightarrow> node_run E cid 0 s"
| mined: "node_run E cid n s \<Longrightarrow> send_raw_transaction E raw s = (Inr h, t) \<Longrightarrow> node_run E cid (Suc n) t"
| refused: "node_run E cid n s \<Longrightarrow> send_raw_transaction E raw s = (Inl e, t) \<Longrightarrow> node_run E cid n t"

text \<open>The books of a node that has made \<open>n\<close> blocks.\<close>

definition node_books :: "('d, 'v) node_env \<Rightarrow> u64 \<Rightarrow> nat \<Rightarrow> 'd NodeState \<Rightarrow> bool" where
  "node_books E cid n s \<longleftrightarrow> unat (ns_block_number s) = n \<and> ns_chain_id s = cid
     \<and> (\<forall>b. ns_block_hashes s b = (if 1 \<le> unat b \<and> unat b \<le> n then Some (block_hash_of E b) else None))
     \<and> dom (ns_transactions s) = dom (ns_receipts s)
     \<and> finite (dom (ns_receipts s)) \<and> card (dom (ns_receipts s)) \<le> n
     \<and> (\<forall>h rc. ns_receipts s h = Some rc \<longrightarrow> rc_transaction_hash rc = hex_b256 E h \<and>
          (\<exists>b. 1 \<le> unat b \<and> unat b \<le> n \<and> rc_block_number rc = hex0x b
             \<and> rc_block_hash rc = hex_b256 E (block_hash_of E b)))"

lemma node_new_books:
  assumes "node_new E cid = Some s"
  shows "node_books E cid 0 s"
  using assms by (auto simp: node_new_def node_books_def)

lemma get_block_hash_eq:
  assumes "node_books E cid n s"
  shows "get_block_hash E b s = block_hash_of E b"
  using assms by (simp add: get_block_hash_def node_books_def)

lemma same_chain_books: "same_chain s t \<Longrightarrow> node_books E cid n s \<Longrightarrow> node_books E cid n t"
  by (simp add: node_books_def same_chain_def)

lemma receipt_of_fields [simp]:
  "rc_transaction_hash (receipt_of E h a tf b x) = hex_b256 E h"
  "rc_block_number (receipt_of E h a tf b x) = hex0x b"
  "rc_block_hash (receipt_of E h a tf b x) = hex_b256 E (block_hash_of E b)"
  "rc_status (receipt_of E h a tf b x) = hex0x (fst x)"
  by (simp_all add: receipt_of_def split: prod.splits)

lemma stored_tx_of_block [simp]:
  "st_block_hash (stored_tx_of E h a tf b) = hex_b256 E (block_hash_of E b)"
  "st_block_number (stored_tx_of E h a tf b) = hex0x b"
  by (simp_all add: stored_tx_of_def)

lemma mined_books:
  assumes "node_books E cid n s" and "Suc n < 2 ^ 64" and "b = ns_block_number s + 1"
    and "t = s\<lparr>ns_db := db, ns_block_number := b,
      ns_receipts := (ns_receipts s)(h \<mapsto> receipt_of E h a tf b x),
      ns_transactions := (ns_transactions s)(h \<mapsto> stored_tx_of E h a tf b),
      ns_block_hashes := (ns_block_hashes s)(b \<mapsto> block_hash_of E b)\<rparr>"
  shows "node_books E cid (Suc n) t"
proof -
  have b: "unat b = Suc n"
    using assms(1-3) by (simp add: node_books_def unat_plus_lt)
  have hashes: "ns_block_hashes t c = (if 1 \<le> unat c \<and> unat c \<le> Suc n then Some (block_hash_of E c) else None)" for c
  proof (cases "c = b")
    case True
    then show ?thesis using b by (simp add: assms(4))
  next
    case False
    then have "unat c \<noteq> Suc n" using b by (metis word_unat_eq_iff)
    with False assms(1) show ?thesis by (auto simp: assms(4) node_books_def)
  qed
  have card: "card (dom (ns_receipts t)) \<le> Suc n"
    using assms(1) by (auto simp: assms(4) node_books_def card_insert_if)
  have receipts: "rc_transaction_hash rc = hex_b256 E g \<and> (\<exists>c. 1 \<le> unat c \<and> unat c \<le> Suc n
      \<and> rc_block_number rc = hex0x c \<and> rc_block_hash rc = hex_b256 E (block_hash_of E c))"
    if "ns_receipts t g = Some rc" for g rc
  proof (cases "g = h")
    case True
    with that b show ?thesis by (auto simp: assms(4) intro!: exI [of _ b])
  next
    case False
    with that have "ns_receipts s g = Some rc" by (simp add: assms(4))
    with assms(1) show ?thesis unfolding node_books_def by (meson le_SucI)
  qed
  show ?thesis
    using assms(1) b hashes card receipts by (simp add: node_books_def assms(4))
qed

lemma node_run_books:
  assumes "node_run E cid n s" and "n < 2 ^ 64"
  shows "node_books E cid n s"
  using assms
proof (induction rule: node_run.induct)
  case (start s)
  then show ?case by (simp add: node_new_books)
next
  case (mined n s raw h t)
  then have "node_books E cid n s" by simp
  with mined(2,4) show ?case
    by (cases rule: submission_cases [OF mined(2)]) (auto intro: mined_books)
next
  case (refused n s raw e t)
  then have books: "node_books E cid n s" by simp
  from refused(2) show ?case
  proof (cases rule: submission_cases)
    case refused
    with books show ?thesis by simp
  next
    case failed
    with books show ?thesis by (auto intro: same_chain_books simp: same_chain_def)
  qed simp
qed

text \<open>A submission that is refused, or whose transaction the EVM rejects, changes nothing that can
  be observed of the node. One that is accepted makes the next block: under the Keccak hash of
  its bytes there are then a receipt and a transaction that name the hash of this block, and the
  receipts and transactions of all other hashes are as before.\<close>

lemma submission_effect:
  assumes "node_env_ok E" and "send_raw_transaction E raw s = (r, t)"
  shows "case r of
      Inl e \<Rightarrow> same_chain s t \<and> same_accounts E s t
    | Inr h \<Rightarrow> h = ne_keccak256 E raw \<and> ns_block_number t = ns_block_number s + 1
        \<and> (\<exists>rc tx. get_receipt h t = Some rc \<and> get_transaction h t = Some tx
             \<and> rc_status rc \<in> {''0x0'', ''0x1''}
             \<and> rc_block_hash rc = hex_b256 E (get_block_hash E (ns_block_number t) t)
             \<and> st_block_hash tx = rc_block_hash rc)
        \<and> (\<forall>g. g = h \<or> get_receipt g t = get_receipt g s \<and> get_transaction g t = get_transaction g s)"
  using assms(2)
proof (cases rule: submission_cases)
  case refused
  then show ?thesis by (simp add: same_chain_refl same_accounts_refl)
next
  case failed
  then have "same_accounts E s t" using assms(1) by (auto simp: node_env_ok_def)
  with failed show ?thesis by (simp add: same_chain_def)
next
  case (mined envelope sender tf result db)
  have "hex0x (fst (outcome_of result)) \<in> {''0x0'', ''0x1''}"
    by (cases result) (simp_all add: hex0x_def hex_nat.simps hex_digit_def)
  with mined(6,7) show ?thesis
    by (simp add: get_receipt_def get_transaction_def get_block_hash_def)
qed

lemma node_run_books_hold:
  assumes "node_run E cid n s" and "n < 2 ^ 64"
  shows "unat (ns_block_number s) = n \<and> ns_chain_id s = cid
    \<and> dom (ns_block_hashes s) = {b. 1 \<le> unat b \<and> unat b \<le> n}
    \<and> dom (ns_transactions s) = dom (ns_receipts s) \<and> card (dom (ns_receipts s)) \<le> n
    \<and> (\<forall>h rc. get_receipt h s = Some rc \<longrightarrow> rc_transaction_hash rc = hex_b256 E h \<and>
         (\<exists>b. 1 \<le> unat b \<and> unat b \<le> n \<and> rc_block_number rc = hex0x b
            \<and> rc_block_hash rc = hex_b256 E (get_block_hash E b s)))"
proof -
  have books: "node_books E cid n s" by (rule node_run_books [OF assms])
  have "dom (ns_block_hashes s) = {b. 1 \<le> unat b \<and> unat b \<le> n}"
    using books by (auto simp: node_books_def dom_def)
  with books show ?thesis
    unfolding get_block_hash_eq [OF books] get_receipt_def node_books_def by blast
qed

section \<open>Properties\<close>

text \<open>The books of the node, after any run in which it made n blocks: the block number is n,
  the recorded block hashes are those of the blocks 1 to n, the same hashes have a receipt and a
  transaction, at most n of them, and every receipt names a block between 1 and n together with the
  hash that \<open>get_block\<close> answers for it.\<close>

theorem node_books_kept:
  assumes "node_run E cid n s" and "n < 2 ^ 64"
  shows "unat (ns_block_number s) = n \<and> ns_chain_id s = cid
    \<and> dom (ns_block_hashes s) = {b. 1 \<le> unat b \<and> unat b \<le> n}
    \<and> dom (ns_transactions s) = dom (ns_receipts s) \<and> card (dom (ns_receipts s)) \<le> n
    \<and> (\<forall>h rc. get_receipt h s = Some rc \<longrightarrow> rc_transaction_hash rc = hex_b256 E h \<and>
         (\<exists>b. 1 \<le> unat b \<and> unat b \<le> n \<and> rc_block_number rc = hex0x b
            \<and> rc_block_hash rc = hex_b256 E (get_block_hash E b s)))"
  using assms by (rule node_run_books_hold)

text \<open>C40: An estimate is the gas that the trial run used and a fifth more, rounded down and capped
  at 30 million: it never loses a bit to the conversions and always covers the trial run.\<close>

theorem estimate_covers_run:
  assumes "node_env_ok E" and "estimate_gas E from' to' data value s = Inr g"
  shows "\<exists>used out db. ne_transact_commit E (read_only_context E (ns_chain_id s))
        (read_only_tx from' to' data value DEFAULT_GAS_LIMIT) (ns_db s) = (Inr (ExecSuccess used out), db)
      \<and> unat g = min (unat used * 12 div 10) 30000000 \<and> used \<le> g"
proof -
  obtain used out db where run: "ne_transact_commit E (read_only_context E (ns_chain_id s))
        (read_only_tx from' to' data value DEFAULT_GAS_LIMIT) (ns_db s) = (Inr (ExecSuccess used out), db)"
    and g: "g = min (ucast ((ucast used :: u128) * 12 div 10)) DEFAULT_GAS_LIMIT"
    using assms(2) by (auto simp: estimate_gas_def Let_def prod_eq_iff
        split: sum.splits execution_result.splits)
  have "used \<le> DEFAULT_GAS_LIMIT"
    using assms(1) run unfolding node_env_ok_def by (force simp: read_only_tx_def)
  then have small: "unat used \<le> 30000000" by (simp add: word_le_nat_alt DEFAULT_GAS_LIMIT_def)
  have "unat ((ucast used :: u128) * 12) = unat used * 12"
    using small by (subst unat_times_lt) (simp_all add: unsigned_ucast_eq take_bit_nat_eq_self)
  then have q: "unat ((ucast used :: u128) * 12 div 10) = unat used * 12 div 10"
    by (simp add: unat_div)
  have "unat used * 12 div 10 < 2 ^ 64" using small by simp
  then have "unat (ucast ((ucast used :: u128) * 12 div 10) :: u64) = unat used * 12 div 10"
    by (simp add: unsigned_ucast_eq q take_bit_nat_eq_self)
  then have gas: "unat g = min (unat used * 12 div 10) 30000000"
    by (simp add: g min_def word_le_nat_alt DEFAULT_GAS_LIMIT_def)
  have "unat used \<le> unat used * 12 div 10" by simp
  with gas small have "used \<le> g" by (simp add: word_le_nat_alt)
  with run gas show ?thesis by blast
qed

section \<open>A concrete node for the witnesses\<close>

definition toy_env :: "(address \<Rightarrow> db_account option, tx_envelope) node_env" where
  "toy_env = \<lparr>ne_default_db = Map.empty, ne_account = (\<lambda>d a. d a), ne_contract = (\<lambda>d h. None),
     ne_insert_account = (\<lambda>a b n d. d(a \<mapsto> \<lparr>da_balance = b, da_nonce = n, da_code_hash = KECCAK_EMPTY\<rparr>)),
     ne_context = \<lparr>ec_block_gas_limit = 0, ec_basefee = 0, ec_block_number = 0,
       ec_disable_balance_check = False, ec_disable_block_gas_limit = False,
       ec_disable_nonce_check = False, ec_disable_base_fee = False, ec_tx_chain_id_check = True,
       ec_chain_id = 1\<rparr>,
     ne_transact_commit = (\<lambda>ctx tx d. if te_gas_limit tx < 21000 then (Inl ''gas'', d)
       else (Inr (ExecSuccess 21000 (OutputCall [])), d)),
     ne_decode = (\<lambda>raw. if raw = [] then Inl ''empty'' else
       Inr (Legacy \<lparr>tb_nonce = 0, tb_gas_limit = 30000, tb_to = None, tb_value = 0, tb_input = []\<rparr> 0 None)),
     ne_recover_signer = (\<lambda>v. Inr 7), ne_envelope = (\<lambda>v. v), ne_keccak256 = from_be_bytes,
     ne_hex = concat \<circ> map (\<lambda>b. [hex_digit (unat b div 16), hex_digit (unat b mod 16)]),
     ne_parse_address = (\<lambda>t. Inr (of_nat (length t)))\<rparr>"

lemma toy_env_ok: "node_env_ok toy_env"
  by (auto simp: node_env_ok_def toy_env_def same_accounts_refl not_less split: if_splits)

lemma toy_new: "\<exists>s. node_new toy_env 5 = Some s"
  by (simp add: node_new_def DEV_ACCOUNTS_def toy_env_def)

lemma toy_send: "\<exists>t. send_raw_transaction toy_env [1] s = (Inr 1, t)"
  by (simp add: send_raw_transaction_def mine_transaction_def toy_env_def tx_fields_def
      mining_tx_def Let_def from_be_bytes_def be_nat_def)

theorem node_books_kept_witness:
  "\<exists>s. node_run toy_env 5 1 s \<and> unat (ns_block_number s) = 1 \<and> card (dom (ns_receipts s)) \<le> 1"
proof -
  obtain s t where s: "node_new toy_env 5 = Some s" and t: "send_raw_transaction toy_env [1] s = (Inr 1, t)"
    using toy_new toy_send by blast
  have "node_run toy_env 5 1 t"
    using node_run.mined [OF node_run.start [OF s] t] by simp
  with node_books_kept [OF this] show ?thesis by auto
qed

theorem estimate_covers_run_witness:
  "\<exists>s g. node_new toy_env 5 = Some s \<and> estimate_gas toy_env None None [] 0 s = Inr g \<and> 21000 \<le> g"
proof -
  obtain s where s: "node_new toy_env 5 = Some s" using toy_new by blast
  have "\<exists>g. estimate_gas toy_env None None [] 0 s = Inr g"
    by (simp add: estimate_gas_def toy_env_def read_only_tx_def DEFAULT_GAS_LIMIT_def Let_def)
  then obtain g where g: "estimate_gas toy_env None None [] 0 s = Inr g" by blast
  have "used = 21000" if "ne_transact_commit toy_env ctx tx d = (Inr (ExecSuccess used out), db)"
    for ctx tx d used out db
    using that by (simp add: toy_env_def split: if_splits)
  with estimate_covers_run [OF toy_env_ok g] have "21000 \<le> g" by blast
  with s g show ?thesis by blast
qed

end
