(* ===== verification/Rpc.thy ===== *)
theory Rpc
  imports Node
begin

text \<open>
  The JSON-RPC endpoint of \<open>suwappu-node/src/rpc.rs\<close>: the parsers of the parameters and the
  dispatch of a request onto the node. The HTTP server around it (axum) is not modelled; a
  request is served by one call of \<open>rpc_handler\<close>.

  The hex crate, alloy's number parser and the debug format of a text are parameters.
\<close>

section \<open>Parameters\<close>

record ('d, 'v) rpc_env = "('d, 'v) node_env" +
  re_hex_decode :: "string \<Rightarrow> string + bytes"
  re_u256_from_str_radix :: "string \<Rightarrow> string + u256"
  re_debug :: "string \<Rightarrow> string"

text \<open>What hex encodes it decodes.\<close>

definition rpc_env_ok :: "('d, 'v) rpc_env \<Rightarrow> bool" where
  "rpc_env_ok E \<longleftrightarrow> (\<forall>bs. re_hex_decode E (ne_hex E bs) = Inr bs)"

section \<open>Values\<close>

fun json_index :: "json \<Rightarrow> nat \<Rightarrow> json option" where
  "json_index (JArray vs) i = (if i < length vs then Some (vs ! i) else None)"
| "json_index _ i = None"

fun json_get :: "json \<Rightarrow> string \<Rightarrow> json option" where
  "json_get (JObject kvs) k = map_of kvs k"
| "json_get _ k = None"

fun as_str :: "json \<Rightarrow> string option" where
  "as_str (JString s) = Some s"
| "as_str _ = None"

definition strip_0x :: "string \<Rightarrow> string" where
  "strip_0x s = (if take 2 s = ''0x'' then drop 2 s else s)"

text \<open>\<open>u64::from_str_radix(s, 16)\<close>: an optional plus sign and at least one digit, of either case;
  None for the error, which is also the answer to a number of more than 64 bits.\<close>

definition hex_value :: "char \<Rightarrow> nat option" where
  "hex_value c = (let n = of_char c :: nat in
     if 48 \<le> n \<and> n \<le> 57 then Some (n - 48)
     else if 97 \<le> n \<and> n \<le> 102 then Some (n - 87)
     else if 65 \<le> n \<and> n \<le> 70 then Some (n - 55) else None)"

fun hex_number :: "nat \<Rightarrow> string \<Rightarrow> nat option" where
  "hex_number acc [] = Some acc"
| "hex_number acc (c # cs) =
     (case hex_value c of None \<Rightarrow> None | Some d \<Rightarrow> hex_number (acc * 16 + d) cs)"

definition u64_from_hex :: "string \<Rightarrow> u64 option" where
  "u64_from_hex s =
     (let digits = (if s \<noteq> [] \<and> hd s = CHR ''+'' then tl s else s) in
      if digits = [] then None
      else case hex_number 0 digits of
          None \<Rightarrow> None
        | Some n \<Rightarrow> if n < 2 ^ 64 then Some (of_nat n) else None)"

section \<open>Parameter parsers\<close>

definition parse_address :: "('d, 'v) rpc_env \<Rightarrow> json \<Rightarrow> nat \<Rightarrow> string + address" where
  "parse_address E params idx =
     (case Option.bind (json_index params idx) as_str of
        None \<Rightarrow> Inl (''missing param['' @ dec_nat idx @ ''] (address)'')
      | Some s \<Rightarrow> (case ne_parse_address E s of
            Inl e \<Rightarrow> Inl (''invalid address '' @ re_debug E s @ '': '' @ e)
          | Inr a \<Rightarrow> Inr a))"

definition parse_hash :: "('d, 'v) rpc_env \<Rightarrow> json \<Rightarrow> nat \<Rightarrow> string + u256" where
  "parse_hash E params idx =
     (case Option.bind (json_index params idx) as_str of
        None \<Rightarrow> Inl (''missing param['' @ dec_nat idx @ ''] (hash)'')
      | Some s \<Rightarrow> (case re_hex_decode E (strip_0x s) of
            Inl e \<Rightarrow> Inl (''invalid hash '' @ re_debug E s @ '': '' @ e)
          | Inr bytes \<Rightarrow>
              if length bytes \<noteq> 32
              then Inl (''hash must be 32 bytes, got '' @ dec_nat (length bytes))
              else Inr (from_be_bytes bytes)))"

definition parse_block_tag :: "json \<Rightarrow> nat \<Rightarrow> u64 \<Rightarrow> u64" where
  "parse_block_tag params idx current =
     (case Option.bind (json_index params idx) as_str of
        None \<Rightarrow> current
      | Some s \<Rightarrow>
          if s \<in> {''latest'', ''pending'', ''safe'', ''finalized''} then current
          else if s = ''earliest'' then 0
          else (case u64_from_hex (strip_0x s) of Some n \<Rightarrow> n | None \<Rightarrow> current))"

definition decode_hex_input :: "('d, 'v) rpc_env \<Rightarrow> string \<Rightarrow> string + bytes" where
  "decode_hex_input E s = (case re_hex_decode E (strip_0x s) of
       Inl e \<Rightarrow> Inl (''invalid hex: '' @ e) | Inr b \<Rightarrow> Inr b)"

definition parse_u256_hex :: "('d, 'v) rpc_env \<Rightarrow> string \<Rightarrow> string + u256" where
  "parse_u256_hex E s = (case re_u256_from_str_radix E (strip_0x s) of
       Inl e \<Rightarrow> Inl (''invalid U256 hex '' @ re_debug E (strip_0x s) @ '': '' @ e) | Inr v \<Rightarrow> Inr v)"

definition format_u256_hex :: "u256 \<Rightarrow> string" where
  "format_u256_hex v = hex_nat (unat v)"

text \<open>\<open>parse().ok()\<close>: an address that does not parse is none.\<close>

definition address_ok :: "('d, 'v) rpc_env \<Rightarrow> string \<Rightarrow> address option" where
  "address_ok E s = (case ne_parse_address E s of Inl e \<Rightarrow> None | Inr a \<Rightarrow> Some a)"

definition parse_call_object ::
    "('d, 'v) rpc_env \<Rightarrow> json \<Rightarrow> string + (address option \<times> address option \<times> bytes \<times> u256)" where
  "parse_call_object E params =
     (case json_index params 0 of
        None \<Rightarrow> Inl ''missing call object''
      | Some obj \<Rightarrow>
          let from' = Option.bind (Option.bind (json_get obj ''from'') as_str) (address_ok E);
              to' = Option.bind (Option.bind (json_get obj ''to'') as_str)
                      (\<lambda>s. if s = ''0x'' \<or> s = [] then None else address_ok E s);
              data_field = (case json_get obj ''data'' of Some v \<Rightarrow> Some v | None \<Rightarrow> json_get obj ''input'')
          in (case (case Option.bind data_field as_str of
                      None \<Rightarrow> Inr [] | Some s \<Rightarrow> decode_hex_input E s) of
                Inl e \<Rightarrow> Inl e
              | Inr data \<Rightarrow>
                  (case (case Option.bind (json_get obj ''value'') as_str of
                           None \<Rightarrow> Inr 0 | Some s \<Rightarrow> parse_u256_hex E s) of
                     Inl e \<Rightarrow> Inl e
                   | Inr value \<Rightarrow> Inr (from', to', data, value))))"

section \<open>Responses\<close>

record RpcRequest =
  rq_jsonrpc :: "string option"
  rq_id :: "json option"
  rq_method :: string
  rq_params :: "json option"

record RpcResponse =
  rr_jsonrpc :: string
  rr_id :: json
  rr_result :: "json option"
  rr_error :: "(int \<times> string) option"

definition rpc_ok :: "json \<Rightarrow> json \<Rightarrow> RpcResponse" where
  "rpc_ok id' result = \<lparr>rr_jsonrpc = ''2.0'', rr_id = id', rr_result = Some result, rr_error = None\<rparr>"

definition rpc_err :: "json \<Rightarrow> int \<Rightarrow> string \<Rightarrow> RpcResponse" where
  "rpc_err id' code msg =
     \<lparr>rr_jsonrpc = ''2.0'', rr_id = id', rr_result = None, rr_error = Some (code, msg)\<rparr>"

definition json_opt :: "string option \<Rightarrow> json" where
  "json_opt x = (case x of None \<Rightarrow> JNull | Some s \<Rightarrow> JString s)"

text \<open>The serialised forms, with the keys in camel case.\<close>

definition receipt_json :: "Receipt \<Rightarrow> json" where
  "receipt_json r = JObject
     [(''status'', JString (rc_status r)), (''gasUsed'', JString (rc_gas_used r)),
      (''contractAddress'', json_opt (rc_contract_address r)),
      (''blockNumber'', JString (rc_block_number r)),
      (''transactionHash'', JString (rc_transaction_hash r)),
      (''transactionIndex'', JString (rc_transaction_index r)),
      (''blockHash'', JString (rc_block_hash r)), (''logs'', JArray (rc_logs r)),
      (''from'', JString (rc_from r)), (''to'', json_opt (rc_to r)),
      (''cumulativeGasUsed'', JString (rc_cumulative_gas_used r)),
      (''logsBloom'', JString (rc_logs_bloom r)), (''type'', JString (rc_type r)),
      (''effectiveGasPrice'', JString (rc_effective_gas_price r))]"

definition stored_tx_json :: "StoredTx \<Rightarrow> json" where
  "stored_tx_json t = JObject
     [(''hash'', JString (st_hash t)), (''nonce'', JString (st_nonce t)),
      (''blockHash'', JString (st_block_hash t)), (''blockNumber'', JString (st_block_number t)),
      (''transactionIndex'', JString (st_transaction_index t)), (''from'', JString (st_from t)),
      (''to'', json_opt (st_to t)), (''value'', JString (st_value t)), (''gas'', JString (st_gas t)),
      (''gasPrice'', JString (st_gas_price t)), (''input'', JString (st_input t)),
      (''chainId'', json_opt (st_chain_id t)), (''type'', JString (st_type t))]"

section \<open>Dispatch\<close>

text \<open>The arms of the match that read: the method and its response. The match on the method's
  name is the lookup of the name in this list.\<close>

definition rpc_reads :: "('d, 'v) rpc_env \<Rightarrow> json \<Rightarrow> json \<Rightarrow> 'd NodeState \<Rightarrow> (string \<times> RpcResponse) list" where
  "rpc_reads E id' params s = (let node = node_env.truncate E in
     [(''eth_chainId'', rpc_ok id' (JString (hex0x (ns_chain_id s)))),
      (''net_version'', rpc_ok id' (JString (dec_nat (unat (ns_chain_id s))))),
      (''eth_blockNumber'', rpc_ok id' (JString (hex0x (ns_block_number s)))),
      (''eth_gasPrice'', rpc_ok id' (JString ''0x0'')),
      (''eth_maxPriorityFeePerGas'', rpc_ok id' (JString ''0x0'')),
      (''eth_getBalance'', case parse_address E params 0 of
          Inr a \<Rightarrow> rpc_ok id' (JString (''0x'' @ format_u256_hex (get_balance node a s)))
        | Inl e \<Rightarrow> rpc_err id' (-32602) e),
      (''eth_getTransactionCount'', case parse_address E params 0 of
          Inr a \<Rightarrow> rpc_ok id' (JString (hex0x (get_nonce node a s)))
        | Inl e \<Rightarrow> rpc_err id' (-32602) e),
      (''eth_getCode'', case parse_address E params 0 of
          Inr a \<Rightarrow> rpc_ok id' (JString (''0x'' @ ne_hex E (get_code node a s)))
        | Inl e \<Rightarrow> rpc_err id' (-32602) e),
      (''eth_call'', case parse_call_object E params of
          Inr (from', to', data, value) \<Rightarrow>
            (case eth_call node from' to' data value None s of
               Inr out \<Rightarrow> rpc_ok id' (JString (''0x'' @ ne_hex E out))
             | Inl e \<Rightarrow> rpc_err id' 3 e)
        | Inl e \<Rightarrow> rpc_err id' (-32602) e),
      (''eth_estimateGas'', case parse_call_object E params of
          Inr (from', to', data, value) \<Rightarrow>
            (case estimate_gas node from' to' data value s of
               Inr gas \<Rightarrow> rpc_ok id' (JString (hex0x gas))
             | Inl e \<Rightarrow> rpc_err id' 3 e)
        | Inl e \<Rightarrow> rpc_err id' (-32602) e),
      (''eth_getTransactionReceipt'', case parse_hash E params 0 of
          Inr h \<Rightarrow> (case get_receipt h s of
              Some r \<Rightarrow> rpc_ok id' (receipt_json r) | None \<Rightarrow> rpc_ok id' JNull)
        | Inl e \<Rightarrow> rpc_err id' (-32602) e),
      (''eth_getTransactionByHash'', case parse_hash E params 0 of
          Inr h \<Rightarrow> (case get_transaction h s of
              Some t \<Rightarrow> rpc_ok id' (stored_tx_json t) | None \<Rightarrow> rpc_ok id' JNull)
        | Inl e \<Rightarrow> rpc_err id' (-32602) e),
      (''eth_getBlockByNumber'', rpc_ok id'
          (get_block node (parse_block_tag params 0 (ns_block_number s)) s))])"

definition rpc_send :: "('d, 'v) rpc_env \<Rightarrow> json \<Rightarrow> json \<Rightarrow> 'd NodeState \<Rightarrow> RpcResponse \<times> 'd NodeState" where
  "rpc_send E id' params s =
     (let raw_hex = (case Option.bind (json_index params 0) as_str of Some t \<Rightarrow> t | None \<Rightarrow> []) in
      case decode_hex_input E raw_hex of
        Inl e \<Rightarrow> (rpc_err id' (-32602) e, s)
      | Inr raw \<Rightarrow>
          (case send_raw_transaction (node_env.truncate E) raw s of
             (Inr hash, t) \<Rightarrow> (rpc_ok id' (JString (hex_b256 (node_env.truncate E) hash)), t)
           | (Inl e, t) \<Rightarrow> (rpc_err id' (-32000) e, t)))"

definition dispatch :: "('d, 'v) rpc_env \<Rightarrow> json \<Rightarrow> string \<Rightarrow> json \<Rightarrow> 'd NodeState \<Rightarrow>
     RpcResponse \<times> 'd NodeState" where
  "dispatch E id' method params s =
     (if method = ''eth_sendRawTransaction'' then rpc_send E id' params s
      else case map_of (rpc_reads E id' params s) method of
          Some r \<Rightarrow> (r, s)
        | None \<Rightarrow> (rpc_err id' (-32601) (''method not found: '' @ method), s))"

definition rpc_handler :: "('d, 'v) rpc_env \<Rightarrow> RpcRequest \<Rightarrow> 'd NodeState \<Rightarrow> RpcResponse \<times> 'd NodeState" where
  "rpc_handler E req =
     dispatch E (case rq_id req of Some v \<Rightarrow> v | None \<Rightarrow> JNull) (rq_method req)
       (case rq_params req of Some v \<Rightarrow> v | None \<Rightarrow> JArray [])"

section \<open>Lemmas\<close>

definition rpc_methods :: "string list" where
  "rpc_methods = [''eth_chainId'', ''net_version'', ''eth_blockNumber'', ''eth_gasPrice'',
     ''eth_maxPriorityFeePerGas'', ''eth_getBalance'', ''eth_getTransactionCount'', ''eth_getCode'',
     ''eth_call'', ''eth_estimateGas'', ''eth_getTransactionReceipt'', ''eth_getTransactionByHash'',
     ''eth_getBlockByNumber'', ''eth_sendRawTransaction'']"

text \<open>A response carries the request's id and either a result or an error of one of these codes.\<close>

definition answers :: "json \<Rightarrow> int set \<Rightarrow> RpcResponse \<Rightarrow> bool" where
  "answers id' codes r \<longleftrightarrow> (\<exists>v. r = rpc_ok id' v) \<or> (\<exists>c m. c \<in> codes \<and> r = rpc_err id' c m)"

lemma answers_simps [simp]:
  "answers id' C (rpc_ok id' v)" "answers id' C (rpc_err id' c m) \<longleftrightarrow> c \<in> C"
  by (auto simp: answers_def rpc_ok_def rpc_err_def)

lemma reads_methods: "set (map fst (rpc_reads E id' params s)) = set rpc_methods - {''eth_sendRawTransaction''}"
  by (auto simp: rpc_reads_def rpc_methods_def Let_def)

lemma reads_answer:
  "list_all (\<lambda>(m, r). answers id' {-32602, 3} r) (rpc_reads E id' params s)"
  by (simp add: rpc_reads_def Let_def split: sum.split option.split)

lemma send_answers: "answers id' {-32602, -32000} (fst (rpc_send E id' params s))"
  by (simp add: rpc_send_def Let_def split: sum.split prod.split)

lemma hex_value_digit: "d < 16 \<Longrightarrow> hex_value (hex_digit d) = Some d"
  by (auto simp: hex_value_def hex_digit_def less_Suc_eq numeral_eq_Suc)

lemma hex_number_append:
  "hex_number acc (xs @ ys) = (case hex_number acc xs of None \<Rightarrow> None | Some n \<Rightarrow> hex_number n ys)"
  by (induction xs arbitrary: acc) (auto split: option.split)

lemma hex_number_hex_nat: "hex_number 0 (hex_nat n) = Some n"
proof (induction n rule: hex_nat.induct)
  case (1 n)
  show ?case
  proof (cases "n < 16")
    case True
    then show ?thesis by (simp add: hex_nat.simps [of n] hex_value_digit)
  next
    case False
    with 1 show ?thesis by (simp add: hex_nat.simps [of n] hex_number_append hex_value_digit)
  qed
qed

lemma hex_nat_head: "hex_nat n \<noteq> [] \<and> hd (hex_nat n) \<noteq> CHR ''+''"
proof (induction n rule: hex_nat.induct)
  case (1 n)
  have "hex_digit d \<noteq> CHR ''+''" if "d < 16" for d
    using hex_value_digit [OF that] by (auto simp: hex_value_def)
  with 1 show ?case by (cases "n < 16") (simp_all add: hex_nat.simps [of n])
qed

lemma u64_from_hex_nat: "u64_from_hex (hex_nat (unat n)) = Some n"
  using hex_nat_head [of "unat n"] unat_lt2p [of n]
  by (simp add: u64_from_hex_def Let_def hex_number_hex_nat)

lemma truncate_simps [simp]:
  "ne_hex (node_env.truncate E) = ne_hex E" "ne_decode (node_env.truncate E) = ne_decode E"
  "ne_keccak256 (node_env.truncate E) = ne_keccak256 E"
  by (simp_all add: node_env.truncate_def)

lemma parse_hash_hex:
  assumes "rpc_env_ok E"
  shows "parse_hash E (JArray [JString (hex_b256 (node_env.truncate E) h)]) 0 = Inr h"
proof -
  have "strip_0x (hex_b256 (node_env.truncate E) h) = ne_hex E (to_be_bytes 32 h)"
    by (simp add: strip_0x_def hex_b256_def)
  then show ?thesis
    using assms by (simp add: parse_hash_def rpc_env_ok_def from_to_be_bytes)
qed

text \<open>What the two lookups of a transaction answer.\<close>

lemma dispatch_receipt:
  assumes "parse_hash E params 0 = Inr h"
  shows "dispatch E id' ''eth_getTransactionReceipt'' params s
      = (case get_receipt h s of Some r \<Rightarrow> rpc_ok id' (receipt_json r) | None \<Rightarrow> rpc_ok id' JNull, s)"
    and "dispatch E id' ''eth_getTransactionByHash'' params s
      = (case get_transaction h s of Some r \<Rightarrow> rpc_ok id' (stored_tx_json r) | None \<Rightarrow> rpc_ok id' JNull, s)"
  using assms by (simp_all add: dispatch_def rpc_reads_def Let_def)

text \<open>A destination that is no address is taken for no destination, so that the request is run as a
  contract creation.\<close>

lemma malformed_to_creates:
  assumes "ne_parse_address E s = Inl e"
  shows "parse_call_object E (JArray [JObject [(''to'', JString s)]]) = Inr (None, None, [], 0)"
  using assms by (simp add: parse_call_object_def address_ok_def Let_def)

lemma rpc_handler_answers:
  "case rpc_handler E req s of (resp, t) \<Rightarrow>
     rr_id resp = (case rq_id req of Some v \<Rightarrow> v | None \<Rightarrow> JNull)
     \<and> (rr_result resp = None) = (rr_error resp \<noteq> None)
     \<and> (rq_method req \<notin> set rpc_methods) = (\<exists>m. rr_error resp = Some (-32601, m))
     \<and> t = (if rq_method req = ''eth_sendRawTransaction'' then t else s)"
proof -
  let ?id = "case rq_id req of Some v \<Rightarrow> v | None \<Rightarrow> JNull"
  let ?ps = "case rq_params req of Some v \<Rightarrow> v | None \<Rightarrow> JArray []"
  let ?arms = "rpc_reads E ?id ?ps s"
  obtain resp t where run: "rpc_handler E req s = (resp, t)" by fastforce
  consider (send) "rq_method req = ''eth_sendRawTransaction''" "answers ?id {-32602, -32000} resp"
    | (read) "rq_method req \<in> set rpc_methods" "answers ?id {-32602, 3} resp" "t = s"
    | (other) "rq_method req \<notin> set rpc_methods"
        "resp = rpc_err ?id (-32601) (''method not found: '' @ rq_method req)" "t = s"
  proof (cases "rq_method req = ''eth_sendRawTransaction''")
    case True
    with run have "rpc_send E ?id ?ps s = (resp, t)" by (simp add: rpc_handler_def dispatch_def)
    with send_answers [of ?id E ?ps s] True show ?thesis by (intro send) simp_all
  next
    case False
    show ?thesis
    proof (cases "map_of ?arms (rq_method req)")
      case None
      then have "rq_method req \<notin> set (map fst ?arms)" by (simp add: map_of_eq_None_iff)
      with False reads_methods have "rq_method req \<notin> set rpc_methods" by blast
      with run False None show ?thesis by (intro other) (simp_all add: rpc_handler_def dispatch_def)
    next
      case (Some r)
      then have r: "(rq_method req, r) \<in> set ?arms" by (rule map_of_SomeD)
      then have "rq_method req \<in> set (map fst ?arms)" by force
      then have "rq_method req \<in> set rpc_methods" using reads_methods by blast
      moreover have "answers ?id {-32602, 3} r"
        using reads_answer r by (fastforce simp: list_all_iff)
      ultimately show ?thesis
        using run False Some by (intro read) (simp_all add: rpc_handler_def dispatch_def)
    qed
  qed
  then show ?thesis
    by cases (auto simp: run answers_def rpc_ok_def rpc_err_def rpc_methods_def)
qed

section \<open>Properties\<close>

text \<open>C39: Every request is answered with its own id (null without one) and either a result or an
  error. The error is -32601 exactly for a method outside the fourteen known ones, and only
  \<open>eth_sendRawTransaction\<close> can change the node.\<close>

theorem rpc_answers:
  "case rpc_handler E req s of (resp, t) \<Rightarrow>
     rr_id resp = (case rq_id req of Some v \<Rightarrow> v | None \<Rightarrow> JNull)
     \<and> (rr_result resp = None) = (rr_error resp \<noteq> None)
     \<and> (rq_method req \<notin> set rpc_methods) = (\<exists>m. rr_error resp = Some (-32601, m))
     \<and> t = (if rq_method req = ''eth_sendRawTransaction'' then t else s)"
  by (rule rpc_handler_answers)

text \<open>C36: Every accepted submission is found: when \<open>eth_sendRawTransaction\<close> answers a hash, then asking
  for the receipt and for the transaction of this hash answers a receipt and a transaction of the block
  just made. When it answers an error, nothing that can be observed has changed.\<close>

theorem submitted_is_found:
  assumes "rpc_env_ok E" and "node_env_ok (node_env.truncate E)"
    and "dispatch E id' ''eth_sendRawTransaction'' params s = (resp, t)"
  shows "case rr_result resp of
      Some v \<Rightarrow> ns_block_number t = ns_block_number s + 1
        \<and> (\<exists>rc tx. dispatch E id' ''eth_getTransactionReceipt'' (JArray [v]) t = (rpc_ok id' (receipt_json rc), t)
             \<and> dispatch E id' ''eth_getTransactionByHash'' (JArray [v]) t = (rpc_ok id' (stored_tx_json tx), t)
             \<and> rc_block_hash rc = hex_b256 (node_env.truncate E) (get_block_hash (node_env.truncate E) (ns_block_number t) t)
             \<and> st_block_hash tx = rc_block_hash rc)
    | None \<Rightarrow> same_chain s t \<and> same_accounts (node_env.truncate E) s t"
proof -
  let ?N = "node_env.truncate E"
  have send: "rpc_send E id' params s = (resp, t)" using assms(3) by (simp add: dispatch_def)
  let ?hex = "case Option.bind (json_index params 0) as_str of Some t \<Rightarrow> t | None \<Rightarrow> []"
  show ?thesis
  proof (cases "decode_hex_input E ?hex")
    case (Inl e)
    with send have "t = s" and "rr_result resp = None"
      by (auto simp: rpc_send_def Let_def rpc_err_def)
    then show ?thesis by (simp add: same_chain_refl same_accounts_refl)
  next
    case (Inr raw)
    obtain r u where run: "send_raw_transaction ?N raw s = (r, u)" by fastforce
    note out = submission_effect [OF assms(2) run]
    show ?thesis
    proof (cases r)
      case (Inl e)
      with send Inr run have "t = u" and "rr_result resp = None"
        by (auto simp: rpc_send_def Let_def rpc_err_def)
      with out Inl show ?thesis by simp
    next
      case h: (Inr h)
      with send Inr run have t: "t = u" and v: "rr_result resp = Some (JString (hex_b256 ?N h))"
        by (auto simp: rpc_send_def Let_def rpc_ok_def)
      from out h t obtain rc tx where "get_receipt h t = Some rc" "get_transaction h t = Some tx"
        "rc_block_hash rc = hex_b256 ?N (get_block_hash ?N (ns_block_number t) t)"
        "st_block_hash tx = rc_block_hash rc" "ns_block_number t = ns_block_number s + 1"
        by auto
      then show ?thesis
        unfolding v option.case dispatch_receipt [OF parse_hash_hex [OF assms(1)]]
        by (intro conjI exI [of _ rc] exI [of _ tx]) simp_all
    qed
  qed
qed

text \<open>A block number in the form the node prints it is read back as this number, the named tags
  are the current block and the first, and a request without a tag means the current block.\<close>

theorem block_tag_roundtrip:
  "parse_block_tag (JArray [JString (hex0x n)]) 0 current = n
   \<and> parse_block_tag (JArray [JString ''latest'']) 0 current = current
   \<and> parse_block_tag (JArray [JString ''earliest'']) 0 current = 0
   \<and> parse_block_tag (JArray []) 0 current = current"
  by (simp add: parse_block_tag_def hex0x_def strip_0x_def u64_from_hex_nat)

section \<open>A concrete endpoint for the witnesses\<close>

fun unhex :: "string \<Rightarrow> string + bytes" where
  "unhex [] = Inr []"
| "unhex [c] = Inl ''odd''"
| "unhex (a # b # cs) = (case (hex_value a, hex_value b, unhex cs) of
     (Some x, Some y, Inr bs) \<Rightarrow> Inr (of_nat (x * 16 + y) # bs) | _ \<Rightarrow> Inl ''digit'')"

definition toy_rpc :: "(address \<Rightarrow> db_account option, tx_envelope) rpc_env" where
  "toy_rpc = node_env.extend toy_env
     \<lparr>re_hex_decode = unhex, re_u256_from_str_radix = (\<lambda>s. Inr 0), re_debug = (\<lambda>s. s)\<rparr>"

lemma toy_rpc_ok: "rpc_env_ok toy_rpc" "node_env.truncate toy_rpc = toy_env"
proof -
  have digit: "hex_value (hex_digit d) = Some d" if "d < 16" for d using that by (rule hex_value_digit)
  have byte: "unat b div 16 < 16" "of_nat (unat b div 16 * 16 + unat b mod 16) = b" for b :: u8
    using unat_lt2p [of b] by simp_all
  have "unhex (concat (map (\<lambda>b. [hex_digit (unat b div 16), hex_digit (unat b mod 16)]) bs)) = Inr bs" for bs :: bytes
    by (induction bs) (simp_all add: digit byte)
  then show "rpc_env_ok toy_rpc"
    by (simp add: rpc_env_ok_def toy_rpc_def toy_env_def node_env.extend_def)
  show "node_env.truncate toy_rpc = toy_env"
    by (simp add: toy_rpc_def toy_env_def node_env.extend_def node_env.truncate_def)
qed

lemma toy_dispatch:
  "\<exists>resp t v. dispatch toy_rpc id' ''eth_sendRawTransaction'' (JArray [JString ''0x01'']) s = (resp, t)
     \<and> rr_result resp = Some v"
proof -
  have "decode_hex_input toy_rpc ''0x01'' = Inr [1]"
    by (simp add: decode_hex_input_def strip_0x_def toy_rpc_def node_env.extend_def hex_value_def)
  moreover obtain t where "send_raw_transaction toy_env [1] s = (Inr 1, t)" using toy_send by blast
  ultimately show ?thesis by (simp add: dispatch_def rpc_send_def toy_rpc_ok rpc_ok_def)
qed

theorem submitted_is_found_witness:
  "\<exists>s t v rc. node_new toy_env 5 = Some s
     \<and> snd (dispatch toy_rpc JNull ''eth_sendRawTransaction'' (JArray [JString ''0x01'']) s) = t
     \<and> dispatch toy_rpc JNull ''eth_getTransactionReceipt'' (JArray [v]) t = (rpc_ok JNull (receipt_json rc), t)"
proof -
  obtain s where s: "node_new toy_env 5 = Some s" using toy_new by blast
  obtain resp t v where run: "dispatch toy_rpc JNull ''eth_sendRawTransaction'' (JArray [JString ''0x01'']) s = (resp, t)"
    and v: "rr_result resp = Some v"
    using toy_dispatch by blast
  have "node_env_ok (node_env.truncate toy_rpc)" by (simp add: toy_rpc_ok toy_env_ok)
  from submitted_is_found [OF toy_rpc_ok(1) this run] v
  obtain rc where "dispatch toy_rpc JNull ''eth_getTransactionReceipt'' (JArray [v]) t = (rpc_ok JNull (receipt_json rc), t)"
    by auto
  with s run show ?thesis by (metis snd_conv)
qed

end
