(* ===== verification/Server.thy ===== *)
theory Server
  imports Rpc
begin

text \<open>
  The server: the command line of \<open>suwappu-node/src/main.rs\<close> and \<open>serve\<close> of \<open>rpc.rs\<close>, by what a client
  sees. axum hands every POST to \<open>rpc_handler\<close> with the one shared node; a request is one step,
  since the node's methods hold its lock. The socket and the printed banner are left out.
\<close>

section \<open>Model\<close>

text \<open>The arguments with the defaults that clap is given.\<close>

record Args =
  ar_port :: "16 word"
  ar_chain_id :: u64

definition Args_default :: Args where
  "Args_default = \<lparr>ar_port = 8545, ar_chain_id = 31337\<rparr>"

fun serve :: "('d, 'v) rpc_env \<Rightarrow> RpcRequest list \<Rightarrow> 'd NodeState \<Rightarrow> RpcResponse list \<times> 'd NodeState" where
  "serve E [] s = ([], s)"
| "serve E (req # reqs) s =
     (case rpc_handler E req s of (resp, s) \<Rightarrow>
      case serve E reqs s of (resps, s) \<Rightarrow> (resp # resps, s))"

text \<open>None when the node does not start: a development account does not parse.\<close>

definition main_serve ::
    "('d, 'v) rpc_env \<Rightarrow> Args \<Rightarrow> RpcRequest list \<Rightarrow> (RpcResponse list \<times> 'd NodeState) option" where
  "main_serve E args reqs = map_option (serve E reqs) (node_new (node_env.truncate E) (ar_chain_id args))"

section \<open>Sessions\<close>

text \<open>A request that made a block: a submission that was answered with a hash.\<close>

definition made_block :: "RpcRequest \<times> RpcResponse \<Rightarrow> bool" where
  "made_block = (\<lambda>(req, resp). rq_method req = ''eth_sendRawTransaction'' \<and> rr_result resp \<noteq> None)"

definition id_of :: "RpcRequest \<Rightarrow> json" where
  "id_of req = (case rq_id req of Some v \<Rightarrow> v | None \<Rightarrow> JNull)"

lemma rpc_send_runs:
  assumes "rpc_send E id' params s = (resp, t)" and "node_run (node_env.truncate E) cid n s"
  shows "node_run (node_env.truncate E) cid (if rr_result resp \<noteq> None then Suc n else n) t"
  using assms
  by (auto simp: rpc_send_def Let_def rpc_ok_def rpc_err_def
      split: sum.splits prod.splits intro: node_run.mined node_run.refused)

lemma rpc_handler_runs:
  assumes "rpc_handler E req s = (resp, t)" and "node_run (node_env.truncate E) cid n s"
  shows "node_run (node_env.truncate E) cid (if made_block (req, resp) then Suc n else n) t"
proof (cases "rq_method req = ''eth_sendRawTransaction''")
  case True
  then have "\<exists>id' params. rpc_send E id' params s = (resp, t)"
    using assms(1) by (auto simp: rpc_handler_def dispatch_def)
  with True assms(2) show ?thesis by (auto simp: made_block_def dest: rpc_send_runs)
next
  case False
  then have "t = s" using rpc_handler_answers [where E = E and req = req and s = s] assms(1) by simp
  with False assms(2) show ?thesis by (simp add: made_block_def)
qed

lemma serve_runs:
  assumes "serve E reqs s = (resps, t)" and "node_run (node_env.truncate E) cid n s"
  shows "map rr_id resps = map id_of reqs
    \<and> node_run (node_env.truncate E) cid (n + length (filter made_block (zip reqs resps))) t"
  using assms
proof (induction reqs arbitrary: s n resps)
  case Nil
  then show ?case by simp
next
  case (Cons req reqs)
  obtain resp u rest where r: "rpc_handler E req s = (resp, u)" "serve E reqs u = (rest, t)"
    and resps: "resps = resp # rest"
    using Cons.prems(1) by (auto split: prod.splits)
  have "rr_id resp = id_of req"
    using rpc_handler_answers [where E = E and req = req and s = s] by (simp add: r(1) id_of_def)
  moreover note Cons.IH [OF r(2) rpc_handler_runs [OF r(1) Cons.prems(2)]]
  ultimately show ?case by (cases "made_block (req, resp)") (simp_all add: resps)
qed

section \<open>Properties\<close>


section \<open>Witnesses\<close>

definition toy_request :: "string \<Rightarrow> json \<Rightarrow> RpcRequest" where
  "toy_request method params = \<lparr>rq_jsonrpc = None, rq_id = Some (JString ''1''), rq_method = method, rq_params = Some params\<rparr>"


end
