(* ===== verification/Spec2Isabelle.thy ===== *)
theory Spec2Isabelle
  imports Lifecycle Evm Server
begin

text \<open>
  A verification development for suwappu-revm, an EVM in Rust on top of revm, and for the
  development node built on it (suwappu-node). Paths below are relative to \<open>src/crates\<close>;
  \<open>staking/\<close>, \<open>reserve_balance/\<close>, \<open>memory/\<close> and \<open>api/\<close> are under \<open>suwappu-revm/src\<close>.

  The program. A block is produced by running transactions and, at its borders, system calls. A
  transaction goes through the handler (\<open>handler.rs\<close>), which validates it, starts the
  reserve-balance tracker and runs revm's frame loop with the replaced opcodes
  (\<open>memory/opcodes.rs\<close>, \<open>instructions.rs\<close>). A call to a precompile address goes to the
  provider (\<open>precompiles.rs\<close>): first the staking contract (\<open>staking/\<close>), then the
  reserve-balance query (\<open>reserve_balance/mod.rs\<close>), then a table of cryptographic functions.
  Whatever moves money or code goes through the journal (\<open>journal.rs\<close>), which tells the
  tracker. At an epoch boundary \<open>api/block.rs\<close> makes the system calls of the staking contract.
  The EVM object (\<open>evm.rs\<close>, \<open>api/builder.rs\<close>, \<open>api/exec.rs\<close>) holds the context with the journal
  and runs the handler on it. The node (\<open>suwappu-node/src/node.rs\<close>) runs one transaction per block
  and answers JSON-RPC requests (\<open>suwappu-node/src/rpc.rs\<close>), which a server reads from a socket.

  Common ground.

  \<^item> \<^bold>\<open>Prelude\<close>: integers at their width, big-endian bytes, checked and saturating arithmetic;
    the type \<open>('e, 's, 'a) fallible\<close> of a function that takes \<open>&mut S\<close> and returns a Result,
    with \<open>bindc\<close> for the \<open>?\<close> operator. An error keeps the state reached so far, as in Rust;
    rolling back is the caller's business. The locale \<open>step_relation\<close> gives the rules by which a
    reflexive and transitive relation between states is proved of every computation.

  The staking contract.

  \<^item> \<^bold>\<open>StakingTypes\<close> (\<open>staking/types.rs\<close>, \<open>constants.rs\<close>, \<open>abi.rs\<close>): records, flags, the gas
    table, the packing of a list node into two slots.
  \<^item> \<^bold>\<open>StorageKeys\<close> (\<open>storage.rs\<close>): every key function byte by byte; distinct cells have distinct
    keys, on which everything about storage rests.
  \<^item> \<^bold>\<open>Host\<close>: the traits StorageReader and StakingStorage over a host of storage, balances and
    logs, with faults of the database; the typed reads and writes of \<open>write.rs\<close>.
  \<^item> \<^bold>\<open>Cells\<close>, \<^bold>\<open>Frames\<close>: the views \<open>validator_at\<close>, \<open>delegator_at\<close> and so on of the raw storage,
    by the locale \<open>region\<close>, and what each operation leaves alone. The locale \<open>host_relation\<close> is
    the contract of a relation that the four primitive effects on a host respect; its lemmas, one
    per operation of the contract, stand in the theories of the operations and are interpreted
    for the relations "the same environment", "logs only grow" and \<open>host_steps\<close>, the chains of
    primitive steps.
  \<^item> \<^bold>\<open>Abi\<close> (\<open>interface.rs\<close>): selectors and events. The coders generated by the macro are the
    record parameter \<open>abi\<close>.
  \<^item> \<^bold>\<open>Delegation\<close> (\<open>write.rs\<close>): accumulators, the reward formula, and the settlement
    \<open>pull_delegator_up_to_date\<close> as a refinement of an abstract reward schedule.
  \<^item> \<^bold>\<open>LinkedLists\<close>: the two doubly linked lists as refinements of lists, once in the locale
    \<open>linked_list\<close>.
  \<^item> \<^bold>\<open>Valset\<close>, \<^bold>\<open>Handlers\<close>, \<^bold>\<open>Syscalls\<close>, \<^bold>\<open>Snapshot\<close>: the validator set with its bitset, the user
    operations, block reward and epoch change, and the election at an epoch boundary, each with
    its effect.
  \<^item> \<^bold>\<open>Dispatch\<close>, \<^bold>\<open>Reader\<close>, \<^bold>\<open>Calls\<close>: selectors and payability, the views and the paging
    traversals, the entry point \<open>run_staking_precompile\<close>; gas, refused calls, and what a call can
    touch.
  \<^item> \<^bold>\<open>Books\<close>: the invariant of all reachable states, by rule induction over \<open>reachable\<close>: stakes
    add up, the lists hold the stakers, ids are handed out in order, delegator records are well
    formed.

  The rest of the execution client.

  \<^item> \<^bold>\<open>Config\<close> (\<open>spec.rs\<close>, \<open>chain.rs\<close>, \<open>cfg.rs\<close>): hardforks and their order, the chain context,
    the configuration.
  \<^item> \<^bold>\<open>Reserve\<close> (\<open>reserve_balance/\<close>): the tracker and the query precompile. \<open>dips\<close> is the rule on an
    account alone; \<open>tracked_at\<close> says that the tracker's cache agrees with it.
  \<^item> \<^bold>\<open>JournalOps\<close>, \<^bold>\<open>Journal\<close> (\<open>journal.rs\<close>): the wrapper around revm's journal, whose operations
    are the fields of the record \<open>journal_ops\<close>; every method of the wrapper, those that notify the
    tracker and those that pass the call on. \<open>tx_run\<close> are the runs of a transaction: transfers,
    code changes, checkpoints and reverts in any order. In all of them the tracker reports a
    violation exactly when some account dips into its reserve.
  \<^item> \<^bold>\<open>Precompiles\<close> (\<open>precompiles.rs\<close>): prices, the parsing of blake2f, the dispatch of the provider.
  \<^item> \<^bold>\<open>Backend\<close> (the end of \<open>staking/storage.rs\<close>): the staking contract's storage trait implemented
    on the execution context. The locale \<open>staking_storage\<close> is the contract of the four operations
    against the abstract host of the staking model, so that what is proved of the contract on the
    host holds of the contract on the journal.
  \<^item> \<^bold>\<open>TxHandler\<close> (\<open>handler.rs\<close>), \<^bold>\<open>Lifecycle\<close> (\<open>api/block.rs\<close>): the stages the handler overrides;
    the system-call data and the drivers, whose system calls run the staking model.
  \<^item> \<^bold>\<open>Evm\<close> (\<open>evm.rs\<close>, \<open>api/builder.rs\<close>, \<open>api/default_ctx.rs\<close>, \<open>api/exec.rs\<close>): construction, the
    trait methods, and transaction, replay and system call through the handler. \<open>evm_reach\<close> are
    the objects a client can reach; between transactions their tracker is reset and their journal
    holds no open checkpoint.
  \<^item> \<^bold>\<open>Memory\<close> (\<open>memory/mod.rs\<close>): the linear memory cost, in which the \<open>unwrap_unchecked\<close> of the cold
    path is a branch \<open>UndefinedBehaviour\<close> that is proved unreachable.
  \<^item> \<^bold>\<open>Interp\<close>, \<^bold>\<open>Opcodes\<close> (\<open>memory/opcodes.rs\<close>, \<open>instructions.rs\<close>): the interpreter's state, revm's
    macros as primitives, a weakest-precondition calculus, and all 22 replaced opcodes. A panic
    is a value, so that its absence is a theorem. \<^bold>\<open>Mip3\<close> states the results over the
    instruction table.
  \<^item> \<^bold>\<open>Node\<close>, \<^bold>\<open>Rpc\<close> (suwappu-node): the node as a state machine whose one transition is a
    submission; the parsers and the dispatch of the requests.
  \<^item> \<^bold>\<open>Server\<close> (\<open>main.rs\<close> and the loop of \<open>rpc.rs\<close>): the arguments, and a session as the list of the
    requests it answers, in their order.

  Parameters. Code that is not in the repository is an argument of the definitions that use it,
  and what is relied on is a named hypothesis: \<open>meter_ok\<close> (revm's Gas), \<open>encoder_ok\<close> (the
  generated coders), \<open>journal_ok\<close> (revm's journal), \<open>view_ok\<close> (what the journal shows
  of storage, balances and logs), \<open>new_cfg_ok\<close> (the limits of a fresh configuration),
  \<open>evm_runs_ok\<close> and \<open>charges_caller\<close> (revm's stages touch the journal by its operations only; the
  caller pays), \<open>foreign_ok\<close> (cryptography and Ethereum's precompiles), \<open>system_call_ok\<close> (the EVM runs a system
  call of the staking address as a call of the precompile and reverts it when it fails), \<open>vm_ok\<close>
  and \<open>env_ok\<close> (memory, stack, account loading), \<open>node_env_ok\<close> and \<open>rpc_env_ok\<close> (an execution
  that fails commits nothing; hex decodes what hex encodes). Each is instantiated concretely for
  the witnesses.

  Bounds. Epochs stay two below the end of 64 bits where a theorem needs an activation epoch; the
  gas of a machine is below \<open>2 ^ 58\<close>, which a transaction limit of 30 million leaves far behind
  and which keeps every memory size inside the machine word; a node makes fewer than \<open>2 ^ 64\<close>
  blocks. Loops over lists stored in memory are structural; the paging loops are bounded by their
  limit, and following the pages ends because every page consumes at least one entry. No fuel is
  used.

  Not modelled. revm's interface also hands out mutable references into its journal (account
  handles, \<open>evm_state_mut\<close>); what a caller writes through one is the caller's code, so these
  methods are modelled up to the reference they return. Opening the socket, the framing of HTTP and
  the parsing of the command line belong to the libraries; the banner is output. Conversions
  between a newtype and its content, module declarations and re-exports have no content in HOL. The
  cryptography is foreign code. The Solidity contracts and the tests are not part of the client.
  Threads meet in the node only at its lock, so a method is one step; a lock poisoned by a panic is
  outside the model.
\<close>

end
